(* ===== verification/Prelude.thy ===== *)
theory Prelude
  imports Main "HOL-Library.Char_ord" "HOL-Library.Sublist"
begin

text \<open>
  The part of Go's standard library that the modelled code calls, and the automation the component
  theories share.

  Strings are lists of bytes (\<^typ>\<open>string\<close>, a list of \<^typ>\<open>char\<close>). The functions of package
  \<^verbatim>\<open>strings\<close> are given for text whose bytes are ASCII, the alphabet of IRC commands, numerics, nicks
  and channel names: there \<^verbatim>\<open>ToLower\<close>, \<^verbatim>\<open>ToUpper\<close> and \<^verbatim>\<open>EqualFold\<close> touch the letters A-Z and a-z only, and
  \<^verbatim>\<open>TrimSpace\<close> and \<^verbatim>\<open>Fields\<close> know six blanks. Bytes of 0x80 and above pass through unchanged, whereas Go
  would fold a non-ASCII letter or cut at a non-ASCII blank.

  Instants and durations are integers (nanoseconds), away from the ends of Go's 64-bit range.
\<close>

named_theorems str_simps "rewriting rules of the string library"
named_theorems inv_intros "every operation keeps its component's invariant"

type_synonym instant = int
type_synonym duration = int

section \<open>Bytes\<close>

abbreviation (input) cr :: char where "cr \<equiv> CHR 0x0D"
abbreviation (input) lf :: char where "lf \<equiv> CHR 0x0A"
abbreviation (input) sp :: char where "sp \<equiv> CHR 0x20"
abbreviation (input) nul :: char where "nul \<equiv> CHR 0x00"

definition crlf :: string where
  "crlf = [cr, lf]"

text \<open>The dash and the ellipsis of the notices, as the UTF-8 bytes the source file holds.\<close>

definition em_dash :: string where
  "em_dash = [CHR 0xE2, CHR 0x80, CHR 0x94]"

definition ellipsis :: string where
  "ellipsis = [CHR 0xE2, CHR 0x80, CHR 0xA6]"

definition lower_char :: "char \<Rightarrow> char" where
  "lower_char c = (let n = of_char c :: nat in if 65 \<le> n \<and> n \<le> 90 then char_of (n + 32) else c)"

definition upper_char :: "char \<Rightarrow> char" where
  "upper_char c = (let n = of_char c :: nat in if 97 \<le> n \<and> n \<le> 122 then char_of (n - 32) else c)"

definition is_space :: "char \<Rightarrow> bool" where
  "is_space c \<longleftrightarrow> c \<in> {CHR 0x09, CHR 0x0A, CHR 0x0B, CHR 0x0C, CHR 0x0D, CHR 0x20}"

definition is_digit :: "char \<Rightarrow> bool" where
  "is_digit c \<longleftrightarrow> (let n = of_char c :: nat in 48 \<le> n \<and> n \<le> 57)"

definition digit_value :: "char \<Rightarrow> nat" where
  "digit_value c = of_char c - 48"

lemma set_map_filter: "set (List.map_filter f xs) = {y. \<exists>x\<in>set xs. f x = Some y}"
  by (induction xs) (auto simp: List.map_filter_simps split: option.split)

lemma char_of_inject [str_simps]:
  "m < 256 \<Longrightarrow> n < 256 \<Longrightarrow> char_of (m::nat) = char_of n \<longleftrightarrow> m = n"
  by (metis mod_less of_char_of)

lemma of_char_less: "(of_char c :: nat) < 256"
  using of_char_of [of "of_char c :: nat"] by (metis char_of_char mod_less_divisor of_char_of zero_less_numeral)

lemma lower_char_idem [simp]: "lower_char (lower_char c) = lower_char c"
  by (auto simp: lower_char_def Let_def)

lemma upper_char_idem [simp]: "upper_char (upper_char c) = upper_char c"
  by (auto simp: upper_char_def Let_def)

lemma lower_upper_char [simp]: "lower_char (upper_char c) = lower_char c"
  by (auto simp: lower_char_def upper_char_def Let_def)

lemma upper_lower_char [simp]: "upper_char (lower_char c) = upper_char c"
  by (auto simp: lower_char_def upper_char_def Let_def)

section \<open>Package strings\<close>

definition to_lower :: "string \<Rightarrow> string" where
  "to_lower s = map lower_char s"

definition to_upper :: "string \<Rightarrow> string" where
  "to_upper s = map upper_char s"

definition equal_fold :: "string \<Rightarrow> string \<Rightarrow> bool" where
  "equal_fold a b \<longleftrightarrow> to_lower a = to_lower b"

definition trim_left :: "(char \<Rightarrow> bool) \<Rightarrow> string \<Rightarrow> string" where
  "trim_left p s = dropWhile p s"

definition trim_right :: "(char \<Rightarrow> bool) \<Rightarrow> string \<Rightarrow> string" where
  "trim_right p s = rev (dropWhile p (rev s))"

definition trim_space :: "string \<Rightarrow> string" where
  "trim_space s = trim_right is_space (trim_left is_space s)"

fun index_byte :: "char \<Rightarrow> string \<Rightarrow> nat option" where
  "index_byte c [] = None"
| "index_byte c (x # xs) = (if x = c then Some 0 else map_option Suc (index_byte c xs))"

fun index_str :: "string \<Rightarrow> string \<Rightarrow> nat option" where
  "index_str sub [] = (if sub = [] then Some 0 else None)"
| "index_str sub (c # cs) =
     (if prefix sub (c # cs) then Some 0 else map_option Suc (index_str sub cs))"

definition last_index_byte :: "char \<Rightarrow> string \<Rightarrow> nat option" where
  "last_index_byte c s = map_option (\<lambda>i. length s - Suc i) (index_byte c (rev s))"

definition contains :: "string \<Rightarrow> string \<Rightarrow> bool" where
  "contains s sub \<longleftrightarrow> index_str sub s \<noteq> None"

definition contains_any :: "string \<Rightarrow> string \<Rightarrow> bool" where
  "contains_any s chars \<longleftrightarrow> list_ex (\<lambda>c. c \<in> set chars) s"

text \<open>\<^verbatim>\<open>Split\<close> with a one-byte separator, and \<^verbatim>\<open>Fields\<close>: the non-empty pieces between blanks.\<close>

fun split_on :: "(char \<Rightarrow> bool) \<Rightarrow> string \<Rightarrow> string list" where
  "split_on p [] = [[]]"
| "split_on p (x # xs) =
     (if p x then [] # split_on p xs
      else (case split_on p xs of [] \<Rightarrow> [[x]] | w # ws \<Rightarrow> (x # w) # ws))"

definition split_byte :: "char \<Rightarrow> string \<Rightarrow> string list" where
  "split_byte c s = split_on (\<lambda>x. x = c) s"

definition go_fields :: "string \<Rightarrow> string list" where
  "go_fields s = filter (\<lambda>w. w \<noteq> []) (split_on is_space s)"

fun join :: "string \<Rightarrow> string list \<Rightarrow> string" where
  "join sep [] = []"
| "join sep [w] = w"
| "join sep (w # v # ws) = w @ sep @ join sep (v # ws)"

section \<open>Package strconv\<close>

definition digits_value :: "string \<Rightarrow> nat" where
  "digits_value ds = foldl (\<lambda>v d. v * 10 + digit_value d) 0 ds"

text \<open>\<^verbatim>\<open>Atoi\<close>: an optional sign and digits, an error outside the 64-bit range.\<close>

definition atoi :: "string \<Rightarrow> int option" where
  "atoi s =
     (let neg = (prefix ''-'' s);
          ds = (if prefix ''-'' s \<or> prefix ''+'' s then tl s else s);
          v = (if neg then - int (digits_value ds) else int (digits_value ds))
      in if ds = [] \<or> \<not> list_all is_digit ds then None
         else if - (2 ^ 63) \<le> v \<and> v < 2 ^ 63 then Some v else None)"

fun nat_str :: "nat \<Rightarrow> string" where
  "nat_str n = (if n < 10 then [char_of (48 + n)] else nat_str (n div 10) @ [char_of (48 + n mod 10)])"

declare nat_str.simps [simp del]

definition itoa :: "int \<Rightarrow> string" where
  "itoa i = (if i < 0 then ''-'' @ nat_str (nat (- i)) else nat_str (nat i))"

text \<open>\<^verbatim>\<open>%q\<close> on printable text: quoted, with the quote and the backslash escaped.\<close>

definition go_quote :: "string \<Rightarrow> string" where
  "go_quote s =
     [CHR 0x22] @ concat (map (\<lambda>c. if c = CHR 0x22 \<or> c = CHR 0x5C then [CHR 0x5C, c] else [c]) s) @ [CHR 0x22]"

section \<open>Lemmas on strings\<close>

lemma to_lower_idem [simp]: "to_lower (to_lower s) = to_lower s"
  by (simp add: to_lower_def)

lemma to_upper_idem [simp]: "to_upper (to_upper s) = to_upper s"
  by (simp add: to_upper_def)

lemma to_lower_to_upper [simp]: "to_lower (to_upper s) = to_lower s"
  by (simp add: to_lower_def to_upper_def)

lemma to_lower_empty [simp]: "to_lower s = [] \<longleftrightarrow> s = []"
  by (simp add: to_lower_def)

lemma to_lower_Nil [simp]: "to_lower [] = []"
  by (simp add: to_lower_def)

lemma to_upper_Nil [simp]: "to_upper s = [] \<longleftrightarrow> s = []" "to_upper [] = []"
  by (simp_all add: to_upper_def)

lemma length_to_lower [simp]: "length (to_lower s) = length s"
  by (simp add: to_lower_def)

lemma equal_fold_refl [simp]: "equal_fold s s"
  by (simp add: equal_fold_def)

lemma equal_fold_sym: "equal_fold a b \<Longrightarrow> equal_fold b a"
  by (simp add: equal_fold_def)

lemma equal_fold_trans: "equal_fold a b \<Longrightarrow> equal_fold b c \<Longrightarrow> equal_fold a c"
  by (simp add: equal_fold_def)

lemma is_space_sp [simp]: "is_space sp"
  by (simp add: is_space_def)

lemma is_space_upper_char [simp]: "is_space (upper_char c) = is_space c"
proof (cases "upper_char c = c")
  case False
  then have n: "97 \<le> (of_char c :: nat)" "(of_char c :: nat) \<le> 122"
    by (auto simp: upper_char_def Let_def split: if_splits)
  then have "upper_char c = char_of ((of_char c :: nat) - 32)"
    by (simp add: upper_char_def)
  then have u: "of_char (upper_char c) = (of_char c :: nat) - 32"
    using n by simp
  have eq: "d = e \<Longrightarrow> (of_char d :: nat) = of_char e" for d e :: char by simp
  show ?thesis
    using n u by (auto simp: is_space_def dest!: eq)
qed simp

lemma to_upper_no_space:
  "\<forall>c\<in>set w. \<not> is_space c \<Longrightarrow> \<forall>c\<in>set (to_upper w). \<not> is_space c"
  by (simp add: to_upper_def)

lemma trim_left_id [str_simps]: "s = [] \<or> \<not> p (hd s) \<Longrightarrow> trim_left p s = s"
  by (cases s) (auto simp: trim_left_def)

lemma trim_right_id [str_simps]: "s = [] \<or> \<not> p (last s) \<Longrightarrow> trim_right p s = s"
  by (cases s rule: rev_cases) (auto simp: trim_right_def)

lemma trim_right_append_all: "\<forall>c\<in>set b. p c \<Longrightarrow> trim_right p (a @ b) = trim_right p a"
  by (simp add: trim_right_def) (subst dropWhile_append2, auto)

lemma trim_right_last: "trim_right p s = [] \<or> \<not> p (last (trim_right p s))"
  using hd_dropWhile [of p "rev s"] by (auto simp: trim_right_def last_rev)

lemma trim_right_idem [simp]: "trim_right p (trim_right p s) = trim_right p s"
  using trim_right_last by (rule trim_right_id)

lemma set_trim_right: "set (trim_right p s) \<subseteq> set s"
  by (auto simp: trim_right_def dest: set_dropWhileD)

lemma set_trim_left: "set (trim_left p s) \<subseteq> set s"
  by (auto simp: trim_left_def dest: set_dropWhileD)

lemma set_trim_space: "set (trim_space s) \<subseteq> set s"
  unfolding trim_space_def using set_trim_right set_trim_left by blast

lemma index_byte_None [simp]: "index_byte c s = None \<longleftrightarrow> c \<notin> set s"
  by (induction s) auto

lemma index_byte_append [str_simps]: "c \<notin> set a \<Longrightarrow> index_byte c (a @ c # b) = Some (length a)"
  by (induction a) auto

lemma index_byte_Some:
  "index_byte c s = Some i \<Longrightarrow>
     i < length s \<and> s ! i = c \<and> c \<notin> set (take i s) \<and> s = take i s @ c # drop (Suc i) s"
  by (induction s arbitrary: i) (auto split: if_splits)

lemma split_on_nonempty [simp]: "split_on p s \<noteq> []"
  by (induction s) (auto split: list.splits)

lemma split_on_none [str_simps]: "\<forall>c\<in>set s. \<not> p c \<Longrightarrow> split_on p s = [s]"
  by (induction s) auto

lemma split_on_append [str_simps]:
  "\<forall>c\<in>set a. \<not> p c \<Longrightarrow> p x \<Longrightarrow> split_on p (a @ x # b) = a # split_on p b"
  by (induction a) auto

lemma split_on_pieces: "w \<in> set (split_on p s) \<Longrightarrow> c \<in> set w \<Longrightarrow> \<not> p c \<and> c \<in> set s"
proof (induction s arbitrary: w)
  case Nil
  then show ?case by simp
next
  case (Cons a s)
  obtain v vs where v: "split_on p s = v # vs" by (cases "split_on p s") auto
  with Cons show ?case by (fastforce split: if_splits)
qed

lemma go_fields_pieces: "w \<in> set (go_fields s) \<Longrightarrow> w \<noteq> [] \<and> (\<forall>c\<in>set w. \<not> is_space c \<and> c \<in> set s)"
  unfolding go_fields_def using split_on_pieces by fastforce

lemma join_Cons: "ws \<noteq> [] \<Longrightarrow> join sep (w # ws) = w @ sep @ join sep ws"
  by (cases ws) auto

lemma join_snoc: "ws \<noteq> [] \<Longrightarrow> join sep (ws @ [w]) = join sep ws @ sep @ w"
  by (induction ws rule: join.induct [where ?a0.0 = sep]) auto

lemma set_join: "c \<in> set (join sep ws) \<Longrightarrow> c \<in> set sep \<or> (\<exists>w\<in>set ws. c \<in> set w)"
  by (induction sep ws rule: join.induct) auto

lemma join_eq_Nil [simp]: "join [x] ws = [] \<longleftrightarrow> ws = [] \<or> ws = [[]]"
  by (cases ws rule: remdups_adj.cases) auto

lemma split_on_join:
  "ws \<noteq> [] \<Longrightarrow> \<forall>w\<in>set ws. \<forall>c\<in>set w. \<not> p c \<Longrightarrow> p x \<Longrightarrow> split_on p (join [x] ws) = ws"
  by (induction "[x]" ws rule: join.induct) (auto simp: split_on_none split_on_append)

lemma go_fields_join:
  assumes "\<forall>w\<in>set ws. w \<noteq> [] \<and> (\<forall>c\<in>set w. \<not> is_space c)"
  shows "go_fields (join [sp] ws) = ws"
proof (cases "ws = []")
  case True
  then show ?thesis by (simp add: go_fields_def)
next
  case False
  with assms have "split_on is_space (join [sp] ws) = ws"
    by (intro split_on_join) auto
  with assms show ?thesis by (simp add: go_fields_def filter_id_conv)
qed

lemma index_str_skip:
  "x \<notin> set w \<Longrightarrow> index_str (x # ys) (w @ rest) = map_option (\<lambda>n. length w + n) (index_str (x # ys) rest)"
proof (induction w)
  case Nil
  then show ?case by (simp add: option.map_ident)
next
  case (Cons a w)
  then show ?case by (cases "index_str (x # ys) rest") auto
qed

lemma index_str_Some:
  "index_str sub s = Some i \<Longrightarrow> s = take i s @ sub @ drop (i + length sub) s"
proof (induction s arbitrary: i)
  case Nil
  then show ?case by (auto split: if_splits)
next
  case (Cons c cs)
  show ?case
  proof (cases "prefix sub (c # cs)")
    case True
    with Cons.prems show ?thesis by (auto simp: prefix_def)
  next
    case False
    with Cons.prems obtain j where "i = Suc j" "index_str sub cs = Some j" by auto
    with Cons.IH [of j] show ?thesis by simp
  qed
qed

lemma digits_value_append:
  "digits_value (ds @ [d]) = digits_value ds * 10 + digit_value d"
  by (simp add: digits_value_def)

lemma nat_str_digits: "nat_str n \<noteq> [] \<and> list_all is_digit (nat_str n) \<and> digits_value (nat_str n) = n"
proof (induction n rule: nat_str.induct)
  case (1 n)
  have dig: "is_digit (char_of (48 + m))" "digit_value (char_of (48 + m)) = m" if "m < 10" for m :: nat
    using that by (auto simp: is_digit_def digit_value_def)
  show ?case
  proof (cases "n < 10")
    case True
    with dig show ?thesis by (subst (1 2 3) nat_str.simps) (simp add: digits_value_def)
  next
    case False
    with 1 have IH: "list_all is_digit (nat_str (n div 10)) \<and> digits_value (nat_str (n div 10)) = n div 10"
      by simp
    have "nat_str n = nat_str (n div 10) @ [char_of (48 + n mod 10)]"
      using False by (subst nat_str.simps) simp
    with IH dig [of "n mod 10"] show ?thesis by (simp add: digits_value_append)
  qed
qed

text \<open>What every step of a fold keeps, the fold keeps.\<close>

lemma fold_keeps: "(\<And>x h. P h \<Longrightarrow> P (f x h)) \<Longrightarrow> P h \<Longrightarrow> P (fold f xs h)"
  by (induction xs arbitrary: h) simp_all

end
