(* ===== verification/Codes.thy ===== *)
theory Codes
  imports Prelude
begin

text \<open>
  The wire vocabulary of \<^verbatim>\<open>internal/connector/irc/codes.go\<close>: the numerics and commands the connector
  and the bouncer compare with. They are abbreviations, as Go's untyped string constants are, so that a
  comparison of two of them reduces at once.
\<close>

section \<open>Numeric replies\<close>

abbreviation RplWelcome :: string where "RplWelcome \<equiv> ''001''"
abbreviation RplYourHost :: string where "RplYourHost \<equiv> ''002''"
abbreviation RplCreated :: string where "RplCreated \<equiv> ''003''"
abbreviation RplMyInfo :: string where "RplMyInfo \<equiv> ''004''"
abbreviation RplISupport :: string where "RplISupport \<equiv> ''005''"
abbreviation RplLUserClient :: string where "RplLUserClient \<equiv> ''251''"
abbreviation RplLUserOp :: string where "RplLUserOp \<equiv> ''252''"
abbreviation RplLUserUnknown :: string where "RplLUserUnknown \<equiv> ''253''"
abbreviation RplLUserChannels :: string where "RplLUserChannels \<equiv> ''254''"
abbreviation RplLUserMe :: string where "RplLUserMe \<equiv> ''255''"
abbreviation RplMOTD :: string where "RplMOTD \<equiv> ''372''"
abbreviation RplMOTDStart :: string where "RplMOTDStart \<equiv> ''375''"
abbreviation RplWhoisUser :: string where "RplWhoisUser \<equiv> ''311''"
abbreviation RplWhoisServer :: string where "RplWhoisServer \<equiv> ''312''"
abbreviation RplWhoisOperator :: string where "RplWhoisOperator \<equiv> ''313''"
abbreviation RplEndOfWho :: string where "RplEndOfWho \<equiv> ''315''"
abbreviation RplWhoisIdle :: string where "RplWhoisIdle \<equiv> ''317''"
abbreviation RplEndOfWhois :: string where "RplEndOfWhois \<equiv> ''318''"
abbreviation RplWhoisChannels :: string where "RplWhoisChannels \<equiv> ''319''"
abbreviation RplWhoisAccount :: string where "RplWhoisAccount \<equiv> ''330''"
abbreviation RplListStart :: string where "RplListStart \<equiv> ''321''"
abbreviation RplList :: string where "RplList \<equiv> ''322''"
abbreviation RplListEnd :: string where "RplListEnd \<equiv> ''323''"
abbreviation RplNoTopic :: string where "RplNoTopic \<equiv> ''331''"
abbreviation RplTopic :: string where "RplTopic \<equiv> ''332''"
abbreviation RplTopicWhoTime :: string where "RplTopicWhoTime \<equiv> ''333''"
abbreviation RplWhoReply :: string where "RplWhoReply \<equiv> ''352''"
abbreviation RplNamReply :: string where "RplNamReply \<equiv> ''353''"
abbreviation RplEndOfNames :: string where "RplEndOfNames \<equiv> ''366''"
abbreviation RplEndOfMOTD :: string where "RplEndOfMOTD \<equiv> ''376''"
abbreviation RplWhoisSecure :: string where "RplWhoisSecure \<equiv> ''671''"
abbreviation RplSaslLoggedIn :: string where "RplSaslLoggedIn \<equiv> ''900''"
abbreviation RplSaslSuccess :: string where "RplSaslSuccess \<equiv> ''903''"
abbreviation ErrSaslFail :: string where "ErrSaslFail \<equiv> ''904''"
abbreviation ErrSaslTooLong :: string where "ErrSaslTooLong \<equiv> ''905''"
abbreviation ErrSaslAborted :: string where "ErrSaslAborted \<equiv> ''906''"
abbreviation ErrSaslAlready :: string where "ErrSaslAlready \<equiv> ''907''"
abbreviation ErrNoSuchNick :: string where "ErrNoSuchNick \<equiv> ''401''"
abbreviation ErrNoMOTD :: string where "ErrNoMOTD \<equiv> ''422''"
abbreviation ErrErroneusNickname :: string where "ErrErroneusNickname \<equiv> ''432''"
abbreviation ErrNickNameInUse :: string where "ErrNickNameInUse \<equiv> ''433''"
abbreviation ErrUnavailResource :: string where "ErrUnavailResource \<equiv> ''437''"
abbreviation ErrNotRegistered :: string where "ErrNotRegistered \<equiv> ''451''"
abbreviation ErrPasswdMismatch :: string where "ErrPasswdMismatch \<equiv> ''464''"
abbreviation ErrYoureBannedCreep :: string where "ErrYoureBannedCreep \<equiv> ''465''"
abbreviation ErrChannelIsFull :: string where "ErrChannelIsFull \<equiv> ''471''"
abbreviation ErrInviteOnlyChan :: string where "ErrInviteOnlyChan \<equiv> ''473''"
abbreviation ErrBannedFromChan :: string where "ErrBannedFromChan \<equiv> ''474''"
abbreviation ErrBadChannelKey :: string where "ErrBadChannelKey \<equiv> ''475''"
abbreviation ErrBadChanMask :: string where "ErrBadChanMask \<equiv> ''476''"

section \<open>Commands\<close>

abbreviation CmdPrivmsg :: string where "CmdPrivmsg \<equiv> ''PRIVMSG''"
abbreviation CmdNotice :: string where "CmdNotice \<equiv> ''NOTICE''"
abbreviation CmdJoin :: string where "CmdJoin \<equiv> ''JOIN''"
abbreviation CmdPart :: string where "CmdPart \<equiv> ''PART''"
abbreviation CmdQuit :: string where "CmdQuit \<equiv> ''QUIT''"
abbreviation CmdNick :: string where "CmdNick \<equiv> ''NICK''"
abbreviation CmdUser :: string where "CmdUser \<equiv> ''USER''"
abbreviation CmdPass :: string where "CmdPass \<equiv> ''PASS''"
abbreviation CmdPing :: string where "CmdPing \<equiv> ''PING''"
abbreviation CmdPong :: string where "CmdPong \<equiv> ''PONG''"
abbreviation CmdMode :: string where "CmdMode \<equiv> ''MODE''"
abbreviation CmdTopic :: string where "CmdTopic \<equiv> ''TOPIC''"
abbreviation CmdKick :: string where "CmdKick \<equiv> ''KICK''"
abbreviation CmdNames :: string where "CmdNames \<equiv> ''NAMES''"
abbreviation CmdCap :: string where "CmdCap \<equiv> ''CAP''"
abbreviation CmdWhois :: string where "CmdWhois \<equiv> ''WHOIS''"
abbreviation CmdInvite :: string where "CmdInvite \<equiv> ''INVITE''"
abbreviation CmdAway :: string where "CmdAway \<equiv> ''AWAY''"
abbreviation CmdList :: string where "CmdList \<equiv> ''LIST''"
abbreviation CmdWho :: string where "CmdWho \<equiv> ''WHO''"
abbreviation CmdAuthenticate :: string where "CmdAuthenticate \<equiv> ''AUTHENTICATE''"
abbreviation CmdError :: string where "CmdError \<equiv> ''ERROR''"
abbreviation CmdChathistory :: string where "CmdChathistory \<equiv> ''CHATHISTORY''"
abbreviation CmdBatch :: string where "CmdBatch \<equiv> ''BATCH''"
abbreviation CmdTB :: string where "CmdTB \<equiv> ''TB''"

definition IsHandshakeComplete :: "string \<Rightarrow> bool" where
  "IsHandshakeComplete numeric \<longleftrightarrow> numeric = RplEndOfMOTD \<or> numeric = ErrNoMOTD"

end
