(* ===== verification/Registry.thy ===== *)
theory Registry
  imports Prelude
begin

text \<open>
  The interface two components share: a set of named channels kept as a map plus an insertion order.
  \<^verbatim>\<open>ChannelState\<close> (what the bot is in) and \<^verbatim>\<open>WantedChannels\<close> (what it wants to be in) both promise these
  laws; what follows from them about whole runs of joins and parts is proved here once.
\<close>

datatype reg_op = Join string | Part string

fun op_name :: "reg_op \<Rightarrow> string" where
  "op_name (Join n) = n"
| "op_name (Part n) = n"

fun is_join :: "reg_op \<Rightarrow> bool" where
  "is_join (Join n) = True"
| "is_join (Part n) = False"

text \<open>The last operation of a run that names a key decides it; a run that never names it changes nothing.\<close>

fun decides :: "(string \<Rightarrow> string) \<Rightarrow> (string \<Rightarrow> bool) \<Rightarrow> string \<Rightarrow> bool \<Rightarrow> reg_op list \<Rightarrow> bool" where
  "decides key ok k b [] = b"
| "decides key ok k b (x # xs) =
     decides key ok k (if ok (op_name x) \<and> key (op_name x) = k then is_join x else b) xs"

locale registry =
  fixes key :: "string \<Rightarrow> string"
    and ok :: "string \<Rightarrow> bool"
    and order :: "'s \<Rightarrow> string list"
    and look :: "'s \<Rightarrow> string \<Rightarrow> 'e option"
    and inv :: "'s \<Rightarrow> bool"
    and add :: "string \<Rightarrow> 's \<Rightarrow> 's"
    and del :: "string \<Rightarrow> 's \<Rightarrow> 's"
  assumes inv_distinct: "inv s \<Longrightarrow> distinct (order s)"
    and inv_look: "inv s \<Longrightarrow> look s n \<noteq> None \<longleftrightarrow> key n \<in> set (order s)"
    and inv_add: "inv s \<Longrightarrow> inv (add n s)"
    and inv_del: "inv s \<Longrightarrow> inv (del n s)"
    and order_add: "inv s \<Longrightarrow> order (add n s) =
      (if ok n \<and> key n \<notin> set (order s) then order s @ [key n] else order s)"
    and order_del: "inv s \<Longrightarrow> order (del n s) = (if ok n then remove1 (key n) (order s) else order s)"
begin

definition step :: "reg_op \<Rightarrow> 's \<Rightarrow> 's" where
  "step x s = (case x of Join n \<Rightarrow> add n s | Part n \<Rightarrow> del n s)"

lemma inv_step: "inv s \<Longrightarrow> inv (step x s)"
  by (cases x) (auto simp: step_def inv_add inv_del)

lemma inv_run: "inv s \<Longrightarrow> inv (fold step xs s)"
  by (induction xs arbitrary: s) (auto simp: inv_step)

lemma order_step:
  "inv s \<Longrightarrow> k \<in> set (order (step x s)) \<longleftrightarrow>
     (if ok (op_name x) \<and> key (op_name x) = k then is_join x else k \<in> set (order s))"
  by (cases x) (auto simp: step_def order_add order_del inv_distinct set_remove1_eq)

lemma order_run: "inv s \<Longrightarrow> k \<in> set (order (fold step xs s)) = decides key ok k (k \<in> set (order s)) xs"
  by (induction xs arbitrary: s) (simp_all add: inv_step order_step)

lemma look_run:
  assumes "inv s"
  shows "look (fold step xs s) n \<noteq> None \<longleftrightarrow> decides key ok (key n) (look s n \<noteq> None) xs"
  unfolding inv_look [OF inv_run [OF assms]] inv_look [OF assms] by (rule order_run [OF assms])

lemma add_idem_order: "inv s \<Longrightarrow> order (add n (add n s)) = order (add n s)"
  by (auto simp: order_add inv_add)

lemma del_look: "inv s \<Longrightarrow> ok n \<Longrightarrow> look (del n s) n = None"
  using inv_look [OF inv_del, of s n n] by (auto simp: order_del inv_distinct)

lemma add_look: "inv s \<Longrightarrow> ok n \<Longrightarrow> look (add n s) n \<noteq> None"
  using inv_look [OF inv_add, of s n n] by (simp add: order_add)

lemma add_del_order: "inv s \<Longrightarrow> ok n \<Longrightarrow> key n \<notin> set (order s) \<Longrightarrow> order (del n (add n s)) = order s"
  by (simp add: order_del inv_add order_add remove1_append)

text \<open>A part then a join moves the channel to the end of the replay order; the others keep their places.\<close>

lemma rejoin_order:
  "inv s \<Longrightarrow> ok n \<Longrightarrow> order (add n (del n s)) = remove1 (key n) (order s) @ [key n]"
  by (simp add: order_add order_del inv_del inv_distinct set_remove1_eq)

end

end
