(* ===== verification/Channel_State.thy ===== *)
theory Channel_State
  imports Codes Registry
begin

text \<open>
  \<^verbatim>\<open>internal/connector/irc/state.go\<close>: the per-channel cache the connector builds from what the server
  says. A \<open>ChannelState\<close> is the map from lower-cased channel name to \<open>ChannelInfo\<close>, plus the insertion
  order. Every method takes the lock for its whole body, so each one is an atomic step of the state.

  Where the code ranges over a Go map to build a list (\<open>ChannelsContaining\<close>, \<open>IsOperator\<close>), the order
  Go chooses is an argument: any enumeration of the keys.
\<close>

definition memberPrefixes :: string where
  "memberPrefixes = ''@+%&~''"

definition operatorPrefixes :: string where
  "operatorPrefixes = ''@&~''"

record ChannelInfo =
  ci_Name :: string
  Topic :: string
  TopicSet :: bool
  TopicSetBy :: string
  TopicSetAt :: int
  Members :: "string \<rightharpoonup> string"
  NamesComplete :: bool

record ChannelState =
  cs_channels :: "string \<rightharpoonup> ChannelInfo"
  cs_order :: "string list"

definition new_info :: "string \<Rightarrow> ChannelInfo" where
  "new_info channel =
     \<lparr>ci_Name = channel, Topic = [], TopicSet = False, TopicSetBy = [], TopicSetAt = 0,
      Members = Map.empty, NamesComplete = False\<rparr>"

definition NewChannelState :: ChannelState where
  "NewChannelState = \<lparr>cs_channels = Map.empty, cs_order = []\<rparr>"

section \<open>Reading\<close>

definition Get :: "ChannelState \<Rightarrow> string \<Rightarrow> ChannelInfo option" where
  "Get s channel = cs_channels s (to_lower channel)"

fun first_match :: "(string \<rightharpoonup> string) \<Rightarrow> string \<Rightarrow> string list \<Rightarrow> bool" where
  "first_match members nick [] = False"
| "first_match members nick (m # ms) =
     (case members m of
        None \<Rightarrow> first_match members nick ms
      | Some pfx \<Rightarrow>
          (if equal_fold m nick then contains_any pfx operatorPrefixes
           else first_match members nick ms))"

definition IsOperator :: "ChannelState option \<Rightarrow> string list \<Rightarrow> string \<Rightarrow> string \<Rightarrow> bool" where
  "IsOperator s ord channel nick =
     (case s of
        None \<Rightarrow> False
      | Some s \<Rightarrow>
          (if nick = [] then False
           else case cs_channels s (to_lower channel) of
                  None \<Rightarrow> False
                | Some info \<Rightarrow> first_match (Members info) nick ord))"

definition Count :: "ChannelState \<Rightarrow> nat" where
  "Count s = length (cs_order s)"

definition JoinedChannels :: "ChannelState \<Rightarrow> ChannelInfo list" where
  "JoinedChannels s = List.map_filter (cs_channels s) (cs_order s)"

definition ChannelsContaining :: "ChannelState \<Rightarrow> string list \<Rightarrow> string \<Rightarrow> string list" where
  "ChannelsContaining s ord nick =
     (if nick = [] then []
      else List.map_filter
             (\<lambda>k. case cs_channels s k of
                    None \<Rightarrow> None
                  | Some info \<Rightarrow> (if Members info nick \<noteq> None then Some (ci_Name info) else None))
             ord)"

section \<open>Writing\<close>

definition OnSelfJoin :: "string \<Rightarrow> ChannelState \<Rightarrow> ChannelState" where
  "OnSelfJoin channel s =
     (let key = to_lower channel in
      if cs_channels s key \<noteq> None then s
      else s\<lparr>cs_channels := (cs_channels s)(key \<mapsto> new_info channel),
             cs_order := cs_order s @ [key]\<rparr>)"

definition OnSelfPart :: "string \<Rightarrow> ChannelState \<Rightarrow> ChannelState" where
  "OnSelfPart channel s =
     (let key = to_lower channel in
      s\<lparr>cs_channels := (cs_channels s)(key := None), cs_order := remove1 key (cs_order s)\<rparr>)"

text \<open>The common shape of the setters: look the channel up, change its record in place.\<close>

definition upd_info :: "string \<Rightarrow> (ChannelInfo \<Rightarrow> ChannelInfo) \<Rightarrow> ChannelState \<Rightarrow> ChannelState" where
  "upd_info channel f s =
     (case cs_channels s (to_lower channel) of
        None \<Rightarrow> s
      | Some info \<Rightarrow> s\<lparr>cs_channels := (cs_channels s)(to_lower channel \<mapsto> f info)\<rparr>)"

definition SetTopic :: "string \<Rightarrow> string \<Rightarrow> ChannelState \<Rightarrow> ChannelState" where
  "SetTopic channel topic = upd_info channel (\<lambda>info. info\<lparr>Topic := topic, TopicSet := True\<rparr>)"

definition ClearTopic :: "string \<Rightarrow> ChannelState \<Rightarrow> ChannelState" where
  "ClearTopic channel = upd_info channel (\<lambda>info. info\<lparr>Topic := [], TopicSet := True\<rparr>)"

definition SetTopicMeta :: "string \<Rightarrow> string \<Rightarrow> int \<Rightarrow> ChannelState \<Rightarrow> ChannelState" where
  "SetTopicMeta channel setBy setAt =
     upd_info channel
       (\<lambda>info.
          (let info = (if setBy \<noteq> [] then info\<lparr>TopicSetBy := setBy\<rparr> else info)
           in if setAt > 0 then info\<lparr>TopicSetAt := setAt\<rparr> else info))"

definition splitMemberPrefix :: "string \<Rightarrow> string \<times> string" where
  "splitMemberPrefix member =
     (case member of
        [] \<Rightarrow> ([], member)
      | c # cs \<Rightarrow> (if c \<in> set memberPrefixes then ([c], cs) else ([], member)))"

definition add_member :: "string \<Rightarrow> (string \<rightharpoonup> string) \<Rightarrow> (string \<rightharpoonup> string)" where
  "add_member entry members =
     (let (pfx, nick) = splitMemberPrefix entry
      in if nick \<noteq> [] then members(nick \<mapsto> pfx) else members)"

definition OnNamesReply :: "string \<Rightarrow> string list \<Rightarrow> ChannelState \<Rightarrow> ChannelState" where
  "OnNamesReply channel members s =
     (let key = to_lower channel;
          s = (case cs_channels s key of
                 None \<Rightarrow> s\<lparr>cs_channels := (cs_channels s)(key \<mapsto> new_info channel),
                           cs_order := cs_order s @ [key]\<rparr>
               | Some info \<Rightarrow>
                   (if NamesComplete info
                    then s\<lparr>cs_channels := (cs_channels s)
                             (key \<mapsto> info\<lparr>Members := Map.empty, NamesComplete := False\<rparr>)\<rparr>
                    else s))
      in upd_info channel (\<lambda>info. info\<lparr>Members := fold add_member members (Members info)\<rparr>) s)"

definition OnNamesEnd :: "string \<Rightarrow> ChannelState \<Rightarrow> ChannelState" where
  "OnNamesEnd channel = upd_info channel (\<lambda>info. info\<lparr>NamesComplete := True\<rparr>)"

definition OnMemberJoin :: "string \<Rightarrow> string \<Rightarrow> ChannelState \<Rightarrow> ChannelState" where
  "OnMemberJoin channel nick s =
     (if nick = [] then s
      else upd_info channel
             (\<lambda>info. if Members info nick = None
                      then info\<lparr>Members := (Members info)(nick \<mapsto> [])\<rparr> else info) s)"

definition OnMemberPart :: "string \<Rightarrow> string \<Rightarrow> ChannelState \<Rightarrow> ChannelState" where
  "OnMemberPart channel nick =
     upd_info channel (\<lambda>info. info\<lparr>Members := (Members info)(nick := None)\<rparr>)"

definition OnMemberKick :: "string \<Rightarrow> string \<Rightarrow> ChannelState \<Rightarrow> ChannelState" where
  "OnMemberKick channel nick = OnMemberPart channel nick"

definition SetMemberPrefix :: "string \<Rightarrow> string \<Rightarrow> string \<Rightarrow> ChannelState \<Rightarrow> ChannelState" where
  "SetMemberPrefix channel nick pfx s =
     (if nick = [] then s
      else upd_info channel
             (\<lambda>info. if Members info nick = None then info
                      else info\<lparr>Members := (Members info)(nick \<mapsto> pfx)\<rparr>) s)"

definition OnMemberQuit :: "string \<Rightarrow> ChannelState \<Rightarrow> ChannelState" where
  "OnMemberQuit nick s =
     s\<lparr>cs_channels :=
         (\<lambda>k. map_option (\<lambda>info. info\<lparr>Members := (Members info)(nick := None)\<rparr>) (cs_channels s k))\<rparr>"

text \<open>The new key is written before the old one is deleted, as in the code.\<close>

definition rename_member :: "string \<Rightarrow> string \<Rightarrow> (string \<rightharpoonup> string) \<Rightarrow> (string \<rightharpoonup> string)" where
  "rename_member oldNick newNick members =
     (case members oldNick of
        None \<Rightarrow> members
      | Some pfx \<Rightarrow> (members(newNick \<mapsto> pfx))(oldNick := None))"

definition OnNickChange :: "string \<Rightarrow> string \<Rightarrow> ChannelState \<Rightarrow> ChannelState" where
  "OnNickChange oldNick newNick s =
     s\<lparr>cs_channels :=
         (\<lambda>k. map_option (\<lambda>info. info\<lparr>Members := rename_member oldNick newNick (Members info)\<rparr>)
               (cs_channels s k))\<rparr>"

section \<open>The invariant\<close>

text \<open>
  The map and the order list hold the same keys, once each; a key is the lower-cased display name; no
  member has an empty nick, and a member's prefix is empty or one of the prefix characters.
\<close>

definition wf_members :: "(string \<rightharpoonup> string) \<Rightarrow> bool" where
  "wf_members ms \<longleftrightarrow>
     ms [] = None \<and> (\<forall>n p. ms n = Some p \<longrightarrow> p = [] \<or> (\<exists>c\<in>set memberPrefixes. p = [c]))"

definition channel_inv :: "ChannelState \<Rightarrow> bool" where
  "channel_inv s \<longleftrightarrow>
     distinct (cs_order s) \<and> dom (cs_channels s) = set (cs_order s) \<and>
     (\<forall>k info. cs_channels s k = Some info \<longrightarrow>
        to_lower (ci_Name info) = k \<and> wf_members (Members info))"

lemma channel_inv_init [inv_intros]: "channel_inv NewChannelState"
  by (simp add: channel_inv_def NewChannelState_def)

lemma wf_members_empty [simp]: "wf_members Map.empty"
  by (simp add: wf_members_def)

lemma wf_members_delete [simp]: "wf_members ms \<Longrightarrow> wf_members (ms(n := None))"
  by (simp add: wf_members_def)

lemma wf_members_update:
  "wf_members ms \<Longrightarrow> n \<noteq> [] \<Longrightarrow> p = [] \<or> (\<exists>c\<in>set memberPrefixes. p = [c]) \<Longrightarrow> wf_members (ms(n \<mapsto> p))"
  by (simp add: wf_members_def)

lemma add_member_wf: "wf_members ms \<Longrightarrow> wf_members (add_member e ms)"
  by (auto simp: add_member_def splitMemberPrefix_def split: list.split prod.split
        intro!: wf_members_update)

lemma fold_add_member_wf: "wf_members ms \<Longrightarrow> wf_members (fold add_member es ms)"
  by (induction es arbitrary: ms) (auto simp: add_member_wf)

lemma rename_member_wf: "wf_members ms \<Longrightarrow> b \<noteq> [] \<Longrightarrow> wf_members (rename_member a b ms)"
  by (auto simp: rename_member_def wf_members_def split: option.splits)

text \<open>A setter leaves the order alone, and changes exactly one record.\<close>

lemma upd_info_order [simp]: "cs_order (upd_info c f s) = cs_order s"
  by (simp add: upd_info_def split: option.splits)

lemma upd_info_channels:
  "cs_channels (upd_info c f s) k =
     (if k = to_lower c then map_option f (cs_channels s k) else cs_channels s k)"
  by (simp add: upd_info_def split: option.splits)

lemma upd_info_dom [simp]: "dom (cs_channels (upd_info c f s)) = dom (cs_channels s)"
  by (auto simp: upd_info_def split: option.splits)

lemma channel_inv_upd_info:
  assumes "channel_inv s"
    and "\<And>info. wf_members (Members info) \<Longrightarrow> ci_Name (f info) = ci_Name info \<and> wf_members (Members (f info))"
  shows "channel_inv (upd_info c f s)"
  using assms by (auto simp: channel_inv_def upd_info_channels split: if_splits)

lemma channel_inv_join [inv_intros]: "channel_inv s \<Longrightarrow> channel_inv (OnSelfJoin c s)"
  by (auto simp: channel_inv_def OnSelfJoin_def Let_def new_info_def)

lemma channel_inv_part [inv_intros]: "channel_inv s \<Longrightarrow> channel_inv (OnSelfPart c s)"
  by (auto simp: channel_inv_def OnSelfPart_def Let_def set_remove1_eq)

lemma channel_inv_setters [inv_intros]:
  assumes "channel_inv s"
  shows "channel_inv (SetTopic c t s)" "channel_inv (ClearTopic c s)" "channel_inv (SetTopicMeta c b a s)"
    "channel_inv (OnNamesEnd c s)" "channel_inv (OnMemberJoin c n s)" "channel_inv (OnMemberPart c n s)"
    "channel_inv (OnMemberKick c n s)"
  using assms
  by (auto simp: SetTopic_def ClearTopic_def SetTopicMeta_def OnNamesEnd_def OnMemberJoin_def
      OnMemberPart_def OnMemberKick_def Let_def intro!: channel_inv_upd_info wf_members_update)

lemma channel_inv_prefix [inv_intros]:
  "channel_inv s \<Longrightarrow> p = [] \<or> (\<exists>c\<in>set memberPrefixes. p = [c]) \<Longrightarrow> channel_inv (SetMemberPrefix c n p s)"
  by (auto simp: SetMemberPrefix_def intro!: channel_inv_upd_info wf_members_update)

lemma channel_inv_names [inv_intros]:
  assumes "channel_inv s"
  shows "channel_inv (OnNamesReply c es s)"
proof -
  let ?k = "to_lower c"
  let ?s = "case cs_channels s ?k of
              None \<Rightarrow> s\<lparr>cs_channels := (cs_channels s)(?k \<mapsto> new_info c), cs_order := cs_order s @ [?k]\<rparr>
            | Some info \<Rightarrow>
                (if NamesComplete info
                 then s\<lparr>cs_channels := (cs_channels s)(?k \<mapsto> info\<lparr>Members := Map.empty, NamesComplete := False\<rparr>)\<rparr>
                 else s)"
  have "channel_inv ?s"
    using assms by (auto simp: channel_inv_def new_info_def split: option.split)
  then have "channel_inv (upd_info c (\<lambda>info. info\<lparr>Members := fold add_member es (Members info)\<rparr>) ?s)"
    by (intro channel_inv_upd_info) (auto simp: fold_add_member_wf)
  then show ?thesis by (simp add: OnNamesReply_def Let_def)
qed

lemma channel_inv_quit [inv_intros]: "channel_inv s \<Longrightarrow> channel_inv (OnMemberQuit n s)"
  by (auto simp: channel_inv_def OnMemberQuit_def dom_def)

lemma channel_inv_nick [inv_intros]: "channel_inv s \<Longrightarrow> b \<noteq> [] \<Longrightarrow> channel_inv (OnNickChange a b s)"
  by (auto simp: channel_inv_def OnNickChange_def dom_def rename_member_wf)

section \<open>The channel cache is a registry\<close>

lemma joined_key: "channel_inv s \<Longrightarrow> cs_channels s k \<noteq> None \<longleftrightarrow> k \<in> set (cs_order s)"
  by (auto simp: channel_inv_def)

interpretation joined: registry to_lower "\<lambda>_. True" cs_order Get channel_inv OnSelfJoin OnSelfPart
proof
  fix s :: ChannelState and n :: string
  assume inv: "channel_inv s"
  show "distinct (cs_order s)" using inv by (simp add: channel_inv_def)
  show "Get s n \<noteq> None \<longleftrightarrow> to_lower n \<in> set (cs_order s)" using joined_key [OF inv] by (simp add: Get_def)
  show "channel_inv (OnSelfJoin n s)" "channel_inv (OnSelfPart n s)" using inv by (auto intro: inv_intros)
  show "cs_order (OnSelfJoin n s) =
      (if True \<and> to_lower n \<notin> set (cs_order s) then cs_order s @ [to_lower n] else cs_order s)"
    using joined_key [OF inv, of "to_lower n"] by (auto simp: OnSelfJoin_def Let_def)
  show "cs_order (OnSelfPart n s) = (if True then remove1 (to_lower n) (cs_order s) else cs_order s)"
    by (simp add: OnSelfPart_def Let_def)
qed

section \<open>Properties\<close>

lemma names_chunk:
  assumes "cs_channels s (to_lower c) = Some info" "\<not> NamesComplete info"
  shows "cs_channels (OnNamesReply c es s) =
           (cs_channels s)(to_lower c \<mapsto> info\<lparr>Members := fold add_member es (Members info)\<rparr>)"
  using assms by (simp add: OnNamesReply_def Let_def upd_info_def)

lemma names_chunks:
  assumes "cs_channels s (to_lower c) = Some info" "\<not> NamesComplete info"
  shows "cs_channels (fold (OnNamesReply c) chunks s) =
           (cs_channels s)(to_lower c \<mapsto> info\<lparr>Members := fold add_member (concat chunks) (Members info)\<rparr>)"
  using assms
proof (induction chunks arbitrary: s info)
  case Nil
  then show ?case by (auto simp: fun_eq_iff)
next
  case (Cons es chunks)
  have "cs_channels (OnNamesReply c es s) (to_lower c) = Some (info\<lparr>Members := fold add_member es (Members info)\<rparr>)"
    using names_chunk [OF Cons.prems] by simp
  from Cons.IH [OF this] Cons.prems(2) names_chunk [OF Cons.prems] show ?case by (simp add: fun_eq_iff)
qed

lemma names_fresh:
  assumes "cs_channels s (to_lower c) = Some info" "NamesComplete info"
  shows "OnNamesReply c es s =
           OnNamesReply c es (s\<lparr>cs_channels := (cs_channels s)
             (to_lower c \<mapsto> info\<lparr>Members := Map.empty, NamesComplete := False\<rparr>)\<rparr>)"
  using assms by (simp add: OnNamesReply_def Let_def upd_info_def)

text \<open>A NAMES burst that starts after a completed one (a rejoin after a netsplit, a \<^verbatim>\<open>/NAMES\<close>) leaves
  exactly the members it listed, whatever was cached before: nobody who left meanwhile stays as a ghost,
  every other channel is untouched, and the cycle is marked complete.\<close>

theorem names_burst_snapshot:
  assumes "cs_channels s (to_lower c) = Some info" "NamesComplete info"
  shows "cs_channels (OnNamesEnd c (fold (OnNamesReply c) (es # chunks) s)) =
           (cs_channels s)(to_lower c \<mapsto>
              info\<lparr>Members := fold add_member (concat (es # chunks)) Map.empty, NamesComplete := True\<rparr>)"
proof -
  let ?i = "info\<lparr>Members := Map.empty, NamesComplete := False\<rparr>"
  let ?s = "s\<lparr>cs_channels := (cs_channels s)(to_lower c \<mapsto> ?i)\<rparr>"
  have "fold (OnNamesReply c) (es # chunks) s = fold (OnNamesReply c) (es # chunks) ?s"
    using names_fresh [OF assms, of es] by simp
  moreover have "cs_channels (fold (OnNamesReply c) (es # chunks) ?s) =
      (cs_channels ?s)(to_lower c \<mapsto> ?i\<lparr>Members := fold add_member (concat (es # chunks)) (Members ?i)\<rparr>)"
    by (rule names_chunks) simp_all
  ultimately show ?thesis by (auto simp: OnNamesEnd_def upd_info_channels fun_eq_iff)
qed

definition ghost_state :: ChannelState where
  "ghost_state = OnNamesEnd ''#c'' (OnNamesReply ''#C'' [''@a'', ''ghost''] (OnSelfJoin ''#C'' NewChannelState))"

text \<open>A NICK change to another nick moves the member, with its prefix, in every channel that knew it,
  overwriting a stale entry under the new nick; other members, other fields and channels without the nick
  stay. A NICK to the same nick drops the member instead: the code writes the new key, then deletes it.\<close>

theorem nick_change_members:
  assumes "cs_channels s k = Some info"
  shows "\<exists>ms. cs_channels (OnNickChange a b s) k = Some (info\<lparr>Members := ms\<rparr>) \<and>
    (Members info a = None \<longrightarrow> ms = Members info) \<and>
    (Members info a \<noteq> None \<and> a \<noteq> b \<longrightarrow>
       ms a = None \<and> ms b = Members info a \<and> (\<forall>n. n \<noteq> a \<and> n \<noteq> b \<longrightarrow> ms n = Members info n)) \<and>
    (a = b \<longrightarrow> ms = (Members info)(a := None))"
  by (rule exI [of _ "rename_member a b (Members info)"])
    (use assms in \<open>auto simp: OnNickChange_def rename_member_def fun_eq_iff split: option.split\<close>)

text \<open>A QUIT removes the nick from every channel, and \<^const>\<open>ChannelsContaining\<close> taken just before names
  exactly the channels whose membership it changes.\<close>

lemma quit_everywhere: "cs_channels (OnMemberQuit n s) k = Some info \<Longrightarrow> Members info n = None"
  by (auto simp: OnMemberQuit_def)

lemma containing_spec:
  assumes "n \<noteq> []" "set ord = dom (cs_channels s)"
  shows "set (ChannelsContaining s ord n) =
    {ci_Name info | k info. cs_channels s k = Some info \<and> Members info n \<noteq> None}"
proof -
  have "(case cs_channels s k of None \<Rightarrow> None
      | Some info \<Rightarrow> if Members info n \<noteq> None then Some (ci_Name info) else None) = Some y \<longleftrightarrow>
    (\<exists>info. cs_channels s k = Some info \<and> Members info n \<noteq> None \<and> y = ci_Name info)" for k y
    by (cases "cs_channels s k") (simp_all split: if_split, metis)
  then show ?thesis using assms unfolding ChannelsContaining_def set_map_filter by (auto simp: set_map_filter)
qed

lemma containing_after_quit: "ChannelsContaining (OnMemberQuit n s) ord n = []"
  by (auto simp: ChannelsContaining_def OnMemberQuit_def map_filter_def filter_empty_conv
      split: option.split)

section \<open>Channel operators\<close>

lemma first_match_spec:
  assumes "\<And>x y. x \<in> set ord \<Longrightarrow> y \<in> set ord \<Longrightarrow> ms x \<noteq> None \<Longrightarrow> ms y \<noteq> None \<Longrightarrow>
      equal_fold x nick \<Longrightarrow> equal_fold y nick \<Longrightarrow> x = y"
  shows "first_match ms nick ord \<longleftrightarrow>
    (\<exists>m\<in>set ord. \<exists>p. ms m = Some p \<and> equal_fold m nick \<and> contains_any p operatorPrefixes)"
  using assms
proof (induction ord)
  case Nil
  then show ?case by simp
next
  case (Cons a ord)
  have tl: "first_match ms nick ord \<longleftrightarrow>
      (\<exists>m\<in>set ord. \<exists>p. ms m = Some p \<and> equal_fold m nick \<and> contains_any p operatorPrefixes)"
    by (rule Cons.IH) (use Cons.prems in auto)
  show ?case
  proof (cases "ms a \<noteq> None \<and> equal_fold a nick")
    case True
    then obtain p where p: "ms a = Some p" "equal_fold a nick" by auto
    have "m = a" if "m \<in> set ord" "ms m = Some q" "equal_fold m nick" for m q
      using Cons.prems [of m a] that p by auto
    with p show ?thesis by auto
  next
    case False
    then have "first_match ms nick (a # ord) = first_match ms nick ord" by (auto split: option.split)
    with False show ?thesis unfolding tl by auto
  qed
qed

text \<open>In a channel where no two members differ only in the case of their nick, \<^const>\<open>IsOperator\<close> does
  not depend on the order Go ranges over the member map: it is true exactly when a member folding to the
  nick holds \<^verbatim>\<open>@\<close>, \<^verbatim>\<open>&\<close> or \<^verbatim>\<open>~\<close>. Halfop and voice do not count.\<close>

theorem IsOperator_spec:
  assumes "channel_inv s" "cs_channels s (to_lower c) = Some info" "set ord = dom (Members info)"
    and "\<forall>x\<in>dom (Members info). \<forall>y\<in>dom (Members info). equal_fold x y \<longrightarrow> x = y"
    and "nick \<noteq> []"
  shows "IsOperator (Some s) ord c nick \<longleftrightarrow>
    (\<exists>m p. Members info m = Some p \<and> equal_fold m nick \<and> p \<in> {''@'', ''&'', ''~''})"
proof -
  have wf: "wf_members (Members info)" using assms(1,2) by (auto simp: channel_inv_def)
  have op: "Members info m = Some p \<Longrightarrow> contains_any p operatorPrefixes \<longleftrightarrow> p \<in> {''@'', ''&'', ''~''}" for m p
  proof -
    assume "Members info m = Some p"
    then have "p = [] \<or> (\<exists>c\<in>set memberPrefixes. p = [c])" using wf by (auto simp: wf_members_def)
    then show ?thesis by (auto simp: contains_any_def operatorPrefixes_def memberPrefixes_def)
  qed
  have "first_match (Members info) nick ord \<longleftrightarrow>
      (\<exists>m\<in>set ord. \<exists>p. Members info m = Some p \<and> equal_fold m nick \<and> contains_any p operatorPrefixes)"
  proof (rule first_match_spec)
    fix x y
    assume "x \<in> set ord" "y \<in> set ord" "equal_fold x nick" "equal_fold y nick"
    then show "x = y" using assms(3,4) equal_fold_trans [of x nick y] equal_fold_sym by blast
  qed
  moreover have "... \<longleftrightarrow> (\<exists>m p. Members info m = Some p \<and> equal_fold m nick \<and> p \<in> {''@'', ''&'', ''~''})"
    unfolding assms(3) dom_def using op by blast
  ultimately show ?thesis using assms(2,5) by (simp add: IsOperator_def)
qed

end
