(* ===== verification/Protocol.thy ===== *)
theory Protocol
  imports Codes
begin

text \<open>
  \<^verbatim>\<open>internal/connector/irc/protocol.go\<close>: the IRC line grammar. \<open>Parse\<close> turns a wire line into a
  \<open>Message\<close> and never fails; \<open>FormatCommand\<close> writes one. The lemmas say what shape every parsed
  message has and that formatting and parsing are inverse on well-formed fields.
\<close>

record Message =
  Raw :: string
  Tags :: "string \<rightharpoonup> string"
  Prefix :: string
  Command :: string
  Params :: "string list"
  Trailing :: string

section \<open>The operations\<close>

definition Nick :: "string \<Rightarrow> string" where
  "Nick pfx = (case index_byte CHR ''!'' pfx of Some i \<Rightarrow> take i pfx | None \<Rightarrow> pfx)"

definition SourceNick :: "Message \<Rightarrow> string" where
  "SourceNick m =
     (case index_byte CHR ''!'' (Prefix m) of Some i \<Rightarrow> take i (Prefix m) | None \<Rightarrow> Prefix m)"

text \<open>The ident and the host of \<^verbatim>\<open>nick!ident@host\<close>; \<^const>\<open>None\<close> is the result with \<^verbatim>\<open>ok\<close> false.\<close>

definition splitIdentHost :: "string \<Rightarrow> (string \<times> string) option" where
  "splitIdentHost pfx =
     (case index_byte CHR ''!'' pfx of
        None \<Rightarrow> None
      | Some bang \<Rightarrow>
          (let rest = drop (Suc bang) pfx in
           case index_byte CHR ''@'' rest of
             None \<Rightarrow> None
           | Some at \<Rightarrow> Some (take at rest, drop (Suc at) rest)))"

definition tagUnescape :: "char \<rightharpoonup> char" where
  "tagUnescape =
     [CHR '':'' \<mapsto> CHR '';'', CHR ''s'' \<mapsto> sp, CHR 0x5C \<mapsto> CHR 0x5C, CHR ''r'' \<mapsto> cr, CHR ''n'' \<mapsto> lf]"

fun unescape_loop :: "string \<Rightarrow> string" where
  "unescape_loop [] = []"
| "unescape_loop [c] = [c]"
| "unescape_loop (c # d # cs) =
     (if c = CHR 0x5C
      then (case tagUnescape d of Some r \<Rightarrow> r | None \<Rightarrow> d) # unescape_loop cs
      else c # unescape_loop (d # cs))"

definition unescapeTagValue :: "string \<Rightarrow> string" where
  "unescapeTagValue v = (if CHR 0x5C \<notin> set v then v else unescape_loop v)"

definition parse_tag :: "string \<Rightarrow> (string \<rightharpoonup> string) \<Rightarrow> (string \<rightharpoonup> string)" where
  "parse_tag tag tags =
     (if tag = [] then tags
      else case index_byte CHR ''='' tag of
             Some eq \<Rightarrow> tags(take eq tag \<mapsto> unescapeTagValue (drop (Suc eq) tag))
           | None \<Rightarrow> tags(tag \<mapsto> []))"

definition parse_tags :: "string \<Rightarrow> (string \<rightharpoonup> string)" where
  "parse_tags seg = fold parse_tag (split_byte CHR '';'' (tl seg)) Map.empty"

text \<open>The text up to the first space, and what follows it with leading spaces dropped.\<close>

definition cut_space :: "string \<Rightarrow> string \<times> string" where
  "cut_space s =
     (case index_byte sp s of
        Some i \<Rightarrow> (take i s, trim_left (\<lambda>c. c = sp) (drop (Suc i) s))
      | None \<Rightarrow> (s, []))"

definition parse_body :: "string \<Rightarrow> (string \<rightharpoonup> string) \<Rightarrow> string \<Rightarrow> string \<Rightarrow> Message" where
  "parse_body raw tags pfx remaining =
     (if remaining = []
      then \<lparr>Raw = raw, Tags = tags, Prefix = pfx, Command = [], Params = [], Trailing = []\<rparr>
      else
        let (head, trailing) =
              (case index_str ('' '' @ '':'') remaining of
                 Some i \<Rightarrow> (take i remaining, drop (i + 2) remaining)
               | None \<Rightarrow> (remaining, []))
        in case go_fields head of
             [] \<Rightarrow> \<lparr>Raw = raw, Tags = tags, Prefix = pfx, Command = [], Params = [], Trailing = trailing\<rparr>
           | part # parts \<Rightarrow>
               \<lparr>Raw = raw, Tags = tags, Prefix = pfx, Command = to_upper part, Params = parts,
                Trailing = trailing\<rparr>)"

definition Parse :: "string \<Rightarrow> Message" where
  "Parse line =
     (let raw = trim_right (\<lambda>c. c \<in> set crlf) line;
          (tags, remaining) =
            (if prefix ''@'' raw
             then (let (seg, rest) = cut_space raw in (parse_tags seg, rest))
             else (Map.empty, raw));
          (pfx, remaining) =
            (if prefix '':'' remaining
             then (let (seg, rest) = cut_space remaining in (tl seg, rest))
             else ([], remaining))
      in parse_body raw tags pfx remaining)"

definition FormatCommand :: "string \<Rightarrow> string list \<Rightarrow> string \<Rightarrow> bool \<Rightarrow> string" where
  "FormatCommand command params trailing hasTrailing =
     join [sp] ([command] @ params @ (if hasTrailing then ['':'' @ trailing] else []))"

section \<open>Shape of a parsed message\<close>

text \<open>What every caller of \<^const>\<open>Parse\<close> may rely on, whatever bytes came in.\<close>

definition wf_word :: "string \<Rightarrow> bool" where
  "wf_word w \<longleftrightarrow> w \<noteq> [] \<and> (\<forall>c\<in>set w. \<not> is_space c)"

definition wf_message :: "Message \<Rightarrow> bool" where
  "wf_message m \<longleftrightarrow>
     to_upper (Command m) = Command m \<and> (\<forall>c\<in>set (Command m). \<not> is_space c) \<and>
     (\<forall>p\<in>set (Params m). wf_word p) \<and> (Command m = [] \<longrightarrow> Params m = []) \<and>
     (Raw m = [] \<or> last (Raw m) \<notin> set crlf)"

lemma wf_parse_body:
  assumes "raw = [] \<or> last raw \<notin> set crlf"
  shows "wf_message (parse_body raw tags pfx remaining)"
proof -
  have go: "wf_message \<lparr>Raw = raw, Tags = tags, Prefix = pfx, Command = to_upper part, Params = parts, Trailing = tr\<rparr>"
    if "go_fields head = part # parts" for head part parts tr
  proof -
    have "\<forall>w\<in>set (part # parts). wf_word w"
      unfolding that [symmetric] wf_word_def using go_fields_pieces by blast
    with assms show ?thesis by (simp add: wf_message_def wf_word_def to_upper_def)
  qed
  have empty: "wf_message \<lparr>Raw = raw, Tags = tags, Prefix = pfx, Command = [], Params = [], Trailing = tr\<rparr>" for tr
    using assms by (simp add: wf_message_def)
  show ?thesis
    by (auto simp: parse_body_def Let_def intro: go empty split: option.split list.split)
qed

lemma wf_Parse: "wf_message (Parse line)"
proof -
  have "trim_right (\<lambda>c. c \<in> set crlf) line = [] \<or> last (trim_right (\<lambda>c. c \<in> set crlf) line) \<notin> set crlf"
    using trim_right_last [of "\<lambda>c. c \<in> set crlf" line] by simp
  then show ?thesis
    by (auto simp: Parse_def Let_def split: prod.split intro!: wf_parse_body)
qed

section \<open>Formatting, then parsing\<close>

text \<open>
  A middle word: what may stand between spaces without being read as a trailing argument. The first
  word of a line must not look like a tag section or a prefix either.
\<close>

definition wf_param :: "string \<Rightarrow> bool" where
  "wf_param w \<longleftrightarrow> wf_word w \<and> hd w \<noteq> CHR '':''"

definition wf_trailing :: "string \<Rightarrow> bool" where
  "wf_trailing tr \<longleftrightarrow> tr = [] \<or> last tr \<notin> set crlf"

definition wf_command :: "string \<Rightarrow> bool" where
  "wf_command c \<longleftrightarrow> wf_param c \<and> hd c \<noteq> CHR ''@'' \<and> to_upper c = c"

lemma wf_word_sp: "wf_word w \<Longrightarrow> sp \<notin> set w"
  by (auto simp: wf_word_def)

lemma wf_word_last: "wf_word w \<Longrightarrow> last w \<notin> set crlf"
  using last_in_set [of w] by (auto simp: wf_word_def crlf_def is_space_def)

text \<open>No \<^verbatim>\<open>" :"\<close> occurs inside a run of middle words, so the first one is where the trailing starts.\<close>

lemma index_words:
  assumes "wf_word w" "\<forall>v\<in>set ws. wf_param v"
  shows "index_str ('' '' @ '':'') (join [sp] (w # ws)) = None \<and>
         index_str ('' '' @ '':'') (join [sp] (w # ws) @ sp # CHR '':'' # tr)
           = Some (length (join [sp] (w # ws)))"
  using assms
proof (induction ws arbitrary: w)
  case Nil
  then have sp: "sp \<notin> set w" by (intro wf_word_sp)
  show ?case
    using index_str_skip [OF sp, of "'':''" "[]"] index_str_skip [OF sp, of "'':''" "sp # CHR '':'' # tr"]
    by simp
next
  case (Cons v ws)
  then have sp: "sp \<notin> set w" and v: "wf_word v" "hd v \<noteq> CHR '':''" and ws: "\<forall>v\<in>set ws. wf_param v"
    by (auto simp: wf_param_def dest: wf_word_sp)
  have no: "\<not> prefix ('' '' @ '':'') (sp # join [sp] (v # ws) @ r)" for r
    using v by (cases ws; cases v) (auto simp: wf_word_def)
  show ?case
    using index_str_skip [OF sp, of "'':''" "sp # join [sp] (v # ws)"] no [of "[]"]
      index_str_skip [OF sp, of "'':''" "sp # join [sp] (v # ws) @ sp # CHR '':'' # tr"]
      no [of "sp # CHR '':'' # tr"] Cons.IH [OF v(1) ws]
    by (simp add: join_Cons)
qed

lemma FormatCommand_eq:
  "FormatCommand cmd params tr has =
     join [sp] (cmd # params) @ (if has then sp # CHR '':'' # tr else [])"
  using join_snoc [of "cmd # params" "[sp]" "'':'' @ tr"] by (simp add: FormatCommand_def)

lemma parse_body_FormatCommand:
  assumes "wf_command cmd" "\<forall>p\<in>set params. wf_param p"
  shows "parse_body raw tags pfx (FormatCommand cmd params tr has) =
           \<lparr>Raw = raw, Tags = tags, Prefix = pfx, Command = cmd, Params = params,
            Trailing = (if has then tr else [])\<rparr>"
proof -
  let ?ws = "join [sp] (cmd # params)"
  from assms have w: "wf_word cmd" "to_upper cmd = cmd" by (auto simp: wf_command_def wf_param_def)
  have ne: "?ws \<noteq> []" using w by (simp add: wf_word_def)
  have f: "go_fields ?ws = cmd # params"
    using assms w by (intro go_fields_join) (auto simp: wf_param_def wf_word_def)
  note idx = index_words [OF w(1) assms(2)]
  show ?thesis
    using ne f w idx [of tr] by (simp add: parse_body_def FormatCommand_eq)
qed

lemma last_FormatCommand:
  assumes "wf_command cmd" "\<forall>p\<in>set params. wf_param p" "wf_trailing tr"
  shows "FormatCommand cmd params tr has \<noteq> [] \<and> last (FormatCommand cmd params tr has) \<notin> set crlf"
proof -
  have "ws \<noteq> [] \<Longrightarrow> \<forall>w\<in>set ws. wf_word w \<Longrightarrow> join [sp] ws \<noteq> [] \<and> last (join [sp] ws) \<notin> set crlf" for ws
    by (induction "[sp]" ws rule: join.induct) (auto simp: wf_word_last wf_word_def)
  from this [of "cmd # params"] assms show ?thesis
    by (auto simp: FormatCommand_eq wf_command_def wf_param_def wf_trailing_def crlf_def)
qed

lemma hd_FormatCommand:
  assumes "wf_command cmd"
  shows "\<exists>c cs. FormatCommand cmd params tr has = c # cs \<and> c \<noteq> CHR ''@'' \<and> c \<noteq> CHR '':''"
  using assms by (cases cmd; cases params)
    (auto simp: FormatCommand_eq wf_command_def wf_param_def wf_word_def)

lemma Parse_FormatCommand_both:
  assumes "wf_command cmd" "\<forall>p\<in>set params. wf_param p" "wf_trailing tr" "sp \<notin> set pfx"
  shows "Parse (FormatCommand cmd params tr has) =
           \<lparr>Raw = FormatCommand cmd params tr has, Tags = Map.empty, Prefix = [], Command = cmd,
            Params = params, Trailing = (if has then tr else [])\<rparr> \<and>
         Parse ('':'' @ pfx @ '' '' @ FormatCommand cmd params tr has) =
           \<lparr>Raw = '':'' @ pfx @ '' '' @ FormatCommand cmd params tr has, Tags = Map.empty, Prefix = pfx,
            Command = cmd, Params = params, Trailing = (if has then tr else [])\<rparr>"
proof -
  let ?f = "FormatCommand cmd params tr has"
  obtain c cs where c: "?f = c # cs" "c \<noteq> CHR ''@''" "c \<noteq> CHR '':''" "c \<noteq> sp"
  proof -
    from hd_FormatCommand [OF assms(1), of params tr has] assms(1) have "hd ?f \<noteq> sp"
      by (cases cmd; cases params) (auto simp: FormatCommand_eq wf_command_def wf_param_def wf_word_def)
    with hd_FormatCommand [OF assms(1), of params tr has] that show thesis by force
  qed
  note l = last_FormatCommand [OF assms(1-3), of has]
  have cut: "cut_space ('':'' @ pfx @ '' '' @ ?f) = ('':'' @ pfx, ?f)"
    using index_byte_append [of sp "'':'' @ pfx" ?f] assms(4) c by (simp add: cut_space_def trim_left_def)
  have r1: "trim_right (\<lambda>c. c \<in> set crlf) ?f = ?f" using l by (intro trim_right_id) simp
  have r2: "trim_right (\<lambda>c. c \<in> set crlf) ('':'' @ pfx @ '' '' @ ?f) = '':'' @ pfx @ '' '' @ ?f"
    using l by (intro trim_right_id) simp
  have "Parse ?f = parse_body ?f Map.empty [] ?f"
    unfolding Parse_def r1 using c by (simp add: Let_def)
  moreover have "Parse ('':'' @ pfx @ '' '' @ ?f) =
      parse_body ('':'' @ pfx @ '' '' @ ?f) Map.empty pfx ?f"
    unfolding Parse_def r2 using cut by (simp add: Let_def)
  ultimately show ?thesis by (simp add: parse_body_FormatCommand [OF assms(1,2)])
qed

lemma Parse_FormatCommand_bare:
  assumes "wf_command cmd" "\<forall>p\<in>set params. wf_param p" "wf_trailing tr"
  shows "Parse (FormatCommand cmd params tr has) =
           \<lparr>Raw = FormatCommand cmd params tr has, Tags = Map.empty, Prefix = [], Command = cmd,
            Params = params, Trailing = (if has then tr else [])\<rparr>"
  using Parse_FormatCommand_both [OF assms, of "[]"] by simp

section \<open>Properties\<close>

text \<open>C40: parsing is total and every message it yields is well formed: an upper-case command and middle
  parameters that hold no blank, parameters that are never empty, no parameters without a command, and
  a raw line without its line ending.\<close>

theorem Parse_shape:
  "to_upper (Command (Parse line)) = Command (Parse line) \<and>
   (\<forall>c\<in>set (Command (Parse line)). \<not> is_space c) \<and>
   (\<forall>p\<in>set (Params (Parse line)). p \<noteq> [] \<and> (\<forall>c\<in>set p. \<not> is_space c)) \<and>
   (Command (Parse line) = [] \<longrightarrow> Params (Parse line) = []) \<and>
   (Raw (Parse line) = [] \<or> last (Raw (Parse line)) \<notin> set crlf)"
  using wf_Parse [of line] by (simp add: wf_message_def wf_word_def)

theorem Parse_shape_witness:
  "Params (Parse ''@a=b :n!u@h privmsg #c :hi there'') = [''#c''] \<and> sp \<notin> set ''#c''"
proof -
  have ps: "Params (Parse ''@a=b :n!u@h privmsg #c :hi there'') = [''#c'']" by code_simp
  from Parse_shape [of "''@a=b :n!u@h privmsg #c :hi there''"]
  have "\<forall>c\<in>set ''#c''. \<not> is_space c" unfolding ps by simp
  with ps show ?thesis by (auto simp: is_space_def)
qed

text \<open>C35: a line that \<^const>\<open>FormatCommand\<close> writes, with or without the \<^verbatim>\<open>:nick!ident@host\<close> prefix the
  bouncer puts before it, parses back to the same prefix, command, parameters and trailing argument.\<close>

theorem Parse_FormatCommand:
  assumes "wf_command cmd" "\<forall>p\<in>set params. wf_param p" "wf_trailing tr" "sp \<notin> set pfx"
  shows "Parse (FormatCommand cmd params tr has) =
           \<lparr>Raw = FormatCommand cmd params tr has, Tags = Map.empty, Prefix = [], Command = cmd,
            Params = params, Trailing = (if has then tr else [])\<rparr> \<and>
         Parse ('':'' @ pfx @ '' '' @ FormatCommand cmd params tr has) =
           \<lparr>Raw = '':'' @ pfx @ '' '' @ FormatCommand cmd params tr has, Tags = Map.empty, Prefix = pfx,
            Command = cmd, Params = params, Trailing = (if has then tr else [])\<rparr>"
  using Parse_FormatCommand_both [OF assms] by blast

theorem Parse_FormatCommand_witness:
  "Parse ('':'' @ ''bot!u@h'' @ '' '' @ FormatCommand ''PRIVMSG'' [''#c''] ''hi there'' True) =
     \<lparr>Raw = '':bot!u@h PRIVMSG #c :hi there'', Tags = Map.empty, Prefix = ''bot!u@h'',
      Command = ''PRIVMSG'', Params = [''#c''], Trailing = ''hi there''\<rparr>"
proof -
  have "wf_command ''PRIVMSG''" "wf_param ''#c''" "wf_trailing ''hi there''"
    by (simp_all add: wf_command_def wf_param_def wf_word_def wf_trailing_def is_space_def crlf_def to_upper_def upper_char_def)
  then have "\<forall>p\<in>set [''#c'']. wf_param p" by simp
  from Parse_FormatCommand [OF \<open>wf_command ''PRIVMSG''\<close> this \<open>wf_trailing ''hi there''\<close>, of "''bot!u@h''" True]
  show ?thesis by (simp add: FormatCommand_def)
qed

end
