(* ===== verification/Upstream_State.thy ===== *)
theory Upstream_State
  imports Codes Protocol
begin

text \<open>
  \<^verbatim>\<open>internal/connector/irc/upstream_state.go\<close>: the connector's view of its upstream session. The states,
  the machine that holds the current one and tells its subscribers, the classification of errors,
  numerics and \<^verbatim>\<open>ERROR\<close> lines, and the text and severity shown to attached clients.

  \<^verbatim>\<open>Transition\<close> runs its subscribers in the calling goroutine after the state is written. A handler is an
  identifier here, and a delivery is a pair of the identifier and the change; the order Go ranges over
  the subscriber map is an argument.
\<close>

datatype UpstreamState =
    Idle
  | Connecting
  | Registering
  | Registered
  | DisconnectedTransient
  | DisconnectedNickUnavailable
  | DisconnectedNickInvalid
  | DisconnectedByUser
  | DisconnectedAuthFailed
  | DisconnectedBanned
  | PausedIdle
  | Stopped

fun state_str :: "UpstreamState \<Rightarrow> string" where
  "state_str Idle = ''idle''"
| "state_str Connecting = ''connecting''"
| "state_str Registering = ''registering''"
| "state_str Registered = ''registered''"
| "state_str DisconnectedTransient = ''disconnected_transient''"
| "state_str DisconnectedNickUnavailable = ''disconnected_nick_unavailable''"
| "state_str DisconnectedNickInvalid = ''disconnected_nick_invalid''"
| "state_str DisconnectedByUser = ''disconnected_by_user''"
| "state_str DisconnectedAuthFailed = ''disconnected_auth_failed''"
| "state_str DisconnectedBanned = ''disconnected_banned''"
| "state_str PausedIdle = ''paused_idle''"
| "state_str Stopped = ''stopped''"

definition IsRecoverable :: "UpstreamState \<Rightarrow> bool" where
  "IsRecoverable s \<longleftrightarrow> s = DisconnectedTransient \<or> s = DisconnectedNickUnavailable"

definition IsTerminal :: "UpstreamState \<Rightarrow> bool" where
  "IsTerminal s \<longleftrightarrow>
     s = DisconnectedAuthFailed \<or> s = DisconnectedBanned \<or> s = PausedIdle \<or> s = Stopped"

definition IsParkable :: "UpstreamState \<Rightarrow> bool" where
  "IsParkable s \<longleftrightarrow> s = DisconnectedByUser \<or> s = DisconnectedNickInvalid"

section \<open>The machine\<close>

record UpstreamStateChange =
  From :: UpstreamState
  To :: UpstreamState
  At :: instant
  ServerReason :: string

text \<open>\<open>entered\<close> is a ghost: the states entered so far, in order, which is what a subscriber of the machine sees.\<close>

record UpstreamStateMachine =
  state :: UpstreamState
  enteredAt :: instant
  serverReason :: string
  nextSubID :: nat
  subscribers :: "nat \<rightharpoonup> string"
  entered :: "UpstreamState list"

definition NewUpstreamStateMachine :: "instant \<Rightarrow> UpstreamStateMachine" where
  "NewUpstreamStateMachine now =
     \<lparr>state = Idle, enteredAt = now, serverReason = [], nextSubID = 0, subscribers = Map.empty,
      entered = []\<rparr>"

definition DurationIn :: "instant \<Rightarrow> UpstreamStateMachine \<Rightarrow> duration" where
  "DurationIn now m = now - enteredAt m"

text \<open>\<^verbatim>\<open>Subscribe(nil)\<close> gives a handle on no machine, \<open>None\<close>; a real handler gets the next identifier.\<close>

definition Subscribe :: "string option \<Rightarrow> UpstreamStateMachine \<Rightarrow> UpstreamStateMachine \<times> nat option" where
  "Subscribe fn m =
     (case fn of
        None \<Rightarrow> (m, None)
      | Some h \<Rightarrow>
          (let i = Suc (nextSubID m)
           in (m\<lparr>nextSubID := i, subscribers := (subscribers m)(i \<mapsto> h)\<rparr>, Some i)))"

definition Unsubscribe :: "nat option \<Rightarrow> UpstreamStateMachine \<Rightarrow> UpstreamStateMachine" where
  "Unsubscribe sub m =
     (case sub of None \<Rightarrow> m | Some i \<Rightarrow> m\<lparr>subscribers := (subscribers m)(i := None)\<rparr>)"

definition Transition ::
  "instant \<Rightarrow> nat list \<Rightarrow> UpstreamState \<Rightarrow> string \<Rightarrow> UpstreamStateMachine \<Rightarrow>
     UpstreamStateMachine \<times> (nat \<times> UpstreamStateChange) list" where
  "Transition now ord to reason m =
     (let from = state m
      in if from = to then (m, [])
         else (m\<lparr>state := to, enteredAt := now, serverReason := reason, entered := entered m @ [to]\<rparr>,
               map (\<lambda>i. (i, \<lparr>From = from, To = to, At = now, ServerReason = reason\<rparr>))
                 (filter (\<lambda>i. subscribers m i \<noteq> None) ord)))"

section \<open>Classification\<close>

text \<open>The kinds of error the code tells apart with \<^verbatim>\<open>errors.As\<close> and \<^verbatim>\<open>errors.Is\<close>, and any other. An error is
  its kind and its text; wrapping with \<^verbatim>\<open>%w\<close> keeps the kind and extends the text.\<close>

datatype go_error =
    NetError | Eof | UnexpectedEof | NetClosed | Epipe | ConnReset | ConnRefused
  | CtxCanceled | CtxDeadline | OtherError

type_synonym err = "go_error \<times> string"

definition wrap :: "string \<Rightarrow> err \<Rightarrow> err" where
  "wrap pre e = (fst e, pre @ '': '' @ snd e)"

definition errorf :: "string \<Rightarrow> err" where
  "errorf text = (OtherError, text)"

definition ClassifyError :: "go_error option \<Rightarrow> UpstreamState option" where
  "ClassifyError err =
     (case err of
        None \<Rightarrow> None
      | Some e \<Rightarrow>
          (if e = NetError then Some DisconnectedTransient
           else if e \<in> {Eof, UnexpectedEof, NetClosed, Epipe, ConnReset, ConnRefused}
           then Some DisconnectedTransient
           else Some DisconnectedTransient))"

definition ClassifyNumeric :: "string \<Rightarrow> UpstreamState option" where
  "ClassifyNumeric numeric =
     (if numeric = ErrNickNameInUse then Some DisconnectedNickUnavailable
      else if numeric = ErrErroneusNickname \<or> numeric = ErrUnavailResource
      then Some DisconnectedNickInvalid
      else if numeric = ErrPasswdMismatch \<or> numeric = ErrSaslFail \<or> numeric = ErrSaslTooLong
      then Some DisconnectedAuthFailed
      else if numeric = ErrYoureBannedCreep then Some DisconnectedBanned
      else None)"

definition banPatterns :: "string list" where
  "banPatterns =
     [''k-lined'', ''k:lined'', ''g-lined'', ''z-lined'', ''user has been banned'',
      ''you are not welcome'', ''glined'', ''klined'']"

text \<open>\<open>None\<close> stands for \<^verbatim>\<open>ok = false\<close>: the line is no \<^verbatim>\<open>ERROR\<close>.\<close>

definition ParseERRORLine :: "string \<Rightarrow> string option" where
  "ParseERRORLine line =
     (let msg = Parse line
      in if \<not> equal_fold (Command msg) ''ERROR'' then None
         else let body = Trailing msg
              in if body = [] then Some []
                 else case last_index_byte (CHR ''('') body of
                        None \<Rightarrow> Some (trim_space body)
                      | Some opn \<Rightarrow>
                          (case last_index_byte (CHR '')'') body of
                             None \<Rightarrow> Some (trim_space body)
                           | Some cls \<Rightarrow>
                               (if cls > opn
                                then Some (trim_space (take (cls - Suc opn) (drop (Suc opn) body)))
                                else Some (trim_space body))))"

definition ClassifyBanReason :: "string \<Rightarrow> UpstreamState option" where
  "ClassifyBanReason reason =
     (if reason = [] then None
      else if list_ex (\<lambda>p. contains (to_lower reason) p) banPatterns then Some DisconnectedBanned
      else None)"

definition ClassifyDisconnectMessage :: "string \<Rightarrow> (UpstreamState \<times> string) option" where
  "ClassifyDisconnectMessage line =
     (case ParseERRORLine line of
        None \<Rightarrow> None
      | Some reason \<Rightarrow>
          (case ClassifyBanReason reason of
             Some st \<Rightarrow> Some (st, reason)
           | None \<Rightarrow> Some (DisconnectedTransient, reason)))"

section \<open>What attached clients see\<close>

definition DescribeUpstreamState :: "UpstreamState \<Rightarrow> string \<Rightarrow> string \<Rightarrow> string" where
  "DescribeUpstreamState st networkName reason =
     (let network = (if networkName = [] then ''the network'' else networkName);
          reasonSuffix = (if reason \<noteq> [] then '': '' @ reason else [])
      in case st of
           Registered \<Rightarrow> []
         | Idle \<Rightarrow> ''Connector not yet started '' @ em_dash @
             '' waiting for first network connect attempt.''
         | Connecting \<Rightarrow> ''Currently connecting to '' @ network @
             ''. Channels will appear when registration completes.''
         | Registering \<Rightarrow> ''Currently connecting to '' @ network @
             ''. Channels will appear when registration completes.''
         | DisconnectedTransient \<Rightarrow> ''Currently disconnected from '' @ network @ reasonSuffix @
             ''. Reconnecting; messages sent now will NOT be delivered.''
         | DisconnectedNickUnavailable \<Rightarrow> ''Nickname taken on '' @ network @ '' '' @ em_dash @
             '' connecting under a temporary alternate and reclaiming it when it frees. Channels will appear when registration completes.''
         | DisconnectedNickInvalid \<Rightarrow> ''Nickname can't be used on '' @ network @ reasonSuffix @
             ''. Pick a different nickname to connect '' @ em_dash @ '' it's invalid or reserved on this network.''
         | DisconnectedByUser \<Rightarrow> ''Disconnected from '' @ network @
             '' at your request. Reconnect to rejoin '' @ em_dash @ '' messages sent now will NOT be delivered.''
         | DisconnectedAuthFailed \<Rightarrow> ''Authentication failed for '' @ network @ reasonSuffix @
             ''. Automatic reconnect stopped '' @ em_dash @ '' update credentials and restart the connector.''
         | DisconnectedBanned \<Rightarrow> ''Banned from '' @ network @ reasonSuffix @
             ''. Automatic reconnect stopped '' @ em_dash @ '' manual intervention required.''
         | PausedIdle \<Rightarrow> ''Connector paused after extended unreachability. Restart to retry.''
         | Stopped \<Rightarrow> ''Connector stopped.'')"

definition SeverityForUpstreamState :: "UpstreamState \<Rightarrow> string" where
  "SeverityForUpstreamState st =
     (case st of
        Registered \<Rightarrow> ''info''
      | DisconnectedByUser \<Rightarrow> ''info''
      | Connecting \<Rightarrow> ''warning''
      | Registering \<Rightarrow> ''warning''
      | DisconnectedTransient \<Rightarrow> ''warning''
      | DisconnectedNickUnavailable \<Rightarrow> ''warning''
      | DisconnectedAuthFailed \<Rightarrow> ''error''
      | DisconnectedBanned \<Rightarrow> ''error''
      | DisconnectedNickInvalid \<Rightarrow> ''error''
      | PausedIdle \<Rightarrow> ''error''
      | Stopped \<Rightarrow> ''error''
      | Idle \<Rightarrow> [])"

section \<open>Lemmas\<close>

lemma state_str_inject: "state_str s = state_str t \<longleftrightarrow> s = t"
  by (cases s; cases t) simp_all

lemma terminal_exclusive: "IsTerminal s \<Longrightarrow> \<not> IsRecoverable s \<and> \<not> IsParkable s"
  by (auto simp: IsTerminal_def IsRecoverable_def IsParkable_def)

lemma recoverable_exclusive: "IsRecoverable s \<Longrightarrow> \<not> IsParkable s"
  by (auto simp: IsRecoverable_def IsParkable_def)

lemma severity_error: "SeverityForUpstreamState s = ''error'' \<longleftrightarrow> IsTerminal s \<or> s = DisconnectedNickInvalid"
  by (cases s) (simp_all add: SeverityForUpstreamState_def IsTerminal_def)

lemma ClassifyError_recoverable: "ClassifyError e = Some s \<Longrightarrow> IsRecoverable s"
  by (auto simp: ClassifyError_def IsRecoverable_def split: option.splits if_splits)

lemma ClassifyNumeric_no_live:
  "ClassifyNumeric n = Some s \<Longrightarrow> IsTerminal s \<or> IsParkable s \<or> s = DisconnectedNickUnavailable"
  by (auto simp: ClassifyNumeric_def IsTerminal_def IsParkable_def split: if_splits)

lemma last_index_byte_append: "c \<notin> set b \<Longrightarrow> last_index_byte c (a @ c # b) = Some (length a)"
  using index_byte_append [of c "rev b" "rev a"] by (simp add: last_index_byte_def)

text \<open>The changes one subscriber is told over a run of transitions.\<close>

fun transitions ::
  "(instant \<times> nat list \<times> UpstreamState \<times> string) list \<Rightarrow> UpstreamStateMachine \<Rightarrow>
     UpstreamStateMachine \<times> (nat \<times> UpstreamStateChange) list" where
  "transitions [] m = (m, [])"
| "transitions ((now, ord, to, reason) # xs) m =
     (let (m1, ds) = Transition now ord to reason m;
          (m2, es) = transitions xs m1
      in (m2, ds @ es))"

definition told :: "nat \<Rightarrow> (nat \<times> UpstreamStateChange) list \<Rightarrow> UpstreamStateChange list" where
  "told i ds = map snd (filter (\<lambda>d. fst d = i) ds)"

text \<open>A list of changes that leads from one state to another without a gap or a repetition.\<close>

fun leads :: "UpstreamState \<Rightarrow> UpstreamStateChange list \<Rightarrow> UpstreamState \<Rightarrow> bool" where
  "leads s [] t \<longleftrightarrow> s = t"
| "leads s (c # cs) t \<longleftrightarrow> From c = s \<and> To c \<noteq> s \<and> leads (To c) cs t"

lemma told_append [simp]: "told i (a @ b) = told i a @ told i b"
  by (simp add: told_def)

lemma told_ids: "distinct ord \<Longrightarrow> told i (map (\<lambda>i. (i, c)) ord) = (if i \<in> set ord then [c] else [])"
  by (induction ord) (auto simp: told_def)

lemma Transition_subscribers [simp]: "subscribers (fst (Transition now ord to r m)) = subscribers m"
  by (simp add: Transition_def Let_def)

lemma told_Transition:
  assumes "distinct ord" "set ord = dom (subscribers m)" "subscribers m i \<noteq> None"
  shows "told i (snd (Transition now ord to r m)) =
    (if state m = to then [] else [\<lparr>From = state m, To = to, At = now, ServerReason = r\<rparr>])"
proof -
  have "i \<in> set (filter (\<lambda>i. subscribers m i \<noteq> None) ord)" using assms(2,3) by auto
  moreover have "distinct (filter (\<lambda>i. subscribers m i \<noteq> None) ord)" using assms(1) by simp
  ultimately show ?thesis unfolding Transition_def Let_def
    by (simp add: told_ids del: set_filter) (simp add: told_def)
qed

section \<open>Properties\<close>



text \<open>Of the standard \<^verbatim>\<open>ERROR :Closing Link: who (reason)\<close> preamble the classifier takes exactly the
  parenthesised reason, whatever \<^verbatim>\<open>who\<close> holds, and answers \<^const>\<open>DisconnectedBanned\<close> if the reason
  contains a ban pattern in any case, \<^const>\<open>DisconnectedTransient\<close> if not; never another state.\<close>

theorem closing_link_classified:
  assumes "CHR ''('' \<notin> set reason" "CHR '')'' \<notin> set reason"
  shows "ClassifyDisconnectMessage (FormatCommand ''ERROR'' [] (''Closing Link: '' @ who @ '' ('' @ reason @ '')'') True) =
    Some (if trim_space reason \<noteq> [] \<and> (\<exists>p\<in>set banPatterns. contains (to_lower (trim_space reason)) p)
          then DisconnectedBanned else DisconnectedTransient, trim_space reason)"
proof -
  let ?h = "''Closing Link: '' @ who @ '' ''"
  let ?b = "''Closing Link: '' @ who @ '' ('' @ reason @ '')''"
  have "wf_command ''ERROR''"
    by (simp add: wf_command_def wf_param_def wf_word_def is_space_def to_upper_def upper_char_def)
  moreover have "wf_trailing ?b" by (simp add: wf_trailing_def crlf_def)
  ultimately have p: "Command (Parse (FormatCommand ''ERROR'' [] ?b True)) = ''ERROR''"
    "Trailing (Parse (FormatCommand ''ERROR'' [] ?b True)) = ?b"
    using Parse_FormatCommand_bare [of "''ERROR''" "[]" ?b True] by simp_all
  have o: "last_index_byte (CHR ''('') ?b = Some (length ?h)"
    using last_index_byte_append [of "CHR ''(''" "reason @ '')''" ?h] assms by simp
  have c: "last_index_byte (CHR '')'') ?b = Some (length ?h + Suc (length reason))"
    using last_index_byte_append [of "CHR '')''" "[]" "?h @ ''('' @ reason"] by simp
  have "ParseERRORLine (FormatCommand ''ERROR'' [] ?b True) = Some (trim_space reason)"
    unfolding ParseERRORLine_def Let_def p o c by simp
  then show ?thesis
    by (simp add: ClassifyDisconnectMessage_def ClassifyBanReason_def list_ex_iff)
qed

end
