(* ===== verification/Wanted.thy ===== *)
theory Wanted
  imports Registry
begin

text \<open>
  \<^verbatim>\<open>internal/connector/irc/wanted.go\<close>: the channels the bot wants to be in, with their keys, replayed
  as JOINs after every reconnect; and the parser of JOIN lines that feeds it. \<open>Add\<close> and \<open>Remove\<close> also
  return whether the change callback fires.
\<close>

record WantedChannel =
  wc_Name :: string
  Key :: string

record WantedChannels =
  channels :: "string \<rightharpoonup> WantedChannel"
  order :: "string list"
  onChange :: bool

definition Add :: "string \<Rightarrow> string \<Rightarrow> WantedChannels \<Rightarrow> WantedChannels \<times> bool" where
  "Add name0 key w =
     (let name = trim_space name0
      in if name = [] then (w, False)
         else let lc = to_lower name;
                  (w, changed) =
                    (case channels w lc of
                       Some existing \<Rightarrow>
                         (if key \<noteq> [] \<and> Key existing \<noteq> key
                          then (w\<lparr>channels := (channels w)(lc \<mapsto> existing\<lparr>Key := key\<rparr>)\<rparr>, True)
                          else (w, False))
                     | None \<Rightarrow>
                         (w\<lparr>channels := (channels w)(lc \<mapsto> \<lparr>wc_Name = name, Key = key\<rparr>),
                            order := order w @ [lc]\<rparr>, True))
              in (w, changed \<and> onChange w))"

definition Remove :: "string \<Rightarrow> WantedChannels \<Rightarrow> WantedChannels \<times> bool" where
  "Remove name0 w =
     (let name = trim_space name0
      in if name = [] then (w, False)
         else let lc = to_lower name
              in if channels w lc = None then (w, False)
                 else (w\<lparr>channels := (channels w)(lc := None), order := remove1 lc (order w)\<rparr>, onChange w))"

definition SetOnChange :: "bool \<Rightarrow> WantedChannels \<Rightarrow> WantedChannels" where
  "SetOnChange fn w = w\<lparr>onChange := fn\<rparr>"

definition NewWantedChannels :: "string list \<Rightarrow> WantedChannels" where
  "NewWantedChannels seed =
     fold (\<lambda>name w. fst (Add name [] w)) seed \<lparr>channels = Map.empty, order = [], onChange = False\<rparr>"

definition Get :: "WantedChannels \<Rightarrow> string \<Rightarrow> WantedChannel option" where
  "Get w name = channels w (to_lower (trim_space name))"

definition zero_channel :: WantedChannel where
  "zero_channel = \<lparr>wc_Name = [], Key = []\<rparr>"

definition Snapshot :: "WantedChannels \<Rightarrow> WantedChannel list" where
  "Snapshot w = map (\<lambda>lc. case channels w lc of Some e \<Rightarrow> e | None \<Rightarrow> zero_channel) (order w)"

definition Len :: "WantedChannels \<Rightarrow> nat" where
  "Len w = length (order w)"

section \<open>JOIN lines\<close>

definition splitAndTrim :: "string \<Rightarrow> char \<Rightarrow> string list" where
  "splitAndTrim s sep =
     (if s = [] then [] else filter (\<lambda>p. p \<noteq> []) (map trim_space (split_byte sep s)))"

definition splitPositional :: "string \<Rightarrow> char \<Rightarrow> string list" where
  "splitPositional s sep = (if s = [] then [] else map trim_space (split_byte sep s))"

definition parseJoinLine :: "string list \<Rightarrow> string \<Rightarrow> string list \<times> string list" where
  "parseJoinLine params trailing =
     (let (target, keyList) =
            (case params of
               [] \<Rightarrow> (trim_space trailing, [])
             | [p] \<Rightarrow> (trim_space p, trim_space trailing)
             | p # k # _ \<Rightarrow> (trim_space p, trim_space k))
      in if target = [] then ([], [])
         else let chans = splitAndTrim target (CHR '','');
                  keys = splitPositional keyList (CHR '','');
                  keys = keys @ replicate (length chans - length keys) [];
                  keys = (if length keys > length chans then take (length chans) keys else keys)
              in (chans, keys))"

section \<open>The invariant, and the registry laws\<close>

definition wanted_inv :: "WantedChannels \<Rightarrow> bool" where
  "wanted_inv w \<longleftrightarrow>
     distinct (order w) \<and> dom (channels w) = set (order w) \<and>
     (\<forall>k e. channels w k = Some e \<longrightarrow>
        wc_Name e \<noteq> [] \<and> to_lower (wc_Name e) = k \<and> trim_space (wc_Name e) = wc_Name e)"

lemma trim_space_idem [simp]: "trim_space (trim_space s) = trim_space s"
proof -
  have "trim_left is_space (trim_space s) = trim_space s"
  proof (rule trim_left_id)
    let ?l = "trim_left is_space s"
    have l: "?l = [] \<or> \<not> is_space (hd ?l)"
      using hd_dropWhile [of is_space s] by (auto simp: trim_left_def)
    have "prefix (trim_space s) ?l"
      unfolding trim_space_def trim_right_def
      by (metis rev_rev_ident suffix_dropWhile suffix_to_prefix)
    then show "trim_space s = [] \<or> \<not> is_space (hd (trim_space s))"
      using l by (cases ?l; cases "trim_space s") auto
  qed
  then show ?thesis by (metis trim_right_idem trim_space_def)
qed

lemma wanted_key: "wanted_inv w \<Longrightarrow> channels w k \<noteq> None \<longleftrightarrow> k \<in> set (order w)"
  by (auto simp: wanted_inv_def)

lemma wanted_inv_Add [inv_intros]: "wanted_inv w \<Longrightarrow> wanted_inv (fst (Add n k w))"
  by (auto simp: wanted_inv_def Add_def Let_def split: option.split)

lemma wanted_inv_Remove [inv_intros]: "wanted_inv w \<Longrightarrow> wanted_inv (fst (Remove n w))"
  by (auto simp: wanted_inv_def Remove_def Let_def set_remove1_eq)

lemma wanted_inv_SetOnChange [inv_intros]: "wanted_inv w \<Longrightarrow> wanted_inv (SetOnChange f w)"
  by (simp add: wanted_inv_def SetOnChange_def)

lemma wanted_inv_fold: "wanted_inv w \<Longrightarrow> wanted_inv (fold (\<lambda>n w. fst (Add n [] w)) seed w)"
  by (induction seed arbitrary: w) (auto intro: inv_intros)

lemma wanted_inv_New [inv_intros]: "wanted_inv (NewWantedChannels seed)"
  unfolding NewWantedChannels_def by (rule wanted_inv_fold) (simp add: wanted_inv_def)

lemma order_Add:
  assumes "wanted_inv w"
  shows "order (fst (Add n k w)) =
    (if trim_space n \<noteq> [] \<and> to_lower (trim_space n) \<notin> set (order w)
     then order w @ [to_lower (trim_space n)] else order w)"
  using wanted_key [OF assms, of "to_lower (trim_space n)"]
  by (auto simp: Add_def Let_def split: option.split)

lemma order_Remove:
  assumes "wanted_inv w"
  shows "order (fst (Remove n w)) =
    (if trim_space n \<noteq> [] then remove1 (to_lower (trim_space n)) (order w) else order w)"
  using wanted_key [OF assms, of "to_lower (trim_space n)"]
  by (auto simp: Remove_def Let_def remove1_idem)

interpretation wanted: registry "\<lambda>n. to_lower (trim_space n)" "\<lambda>n. trim_space n \<noteq> []" order Get wanted_inv
  "\<lambda>n w. fst (Add n k w)" "\<lambda>n w. fst (Remove n w)" for k
proof
  fix w :: WantedChannels and n :: string
  assume inv: "wanted_inv w"
  show "distinct (order w)" using inv by (simp add: wanted_inv_def)
  show "Get w n \<noteq> None \<longleftrightarrow> to_lower (trim_space n) \<in> set (order w)"
    using wanted_key [OF inv] by (simp add: Get_def)
  show "wanted_inv (fst (Add n k w))" "wanted_inv (fst (Remove n w))" using inv by (auto intro: inv_intros)
  show "order (fst (Add n k w)) =
      (if trim_space n \<noteq> [] \<and> to_lower (trim_space n) \<notin> set (order w)
       then order w @ [to_lower (trim_space n)] else order w)" by (rule order_Add [OF inv])
  show "order (fst (Remove n w)) =
      (if trim_space n \<noteq> [] then remove1 (to_lower (trim_space n)) (order w) else order w)"
    by (rule order_Remove [OF inv])
qed

section \<open>Properties\<close>

lemma Snapshot_names:
  assumes "wanted_inv w"
  shows "map (\<lambda>e. to_lower (wc_Name e)) (Snapshot w) = order w"
proof -
  have "to_lower (wc_Name (case channels w lc of Some e \<Rightarrow> e | None \<Rightarrow> zero_channel)) = lc"
    if "lc \<in> set (order w)" for lc
    using assms wanted_key [OF assms, of lc] that by (auto simp: wanted_inv_def)
  then show ?thesis by (simp add: Snapshot_def map_idI)
qed

definition run_wanted :: "reg_op list \<Rightarrow> WantedChannels \<Rightarrow> WantedChannels" where
  "run_wanted = fold (\<lambda>x w. case x of Join n \<Rightarrow> fst (Add n [] w) | Part n \<Rightarrow> fst (Remove n w))"

lemma run_wanted_eq: "run_wanted = fold (wanted.step [])"
  unfolding run_wanted_def wanted.step_def ..

text \<open>What the supervisor will rejoin after a reconnect. Whatever the seed list and the runtime JOINs
  and PARTs were, the replay list has no duplicates up to case, and a name is in it exactly when the last
  JOIN or PART that names it (up to case and blanks) was a JOIN, or none did and the seed had it.\<close>

theorem wanted_replay:
  "distinct (map (\<lambda>e. to_lower (wc_Name e)) (Snapshot (run_wanted ops (NewWantedChannels seed)))) \<and>
   (Get (run_wanted ops (NewWantedChannels seed)) n \<noteq> None) =
     decides (\<lambda>n. to_lower (trim_space n)) (\<lambda>n. trim_space n \<noteq> []) (to_lower (trim_space n))
       (Get (NewWantedChannels seed) n \<noteq> None) ops"
proof -
  let ?w = "run_wanted ops (NewWantedChannels seed)"
  have inv: "wanted_inv ?w" unfolding run_wanted_eq by (rule wanted.inv_run) (rule inv_intros)
  have "distinct (order ?w)" using inv by (simp add: wanted_inv_def)
  moreover have "(Get ?w n \<noteq> None) =
     decides (\<lambda>n. to_lower (trim_space n)) (\<lambda>n. trim_space n \<noteq> []) (to_lower (trim_space n))
       (Get (NewWantedChannels seed) n \<noteq> None) ops"
    unfolding run_wanted_eq by (rule wanted.look_run) (rule inv_intros)
  ultimately show ?thesis unfolding Snapshot_names [OF inv] by blast
qed

lemma Add_lookup:
  assumes "trim_space n \<noteq> []"
  shows "Get (fst (Add n k w)) n =
    (case Get w n of
       None \<Rightarrow> Some \<lparr>wc_Name = trim_space n, Key = k\<rparr>
     | Some e \<Rightarrow> Some (if k \<noteq> [] then e\<lparr>Key := k\<rparr> else e))"
  using assms by (auto simp: Get_def Add_def Let_def split: option.split)

lemma Add_fires:
  assumes "trim_space n \<noteq> []"
  shows "snd (Add n k w) \<longleftrightarrow>
    onChange w \<and> (case Get w n of None \<Rightarrow> True | Some e \<Rightarrow> k \<noteq> [] \<and> Key e \<noteq> k)"
  using assms by (auto simp: Get_def Add_def Let_def split: option.split)

lemma WantedChannel_eq_iff: "(e::WantedChannel) = f \<longleftrightarrow> wc_Name e = wc_Name f \<and> Key e = Key f"
  by (cases e; cases f) simp

lemma Add_other: "to_lower (trim_space m) \<noteq> to_lower (trim_space n) \<Longrightarrow> Get (fst (Add n k w)) m = Get w m"
  by (auto simp: Get_def Add_def Let_def split: option.split)

lemma Remove_other: "to_lower (trim_space m) \<noteq> to_lower (trim_space n) \<Longrightarrow> Get (fst (Remove n w)) m = Get w m"
  by (auto simp: Get_def Remove_def Let_def)

lemma echoes_keep:
  assumes "Get w n = Some e"
  shows "Get (fold (\<lambda>m w. fst (Add m [] w)) echoes w) n = Some e"
  using assms
proof (induction echoes arbitrary: w)
  case Nil
  then show ?case by simp
next
  case (Cons m ms)
  have "Get (fst (Add m [] w)) n = Some e"
  proof (cases "to_lower (trim_space n) = to_lower (trim_space m)")
    case True
    then have "Get w m = Some e" using Cons.prems by (simp add: Get_def)
    then have "Get (fst (Add m [] w)) m = Some e"
      using Add_lookup [of m "[]" w] by (cases "trim_space m = []") (simp_all add: Add_def)
    with True show ?thesis by (simp add: Get_def)
  next
    case False
    with Cons.prems show ?thesis by (simp add: Add_other)
  qed
  then show ?case using Cons.IH by simp
qed

text \<open>A channel key survives. After \<open>Add\<close> with a key, however many keyless JOIN echoes the server
  sends, the replay uses that key and the spelling of the first \<open>Add\<close>; and the callback fires exactly
  when the entry for the name changed.\<close>

theorem key_survives_echoes:
  assumes "trim_space n \<noteq> []" "k \<noteq> []"
  shows "Get (fold (\<lambda>m w. fst (Add m [] w)) echoes (fst (Add n k w))) n =
      Some \<lparr>wc_Name = (case Get w n of None \<Rightarrow> trim_space n | Some e \<Rightarrow> wc_Name e), Key = k\<rparr> \<and>
    (snd (Add n k w) \<longleftrightarrow> onChange w \<and> Get (fst (Add n k w)) n \<noteq> Get w n)"
proof
  have "Get (fst (Add n k w)) n = Some \<lparr>wc_Name = (case Get w n of None \<Rightarrow> trim_space n | Some e \<Rightarrow> wc_Name e), Key = k\<rparr>"
    using assms unfolding Add_lookup [OF assms(1)] by (simp split: option.split)
  then show "Get (fold (\<lambda>m w. fst (Add m [] w)) echoes (fst (Add n k w))) n =
      Some \<lparr>wc_Name = (case Get w n of None \<Rightarrow> trim_space n | Some e \<Rightarrow> wc_Name e), Key = k\<rparr>"
    by (rule echoes_keep)
  show "snd (Add n k w) \<longleftrightarrow> onChange w \<and> Get (fst (Add n k w)) n \<noteq> Get w n"
    unfolding Add_fires [OF assms(1)] Add_lookup [OF assms(1)] using assms(2)
    by (auto simp: WantedChannel_eq_iff split: option.split)
qed

lemma trim_space_word: "\<forall>c\<in>set w. \<not> is_space c \<Longrightarrow> trim_space w = w"
proof -
  assume w: "\<forall>c\<in>set w. \<not> is_space c"
  then have "trim_left is_space w = w" by (intro trim_left_id) (cases w; simp)
  moreover have "trim_right is_space w = w" using w by (intro trim_right_id) (cases w rule: rev_cases; simp)
  ultimately show ?thesis by (simp add: trim_space_def)
qed

lemma set_join_comma:
  assumes "\<forall>w\<in>set ws. \<forall>c\<in>set w. \<not> is_space c"
  shows "\<forall>c\<in>set (join '','' ws). \<not> is_space c"
proof
  fix c
  assume "c \<in> set (join '','' ws)"
  then have "c \<in> set '','' \<or> (\<exists>w\<in>set ws. c \<in> set w)" by (rule set_join)
  moreover have "\<not> is_space (CHR '','')" by (simp add: is_space_def)
  ultimately show "\<not> is_space c" using assms by auto
qed

definition list_word :: "string \<Rightarrow> bool" where
  "list_word w \<longleftrightarrow> (\<forall>c\<in>set w. \<not> is_space c \<and> c \<noteq> CHR '','')"

lemma split_join_words:
  assumes "\<forall>w\<in>set ws. list_word w"
  shows "splitPositional (join '','' ws) (CHR '','') = (if ws = [[]] then [] else ws)"
proof (cases "ws = [] \<or> ws = [[]]")
  case True
  then show ?thesis by (auto simp: splitPositional_def)
next
  case False
  have "split_byte (CHR '','') (join '','' ws) = ws"
    unfolding split_byte_def using assms False by (intro split_on_join) (auto simp: list_word_def)
  moreover have "map trim_space ws = ws"
    using assms by (intro map_idI trim_space_word) (auto simp: list_word_def)
  ultimately show ?thesis using False by (simp add: splitPositional_def)
qed

text \<open>The keys of a JOIN line stay with their channels. For a comma list of channels and one of keys,
  empty key slots included, the parser returns the channels as written and the keys at the same positions,
  padded with the empty key or cut to the number of channels.\<close>

theorem parseJoinLine_aligned:
  assumes "\<forall>c\<in>set chans. list_word c \<and> c \<noteq> []" "chans \<noteq> []" "\<forall>k\<in>set keys. list_word k"
  shows "parseJoinLine (join '','' chans # join '','' keys # rest) tr =
    (chans, map (\<lambda>i. if i < length keys then keys ! i else []) [0..<length chans])"
proof -
  have sp: "trim_space (join '','' ws) = join '','' ws" if "\<forall>w\<in>set ws. list_word w" for ws
    using that by (intro trim_space_word set_join_comma) (auto simp: list_word_def)
  have c: "splitAndTrim (join '','' chans) (CHR '','') = chans"
  proof -
    have "split_byte (CHR '','') (join '','' chans) = chans"
      unfolding split_byte_def using assms(1,2) by (intro split_on_join) (auto simp: list_word_def)
    moreover have "map trim_space chans = chans"
      using assms(1) by (intro map_idI trim_space_word) (auto simp: list_word_def)
    moreover have "chans \<noteq> [[]]" using assms(1) by auto
    ultimately show ?thesis using assms(1,2) by (auto simp: splitAndTrim_def filter_id_conv)
  qed
  have ne: "join '','' chans \<noteq> []" using assms(1,2) by auto
  let ?k = "if keys = [[]] then [] else keys"
  have k: "splitPositional (join '','' keys) (CHR '','') = ?k" using assms(3) by (rule split_join_words)
  have "take (length chans) (?k @ replicate (length chans - length ?k) []) =
      map (\<lambda>i. if i < length keys then keys ! i else []) [0..<length chans]"
    by (rule nth_equalityI) (auto simp: nth_append)
  then show ?thesis
    using ne sp [of chans] sp [of keys] assms(1,3) by (auto simp: parseJoinLine_def Let_def c k)
qed

text \<open>An empty slot in the channel list breaks the alignment: the channels are compacted, the keys are not.\<close>

lemma parseJoinLine_shifts:
  "parseJoinLine [''#a,,#b'', ''k1,,k2''] [] = ([''#a'', ''#b''], [''k1'', []])"
  by code_simp

end
