(* ===== verification/Windows.thy ===== *)
theory Windows
  imports Prelude
begin

text \<open>
  The sliding windows of the program. A component logs instants, drops those that have left the window
  when it next looks, and counts the rest. \<^verbatim>\<open>RateLimiter\<close> (failed bouncer passwords per address) and
  \<^verbatim>\<open>Throttle\<close> (commands per sender) of \<^verbatim>\<open>ratelimit.go\<close>, and \<^verbatim>\<open>reconnectStorm\<close> of \<^verbatim>\<open>reconnect_storm.go\<close>,
  all do this, with two different edges; the locale holds what they share. The clock is an argument of
  every operation.
\<close>

section \<open>The shared contract\<close>

locale sliding_window =
  fixes keep :: "instant \<Rightarrow> instant \<Rightarrow> bool"
  assumes keep_mono: "now \<le> later \<Longrightarrow> keep later t \<Longrightarrow> keep now t"
begin

text \<open>Dropping early loses nothing that a later look would have kept.\<close>

lemma prune_prune: "now \<le> later \<Longrightarrow> filter (keep later) (filter (keep now) ts) = filter (keep later) ts"
  by (auto intro!: filter_cong dest: keep_mono)

lemma count_mono:
  "now \<le> later \<Longrightarrow> length (filter (keep later) ts) \<le> length (filter (keep now) ts)"
  by (metis length_filter_le prune_prune)

text \<open>If every logged event found at most \<open>m\<close> events in its window, itself included, so does any instant.\<close>

definition within :: "nat \<Rightarrow> instant list \<Rightarrow> bool" where
  "within m ts \<longleftrightarrow> (\<forall>i<length ts. length (filter (keep (ts ! i)) (take (Suc i) ts)) \<le> m)"

lemma within_Nil: "within m []"
  by (simp add: within_def)

lemma within_snoc: "within m (ts @ [t]) \<longleftrightarrow> within m ts \<and> length (filter (keep t) (ts @ [t])) \<le> m"
  by (auto simp: within_def nth_append less_Suc_eq)

lemma quota: "within m ts \<Longrightarrow> sorted ts \<Longrightarrow> length (filter (\<lambda>t. keep now t \<and> t \<le> now) ts) \<le> m"
proof (induction ts rule: rev_induct)
  case Nil
  then show ?case by simp
next
  case (snoc t ts)
  show ?case
  proof (cases "t \<le> now")
    case True
    have "length (filter (\<lambda>t. keep now t \<and> t \<le> now) (ts @ [t])) \<le> length (filter (keep now) (ts @ [t]))"
      by (induction ts) auto
    also have "\<dots> \<le> length (filter (keep t) (ts @ [t]))" using True by (rule count_mono)
    also have "\<dots> \<le> m" using snoc.prems by (simp add: within_snoc)
    finally show ?thesis .
  next
    case False
    with snoc show ?thesis by (simp add: within_snoc sorted_append)
  qed
qed

end

definition after_cutoff :: "duration \<Rightarrow> instant \<Rightarrow> instant \<Rightarrow> bool" where
  "after_cutoff window now t \<longleftrightarrow> now - window < t"

definition not_before_cutoff :: "duration \<Rightarrow> instant \<Rightarrow> instant \<Rightarrow> bool" where
  "not_before_cutoff window now t \<longleftrightarrow> \<not> t < now - window"

section \<open>Failed passwords per address\<close>

record FailureResult =
  fr_Count :: nat
  Locked :: bool

record RateLimiter =
  MaxFailures :: int
  rl_Window :: duration
  Lockout :: duration
  failures :: "string \<rightharpoonup> instant list"
  lockedUntil :: "string \<rightharpoonup> instant"

definition NewRateLimiter :: "int \<Rightarrow> duration \<Rightarrow> duration \<Rightarrow> string + RateLimiter" where
  "NewRateLimiter maxFailures window lockout =
     (if maxFailures < 1 then Inl ''ratelimit: MaxFailures must be >= 1''
      else if window \<le> 0 then Inl ''ratelimit: Window must be > 0''
      else if lockout \<le> 0 then Inl ''ratelimit: Lockout must be > 0''
      else Inr \<lparr>MaxFailures = maxFailures, rl_Window = window, Lockout = lockout,
                failures = Map.empty, lockedUntil = Map.empty\<rparr>)"

definition TimeUntilUnlock :: "instant \<Rightarrow> string \<Rightarrow> RateLimiter \<Rightarrow> RateLimiter \<times> duration" where
  "TimeUntilUnlock now ip r =
     (case lockedUntil r ip of
        None \<Rightarrow> (r, 0)
      | Some until \<Rightarrow>
          (let remaining = until - now
           in if remaining \<le> 0 then (r\<lparr>lockedUntil := (lockedUntil r)(ip := None)\<rparr>, 0)
              else (r, remaining)))"

definition IsLocked :: "instant \<Rightarrow> string \<Rightarrow> RateLimiter \<Rightarrow> bool" where
  "IsLocked now ip r \<longleftrightarrow> snd (TimeUntilUnlock now ip r) > 0"

definition RecordSuccess :: "string \<Rightarrow> RateLimiter \<Rightarrow> RateLimiter" where
  "RecordSuccess ip r =
     r\<lparr>failures := (failures r)(ip := None), lockedUntil := (lockedUntil r)(ip := None)\<rparr>"

text \<open>A missing bucket reads as the nil slice.\<close>

definition bucket :: "(string \<rightharpoonup> instant list) \<Rightarrow> string \<Rightarrow> instant list" where
  "bucket m k = (case m k of None \<Rightarrow> [] | Some ts \<Rightarrow> ts)"

definition RecordFailure :: "instant \<Rightarrow> string \<Rightarrow> RateLimiter \<Rightarrow> RateLimiter \<times> FailureResult" where
  "RecordFailure now ip r =
     (let pruned = filter (not_before_cutoff (rl_Window r) now) (bucket (failures r) ip) @ [now];
          r = r\<lparr>failures := (failures r)(ip \<mapsto> pruned)\<rparr>;
          count = length pruned
      in if int count \<ge> MaxFailures r
         then (r\<lparr>lockedUntil := (lockedUntil r)(ip \<mapsto> now + Lockout r),
                 failures := (failures r)(ip := None)\<rparr>, \<lparr>fr_Count = count, Locked = True\<rparr>)
         else (r, \<lparr>fr_Count = count, Locked = False\<rparr>))"

section \<open>Events per sender\<close>

record Throttle =
  MaxPerWindow :: int
  th_Window :: duration
  events :: "string \<rightharpoonup> instant list"

record ThrottleResult =
  Allow :: bool
  RetryAfter :: duration

definition NewThrottle :: "int \<Rightarrow> duration \<Rightarrow> string + Throttle" where
  "NewThrottle maxPerWindow window =
     (if maxPerWindow < 1 then Inl ''throttle: MaxPerWindow must be >= 1''
      else if window \<le> 0 then Inl ''throttle: Window must be > 0''
      else Inr \<lparr>MaxPerWindow = maxPerWindow, th_Window = window, events = Map.empty\<rparr>)"

text \<open>The refusing branch reads \<^verbatim>\<open>pruned[0]\<close>, which exists because \<^verbatim>\<open>MaxPerWindow\<close> is at least 1.\<close>

definition AllowWithReason :: "instant \<Rightarrow> string \<Rightarrow> Throttle \<Rightarrow> Throttle \<times> ThrottleResult" where
  "AllowWithReason now key t =
     (let pruned = filter (not_before_cutoff (th_Window t) now) (bucket (events t) key)
      in if int (length pruned) \<ge> MaxPerWindow t
         then (t\<lparr>events := (events t)(key \<mapsto> pruned)\<rparr>,
               \<lparr>Allow = False, RetryAfter = pruned ! 0 + th_Window t - now\<rparr>)
         else (t\<lparr>events := (events t)(key \<mapsto> pruned @ [now])\<rparr>, \<lparr>Allow = True, RetryAfter = 0\<rparr>))"

section \<open>Reconnects per connector\<close>

definition defaultReconnectStormWindow :: duration where "defaultReconnectStormWindow = 10 * 60 * 10 ^ 9"
definition defaultReconnectStormMax :: int where "defaultReconnectStormMax = 6"
definition defaultReconnectStormCooldown :: duration where "defaultReconnectStormCooldown = 15 * 60 * 10 ^ 9"

record reconnectStorm =
  rs_window :: duration
  maxAttempts :: int
  cooldown :: duration
  attempts :: "instant list"

definition newReconnectStorm :: "duration \<Rightarrow> int \<Rightarrow> duration \<Rightarrow> reconnectStorm" where
  "newReconnectStorm window maxA cool = \<lparr>rs_window = window, maxAttempts = maxA, cooldown = cool, attempts = []\<rparr>"

definition storm_record :: "instant \<Rightarrow> reconnectStorm \<Rightarrow> reconnectStorm \<times> bool" where
  "storm_record now r =
     (if maxAttempts r \<le> 0 then (r, False)
      else let kept = filter (after_cutoff (rs_window r) now) (attempts r);
               r = r\<lparr>attempts := kept @ [now]\<rparr>
           in (r, int (length (attempts r)) > maxAttempts r))"

definition nextDelay :: "instant \<Rightarrow> duration \<Rightarrow> reconnectStorm \<Rightarrow> reconnectStorm \<times> duration" where
  "nextDelay now backoff r =
     (let (r, storm) = storm_record now r in (r, if storm then cooldown r else backoff))"

section \<open>The two edges satisfy the contract\<close>

interpretation closed_edge: sliding_window "not_before_cutoff w" for w
  by unfold_locales (auto simp: not_before_cutoff_def)

interpretation open_edge: sliding_window "after_cutoff w" for w
  by unfold_locales (auto simp: after_cutoff_def)

section \<open>Throttle: the quota\<close>

text \<open>A run of requests, keeping the ones that were let through.\<close>

definition throttle_step ::
  "instant \<times> string \<Rightarrow> Throttle \<times> (instant \<times> string) list \<Rightarrow> Throttle \<times> (instant \<times> string) list" where
  "throttle_step req st =
     (case (req, st) of ((now, key), (t, passed)) \<Rightarrow>
        (let (t, res) = AllowWithReason now key t
         in (t, if Allow res then passed @ [(now, key)] else passed)))"

definition times_of :: "string \<Rightarrow> (instant \<times> string) list \<Rightarrow> instant list" where
  "times_of key passed = map fst (filter (\<lambda>e. snd e = key) passed)"

lemma times_of_append [simp]: "times_of key (a @ b) = times_of key a @ times_of key b"
  by (simp add: times_of_def)

lemma times_of_single [simp]: "times_of key [(t, k)] = (if k = key then [t] else [])"
  by (simp add: times_of_def)

lemma times_of_Nil [simp]: "times_of key [] = []"
  by (simp add: times_of_def)

text \<open>The pruned buckets agree with the full history from the last request on, and the history keeps the quota.\<close>

definition throttle_inv :: "int \<Rightarrow> duration \<Rightarrow> instant \<Rightarrow> Throttle \<times> (instant \<times> string) list \<Rightarrow> bool" where
  "throttle_inv m w seen st \<longleftrightarrow>
     (case st of (t, passed) \<Rightarrow>
        MaxPerWindow t = m \<and> th_Window t = w \<and> sorted (map fst passed) \<and> (\<forall>e\<in>set passed. fst e \<le> seen) \<and>
        (\<forall>key. closed_edge.within w (nat m) (times_of key passed)) \<and>
        (\<forall>key now. seen \<le> now \<longrightarrow>
           filter (not_before_cutoff w now) (bucket (events t) key) =
           filter (not_before_cutoff w now) (times_of key passed)))"

lemma bucket_update [simp]: "bucket (m(k \<mapsto> ts)) k' = (if k' = k then ts else bucket m k')"
  by (simp add: bucket_def)

lemma bucket_delete [simp]: "bucket (m(k := None)) k' = (if k' = k then [] else bucket m k')"
  by (simp add: bucket_def)

lemma throttle_inv_step:
  assumes inv: "throttle_inv m w seen (t, passed)" and "seen \<le> now" "m \<ge> 1"
  shows "throttle_inv m w now (throttle_step (now, key) (t, passed))"
proof -
  let ?f = "not_before_cutoff w now"
  have mw: "MaxPerWindow t = m" "th_Window t = w" using inv by (auto simp: throttle_inv_def)
  have eq: "filter (not_before_cutoff w n) (bucket (events t) k) = filter (not_before_cutoff w n) (times_of k passed)"
    if "seen \<le> n" for k n using inv that by (auto simp: throttle_inv_def)
  have wi: "closed_edge.within w (nat m) (times_of k passed)" for k using inv by (auto simp: throttle_inv_def)
  have le: "\<forall>e\<in>set passed. fst e \<le> now" using inv assms(2) by (fastforce simp: throttle_inv_def)
  have so: "sorted (map fst passed)" using inv by (simp add: throttle_inv_def)
  have key: "filter ?f (bucket (events t) key) = filter ?f (times_of key passed)" using eq assms(2) .
  show ?thesis
  proof (cases "int (length (filter ?f (bucket (events t) key))) \<ge> m")
    case True
    then show ?thesis
      using assms(2) wi le so eq
      by (auto simp: throttle_inv_def throttle_step_def AllowWithReason_def Let_def mw closed_edge.prune_prune
          simp del: filter_filter)
  next
    case False
    have "length (filter ?f (times_of key passed @ [now])) \<le> nat m" using False key by auto
    then have "closed_edge.within w (nat m) (times_of k (passed @ [(now, key)]))" for k
      using wi [of k] by (cases "key = k") (simp_all add: closed_edge.within_snoc)
    moreover have "sorted (map fst (passed @ [(now, key)]))" using so le by (simp add: sorted_append)
    ultimately show ?thesis
      using assms(2) False le eq
      by (auto simp: throttle_inv_def throttle_step_def AllowWithReason_def Let_def mw closed_edge.prune_prune
          simp del: filter_filter)
  qed
qed

lemma throttle_inv_run:
  "throttle_inv m w seen st \<Longrightarrow> m \<ge> 1 \<Longrightarrow> sorted (seen # map fst reqs) \<Longrightarrow>
     \<exists>seen'. throttle_inv m w seen' (fold throttle_step reqs st)"
proof (induction reqs arbitrary: st seen)
  case Nil
  then show ?case by auto
next
  case (Cons r reqs)
  obtain now key where r: "r = (now, key)" by (cases r)
  obtain t passed where st: "st = (t, passed)" by (cases st)
  have "throttle_inv m w now (throttle_step r st)"
    unfolding r st using Cons.prems by (intro throttle_inv_step) (auto simp: r st)
  from Cons.IH [OF this] Cons.prems show ?case by (auto simp: r)
qed

text \<open>C34: the throttle holds its quota. Over any run of requests with a clock that does not go back, no
  window of length \<open>Window\<close> (closed at both ends) holds more than \<open>MaxPerWindow\<close> events let through for
  one sender, whatever the others send.\<close>

theorem throttle_quota:
  assumes "NewThrottle m w = Inr t" "sorted (map fst reqs)"
  shows "length (filter (\<lambda>e. snd e = key \<and> now - w \<le> fst e \<and> fst e \<le> now)
    (snd (fold throttle_step reqs (t, [])))) \<le> nat m"
proof (cases reqs)
  case Nil
  then show ?thesis by simp
next
  case (Cons r rs)
  let ?st = "fold throttle_step reqs (t, [])"
  have m: "m \<ge> 1" using assms(1) by (auto simp: NewThrottle_def split: if_splits)
  have "throttle_inv m w (fst r) (t, [])"
    using assms(1) by (auto simp: throttle_inv_def NewThrottle_def bucket_def closed_edge.within_Nil split: if_splits)
  moreover have "sorted (fst r # map fst reqs)" using assms(2) by (auto simp: Cons)
  ultimately obtain l where "throttle_inv m w l ?st" using throttle_inv_run [OF _ m] by blast
  then have wi: "closed_edge.within w (nat m) (times_of key (snd ?st))" and so: "sorted (map fst (snd ?st))"
    by (auto simp: throttle_inv_def split: prod.splits)
  have "sorted (times_of key (snd ?st))" unfolding times_of_def using so by (rule sorted_filter)
  from closed_edge.quota [OF wi this, of now]
  show ?thesis by (simp add: times_of_def filter_map o_def not_before_cutoff_def conj_commute not_less)
qed

theorem throttle_quota_witness:
  "length (filter (\<lambda>e. snd e = ''a'' \<and> (11::int) - 10 \<le> fst e \<and> fst e \<le> 11)
     (snd (fold throttle_step [(1, ''a''), (2, ''b''), (3, ''a''), (4, ''a''), (12, ''a'')]
       (\<lparr>MaxPerWindow = 2, th_Window = 10, events = Map.empty\<rparr>, [])))) \<le> 2"
proof -
  have "NewThrottle 2 10 = Inr \<lparr>MaxPerWindow = 2, th_Window = 10, events = Map.empty\<rparr>"
    by (simp add: NewThrottle_def)
  from throttle_quota [OF this, of "[(1, ''a''), (2, ''b''), (3, ''a''), (4, ''a''), (12, ''a'')]" "''a''" 11]
  show ?thesis by simp
qed

lemma Allow_iff:
  "Allow (snd (AllowWithReason now key t)) \<longleftrightarrow>
     int (length (filter (not_before_cutoff (th_Window t) now) (bucket (events t) key))) < MaxPerWindow t"
  by (auto simp: AllowWithReason_def Let_def)

text \<open>What \<^verbatim>\<open>RetryAfter\<close> tells a refused sender. It lies between 0 and the window; until then every
  retry is refused again, one at exactly the announced time included; the first instant after it is let
  through. It is 0, not positive, when the oldest event sits on the edge of the window.\<close>

theorem retry_after_exact:
  assumes "MaxPerWindow t \<ge> 1" "sorted (bucket (events t) key)" "\<forall>ts\<in>set (bucket (events t) key). ts \<le> now"
    and "int (length (bucket (events t) key)) \<le> MaxPerWindow t" "th_Window t \<ge> 0"
    and "AllowWithReason now key t = (t', res)" "\<not> Allow res"
  shows "0 \<le> RetryAfter res \<and> RetryAfter res \<le> th_Window t \<and>
    (\<forall>later. now \<le> later \<longrightarrow>
       (Allow (snd (AllowWithReason later key t')) \<longleftrightarrow> later > now + RetryAfter res))"
proof -
  let ?w = "th_Window t"
  let ?b = "bucket (events t) key"
  let ?p = "filter (not_before_cutoff ?w now) ?b"
  have full: "int (length ?p) \<ge> MaxPerWindow t" and t': "t' = t\<lparr>events := (events t)(key \<mapsto> ?p)\<rparr>"
    and ra: "RetryAfter res = ?p ! 0 + ?w - now"
    using assms(6,7) by (auto simp: AllowWithReason_def Let_def split: if_splits)
  have "length ?p = length ?b" using full assms(4) length_filter_le [of "not_before_cutoff ?w now" ?b] by linarith
  then have pb: "?p = ?b" by (metis filter_id_conv length_filter_less nat_less_le)
  obtain x xs where b: "?b = x # xs" using full assms(1) pb by (cases ?b) auto
  have "x \<in> set ?p" unfolding pb by (simp add: b)
  then have "not_before_cutoff ?w now x" unfolding set_filter by blast
  then have x: "now - ?w \<le> x" "x \<le> now" using b assms(3) by (auto simp: not_before_cutoff_def)
  have keep: "int (length (filter (not_before_cutoff ?w later) ?b)) \<ge> MaxPerWindow t \<longleftrightarrow> later - ?w \<le> x" for later
  proof
    assume "later - ?w \<le> x"
    then have "\<forall>ts\<in>set ?b. not_before_cutoff ?w later ts" using assms(2) b by (auto simp: not_before_cutoff_def)
    then show "int (length (filter (not_before_cutoff ?w later) ?b)) \<ge> MaxPerWindow t" using full pb by simp
  next
    assume l: "int (length (filter (not_before_cutoff ?w later) ?b)) \<ge> MaxPerWindow t"
    show "later - ?w \<le> x"
    proof (rule ccontr)
      assume "\<not> later - ?w \<le> x"
      then have "filter (not_before_cutoff ?w later) ?b = filter (not_before_cutoff ?w later) xs"
        by (simp add: b not_before_cutoff_def)
      then have "length (filter (not_before_cutoff ?w later) ?b) \<le> length xs" by simp
      then show False using l assms(4) b by simp
    qed
  qed
  have "Allow (snd (AllowWithReason later key t')) \<longleftrightarrow> \<not> (later - ?w \<le> x)" for later
    unfolding Allow_iff t' using keep [of later] pb by (simp add: not_le [symmetric])
  moreover have "RetryAfter res = x + ?w - now" using ra unfolding pb by (simp add: b)
  ultimately show ?thesis using x by (simp add: not_le algebra_simps)
qed

section \<open>RateLimiter: the lockout\<close>

text \<open>What the limiter promises, with the whole history of each address kept: a failure locks when the
  failures of the last \<open>Window\<close> reach the limit, and a lock starts a new history.\<close>

definition spec_failure ::
  "int \<Rightarrow> duration \<Rightarrow> instant \<times> string \<Rightarrow> (string \<Rightarrow> instant list) \<Rightarrow> (string \<Rightarrow> instant list) \<times> bool" where
  "spec_failure m w ev hist =
     (case ev of (now, ip) \<Rightarrow>
        (let h = hist ip @ [now];
             locks = m \<le> int (length (filter (\<lambda>t. now - w \<le> t) h))
         in (hist(ip := if locks then [] else h), locks)))"

definition sim_failures :: "duration \<Rightarrow> instant \<Rightarrow> RateLimiter \<Rightarrow> (string \<Rightarrow> instant list) \<Rightarrow> bool" where
  "sim_failures w seen r hist \<longleftrightarrow>
     (\<forall>ip now. seen \<le> now \<longrightarrow>
        filter (not_before_cutoff w now) (bucket (failures r) ip) = filter (not_before_cutoff w now) (hist ip))"

text \<open>C30: \<open>RecordFailure\<close>, which forgets failures that left the window, refines the specification that
  forgets nothing: from related states it locks exactly when the specification does, for exactly
  \<open>Lockout\<close>, leaves the locks of other addresses alone, and the states stay related.\<close>

theorem RecordFailure_refines:
  assumes "sim_failures (rl_Window r) seen r hist" "seen \<le> now" "0 \<le> rl_Window r"
  shows "Locked (snd (RecordFailure now ip r)) = snd (spec_failure (MaxFailures r) (rl_Window r) (now, ip) hist) \<and>
    sim_failures (rl_Window r) now (fst (RecordFailure now ip r))
      (fst (spec_failure (MaxFailures r) (rl_Window r) (now, ip) hist)) \<and>
    lockedUntil (fst (RecordFailure now ip r)) =
      (if Locked (snd (RecordFailure now ip r)) then (lockedUntil r)(ip \<mapsto> now + Lockout r) else lockedUntil r)"
proof -
  let ?w = "rl_Window r"
  let ?f = "not_before_cutoff ?w now"
  have eq: "filter (not_before_cutoff ?w n) (bucket (failures r) k) = filter (not_before_cutoff ?w n) (hist k)"
    if "seen \<le> n" for k n using assms(1) that by (simp add: sim_failures_def)
  have f: "?f = (\<lambda>t. now - ?w \<le> t)" by (auto simp: not_before_cutoff_def fun_eq_iff)
  have c: "length (filter (\<lambda>t. now - ?w \<le> t) (hist ip @ [now])) = Suc (length (filter ?f (bucket (failures r) ip)))"
    using assms(3) eq [OF assms(2), of ip] by (simp add: f)
  show ?thesis
  proof (cases "MaxFailures r \<le> int (Suc (length (filter ?f (bucket (failures r) ip))))")
    case True
    then show ?thesis using c assms(2) eq
      by (auto simp: RecordFailure_def spec_failure_def Let_def sim_failures_def)
  next
    case False
    have "filter (not_before_cutoff ?w n) (filter ?f (bucket (failures r) ip) @ [now]) =
        filter (not_before_cutoff ?w n) (hist ip @ [now])" if "now \<le> n" for n
      using closed_edge.prune_prune [OF that, of ?w "bucket (failures r) ip"] eq [of n ip] that assms(2)
      by (simp del: filter_filter)
    with False c assms(2) eq show ?thesis
      by (auto simp: RecordFailure_def spec_failure_def Let_def sim_failures_def simp del: filter_filter)
  qed
qed

theorem RecordFailure_refines_witness:
  "Locked (snd (RecordFailure 7 ''ip'' \<lparr>MaxFailures = 2, rl_Window = 10, Lockout = 5,
     failures = [''ip'' \<mapsto> [3]], lockedUntil = Map.empty\<rparr>))"
proof -
  let ?r = "\<lparr>MaxFailures = 2, rl_Window = 10, Lockout = 5, failures = [''ip'' \<mapsto> [3]], lockedUntil = Map.empty\<rparr>"
  have "sim_failures (rl_Window ?r) 3 ?r (\<lambda>k. if k = ''ip'' then [-20, 3] else [])"
    by (auto simp: sim_failures_def bucket_def not_before_cutoff_def)
  from RecordFailure_refines [OF this, of 7 "''ip''"] show ?thesis by (simp add: spec_failure_def)
qed

lemma lock_expires:
  "lockedUntil r ip = Some until \<Longrightarrow> IsLocked now ip r \<longleftrightarrow> now < until"
  by (auto simp: IsLocked_def TimeUntilUnlock_def Let_def)

lemma success_clears: "\<not> IsLocked now ip (RecordSuccess ip r) \<and> bucket (failures (RecordSuccess ip r)) ip = []"
  by (simp add: IsLocked_def TimeUntilUnlock_def RecordSuccess_def bucket_def)

section \<open>The reconnect storm breaker\<close>

text \<open>A run of reconnect attempts at the given times, keeping the ones that were not sent to cool down.\<close>

definition storm_step :: "instant \<Rightarrow> reconnectStorm \<times> instant list \<Rightarrow> reconnectStorm \<times> instant list" where
  "storm_step now st =
     (let (r, storm) = storm_record now (fst st) in (r, if storm then snd st else snd st @ [now]))"

definition storm_inv :: "int \<Rightarrow> duration \<Rightarrow> instant \<Rightarrow> reconnectStorm \<times> instant list \<Rightarrow> bool" where
  "storm_inv m w seen st \<longleftrightarrow>
     maxAttempts (fst st) = m \<and> rs_window (fst st) = w \<and> sorted (snd st) \<and> (\<forall>t\<in>set (snd st). t \<le> seen) \<and>
     open_edge.within w (nat m) (snd st) \<and>
     (\<forall>now \<ge> seen. length (filter (after_cutoff w now) (snd st)) \<le> length (filter (after_cutoff w now) (attempts (fst st))))"

lemma storm_inv_step:
  assumes "storm_inv m w seen st" "seen \<le> now" "m \<ge> 1"
  shows "storm_inv m w now (storm_step now st)"
proof -
  obtain r ps where st: "st = (r, ps)" by (cases st)
  let ?a = "filter (after_cutoff w now) (attempts r) @ [now]"
  have mw: "maxAttempts r = m" "rs_window r = w" using assms(1) by (auto simp: storm_inv_def st)
  have le: "length (filter (after_cutoff w n) (ps @ [now])) \<le> length (filter (after_cutoff w n) ?a)"
    if "now \<le> n" for n
    using assms(1,2) that open_edge.prune_prune [OF that, of w "attempts r"]
    by (auto simp: storm_inv_def st simp del: filter_filter)
  have le': "length (filter (after_cutoff w n) ps) \<le> length (filter (after_cutoff w n) ?a)" if "now \<le> n" for n
    using le [OF that] by (auto split: if_splits)
  have base: "sorted ps" "\<forall>t\<in>set ps. t \<le> now" "open_edge.within w (nat m) ps"
    using assms(1,2) by (fastforce simp: storm_inv_def st)+
  show ?thesis
  proof (cases "int (length ?a) > m")
    case True
    then show ?thesis using base le' assms(3)
      by (auto simp: storm_inv_def storm_step_def storm_record_def Let_def st mw)
  next
    case False
    have "length (filter (after_cutoff w now) (ps @ [now])) \<le> nat m"
      using le [of now] False length_filter_le [of "after_cutoff w now" ?a] by linarith
    then have "open_edge.within w (nat m) (ps @ [now])" using base(3) by (simp add: open_edge.within_snoc)
    with False base(1,2) le assms(3) show ?thesis
      by (auto simp: storm_inv_def storm_step_def storm_record_def Let_def st mw sorted_append simp del: filter_append)
  qed
qed

lemma storm_inv_run:
  "storm_inv m w seen st \<Longrightarrow> m \<ge> 1 \<Longrightarrow> sorted (seen # ts) \<Longrightarrow> \<exists>seen'. storm_inv m w seen' (fold storm_step ts st)"
proof (induction ts arbitrary: st seen)
  case Nil
  then show ?case by auto
next
  case (Cons t ts)
  have "storm_inv m w t (storm_step t st)" using Cons.prems by (intro storm_inv_step) auto
  from Cons.IH [OF this] Cons.prems show ?case by auto
qed

text \<open>At most \<open>maxAttempts\<close> reconnects of a flapping upstream go ahead on the ordinary backoff delay
  in any window of the breaker; every further one is sent to the cooldown. (A limit that is not positive
  turns the breaker off.)\<close>

theorem storm_quota:
  assumes "sorted ts" "m \<ge> 1"
  shows "length (filter (\<lambda>t. now - w < t \<and> t \<le> now)
    (snd (fold storm_step ts (newReconnectStorm w m cool, [])))) \<le> nat m"
proof (cases ts)
  case Nil
  then show ?thesis by simp
next
  case (Cons t us)
  let ?st = "fold storm_step ts (newReconnectStorm w m cool, [])"
  have "storm_inv m w t (newReconnectStorm w m cool, [])"
    by (simp add: storm_inv_def newReconnectStorm_def open_edge.within_Nil)
  moreover have "sorted (t # ts)" using assms(1) by (simp add: Cons)
  ultimately obtain l where "storm_inv m w l ?st" using storm_inv_run [OF _ assms(2)] by blast
  then show ?thesis using open_edge.quota [of w "nat m" "snd ?st" now] by (simp add: storm_inv_def after_cutoff_def)
qed

end
