(* ===== verification/Settings.thy ===== *)
theory Settings
  imports Prelude
begin

text \<open>
  \<^verbatim>\<open>internal/connector/irc/settings.go\<close>: the connector's configuration, its defaults, and the questions
  the rest of the connector asks it. The reading of the environment itself is the env library's; what
  \<^verbatim>\<open>LoadSettings\<close> does with its result is modelled.
\<close>

definition second :: duration where "second = 10 ^ 9"
definition minute :: duration where "minute = 60 * 10 ^ 9"

record Settings =
  Hostname :: string
  Port :: int
  UseTLS :: bool
  SourceIP :: string
  st_Nick :: string
  Username :: string
  RealName :: string
  ServerPassword :: string
  NickServPassword :: string
  SASLUser :: string
  SASLPassword :: string
  AuthMode :: string
  Channels :: "string list"
  DialTimeout :: duration
  HandshakeTimeout :: duration
  ReadIdleTimeout :: duration
  ClientPingInterval :: duration
  PongTimeout :: duration
  QuitMessage :: string
  BouncerPassword :: string
  BouncerHost :: string
  BouncerPort :: int
  BouncerRatelimitEnabled :: bool
  BouncerMaxFailedAttempts :: int
  BouncerFailureWindowSeconds :: int
  BouncerLockoutSeconds :: int
  BouncerWelcomeReplayDepth :: int
  CTCPAutoReply :: bool
  CTCPMaxPerWindow :: int
  CTCPWindowSeconds :: int
  st_AIStrict :: bool
  st_AIStrictMessage :: string
  UpstreamWarnAfter :: duration
  UpstreamPauseAfter :: duration

section \<open>Channel lists\<close>

definition trim_prefix :: "string \<Rightarrow> string \<Rightarrow> string" where
  "trim_prefix p s = (if prefix p s then drop (length p) s else s)"

definition trim_suffix :: "string \<Rightarrow> string \<Rightarrow> string" where
  "trim_suffix p s = (if suffix p s then take (length s - length p) s else s)"

definition is_quote :: "char \<Rightarrow> bool" where
  "is_quote c \<longleftrightarrow> c = CHR 0x22 \<or> c = CHR 0x27"

definition trim_quotes :: "string \<Rightarrow> string" where
  "trim_quotes s = trim_right is_quote (trim_left is_quote s)"

definition parseChannelList :: "string \<Rightarrow> string list" where
  "parseChannelList raw0 =
     (let raw = trim_suffix '']'' (trim_prefix ''['' (trim_space raw0))
      in if raw = [] then []
         else filter (\<lambda>p. p \<noteq> []) (map (\<lambda>p. trim_quotes (trim_space p)) (split_byte (CHR '','') raw)))"

text \<open>\<open>env\<close> is what the library made of the environment: an error or the settings.\<close>

definition LoadSettings :: "string + Settings \<Rightarrow> string + Settings" where
  "LoadSettings env =
     (case env of
        Inl err \<Rightarrow> Inl err
      | Inr s \<Rightarrow> Inr (s\<lparr>Channels := parseChannelList (join '','' (Channels s))\<rparr>))"

definition channel_sigil :: "string \<Rightarrow> bool" where
  "channel_sigil ch \<longleftrightarrow> prefix ''#'' ch \<or> prefix ''&'' ch \<or> prefix ''+'' ch \<or> prefix ''!'' ch"

definition NormalizedChannels :: "Settings \<Rightarrow> string list" where
  "NormalizedChannels s =
     List.map_filter
       (\<lambda>ch. let ch = trim_space ch
              in if ch = [] then None
                 else if channel_sigil ch then Some ch else Some (''#'' @ ch))
       (Channels s)"

section \<open>Defaults and effective values\<close>

definition setIfZero :: "'a \<Rightarrow> 'a \<Rightarrow> 'a \<Rightarrow> 'a" where
  "setIfZero zero def p = (if p = zero then def else p)"

definition ApplyDefaults :: "Settings \<Rightarrow> Settings" where
  "ApplyDefaults s =
     s\<lparr>Port := setIfZero 0 6697 (Port s),
       RealName := setIfZero [] ''turborg agent'' (RealName s),
       QuitMessage := setIfZero [] ''bye from turborg'' (QuitMessage s),
       DialTimeout := setIfZero 0 (20 * second) (DialTimeout s),
       HandshakeTimeout := setIfZero 0 (30 * second) (HandshakeTimeout s),
       ReadIdleTimeout := setIfZero 0 (300 * second) (ReadIdleTimeout s),
       ClientPingInterval := setIfZero 0 (120 * second) (ClientPingInterval s),
       PongTimeout := setIfZero 0 (30 * second) (PongTimeout s),
       UpstreamWarnAfter := setIfZero 0 (10 * minute) (UpstreamWarnAfter s),
       UpstreamPauseAfter := setIfZero 0 (60 * minute) (UpstreamPauseAfter s),
       CTCPMaxPerWindow := setIfZero 0 3 (CTCPMaxPerWindow s),
       CTCPWindowSeconds := setIfZero 0 30 (CTCPWindowSeconds s),
       BouncerHost := setIfZero [] ''127.0.0.1'' (BouncerHost s),
       BouncerPort := setIfZero 0 31337 (BouncerPort s),
       BouncerMaxFailedAttempts := setIfZero 0 5 (BouncerMaxFailedAttempts s),
       BouncerFailureWindowSeconds := setIfZero 0 60 (BouncerFailureWindowSeconds s),
       BouncerLockoutSeconds := setIfZero 0 300 (BouncerLockoutSeconds s),
       BouncerWelcomeReplayDepth := setIfZero 0 200 (BouncerWelcomeReplayDepth s),
       CTCPAutoReply := True,
       BouncerRatelimitEnabled := True\<rparr>"

definition EffectiveUsername :: "Settings \<Rightarrow> string" where
  "EffectiveUsername s = (if Username s \<noteq> [] then Username s else st_Nick s)"

definition EffectiveQuitMessage :: "Settings \<Rightarrow> string" where
  "EffectiveQuitMessage s = (if QuitMessage s \<noteq> [] then QuitMessage s else ''bye from turborg'')"

definition SASLEnabled :: "Settings \<Rightarrow> bool" where
  "SASLEnabled s =
     (let hasCreds = SASLUser s \<noteq> [] \<and> SASLPassword s \<noteq> [];
          mode = to_lower (trim_space (AuthMode s))
      in if mode = [] then hasCreds else if mode = ''sasl'' then hasCreds else False)"

definition NickServEnabled :: "Settings \<Rightarrow> bool" where
  "NickServEnabled s =
     (let hasPassword = NickServPassword s \<noteq> [];
          mode = to_lower (trim_space (AuthMode s))
      in if mode = [] then hasPassword else if mode = ''nickserv'' then hasPassword else False)"

definition BouncerEnabled :: "Settings \<Rightarrow> bool" where
  "BouncerEnabled s \<longleftrightarrow> BouncerPassword s \<noteq> []"

definition Validate :: "Settings \<Rightarrow> string option" where
  "Validate s =
     (if ClientPingInterval s > 0 \<and> ReadIdleTimeout s > 0 \<and> ClientPingInterval s \<ge> ReadIdleTimeout s
      then Some ''irc: client_ping_interval must be less than read_idle_timeout''
      else if PongTimeout s > 0 \<and> ClientPingInterval s > 0 \<and> PongTimeout s \<ge> ClientPingInterval s
      then Some ''irc: pong_timeout must be less than client_ping_interval''
      else None)"

section \<open>Lemmas\<close>

text \<open>A hand-built configuration with the two required fields, for the concrete runs.\<close>

definition sample_settings :: Settings where
  "sample_settings = ApplyDefaults
     \<lparr>Hostname = ''irc.example'', Port = 0, UseTLS = True, SourceIP = [], st_Nick = ''bot'', Username = [],
      RealName = [], ServerPassword = [], NickServPassword = [], SASLUser = [], SASLPassword = [], AuthMode = [],
      Channels = [''chat''], DialTimeout = 0, HandshakeTimeout = 0, ReadIdleTimeout = 0, ClientPingInterval = 0,
      PongTimeout = 0, QuitMessage = [], BouncerPassword = [], BouncerHost = [], BouncerPort = 0,
      BouncerRatelimitEnabled = False, BouncerMaxFailedAttempts = 0, BouncerFailureWindowSeconds = 0,
      BouncerLockoutSeconds = 0, BouncerWelcomeReplayDepth = 0, CTCPAutoReply = False, CTCPMaxPerWindow = 0,
      CTCPWindowSeconds = 0, st_AIStrict = False, st_AIStrictMessage = [], UpstreamWarnAfter = 0,
      UpstreamPauseAfter = 0\<rparr>"

lemma setIfZero_idem [simp]: "setIfZero z d (setIfZero z d p) = setIfZero z d p"
  by (simp add: setIfZero_def)

lemma setIfZero_nonzero [simp]: "d \<noteq> z \<Longrightarrow> setIfZero z d p \<noteq> z"
  by (simp add: setIfZero_def)

lemma ApplyDefaults_idem: "ApplyDefaults (ApplyDefaults s) = ApplyDefaults s"
  by (simp add: ApplyDefaults_def)

text \<open>With an explicit authentication mode the two schemes exclude each other.\<close>

lemma auth_modes_exclusive:
  "trim_space (AuthMode s) \<noteq> [] \<Longrightarrow> \<not> (SASLEnabled s \<and> NickServEnabled s)"
  by (auto simp: SASLEnabled_def NickServEnabled_def Let_def)

lemma zero_settings_valid:
  assumes "ClientPingInterval s = 0" "PongTimeout s = 0" "ReadIdleTimeout s = 0"
  shows "Validate (ApplyDefaults s) = None"
  using assms by (simp add: Validate_def ApplyDefaults_def setIfZero_def second_def)

lemma NormalizedChannels_sigil: "ch \<in> set (NormalizedChannels s) \<Longrightarrow> channel_sigil ch"
  by (auto simp: NormalizedChannels_def set_map_filter channel_sigil_def Let_def split: if_splits)

text \<open>The liveness probe of a configuration that validates is ordered: the PONG deadline falls before the
  next PING, and that before the idle timeout.\<close>

lemma Validate_orders:
  "Validate s = None \<Longrightarrow> ClientPingInterval s > 0 \<Longrightarrow>
     (ReadIdleTimeout s > 0 \<longrightarrow> ClientPingInterval s < ReadIdleTimeout s) \<and>
     (PongTimeout s > 0 \<longrightarrow> PongTimeout s < ClientPingInterval s)"
  by (auto simp: Validate_def split: if_splits)

end
