(* ===== verification/Policy.thy ===== *)
theory Policy
  imports Codes
begin

text \<open>
  \<^verbatim>\<open>internal/connector/irc/policy.go\<close>: the operator limits that the bouncer and the web gateway both ask
  before they act for a client.
\<close>

record ClientLimits =
  NickLocked :: bool
  RealnameLocked :: bool
  MaxChannels :: int
  TBSummarizeMaxMessages :: int
  AIStrict :: bool
  AIStrictMessage :: string

definition DefaultAIStrictMessage :: string where
  "DefaultAIStrictMessage =
     ''AI commands that read channel history require channel-operator status here, per this network's bot policy.''"

definition AIStrictDenyMessage :: "ClientLimits \<Rightarrow> string" where
  "AIStrictDenyMessage l =
     (if AIStrictMessage l \<noteq> [] then AIStrictMessage l else DefaultAIStrictMessage)"

definition CapHitKind :: "string \<Rightarrow> string" where
  "CapHitKind cmd =
     (if cmd = CmdNick then ''nick_locked''
      else if cmd = CmdUser then ''realname_locked''
      else if cmd = CmdJoin then ''channels''
      else cmd)"

text \<open>\<open>None\<close> for permitted, \<open>Some reason\<close> for rejected.\<close>

definition AllowCommand :: "ClientLimits \<Rightarrow> string \<Rightarrow> int \<Rightarrow> string option" where
  "AllowCommand l cmd currentChannels =
     (if cmd = CmdNick then
        (if NickLocked l then Some ''nick changes are disabled by operator policy'' else None)
      else if cmd = CmdUser then
        (if RealnameLocked l then Some ''realname is locked by operator policy'' else None)
      else if cmd = CmdJoin then
        (if MaxChannels l > 0 \<and> currentChannels \<ge> MaxChannels l
         then Some (''channel limit reached ('' @ itoa (MaxChannels l) @ '')'') else None)
      else None)"

definition no_limits :: ClientLimits where
  "no_limits =
     \<lparr>NickLocked = False, RealnameLocked = False, MaxChannels = 0, TBSummarizeMaxMessages = 0,
      AIStrict = False, AIStrictMessage = []\<rparr>"

lemma no_limits_allow: "AllowCommand no_limits cmd n = None"
  by (simp add: AllowCommand_def no_limits_def)

lemma AllowCommand_only: "AllowCommand l cmd n \<noteq> None \<Longrightarrow> cmd \<in> {CmdNick, CmdUser, CmdJoin}"
  by (auto simp: AllowCommand_def split: if_splits)

lemma AllowCommand_join:
  "MaxChannels l > 0 \<Longrightarrow> AllowCommand l CmdJoin n = None \<longleftrightarrow> n < MaxChannels l"
  by (auto simp: AllowCommand_def)

lemma AIStrictDenyMessage_nonempty: "AIStrictDenyMessage l \<noteq> []"
  by (simp add: AIStrictDenyMessage_def DefaultAIStrictMessage_def)

end
