(* ===== verification/Actor.thy ===== *)
theory Actor
  imports Codes Protocol
begin

text \<open>
  What the connector writes for the skill engine (\<^verbatim>\<open>internal/connector/irc/actor.go\<close>) and what its debug
  log shows of it (\<open>maskSecrets\<close> of \<^verbatim>\<open>client.go\<close>). \<open>send\<close> is \<^verbatim>\<open>SendRaw\<close>: it may fail on any line; the
  results are the lines handed to it, in order, and the error of the last call.
\<close>

text \<open>\<^verbatim>\<open>ReplaceAll\<close> of CR LF by LF, then of CR by LF, on the text.\<close>

fun crlf_to_lf :: "string \<Rightarrow> string" where
  "crlf_to_lf [] = []"
| "crlf_to_lf [c] = [c]"
| "crlf_to_lf (c # d # cs) =
     (if c = cr \<and> d = lf then lf # crlf_to_lf cs else c # crlf_to_lf (d # cs))"

definition cr_to_lf :: "string \<Rightarrow> string" where
  "cr_to_lf s = map (\<lambda>c. if c = cr then lf else c) s"

fun send_each :: "(string \<Rightarrow> string option) \<Rightarrow> string list \<Rightarrow> string list \<times> string option" where
  "send_each send [] = ([], None)"
| "send_each send (l # ls) =
     (case send l of
        Some err \<Rightarrow> ([l], Some err)
      | None \<Rightarrow> (let (out, r) = send_each send ls in (l # out, r)))"

definition sendLines ::
  "(string \<Rightarrow> string option) \<Rightarrow> string \<Rightarrow> string \<Rightarrow> string \<Rightarrow> string list \<times> string option" where
  "sendLines send cmd target text =
     send_each send
       (map (\<lambda>line. cmd @ '' '' @ target @ '' :'' @ line)
         (filter (\<lambda>line. trim_space line \<noteq> [])
           (split_byte lf (cr_to_lf (crlf_to_lf text)))))"

definition Say where "Say send channel text = sendLines send CmdPrivmsg channel text"
definition Notice where "Notice send target text = sendLines send CmdNotice target text"

definition Kick :: "(string \<Rightarrow> string option) \<Rightarrow> string \<Rightarrow> string \<Rightarrow> string \<Rightarrow> string list \<times> string option" where
  "Kick send channel nick reason =
     (let line = CmdKick @ '' '' @ channel @ '' '' @ nick;
          line = (if reason \<noteq> [] then line @ '' :'' @ reason else line)
      in send_each send [line])"

definition resolveBanMask :: "string \<Rightarrow> string" where
  "resolveBanMask m = (if contains_any m ''!@'' then m else m @ ''!*@*'')"

definition SetMode ::
  "(string \<Rightarrow> string option) \<Rightarrow> string \<Rightarrow> string \<Rightarrow> string list \<Rightarrow> string list \<times> string option" where
  "SetMode send channel modes args =
     (let line = CmdMode @ '' '' @ channel @ '' '' @ modes;
          line = (if length args > 0 then line @ '' '' @ join '' '' args else line)
      in send_each send [trim_right (\<lambda>c. c = sp) line])"

definition Ban where "Ban send channel m = SetMode send channel ''+b'' [resolveBanMask m]"
definition Op where "Op send channel nick = SetMode send channel ''+o'' [nick]"
definition Voice where "Voice send channel nick = SetMode send channel ''+v'' [nick]"

definition set_topic :: "(string \<Rightarrow> string option) \<Rightarrow> string \<Rightarrow> string \<Rightarrow> string list \<times> string option" where
  "set_topic send channel topic = send_each send [CmdTopic @ '' '' @ channel @ '' :'' @ topic]"

definition Invite :: "(string \<Rightarrow> string option) \<Rightarrow> string \<Rightarrow> string \<Rightarrow> string list \<times> string option" where
  "Invite send channel nick = send_each send [CmdInvite @ '' '' @ nick @ '' '' @ channel]"

section \<open>The debug log\<close>

definition maskSecrets :: "string \<Rightarrow> string" where
  "maskSecrets line =
     (let upper = to_upper line
      in if prefix ''PASS '' upper then ''PASS <redacted>''
         else if prefix ''AUTHENTICATE '' upper then
           (let rest = trim_space (drop (length ''AUTHENTICATE '') line)
            in if equal_fold rest ''PLAIN'' then line else ''AUTHENTICATE <redacted>'')
         else if prefix ''PRIVMSG NICKSERV '' upper then
           (case index_str '' :'' line of
              None \<Rightarrow> line
            | Some idx \<Rightarrow>
                (let payload = drop (idx + 2) line;
                     verb = to_upper (takeWhile (\<lambda>c. c \<noteq> sp) payload)
                 in take (idx + 2) line @ verb @ '' <redacted>''))
         else line)"

section \<open>Properties\<close>

lemma send_each_sent: "set (fst (send_each send ls)) \<subseteq> set ls"
  by (induction ls) (auto split: option.split prod.split)

lemma send_each_ok: "\<forall>l\<in>set ls. send l = None \<Longrightarrow> send_each send ls = (ls, None)"
  by (induction ls) auto

lemma cr_to_lf_no_cr: "cr \<notin> set (cr_to_lf s)"
  by (auto simp: cr_to_lf_def)

text \<open>The lines of a text: what stands between line ends of any of the three kinds.\<close>

definition text_lines :: "string \<Rightarrow> string list" where
  "text_lines text = split_byte lf (cr_to_lf (crlf_to_lf text))"

lemma text_lines_clean:
  assumes "w \<in> set (text_lines text)"
  shows "cr \<notin> set w" "lf \<notin> set w"
proof -
  have *: "c \<in> set w \<Longrightarrow> c \<noteq> lf \<and> c \<in> set (cr_to_lf (crlf_to_lf text))" for c
    using split_on_pieces [of w "\<lambda>x. x = lf" "cr_to_lf (crlf_to_lf text)" c] assms
    by (auto simp: text_lines_def split_byte_def)
  show "lf \<notin> set w" using * [of lf] by blast
  show "cr \<notin> set w" using * [of cr] cr_to_lf_no_cr by blast
qed

lemma last_not_crlf: "cr \<notin> set w \<Longrightarrow> lf \<notin> set w \<Longrightarrow> wf_trailing w"
  by (cases w rule: rev_cases) (auto simp: wf_trailing_def crlf_def)

text \<open>C28: a reply cannot inject commands. Whatever text a skill says or notices, every line handed to the
  socket is free of CR and LF and parses as exactly that command to that target with one line of the
  text as its trailing argument; with a socket that accepts them all, the non-blank lines are sent in order.\<close>

theorem say_no_injection:
  assumes "wf_param target" "cmd = CmdPrivmsg \<or> cmd = CmdNotice"
  shows "list_all (\<lambda>l. cr \<notin> set l \<and> lf \<notin> set l \<and>
        (\<exists>w\<in>set (text_lines text). trim_space w \<noteq> [] \<and>
           Command (Parse l) = cmd \<and> Params (Parse l) = [target] \<and> Trailing (Parse l) = w))
      (fst (sendLines send cmd target text)) \<and>
    ((\<forall>l. send l = None) \<longrightarrow>
       sendLines send cmd target text =
         (map (\<lambda>w. FormatCommand cmd [target] w True) (filter (\<lambda>w. trim_space w \<noteq> []) (text_lines text)), None))"
proof -
  let ?ws = "filter (\<lambda>w. trim_space w \<noteq> []) (text_lines text)"
  have f: "cmd @ '' '' @ target @ '' :'' @ w = FormatCommand cmd [target] w True" for w
    by (simp add: FormatCommand_def)
  have s: "sendLines send cmd target text = send_each send (map (\<lambda>w. FormatCommand cmd [target] w True) ?ws)"
    unfolding sendLines_def text_lines_def f ..
  have wc: "wf_command cmd"
    using assms(2) by (auto simp: wf_command_def wf_param_def wf_word_def is_space_def to_upper_def upper_char_def)
  have wt: "\<forall>c\<in>set target. \<not> is_space c" using assms(1) by (simp add: wf_param_def wf_word_def)
  have "cr \<notin> set (FormatCommand cmd [target] w True) \<and> lf \<notin> set (FormatCommand cmd [target] w True) \<and>
      Command (Parse (FormatCommand cmd [target] w True)) = cmd \<and>
      Params (Parse (FormatCommand cmd [target] w True)) = [target] \<and>
      Trailing (Parse (FormatCommand cmd [target] w True)) = w" if "w \<in> set ?ws" for w
  proof -
    have w: "cr \<notin> set w" "lf \<notin> set w" using text_lines_clean that by auto
    have "cr \<notin> set cmd" "lf \<notin> set cmd" using assms(2) by auto
    moreover have "cr \<notin> set target" "lf \<notin> set target" using wt by (auto simp: is_space_def)
    ultimately show ?thesis
      using w Parse_FormatCommand_bare [OF wc, of "[target]" w True] assms(1) last_not_crlf [OF w]
      by (simp add: FormatCommand_def)
  qed
  then show ?thesis
    unfolding s using send_each_sent [of send "map (\<lambda>w. FormatCommand cmd [target] w True) ?ws"]
    by (auto simp: list_all_iff send_each_ok)
qed

theorem say_no_injection_witness:
  "sendLines (\<lambda>_. None) ''PRIVMSG'' ''#c'' (''hi'' @ [cr, lf] @ ''QUIT'') =
     ([''PRIVMSG #c :hi'', ''PRIVMSG #c :QUIT''], None)"
proof -
  have "wf_param ''#c''" by (simp add: wf_param_def wf_word_def is_space_def)
  from say_no_injection [OF this, of "''PRIVMSG''" "''hi'' @ [cr, lf] @ ''QUIT''" "\<lambda>_. None"]
  have "sendLines (\<lambda>_. None) ''PRIVMSG'' ''#c'' (''hi'' @ [cr, lf] @ ''QUIT'') =
    (map (\<lambda>w. FormatCommand ''PRIVMSG'' [''#c''] w True)
       (filter (\<lambda>w. trim_space w \<noteq> []) (text_lines (''hi'' @ [cr, lf] @ ''QUIT''))), None)" by blast
  also have "filter (\<lambda>w. trim_space w \<noteq> []) (text_lines (''hi'' @ [cr, lf] @ ''QUIT'')) = [''hi'', ''QUIT'']"
    by code_simp
  finally show ?thesis by (simp add: FormatCommand_def)
qed

text \<open>The other actions do not split: a line end in a topic, a kick reason or a mode argument goes out as it is.\<close>

lemma topic_injects:
  "fst (set_topic (\<lambda>_. None) ''#c'' (''x'' @ crlf @ ''QUIT'')) = [''TOPIC #c :x'' @ crlf @ ''QUIT'']"
  "fst (Kick (\<lambda>_. None) ''#c'' ''n'' (''x'' @ crlf @ ''QUIT'')) = [''KICK #c n :x'' @ crlf @ ''QUIT'']"
  by (simp_all add: set_topic_def Kick_def)

lemma to_upper_append: "to_upper (a @ b) = to_upper a @ to_upper b"
  by (simp add: to_upper_def)

lemma index_str_first: "CHR '':'' \<notin> set n \<Longrightarrow> index_str '' :'' (n @ '' :'' @ rest) = Some (length n)"
proof (induction n)
  case Nil
  then show ?case by simp
next
  case (Cons a n)
  then have "\<not> prefix '' :'' ((a # n) @ '' :'' @ rest)" by (cases n) auto
  with Cons show ?case by simp
qed

text \<open>No credential reaches the debug log. What is logged of a PASS line, of a SASL payload (anything but
  the mechanism name PLAIN) and of what follows the verb of a message to NickServ does not depend on the
  secret, in whatever case the command is written.\<close>

theorem maskSecrets_hides:
  "(to_upper p = ''PASS '' \<longrightarrow> maskSecrets (p @ s1) = maskSecrets (p @ s2)) \<and>
   (to_upper a = ''AUTHENTICATE '' \<and> \<not> equal_fold (trim_space s1) ''PLAIN'' \<and> \<not> equal_fold (trim_space s2) ''PLAIN'' \<longrightarrow>
      maskSecrets (a @ s1) = maskSecrets (a @ s2)) \<and>
   (to_upper n = ''PRIVMSG NICKSERV'' \<and> sp \<notin> set verb \<longrightarrow>
      maskSecrets (n @ '' :'' @ verb @ '' '' @ s1) = maskSecrets (n @ '' :'' @ verb @ '' '' @ s2))"
proof (intro conjI impI)
  show "maskSecrets (p @ s1) = maskSecrets (p @ s2)" if "to_upper p = ''PASS ''"
    using that by (simp add: maskSecrets_def to_upper_append)
next
  assume a: "to_upper a = ''AUTHENTICATE '' \<and> \<not> equal_fold (trim_space s1) ''PLAIN'' \<and> \<not> equal_fold (trim_space s2) ''PLAIN''"
  then have "length (to_upper a) = length ''AUTHENTICATE ''" by simp
  then have "length a = 13" by (simp add: to_upper_def)
  with a show "maskSecrets (a @ s1) = maskSecrets (a @ s2)" by (simp add: maskSecrets_def to_upper_append)
next
  assume n: "to_upper n = ''PRIVMSG NICKSERV'' \<and> sp \<notin> set verb"
  have "CHR '':'' \<notin> set n"
  proof
    assume "CHR '':'' \<in> set n"
    then have "upper_char (CHR '':'') \<in> set (to_upper n)" by (simp add: to_upper_def)
    then show False using n by (simp add: upper_char_def)
  qed
  then have i: "index_str '' :'' (n @ '' :'' @ verb @ '' '' @ s) = Some (length n)" for s
    by (rule index_str_first)
  have v: "takeWhile (\<lambda>c. c \<noteq> sp) (verb @ '' '' @ s) = verb" for s
    using n by (subst takeWhile_append2) auto
  have u: "to_upper (n @ '' :'' @ verb @ '' '' @ s) = ''PRIVMSG NICKSERV '' @ to_upper ('':'' @ verb @ '' '' @ s)" for s
  proof -
    have "to_upper (n @ '' :'' @ verb @ '' '' @ s) = to_upper n @ to_upper [sp] @ to_upper ('':'' @ verb @ '' '' @ s)"
      by (simp add: to_upper_append [symmetric])
    moreover have "to_upper [sp] = [sp]" by (simp add: to_upper_def upper_char_def)
    ultimately show ?thesis using n by simp
  qed
  have "maskSecrets (n @ '' :'' @ verb @ '' '' @ s) = n @ '' :'' @ to_upper verb @ '' <redacted>''" for s
    unfolding maskSecrets_def Let_def u i using v [of s] by simp
  then show "maskSecrets (n @ '' :'' @ verb @ '' '' @ s1) = maskSecrets (n @ '' :'' @ verb @ '' '' @ s2)" by simp
qed

end
