(* ===== verification/Timing.thy ===== *)
theory Timing
  imports Prelude Complex_Main
begin

text \<open>
  The small timers and counters of the IRC connector: outstanding PINGs (\<^verbatim>\<open>pingledger.go\<close>), the reconnect
  schedule (\<^verbatim>\<open>backoff.go\<close>), the daily owner summary (\<^verbatim>\<open>nudge.go\<close>), the choice of the connect gate's token
  bucket (\<^verbatim>\<open>connect_gate.go\<close>; the bucket itself is \<^verbatim>\<open>golang.org/x/time/rate\<close>), and the port table of the
  ident responder (\<^verbatim>\<open>internal/ident/registry.go\<close>).
\<close>

section \<open>Outstanding PINGs\<close>

type_synonym pingLedger = "string \<rightharpoonup> instant"

definition newPingLedger :: pingLedger where
  "newPingLedger = Map.empty"

definition ledger_Add :: "string \<Rightarrow> instant \<Rightarrow> pingLedger \<Rightarrow> pingLedger" where
  "ledger_Add token sentAt l = l(token \<mapsto> sentAt)"

definition Ack :: "string \<Rightarrow> pingLedger \<Rightarrow> pingLedger \<times> bool" where
  "Ack token l = (if l token = None then (l, False) else (l(token := None), True))"

fun oldest_loop :: "pingLedger \<Rightarrow> string list \<Rightarrow> instant \<Rightarrow> bool \<Rightarrow> instant" where
  "oldest_loop l [] oldest first = oldest"
| "oldest_loop l (k # ks) oldest first =
     (case l k of
        None \<Rightarrow> oldest_loop l ks oldest first
      | Some t \<Rightarrow>
          (if first \<or> t < oldest then oldest_loop l ks t False else oldest_loop l ks oldest first))"

text \<open>\<open>ord\<close> enumerates the pending tokens in the order Go ranges over them.\<close>

definition Oldest :: "string list \<Rightarrow> pingLedger \<Rightarrow> instant option" where
  "Oldest ord l = (if ord = [] then None else Some (oldest_loop l ord 0 True))"

definition ledger_Len :: "string list \<Rightarrow> nat" where
  "ledger_Len ord = length ord"

lemma oldest_loop_min:
  assumes "\<forall>k\<in>set ord. l k \<noteq> None"
  shows "oldest_loop l ord b False = Min (insert b (the ` l ` set ord))"
  using assms
proof (induction ord arbitrary: b)
  case (Cons k ks)
  then obtain t where t: "l k = Some t" by auto
  have "Min (insert b (insert t S)) = Min (insert (if t < b then t else b) S)" if "finite S" for S :: "instant set"
    by (cases "S = {}") (use that in \<open>auto simp: min_def\<close>)
  from this [of "the ` l ` set ks"] Cons t show ?case by (simp split: if_split)
qed simp

section \<open>The reconnect schedule\<close>

definition defaultBackoffSchedule :: "duration list" where
  "defaultBackoffSchedule = map (\<lambda>s. s * 10 ^ 9) [1, 2, 4, 8, 16, 30, 60]"

definition defaultBackoffJitter :: rat where
  "defaultBackoffJitter = 1 / 5"

record BackoffSchedule =
  base :: "duration list"
  jitter :: rat
  idx :: nat

definition NewBackoffScheduleWith :: "duration list \<Rightarrow> rat \<Rightarrow> BackoffSchedule" where
  "NewBackoffScheduleWith b j =
     \<lparr>base = (if length b = 0 then defaultBackoffSchedule else b), jitter = (if j < 0 then 0 else j), idx = 0\<rparr>"

definition NewBackoffSchedule :: BackoffSchedule where
  "NewBackoffSchedule = NewBackoffScheduleWith defaultBackoffSchedule defaultBackoffJitter"

text \<open>Conversion of a fractional duration truncates towards zero.\<close>

definition trunc_rat :: "rat \<Rightarrow> int" where
  "trunc_rat q = (if q \<ge> 0 then \<lfloor>q\<rfloor> else \<lceil>q\<rceil>)"

text \<open>
  \<open>u\<close> is what the random source returns, in [0, 1). The product is exact here and in double precision in
  the code; at these magnitudes (below 2^37 nanoseconds) the two differ by less than one nanosecond.
\<close>

definition Next :: "rat \<Rightarrow> BackoffSchedule \<Rightarrow> BackoffSchedule \<times> duration" where
  "Next u b =
     (let (i, b) = (if idx b \<ge> length (base b) then (length (base b) - 1, b) else (idx b, b\<lparr>idx := Suc (idx b)\<rparr>));
          d = base b ! i;
          d = (if jitter b > 0 then trunc_rat (of_int d * (1 + jitter b * (2 * u - 1))) else d)
      in (b, d))"

definition Reset :: "BackoffSchedule \<Rightarrow> BackoffSchedule" where
  "Reset b = b\<lparr>idx := 0\<rparr>"

definition Index :: "BackoffSchedule \<Rightarrow> nat" where
  "Index b = idx b"

definition nexts :: "rat list \<Rightarrow> BackoffSchedule \<Rightarrow> BackoffSchedule" where
  "nexts us b = fold (\<lambda>u b. fst (Next u b)) us b"

lemma Next_shape:
  "base (fst (Next u b)) = base b" "jitter (fst (Next u b)) = jitter b"
  "idx (fst (Next u b)) = (if idx b \<ge> length (base b) then idx b else Suc (idx b))"
  by (simp_all add: Next_def Let_def)

lemma nexts_shape:
  "base (nexts us b) = base b \<and> jitter (nexts us b) = jitter b \<and>
   (idx b \<le> length (base b) \<longrightarrow> idx (nexts us b) = min (length (base b)) (idx b + length us))"
proof (induction us arbitrary: b)
  case (Cons u us)
  from Cons.IH [of "fst (Next u b)"] show ?case by (auto simp: nexts_def Next_shape)
qed (simp add: nexts_def)

lemma trunc_rat_bounds: "q \<ge> 0 \<Longrightarrow> of_int (trunc_rat q) \<le> q \<and> q < of_int (trunc_rat q) + 1"
  using floor_correct [of q] by (simp add: trunc_rat_def)

section \<open>The daily owner summary\<close>

record OwnerNudge =
  ownerNick :: string
  everyN :: nat
  nudge_count :: nat
  today :: string

definition NewOwnerNudge :: "string \<Rightarrow> int \<Rightarrow> OwnerNudge option" where
  "NewOwnerNudge owner n =
     (if owner = [] \<or> n \<le> 0 then None
      else Some \<lparr>ownerNick = owner, everyN = nat n, nudge_count = 0, today = []\<rparr>)"

text \<open>\<open>day\<close> is the UTC date of the call; the result holds the line sent to the owner, if any. A nil nudge
  (\<open>None\<close>) does nothing.\<close>

definition Note :: "string \<Rightarrow> OwnerNudge option \<Rightarrow> OwnerNudge option \<times> string option" where
  "Note day nudge =
     (case nudge of
        None \<Rightarrow> (None, None)
      | Some n \<Rightarrow>
          (let n = (if day \<noteq> today n then n\<lparr>today := day, nudge_count := 0\<rparr> else n);
               n = n\<lparr>nudge_count := Suc (nudge_count n)\<rparr>;
               count = nudge_count n
           in (Some n,
               if count mod everyN n = 0
               then Some (''PRIVMSG '' @ ownerNick n @ '' :[turborg] you've sent '' @ nat_str count @ '' messages today'')
               else None)))"

text \<open>Within a day the summary goes out at every \<open>everyN\<close>-th message and at no other.\<close>

lemma Note_same_day:
  "today n = day \<Longrightarrow> (snd (Note day (Some n)) \<noteq> None) = (everyN n dvd Suc (nudge_count n))"
  by (auto simp: Note_def Let_def mod_eq_0_iff_dvd)

section \<open>The connect gate's buckets\<close>

definition DefaultConnectGateInterval :: duration where "DefaultConnectGateInterval = 10 * 10 ^ 9"
definition DefaultConnectGateBurst :: int where "DefaultConnectGateBurst = 10"
definition DefaultReconnectFloor :: duration where "DefaultReconnectFloor = 20 * 10 ^ 9"

text \<open>A limiter is identified by its rate and burst and a serial number of its creation.\<close>

record limiter =
  every :: duration
  lim_burst :: int
  serial :: nat

record connectGate =
  interval :: duration
  burst :: int
  limiters :: "string \<rightharpoonup> limiter"
  made :: nat

definition newConnectGateWithBurst :: "duration \<Rightarrow> int \<Rightarrow> connectGate" where
  "newConnectGateWithBurst i b =
     \<lparr>interval = i, burst = (if b < 1 then 1 else b), limiters = Map.empty, made = 0\<rparr>"

definition newConnectGate :: "duration \<Rightarrow> connectGate" where
  "newConnectGate i = newConnectGateWithBurst i DefaultConnectGateBurst"

definition configure :: "duration \<Rightarrow> int \<Rightarrow> connectGate \<Rightarrow> connectGate" where
  "configure i b g = g\<lparr>interval := i, burst := (if b < 1 then 1 else b), limiters := Map.empty\<rparr>"

definition limiterFor :: "string \<Rightarrow> connectGate \<Rightarrow> connectGate \<times> limiter option" where
  "limiterFor key g =
     (if interval g \<le> 0 then (g, None)
      else case limiters g key of
             Some tb \<Rightarrow> (g, Some tb)
           | None \<Rightarrow>
               (let tb = \<lparr>every = interval g, lim_burst = burst g, serial = made g\<rparr>
                in (g\<lparr>limiters := (limiters g)(key \<mapsto> tb), made := Suc (made g)\<rparr>, Some tb)))"

definition connect_key :: "string \<Rightarrow> string \<Rightarrow> string" where
  "connect_key sourceIP host = sourceIP @ ''|'' @ host"

lemma limiterFor_stable:
  "limiterFor key g = (g', Some tb) \<Longrightarrow> snd (limiterFor key (fst (limiterFor other g'))) = Some tb"
  by (auto simp: limiterFor_def Let_def split: option.splits if_splits)

lemma burst_positive: "burst (newConnectGateWithBurst i b) \<ge> 1" "burst (configure i b g) \<ge> 1"
  by (simp_all add: newConnectGateWithBurst_def configure_def)

section \<open>The ident table\<close>

type_synonym ident_table = "int \<rightharpoonup> string"

definition ident_Set :: "int \<Rightarrow> string \<Rightarrow> ident_table \<Rightarrow> ident_table" where
  "ident_Set localPort ident m = (if localPort = 0 \<or> ident = [] then m else m(localPort \<mapsto> ident))"

definition ident_Clear :: "int \<Rightarrow> ident_table \<Rightarrow> ident_table" where
  "ident_Clear localPort m = (if localPort = 0 then m else m(localPort := None))"

definition ident_Lookup :: "int \<Rightarrow> ident_table \<Rightarrow> string option" where
  "ident_Lookup localPort m = m localPort"

section \<open>Properties\<close>

text \<open>The PONG watchdog compares with the right PING: whatever order Go ranges over the ledger,
  \<^const>\<open>Oldest\<close> is the earliest send time among the outstanding tokens, and nothing when there are none.\<close>

theorem Oldest_is_min:
  assumes "set ord = dom l"
  shows "Oldest ord l = (if dom l = {} then None else Some (Min (ran l)))"
proof (cases ord)
  case Nil
  then show ?thesis using assms by (simp add: Oldest_def)
next
  case (Cons k ks)
  have all: "\<forall>k\<in>set ord. l k \<noteq> None" using assms by (simp add: domIff)
  then obtain t where t: "l k = Some t" using Cons by auto
  have "ran l = the ` l ` set ord"
    using all unfolding assms by (force simp: ran_def image_iff dom_def)
  moreover have "oldest_loop l ord 0 True = Min (insert t (the ` l ` set ks))"
    using oldest_loop_min [of ks l t] all by (simp add: Cons t)
  moreover have "dom l \<noteq> {}" using assms Cons by auto
  ultimately show ?thesis using Cons t by (simp add: Oldest_def)
qed

text \<open>The reconnect delays. After a reset the n-th further delay is the n-th entry of the schedule, or its
  last one for good, off by at most the jitter fraction (and the nanosecond that truncation drops).\<close>

theorem backoff_delay_bounds:
  assumes "base b \<noteq> []" "\<forall>d\<in>set (base b). d \<ge> 0" "0 \<le> jitter b" "jitter b \<le> 1" "0 \<le> u" "u < 1"
  shows "let d = of_int (base b ! min (length us) (length (base b) - 1)) :: rat;
             r = of_int (snd (Next u (nexts us (Reset b)))) :: rat
         in (1 - jitter b) * d - 1 < r \<and> r \<le> (1 + jitter b) * d"
proof -
  define d where "d = (of_int (base b ! min (length us) (length (base b) - 1)) :: rat)"
  define r where "r = (of_int (snd (Next u (nexts us (Reset b)))) :: rat)"
  let ?b = "nexts us (Reset b)"
  have sh: "base ?b = base b" "jitter ?b = jitter b" "idx ?b = min (length (base b)) (length us)"
    using nexts_shape [of us "Reset b"] by (simp_all add: Reset_def)
  let ?i = "min (length us) (length (base b) - 1)"
  have i: "(if idx ?b \<ge> length (base ?b) then length (base ?b) - 1 else idx ?b) = ?i"
    using sh assms(1) by (cases "base b") (auto simp: min_def)
  have "?i < length (base b)" using assms(1) by (cases "base b") auto
  then have d0: "d \<ge> 0" using assms(2) by (simp add: d_def)
  have "(1 - jitter b) * d - 1 < r \<and> r \<le> (1 + jitter b) * d"
  proof (cases "jitter b > 0")
    case True
    let ?q = "d * (1 + jitter b * (2 * u - 1))"
    have m: "1 - jitter b \<le> 1 + jitter b * (2 * u - 1)" "1 + jitter b * (2 * u - 1) \<le> 1 + jitter b"
    proof -
      have "jitter b * (-1) \<le> jitter b * (2 * u - 1)" using assms(3,5) by (intro mult_left_mono) auto
      then show "1 - jitter b \<le> 1 + jitter b * (2 * u - 1)" by simp
      have "jitter b * (2 * u - 1) \<le> jitter b * 1" using assms(3,6) by (intro mult_left_mono) auto
      then show "1 + jitter b * (2 * u - 1) \<le> 1 + jitter b" by simp
    qed
    have q: "(1 - jitter b) * d \<le> ?q" "?q \<le> (1 + jitter b) * d"
      using mult_left_mono [OF m(1) d0] mult_left_mono [OF m(2) d0] by (simp_all add: mult.commute)
    have "0 \<le> (1 - jitter b) * d" using assms(4) d0 by simp
    then have "0 \<le> ?q" using q(1) by linarith
    moreover have "r = of_int (trunc_rat ?q)"
      using True i sh by (auto simp: r_def d_def Next_def Let_def split: if_splits)
    ultimately show ?thesis using q trunc_rat_bounds [of ?q] by auto
  next
    case False
    then have "jitter b = 0" using assms(3) by simp
    moreover have "r = d" using False i sh by (auto simp: r_def d_def Next_def Let_def split: if_splits)
    ultimately show ?thesis by simp
  qed
  then show ?thesis by (simp add: Let_def d_def r_def)
qed

end
