(* ===== verification/Events.thy ===== *)
theory Events
  imports Prelude
begin

text \<open>
  The vocabulary of \<^verbatim>\<open>internal/agent\<close> that connectors share: event types and the bus (\<^verbatim>\<open>events.go\<close>), and
  the message envelopes (\<^verbatim>\<open>envelope.go\<close>). The values of an event's field map are the few shapes the code
  puts there; a field map is a list of pairs in the order the code writes them.
\<close>

abbreviation EventBoot :: string where "EventBoot \<equiv> ''BOOT''"
abbreviation EventReady :: string where "EventReady \<equiv> ''READY''"
abbreviation EventShutdown :: string where "EventShutdown \<equiv> ''SHUTDOWN''"
abbreviation EventMessage :: string where "EventMessage \<equiv> ''MESSAGE''"
abbreviation EventMessageSent :: string where "EventMessageSent \<equiv> ''MESSAGE_SENT''"
abbreviation EventCommand :: string where "EventCommand \<equiv> ''COMMAND''"
abbreviation EventUserJoin :: string where "EventUserJoin \<equiv> ''USER_JOIN''"
abbreviation EventUserLeave :: string where "EventUserLeave \<equiv> ''USER_LEAVE''"
abbreviation EventUserKicked :: string where "EventUserKicked \<equiv> ''USER_KICKED''"
abbreviation EventJoinFailed :: string where "EventJoinFailed \<equiv> ''JOIN_FAILED''"
abbreviation EventUserNickChange :: string where "EventUserNickChange \<equiv> ''USER_NICK_CHANGE''"
abbreviation EventTopicChanged :: string where "EventTopicChanged \<equiv> ''TOPIC_CHANGED''"
abbreviation EventChannelNames :: string where "EventChannelNames \<equiv> ''CHANNEL_NAMES''"
abbreviation EventServerNotice :: string where "EventServerNotice \<equiv> ''SERVER_NOTICE''"
abbreviation EventModeChanged :: string where "EventModeChanged \<equiv> ''MODE_CHANGED''"
abbreviation EventWhoisResult :: string where "EventWhoisResult \<equiv> ''WHOIS_RESULT''"
abbreviation EventListResult :: string where "EventListResult \<equiv> ''LIST_RESULT''"
abbreviation EventWhoResult :: string where "EventWhoResult \<equiv> ''WHO_RESULT''"
abbreviation EventLLMUsage :: string where "EventLLMUsage \<equiv> ''LLM_USAGE''"
abbreviation EventError :: string where "EventError \<equiv> ''ERROR''"
abbreviation EventRaw :: string where "EventRaw \<equiv> ''RAW''"
abbreviation EventModeration :: string where "EventModeration \<equiv> ''MODERATION''"
abbreviation EventWebhookReceived :: string where "EventWebhookReceived \<equiv> ''WEBHOOK_RECEIVED''"

section \<open>Envelopes\<close>

record InboundEnvelope =
  env_ID :: nat
  env_Connector :: string
  ConnectorInstance :: string
  env_Channel :: string
  Sender :: string
  env_Text :: string
  IsDirect :: bool
  env_Command :: string
  Args :: "string list"
  env_Raw :: string
  Metadata :: "string \<rightharpoonup> string"
  ReceivedAt :: instant

record OutboundEnvelope =
  out_ID :: nat
  out_Connector :: string
  out_Instance :: string
  out_Channel :: string
  out_Text :: string
  out_ReplyTo :: "nat option"

datatype val =
    VStr string
  | VInt int
  | VBool bool
  | VList "string list"
  | VRows "(string \<times> val) list list"
  | VInbound InboundEnvelope
  | VOutbound OutboundEnvelope

record Event =
  ev_Type :: string
  Fields :: "(string \<times> val) list"

section \<open>The bus\<close>

text \<open>A handler is a name; publishing yields the calls made, one per handler of the event's type, in
  subscription order (the handlers themselves run concurrently, and \<^verbatim>\<open>Publish\<close> waits for all of them).\<close>

type_synonym EventBus = "string \<Rightarrow> string list"

definition NewEventBus :: EventBus where
  "NewEventBus = (\<lambda>_. [])"

definition bus_Subscribe :: "string \<Rightarrow> string \<Rightarrow> EventBus \<Rightarrow> EventBus" where
  "bus_Subscribe t h b = b(t := b t @ [h])"

definition bus_Publish :: "Event \<Rightarrow> EventBus \<Rightarrow> (string \<times> Event) list" where
  "bus_Publish ev b = map (\<lambda>h. (h, ev)) (b (ev_Type ev))"

lemma publish_after_subscribe:
  "h \<in> fst ` set (bus_Publish ev (bus_Subscribe t k b)) \<longleftrightarrow>
     h \<in> fst ` set (bus_Publish ev b) \<or> (ev_Type ev = t \<and> h = k)"
  by (auto simp: bus_Publish_def bus_Subscribe_def image_image)

section \<open>Building envelopes\<close>

text \<open>\<open>uid\<close> is the fresh identifier the uuid package supplies.\<close>

definition NewInbound :: "nat \<Rightarrow> instant \<Rightarrow> string \<Rightarrow> string \<Rightarrow> string \<Rightarrow> string \<Rightarrow> InboundEnvelope" where
  "NewInbound uid now connector channel sender text =
     \<lparr>env_ID = uid, env_Connector = connector, ConnectorInstance = ''default'', env_Channel = channel,
      Sender = sender, env_Text = text, IsDirect = False, env_Command = [], Args = [], env_Raw = [],
      Metadata = Map.empty, ReceivedAt = now\<rparr>"

definition ReplyTo :: "nat \<Rightarrow> InboundEnvelope \<Rightarrow> string \<Rightarrow> OutboundEnvelope" where
  "ReplyTo uid i text =
     (let channel = (if IsDirect i then Sender i else env_Channel i)
      in \<lparr>out_ID = uid, out_Connector = env_Connector i, out_Instance = ConnectorInstance i,
          out_Channel = channel, out_Text = text, out_ReplyTo = Some (env_ID i)\<rparr>)"

lemma ReplyTo_direct: "IsDirect i \<Longrightarrow> out_Channel (ReplyTo uid i t) = Sender i"
  by (simp add: ReplyTo_def)

end
