(* ===== verification/Connector.thy ===== *)
theory Connector
  imports Channel_State Upstream_State Wanted Windows Settings Policy Timing Events
begin

text \<open>
  \<^verbatim>\<open>internal/connector/irc/connector.go\<close>, first part: the connector's state, the nick it wants and the one it
  has, the user's suspend and resume, the reconciliation of channels, sending, and one connect cycle
  (\<^verbatim>\<open>bringUp\<close>: registration, SASL, the wait for the welcome, the replay of JOINs).

  The record holds the fields of the Go struct and what the outside sees of it: \<open>wire\<close> the lines the socket
  took, \<open>published\<close> the events, \<open>to_bouncer\<close> the calls made on the attached bouncer, \<open>hook_calls\<close> how often
  the nick-change hook ran, \<open>inbox\<close> the envelopes for the agent. The socket accepts \<open>writes_left\<close> more
  lines (\<open>None\<close>: any number) and then fails every write with \<open>write_err\<close>; reads come from a script of
  lines and errors, and an exhausted script is an end of file. A method is one step of this state; steps
  of different goroutines interleave between methods, not inside them, except where a theory says so.
\<close>

datatype bcall =
    Broadcast string
  | UpdateUpstreamNick string
  | UpdateUpstreamIdentity string string
  | NotifyJoinFailure string string
  | BroadcastAsSelf string
  | AttachState string string string

record whoisBuilder =
  wb_nick :: string
  wb_user :: string
  wb_host :: string
  realName :: string
  server :: string
  serverInfo :: string
  account :: string
  idleSeconds :: int
  signonAt :: int
  secure :: bool
  isOperator :: bool
  wb_channels :: "string list"

record listChannelEntry =
  le_name :: string
  le_users :: int
  le_topic :: string

record whoUserEntry =
  we_nick :: string
  we_user :: string
  we_host :: string
  we_realName :: string
  we_flags :: string

record whoBuilder =
  target :: string
  users :: "whoUserEntry list"

record Connector =
  settings :: Settings
  has_events :: bool
  inbox :: "InboundEnvelope list"
  client :: "int option"
  identPort :: int
  identReporter :: "ident_table option"
  machine :: UpstreamStateMachine
  chan_state :: ChannelState
  bouncer :: bool
  ctcp :: "Throttle option"
  wanted :: WantedChannels
  storm :: reconnectStorm
  reconnectFloor :: duration
  ownerNudge :: "OwnerNudge option"
  currentNick :: string
  desiredNick :: string
  nickFallbacks :: nat
  attemptedNick :: string
  preferredNick :: string
  preferredNickChangeCB :: bool
  pingLedgerRef :: "pingLedger option"
  whoisInFlight :: "string \<rightharpoonup> whoisBuilder"
  listInFlight :: "listChannelEntry list"
  whoInFlight :: "string \<rightharpoonup> whoBuilder"
  stopped :: bool
  suspended :: bool
  lifecycleCh :: bool
  clock :: instant
  writes_left :: "nat option"
  write_err :: err
  crashed :: bool
  wire :: "string list"
  published :: "Event list"
  to_bouncer :: "bcall list"
  hook_calls :: nat
  next_uid :: nat

definition NewConnector :: "Settings \<Rightarrow> bool \<Rightarrow> instant \<Rightarrow> Connector" where
  "NewConnector s bus now =
     \<lparr>settings = s, has_events = bus, inbox = [], client = None, identPort = 0, identReporter = None,
      machine = NewUpstreamStateMachine now, chan_state = NewChannelState, bouncer = False, ctcp = None,
      wanted = NewWantedChannels (NormalizedChannels s),
      storm = newReconnectStorm defaultReconnectStormWindow defaultReconnectStormMax defaultReconnectStormCooldown,
      reconnectFloor = 0, ownerNudge = None, currentNick = st_Nick s, desiredNick = [], nickFallbacks = 0,
      attemptedNick = [], preferredNick = [], preferredNickChangeCB = False, pingLedgerRef = None,
      whoisInFlight = Map.empty, listInFlight = [], whoInFlight = Map.empty, stopped = False,
      suspended = False, lifecycleCh = False, clock = now, writes_left = None,
      write_err = (Epipe, ''broken pipe''), crashed = False, wire = [], published = [], to_bouncer = [],
      hook_calls = 0, next_uid = 0\<rparr>"

section \<open>Plumbing\<close>

definition goto :: "UpstreamState \<Rightarrow> string \<Rightarrow> Connector \<Rightarrow> Connector" where
  "goto st reason c = c\<lparr>machine := fst (Transition (clock c) [] st reason (machine c))\<rparr>"

abbreviation up :: "Connector \<Rightarrow> UpstreamState" where "up c \<equiv> state (machine c)"

text \<open>\<^verbatim>\<open>Client.WriteLine\<close> on a client the caller holds.\<close>

definition sock_write :: "string \<Rightarrow> Connector \<Rightarrow> Connector \<times> err option" where
  "sock_write line c =
     (case writes_left c of
        None \<Rightarrow> (c\<lparr>wire := wire c @ [line]\<rparr>, None)
      | Some 0 \<Rightarrow> (c, Some (write_err c))
      | Some (Suc n) \<Rightarrow> (c\<lparr>wire := wire c @ [line], writes_left := Some n\<rparr>, None))"

text \<open>A write through the live client whose error is dropped, skipped when there is no client.\<close>

definition send_if_connected :: "string \<Rightarrow> Connector \<Rightarrow> Connector" where
  "send_if_connected line c = (if client c = None then c else fst (sock_write line c))"

definition call_bouncer :: "bcall \<Rightarrow> Connector \<Rightarrow> Connector" where
  "call_bouncer b c = (if bouncer c then c\<lparr>to_bouncer := to_bouncer c @ [b]\<rparr> else c)"

definition publish :: "string \<Rightarrow> (string \<times> val) list \<Rightarrow> Connector \<Rightarrow> Connector" where
  "publish t fs c =
     (if has_events c then c\<lparr>published := published c @ [\<lparr>ev_Type = t, Fields = fs\<rparr>]\<rparr> else c)"

definition publishServerNotice :: "string \<Rightarrow> string \<Rightarrow> Connector \<Rightarrow> Connector" where
  "publishServerNotice kind text c =
     (if text = [] then c
      else publish EventServerNotice
             [(''connector'', VStr ''irc''), (''kind'', VStr kind), (''text'', VStr text)] c)"

definition serverNoticeText :: "Message \<Rightarrow> string" where
  "serverNoticeText msg =
     (if Trailing msg \<noteq> [] then Trailing msg
      else let params = (if length (Params msg) > 1 then drop 1 (Params msg) else Params msg)
           in trim_space (join '' '' params))"

definition SetReconnectStorm :: "duration \<Rightarrow> int \<Rightarrow> duration \<Rightarrow> Connector \<Rightarrow> Connector" where
  "SetReconnectStorm w m cool c = c\<lparr>storm := newReconnectStorm w m cool\<rparr>"

definition reportIdentPort :: "int \<Rightarrow> Connector \<Rightarrow> Connector" where
  "reportIdentPort newPort c =
     (let oldPort = identPort c;
          c = c\<lparr>identPort := newPort\<rparr>
      in case identReporter c of
           None \<Rightarrow> c
         | Some m \<Rightarrow>
             (let m = (if oldPort \<noteq> 0 \<and> oldPort \<noteq> newPort then ident_Clear oldPort m else m);
                  m = (if newPort \<noteq> 0 then ident_Set newPort (EffectiveUsername (settings c)) m else m)
              in c\<lparr>identReporter := Some m\<rparr>))"

definition setClient :: "int option \<Rightarrow> Connector \<Rightarrow> Connector" where
  "setClient cli c =
     reportIdentPort (case cli of None \<Rightarrow> 0 | Some port \<Rightarrow> port) (c\<lparr>client := cli\<rparr>)"

section \<open>Nicks\<close>

definition run_nick_hook :: "Connector \<Rightarrow> Connector" where
  "run_nick_hook c = (if preferredNickChangeCB c then c\<lparr>hook_calls := Suc (hook_calls c)\<rparr> else c)"

definition SetPreferredNick :: "string \<Rightarrow> Connector \<Rightarrow> Connector" where
  "SetPreferredNick nick c =
     (let changed = (preferredNick c \<noteq> nick);
          c = c\<lparr>preferredNick := nick\<rparr>
      in if changed then run_nick_hook c else c)"

definition effectiveNick :: "Connector \<Rightarrow> string" where
  "effectiveNick c = (if preferredNick c \<noteq> [] then preferredNick c else st_Nick (settings c))"

definition fallbackMaxNickLen :: nat where "fallbackMaxNickLen = 15"
definition maxNickFallbacks :: nat where "maxNickFallbacks = 8"

definition setDesiredNick :: "string \<Rightarrow> Connector \<Rightarrow> Connector" where
  "setDesiredNick n c = c\<lparr>desiredNick := n\<rparr>"

definition nextFallbackNick :: "Connector \<Rightarrow> Connector \<times> string option" where
  "nextFallbackNick c =
     (if nickFallbacks c \<ge> maxNickFallbacks then (c, None)
      else let nxt = attemptedNick c @ ''_''
           in if length nxt > fallbackMaxNickLen then (c, None)
              else (c\<lparr>nickFallbacks := Suc (nickFallbacks c), attemptedNick := nxt\<rparr>, Some nxt))"

definition setCurrentNick :: "string \<Rightarrow> Connector \<Rightarrow> Connector" where
  "setCurrentNick nick c =
     (if nick = [] \<or> nick = ''*'' then c
      else let changed = (currentNick c \<noteq> nick);
               c = c\<lparr>currentNick := nick\<rparr>
           in if \<not> changed then c else run_nick_hook (call_bouncer (UpdateUpstreamNick nick) c))"

definition signalLifecycle :: "Connector \<Rightarrow> Connector" where
  "signalLifecycle c = c\<lparr>lifecycleCh := True\<rparr>"

definition ApplyNick :: "string \<Rightarrow> Connector \<Rightarrow> Connector" where
  "ApplyNick nick0 c =
     (let nick = trim_space nick0
      in if nick = [] \<or> nick = desiredNick c then c
         else let c = SetPreferredNick nick (setDesiredNick nick c)
              in case up c of
                   Registered \<Rightarrow> send_if_connected (CmdNick @ '' '' @ nick) c
                 | DisconnectedNickInvalid \<Rightarrow> signalLifecycle c
                 | _ \<Rightarrow> c)"

section \<open>Suspend and resume\<close>

definition Suspend :: "Connector \<Rightarrow> Connector" where
  "Suspend c =
     (if suspended c then c
      else let c = goto DisconnectedByUser [] (c\<lparr>suspended := True\<rparr>);
               c = (if client c \<noteq> None
                    then setClient None
                           (fst (sock_write (CmdQuit @ '' :'' @ EffectiveQuitMessage (settings c)) c))
                    else c)
           in signalLifecycle c)"

definition Resume :: "Connector \<Rightarrow> Connector" where
  "Resume c = (if \<not> suspended c then c else signalLifecycle (c\<lparr>suspended := False\<rparr>))"

definition SetInitialSuspended :: "bool \<Rightarrow> Connector \<Rightarrow> Connector" where
  "SetInitialSuspended v c = c\<lparr>suspended := v\<rparr>"

definition shouldPark :: "Connector \<Rightarrow> bool" where
  "shouldPark c \<longleftrightarrow> suspended c \<or> up c = DisconnectedNickInvalid"

section \<open>Channels the user wants\<close>

text \<open>The desired set, lower-cased name to the spelling given last.\<close>

definition note_desired :: "string \<Rightarrow> (string \<rightharpoonup> string) \<Rightarrow> (string \<rightharpoonup> string)" where
  "note_desired ch0 want =
     (let ch = trim_space ch0 in if ch \<noteq> [] then want(to_lower ch \<mapsto> ch) else want)"

definition desired_map :: "string list \<Rightarrow> (string \<rightharpoonup> string)" where
  "desired_map desired = fold note_desired desired Map.empty"

definition reconcile_part :: "(string \<rightharpoonup> string) \<Rightarrow> bool \<Rightarrow> WantedChannel \<Rightarrow> Connector \<Rightarrow> Connector" where
  "reconcile_part want live cur c =
     (if want (to_lower (wc_Name cur)) \<noteq> None then c
      else let c = c\<lparr>wanted := fst (Remove (wc_Name cur) (wanted c))\<rparr>
           in if live then send_if_connected (CmdPart @ '' '' @ wc_Name cur) c else c)"

definition reconcile_join :: "bool \<Rightarrow> string \<Rightarrow> Connector \<Rightarrow> Connector" where
  "reconcile_join live name c =
     (if Wanted.Get (wanted c) name \<noteq> None then c
      else let c = c\<lparr>wanted := fst (Add name [] (wanted c))\<rparr>
           in if live then send_if_connected (CmdJoin @ '' '' @ name) c else c)"

text \<open>\<open>ord\<close> is the order in which Go ranges over the desired map.\<close>

definition ReconcileChannels :: "string list \<Rightarrow> string list \<Rightarrow> Connector \<Rightarrow> Connector" where
  "ReconcileChannels ord desired c =
     (let want = desired_map desired;
          live = (up c = Registered);
          c = fold (reconcile_part want live) (Snapshot (wanted c)) c
      in fold (reconcile_join live) (List.map_filter want ord) c)"

section \<open>Sending\<close>

definition markWhoisRequested :: "string \<Rightarrow> Connector \<Rightarrow> Connector" where
  "markWhoisRequested targetNick c =
     (let key = to_lower targetNick
      in if whoisInFlight c key = None
         then c\<lparr>whoisInFlight := (whoisInFlight c)(key \<mapsto>
                 \<lparr>wb_nick = [], wb_user = [], wb_host = [], realName = [], server = [], serverInfo = [],
                  account = [], idleSeconds = 0, signonAt = 0, secure = False, isOperator = False,
                  wb_channels = []\<rparr>)\<rparr>
         else c)"

definition markWhoRequested :: "string \<Rightarrow> Connector \<Rightarrow> Connector" where
  "markWhoRequested tgt c =
     (let key = to_lower tgt
      in if whoInFlight c key = None
         then c\<lparr>whoInFlight := (whoInFlight c)(key \<mapsto> \<lparr>target = tgt, users = []\<rparr>)\<rparr> else c)"

definition registerWebQuery :: "string \<Rightarrow> Connector \<Rightarrow> Connector" where
  "registerWebQuery line c =
     (let fields = go_fields line
      in if length fields < 2 then c
         else let cmd = to_upper (fields ! 0)
              in if cmd = CmdWhois then markWhoisRequested (last fields) c
                 else if cmd = CmdWho then markWhoRequested (fields ! 1) c
                 else c)"

definition SendRaw :: "string \<Rightarrow> Connector \<Rightarrow> Connector \<times> err option" where
  "SendRaw line c =
     (if client c = None then (c, Some (errorf ''irc: not connected''))
      else sock_write line (registerWebQuery line c))"

definition Send :: "string \<Rightarrow> OutboundEnvelope \<Rightarrow> Connector \<Rightarrow> Connector \<times> err option" where
  "Send day env c =
     (if client c = None then (c, Some (errorf ''irc: not connected''))
      else let line = CmdPrivmsg @ '' '' @ out_Channel env @ '' :'' @ out_Text env
           in case sock_write line c of
                (c, Some e) \<Rightarrow> (c, Some e)
              | (c, None) \<Rightarrow>
                  (let c = call_bouncer (BroadcastAsSelf line) c;
                       (n, dm) = Note day (ownerNudge c);
                       c = c\<lparr>ownerNudge := n\<rparr>;
                       c = (case dm of None \<Rightarrow> c | Some l \<Rightarrow> fst (sock_write l c))
                   in (c, None)))"

section \<open>Reconciliation\<close>

text \<open>The effect of the two loops on the wanted set.\<close>

definition part_wanted :: "(string \<rightharpoonup> string) \<Rightarrow> WantedChannel \<Rightarrow> WantedChannels \<Rightarrow> WantedChannels" where
  "part_wanted want cur w = (if want (to_lower (wc_Name cur)) \<noteq> None then w else fst (Remove (wc_Name cur) w))"

definition join_wanted :: "string \<Rightarrow> WantedChannels \<Rightarrow> WantedChannels" where
  "join_wanted name w = (if Wanted.Get w name \<noteq> None then w else fst (Add name [] w))"

lemma send_if_connected_wanted [simp]:
  "wanted (send_if_connected l c) = wanted c" "machine (send_if_connected l c) = machine c"
  by (simp_all add: send_if_connected_def sock_write_def split: option.split nat.split)

lemma reconcile_part_wanted: "wanted (reconcile_part want live cur c) = part_wanted want cur (wanted c)"
  by (simp add: reconcile_part_def part_wanted_def Let_def)

lemma reconcile_join_wanted: "wanted (reconcile_join live name c) = join_wanted name (wanted c)"
  by (simp add: reconcile_join_def join_wanted_def Let_def)

lemma fold_part_wanted: "wanted (fold (reconcile_part want live) L c) = fold (part_wanted want) L (wanted c)"
  by (induction L arbitrary: c) (simp_all add: reconcile_part_wanted)

lemma fold_join_wanted: "wanted (fold (reconcile_join live) L c) = fold join_wanted L (wanted c)"
  by (induction L arbitrary: c) (simp_all add: reconcile_join_wanted)

lemma Get_Remove:
  "Wanted.Get (fst (Remove m w)) n =
     (if trim_space m \<noteq> [] \<and> to_lower (trim_space m) = to_lower (trim_space n) then None else Wanted.Get w n)"
  by (auto simp: Wanted.Get_def Remove_def Let_def)

lemma Get_fold_part:
  assumes "\<forall>cur\<in>set L. wc_Name cur \<noteq> [] \<and> trim_space (wc_Name cur) = wc_Name cur"
  shows "Wanted.Get (fold (part_wanted want) L w) n =
    (if \<exists>cur\<in>set L. to_lower (wc_Name cur) = to_lower (trim_space n) \<and> want (to_lower (trim_space n)) = None
     then None else Wanted.Get w n)"
  using assms
proof (induction L arbitrary: w)
  case (Cons cur L)
  then show ?case by (auto simp: part_wanted_def Get_Remove)
qed simp

lemma Get_fold_join:
  assumes "\<forall>v\<in>set L. v \<noteq> [] \<and> trim_space v = v"
  shows "(Wanted.Get (fold join_wanted L w) n \<noteq> None) =
      (Wanted.Get w n \<noteq> None \<or> (\<exists>v\<in>set L. to_lower v = to_lower (trim_space n))) \<and>
    (Wanted.Get w n = Some e \<longrightarrow> Wanted.Get (fold join_wanted L w) n = Some e)"
  using assms
proof (induction L arbitrary: w)
  case (Cons v L)
  have "Wanted.Get (join_wanted v w) n =
      (if Wanted.Get w n = None \<and> to_lower v = to_lower (trim_space n)
       then Some \<lparr>wc_Name = v, Key = []\<rparr> else Wanted.Get w n)"
    using Cons.prems by (auto simp: join_wanted_def Wanted.Get_def Add_def Let_def split: option.split)
  with Cons.IH [of "join_wanted v w"] Cons.prems show ?case by auto
qed simp

definition spelled :: "(string \<rightharpoonup> string) \<Rightarrow> bool" where
  "spelled m \<longleftrightarrow> (\<forall>k v. m k = Some v \<longrightarrow> to_lower v = k \<and> v \<noteq> [] \<and> trim_space v = v)"

lemma spelled_update: "spelled m \<Longrightarrow> v \<noteq> [] \<Longrightarrow> trim_space v = v \<Longrightarrow> spelled (m(to_lower v \<mapsto> v))"
  by (simp add: spelled_def)

lemma spelled_note: "spelled m \<Longrightarrow> spelled (note_desired ch m)"
  by (simp add: note_desired_def Let_def spelled_update)

lemma spelled_fold: "spelled m \<Longrightarrow> spelled (fold note_desired desired m)"
  by (induction desired arbitrary: m) (simp_all add: spelled_note)

lemma desired_map_spelled: "spelled (desired_map desired)"
  unfolding desired_map_def by (rule spelled_fold) (simp add: spelled_def)

lemma desired_map_shape: "desired_map desired k = Some v \<Longrightarrow> to_lower v = k \<and> v \<noteq> [] \<and> trim_space v = v"
  using desired_map_spelled [of desired] unfolding spelled_def by blast

lemma Snapshot_entry:
  assumes "wanted_inv w" "cur \<in> set (Snapshot w)"
  shows "wc_Name cur \<noteq> [] \<and> trim_space (wc_Name cur) = wc_Name cur \<and> Wanted.Get w (wc_Name cur) = Some cur"
proof -
  obtain k where k: "k \<in> set (order w)" "cur = (case channels w k of Some e \<Rightarrow> e | None \<Rightarrow> zero_channel)"
    using assms(2) by (auto simp: Snapshot_def)
  then obtain e where e: "channels w k = Some e" using wanted_key [OF assms(1)] by blast
  with k assms(1) show ?thesis by (auto simp: wanted_inv_def Wanted.Get_def)
qed

lemma Get_in_Snapshot:
  assumes "wanted_inv w" "Wanted.Get w n \<noteq> None"
  shows "\<exists>cur\<in>set (Snapshot w). to_lower (wc_Name cur) = to_lower (trim_space n)"
proof -
  have "to_lower (trim_space n) \<in> set (order w)"
    using assms wanted_key [OF assms(1)] by (simp add: Wanted.Get_def)
  then show ?thesis using Snapshot_names [OF assms(1)] by (metis (no_types, lifting) imageE image_set)
qed

lemma Get_reconciled:
  assumes inv: "wanted_inv (wanted c)" and ord: "set ord = dom (desired_map desired)"
  shows "(Wanted.Get (wanted (ReconcileChannels ord desired c)) n \<noteq> None) =
      (desired_map desired (to_lower (trim_space n)) \<noteq> None) \<and>
    (desired_map desired (to_lower (trim_space n)) \<noteq> None \<longrightarrow> Wanted.Get (wanted c) n = Some e \<longrightarrow>
       Wanted.Get (wanted (ReconcileChannels ord desired c)) n = Some e)"
proof -
  let ?want = "desired_map desired"
  let ?k = "to_lower (trim_space n)"
  let ?w = "fold (part_wanted ?want) (Snapshot (wanted c)) (wanted c)"
  let ?L = "List.map_filter ?want ord"
  have d: "wanted (ReconcileChannels ord desired c) = fold join_wanted ?L ?w"
    by (simp add: ReconcileChannels_def Let_def fold_part_wanted fold_join_wanted)
  have L: "\<forall>v\<in>set ?L. v \<noteq> [] \<and> trim_space v = v"
    using desired_map_shape by (auto simp: set_map_filter)
  have w: "Wanted.Get ?w n = (if ?want ?k = None then None else Wanted.Get (wanted c) n)"
  proof -
    have S: "\<forall>cur\<in>set (Snapshot (wanted c)). wc_Name cur \<noteq> [] \<and> trim_space (wc_Name cur) = wc_Name cur"
      using Snapshot_entry [OF inv] by blast
    show ?thesis unfolding Get_fold_part [OF S] using Get_in_Snapshot [OF inv, of n]
      by (cases "Wanted.Get (wanted c) n") auto
  qed
  have "(\<exists>v\<in>set ?L. to_lower v = ?k) \<longleftrightarrow> ?want ?k \<noteq> None"
  proof
    assume "\<exists>v\<in>set ?L. to_lower v = ?k"
    then obtain v k where "?want k = Some v" "to_lower v = ?k" by (auto simp: set_map_filter)
    then show "?want ?k \<noteq> None" using desired_map_shape by force
  next
    assume "?want ?k \<noteq> None"
    then obtain v where v: "?want ?k = Some v" by auto
    moreover have "?k \<in> set ord" using ord v by auto
    ultimately show "\<exists>v\<in>set ?L. to_lower v = ?k" using desired_map_shape [OF v] by (auto simp: set_map_filter)
  qed
  with Get_fold_join [OF L, of ?w n e] w show ?thesis unfolding d by auto
qed

lemma wanted_inv_reconcile: "wanted_inv (wanted c) \<Longrightarrow> wanted_inv (wanted (ReconcileChannels ord desired c))"
proof -
  have "wanted_inv w \<Longrightarrow> wanted_inv (fold (part_wanted want) L w)" for want L w
    by (induction L arbitrary: w) (auto simp: part_wanted_def wanted_inv_Remove)
  moreover have "wanted_inv w \<Longrightarrow> wanted_inv (fold join_wanted L w)" for L w
    by (induction L arbitrary: w) (auto simp: join_wanted_def wanted_inv_Add)
  ultimately show "wanted_inv (wanted c) \<Longrightarrow> wanted_inv (wanted (ReconcileChannels ord desired c))"
    by (simp add: ReconcileChannels_def Let_def fold_part_wanted fold_join_wanted)
qed

text \<open>Reconciliation converges in one step. Afterwards exactly the desired channels are wanted, up to
  case and blanks; a channel that stays keeps its entry, key included; and reconciling again with the same
  list does nothing at all, in particular it sends nothing.\<close>

theorem reconcile_converges:
  assumes "wanted_inv (wanted c)" "set ord = dom (desired_map desired)"
  shows "(Wanted.Get (wanted (ReconcileChannels ord desired c)) n \<noteq> None) =
      (to_lower (trim_space n) \<in> (\<lambda>ch. to_lower (trim_space ch)) ` {ch \<in> set desired. trim_space ch \<noteq> []}) \<and>
    (Wanted.Get (wanted c) n = Some e \<and> Wanted.Get (wanted (ReconcileChannels ord desired c)) n \<noteq> None \<longrightarrow>
       Wanted.Get (wanted (ReconcileChannels ord desired c)) n = Some e) \<and>
    ReconcileChannels ord desired (ReconcileChannels ord desired c) = ReconcileChannels ord desired c"
proof -
  let ?want = "desired_map desired"
  let ?d = "ReconcileChannels ord desired c"
  have dom: "?want k \<noteq> None \<longleftrightarrow> k \<in> (\<lambda>ch. to_lower (trim_space ch)) ` {ch \<in> set desired. trim_space ch \<noteq> []}" for k
  proof -
    have "fold note_desired desired m k \<noteq> None \<longleftrightarrow>
        m k \<noteq> None \<or> k \<in> (\<lambda>ch. to_lower (trim_space ch)) ` {ch \<in> set desired. trim_space ch \<noteq> []}" for m
      by (induction desired arbitrary: m) (auto simp: note_desired_def Let_def image_iff)
    from this [of Map.empty] show ?thesis by (simp add: desired_map_def)
  qed
  note G = Get_reconciled [OF assms]
  have inv: "wanted_inv (wanted ?d)" using assms(1) by (rule wanted_inv_reconcile)
  have part: "reconcile_part ?want live cur ?d = ?d" if "cur \<in> set (Snapshot (wanted ?d))" for cur live
  proof -
    have "Wanted.Get (wanted ?d) (wc_Name cur) \<noteq> None" "trim_space (wc_Name cur) = wc_Name cur"
      using Snapshot_entry [OF inv that] by auto
    then have "?want (to_lower (wc_Name cur)) \<noteq> None" using G [of "wc_Name cur"] by simp
    then show ?thesis unfolding reconcile_part_def by (rule if_P)
  qed
  have join: "reconcile_join live v ?d = ?d" if v: "v \<in> set (List.map_filter ?want ord)" for v live
  proof -
    obtain k where k: "?want k = Some v" using v unfolding set_map_filter by blast
    have "to_lower v = k" "trim_space v = v" using desired_map_shape [OF k] by auto
    then have "Wanted.Get (wanted ?d) v \<noteq> None" using G [of v] k by simp
    then show ?thesis unfolding reconcile_join_def by (rule if_P)
  qed
  have same: "(\<forall>x\<in>set L. f x d = d) \<Longrightarrow> fold f L d = d" for f :: "'x \<Rightarrow> Connector \<Rightarrow> Connector" and L d
    by (induction L) auto
  have "ReconcileChannels ord desired ?d = ?d"
    unfolding ReconcileChannels_def [of ord desired ?d] Let_def using part join by (simp add: same)
  then show ?thesis using G [of n] dom by auto
qed

end
