(* ===== verification/Handshake.thy ===== *)
theory Handshake
  imports Connector
begin

text \<open>
  \<^verbatim>\<open>internal/connector/irc/connector.go\<close>, second part: one connect cycle. \<open>register\<close> with its SASL
  exchange, \<open>awaitHandshake\<close>, \<open>bringUp\<close>, the fallback classification, \<open>Start\<close> and \<open>Stop\<close>.

  A reading loop takes the rest of the read script and returns what it left. The outcome of a step is an
  error or nothing, the connector and the rest of the script. The steps run to completion here; a \<open>Suspend\<close>
  from another goroutine comes before or after a cycle (the theory Supervisor interleaves them).
\<close>

type_synonym script = "(err + string) list"
type_synonym outcome = "err option \<times> Connector \<times> script"

definition no_client :: err where "no_client = errorf ''irc: no upstream client''"
definition eof :: err where "eof = (Eof, ''EOF'')"

definition andThen :: "outcome \<Rightarrow> (Connector \<Rightarrow> script \<Rightarrow> outcome) \<Rightarrow> outcome" where
  "andThen r k = (case r of (Some e, c, s) \<Rightarrow> (Some e, c, s) | (None, c, s) \<Rightarrow> k c s)"

text \<open>A write through the field \<^verbatim>\<open>c.client\<close>, which the code does not check for nil.\<close>

definition c_write :: "string \<Rightarrow> string \<Rightarrow> Connector \<Rightarrow> script \<Rightarrow> outcome" where
  "c_write pre line c s =
     (if client c = None then (Some (OtherError, ''nil pointer dereference''), c\<lparr>crashed := True\<rparr>, s)
      else case sock_write line c of
             (c, None) \<Rightarrow> (None, c, s)
           | (c, Some e) \<Rightarrow> (Some (wrap pre e), c, s))"

definition respondPong :: "Message \<Rightarrow> Connector \<Rightarrow> Connector" where
  "respondPong msg c =
     (let tgt = (if Trailing msg = [] \<and> length (Params msg) > 0 then Params msg ! 0 else Trailing msg)
      in send_if_connected (CmdPong @ '' :'' @ tgt) c)"

section \<open>SASL PLAIN\<close>

text \<open>What a CAP line says of the capability: acknowledged, refused, or nothing.\<close>

definition cap_answer :: "string \<Rightarrow> Message \<Rightarrow> bool option" where
  "cap_answer capability msg =
     (if Command msg = CmdCap \<and> length (Params msg) \<ge> 2 then
        (let sub = to_upper (Params msg ! 1);
             payload = (if Trailing msg = [] \<and> length (Params msg) > 2
                        then join '' '' (drop 2 (Params msg)) else Trailing msg)
         in if sub = ''ACK'' \<and> contains payload capability then Some True
            else if sub = ''NAK'' \<and> contains payload capability then Some False
            else None)
      else None)"

fun awaitCapAck :: "string \<Rightarrow> script \<Rightarrow> Connector \<Rightarrow> (err + bool) \<times> Connector \<times> script" where
  "awaitCapAck capability [] c = (Inl (if client c = None then no_client else eof), c, [])"
| "awaitCapAck capability (r # rs) c =
     (if client c = None then (Inl no_client, c, r # rs)
      else case r of
             Inl e \<Rightarrow> (Inl e, c, rs)
           | Inr line \<Rightarrow>
               (let msg = Parse line
                in if Command msg = CmdPing then awaitCapAck capability rs (respondPong msg c)
                   else case cap_answer capability msg of
                          Some b \<Rightarrow> (Inr b, c, rs)
                        | None \<Rightarrow> awaitCapAck capability rs c))"

definition sasl_rejected :: "string \<Rightarrow> bool" where
  "sasl_rejected cmd \<longleftrightarrow>
     cmd = ErrSaslFail \<or> cmd = ErrSaslAborted \<or> cmd = ErrSaslAlready \<or> cmd = ErrSaslTooLong"

fun awaitAuthenticateContinue :: "script \<Rightarrow> Connector \<Rightarrow> (err + bool) \<times> Connector \<times> script" where
  "awaitAuthenticateContinue [] c = (Inl (if client c = None then no_client else eof), c, [])"
| "awaitAuthenticateContinue (r # rs) c =
     (if client c = None then (Inl no_client, c, r # rs)
      else case r of
             Inl e \<Rightarrow> (Inl e, c, rs)
           | Inr line \<Rightarrow>
               (let msg = Parse line
                in if Command msg = CmdPing then awaitAuthenticateContinue rs (respondPong msg c)
                   else if Command msg = CmdAuthenticate then
                     (let challenge = (if Trailing msg = [] \<and> length (Params msg) > 0
                                       then Params msg ! 0 else Trailing msg)
                      in (Inr (challenge = ''+''), c, rs))
                   else if sasl_rejected (Command msg) then
                     (Inl (errorf (''irc SASL rejected: '' @ Command msg @ '' '' @ Trailing msg)), c, rs)
                   else awaitAuthenticateContinue rs c))"

fun awaitSASLResult :: "script \<Rightarrow> Connector \<Rightarrow> outcome" where
  "awaitSASLResult [] c = (Some (if client c = None then no_client else eof), c, [])"
| "awaitSASLResult (r # rs) c =
     (if client c = None then (Some no_client, c, r # rs)
      else case r of
             Inl e \<Rightarrow> (Some e, c, rs)
           | Inr line \<Rightarrow>
               (let msg = Parse line
                in if Command msg = CmdPing then awaitSASLResult rs (respondPong msg c)
                   else if Command msg = RplSaslSuccess \<or> Command msg = RplSaslLoggedIn then (None, c, rs)
                   else if sasl_rejected (Command msg) then
                     (let c = (case ClassifyNumeric (Command msg) of
                                 Some st \<Rightarrow> goto st (Trailing msg) c
                               | None \<Rightarrow> c)
                      in (Some (errorf (''irc SASL failed: '' @ Command msg @ '' '' @ Trailing msg)), c, rs))
                   else awaitSASLResult rs c))"

text \<open>\<^verbatim>\<open>base64.StdEncoding\<close>.\<close>

definition b64_char :: "nat \<Rightarrow> char" where
  "b64_char n =
     (if n < 26 then char_of (65 + n)
      else if n < 52 then char_of (97 + (n - 26))
      else if n < 62 then char_of (48 + (n - 52))
      else if n = 62 then CHR ''+'' else CHR ''/'')"

fun base64 :: "string \<Rightarrow> string" where
  "base64 [] = []"
| "base64 [a] =
     (let n = of_char a * 65536 :: nat
      in [b64_char (n div 262144), b64_char (n div 4096 mod 64), CHR ''='', CHR ''=''])"
| "base64 [a, b] =
     (let n = of_char a * 65536 + of_char b * 256 :: nat
      in [b64_char (n div 262144), b64_char (n div 4096 mod 64), b64_char (n div 64 mod 64), CHR ''=''])"
| "base64 (a # b # c # cs) =
     (let n = of_char a * 65536 + of_char b * 256 + of_char c :: nat
      in b64_char (n div 262144) # b64_char (n div 4096 mod 64) # b64_char (n div 64 mod 64) #
         b64_char (n mod 64) # base64 cs)"

text \<open>After \<^verbatim>\<open>AUTHENTICATE PLAIN\<close>: the credentials, if the server asks for them.\<close>

definition sasl_exchange :: "Connector \<Rightarrow> script \<Rightarrow> outcome" where
  "sasl_exchange c s =
     (case awaitAuthenticateContinue s c of
        (Inl e, c, s) \<Rightarrow> (Some e, c, s)
      | (Inr False, c, s) \<Rightarrow> (None, c, s)
      | (Inr True, c, s) \<Rightarrow>
          (let creds = [nul] @ SASLUser (settings c) @ [nul] @ SASLPassword (settings c)
           in andThen (c_write ''irc AUTHENTICATE creds'' (CmdAuthenticate @ '' '' @ base64 creds) c s)
                (\<lambda>c s. awaitSASLResult s c)))"

definition runSASLPlain :: "Connector \<Rightarrow> script \<Rightarrow> outcome" where
  "runSASLPlain c s =
     (case awaitCapAck ''sasl'' s c of
        (Inl e, c, s) \<Rightarrow> (Some e, c, s)
      | (Inr False, c, s) \<Rightarrow> (None, c, s)
      | (Inr True, c, s) \<Rightarrow>
          andThen (c_write ''irc AUTHENTICATE PLAIN'' (CmdAuthenticate @ '' PLAIN'') c s) sasl_exchange)"

section \<open>Registration\<close>

definition send_cap_req :: "Connector \<Rightarrow> script \<Rightarrow> outcome" where
  "send_cap_req c s =
     (let caps = [''server-time'', ''account-tag''] @ (if SASLEnabled (settings c) then [''sasl''] else [])
      in c_write ''irc CAP REQ'' (FormatCommand CmdCap [''REQ''] (join '' '' caps) True) c s)"

definition maybe_sasl :: "Connector \<Rightarrow> script \<Rightarrow> outcome" where
  "maybe_sasl c s = (if SASLEnabled (settings c) then runSASLPlain c s else (None, c, s))"

definition maybe_pass :: "Connector \<Rightarrow> script \<Rightarrow> outcome" where
  "maybe_pass c s =
     (if ServerPassword (settings c) \<noteq> []
      then c_write ''irc PASS'' (CmdPass @ '' '' @ ServerPassword (settings c)) c s else (None, c, s))"

definition send_user :: "Connector \<Rightarrow> script \<Rightarrow> outcome" where
  "send_user c s =
     c_write ''irc USER''
       (FormatCommand CmdUser [EffectiveUsername (settings c), ''0'', ''*''] (RealName (settings c)) True) c s"

definition send_nick :: "Connector \<Rightarrow> script \<Rightarrow> outcome" where
  "send_nick c s =
     (let nick = effectiveNick c;
          c = (setDesiredNick nick c)\<lparr>nickFallbacks := 0, attemptedNick := nick\<rparr>
      in c_write ''irc NICK'' (CmdNick @ '' '' @ nick) c s)"

definition send_cap_end :: "Connector \<Rightarrow> script \<Rightarrow> outcome" where
  "send_cap_end c s = c_write ''irc CAP END'' (CmdCap @ '' END'') c s"

definition register :: "Connector \<Rightarrow> script \<Rightarrow> outcome" where
  "register c s =
     andThen (send_cap_req c s) (\<lambda>c s. andThen (maybe_sasl c s) (\<lambda>c s. andThen (maybe_pass c s)
       (\<lambda>c s. andThen (send_user c s) (\<lambda>c s. andThen (send_nick c s) send_cap_end))))"

definition info_numeric :: "string \<Rightarrow> bool" where
  "info_numeric cmd \<longleftrightarrow>
     cmd \<in> {RplYourHost, RplCreated, RplMyInfo, RplISupport, RplLUserClient, RplLUserOp, RplLUserUnknown,
            RplLUserChannels, RplLUserMe}"

definition motd_numeric :: "string \<Rightarrow> bool" where
  "motd_numeric cmd \<longleftrightarrow> cmd \<in> {RplMOTDStart, RplMOTD, RplEndOfMOTD, ErrNoMOTD}"

definition maybePublishHandshakeServerNotice :: "Message \<Rightarrow> Connector \<Rightarrow> Connector" where
  "maybePublishHandshakeServerNotice msg c =
     (if Command msg = RplWelcome then publishServerNotice ''welcome'' (Trailing msg) c
      else if info_numeric (Command msg) then publishServerNotice ''info'' (serverNoticeText msg) c
      else if motd_numeric (Command msg) then publishServerNotice ''motd'' (serverNoticeText msg) c
      else c)"

text \<open>What one handshake line does to the nick and to the state machine.\<close>

definition handshake_classify :: "string \<Rightarrow> Message \<Rightarrow> Connector \<Rightarrow> Connector" where
  "handshake_classify line msg c =
     (let c = (if Command msg = RplWelcome \<and> length (Params msg) > 0
               then setCurrentNick (Params msg ! 0) c else c)
      in case ClassifyNumeric (Command msg) of
           Some st \<Rightarrow> goto st (Trailing msg) c
         | None \<Rightarrow>
             (case ClassifyDisconnectMessage line of
                Some (st, reason) \<Rightarrow> goto st reason c
              | None \<Rightarrow> c))"

definition handshake_abort :: "Message \<Rightarrow> Connector \<Rightarrow> err option" where
  "handshake_abort msg c =
     (if Command msg = ErrErroneusNickname then
        Some (errorf (''irc handshake: nickname '' @ go_quote (attemptedNick c) @ '' erroneous/reserved (432): '' @ Trailing msg))
      else if Command msg = ErrUnavailResource then
        Some (errorf (''irc handshake: nickname '' @ go_quote (st_Nick (settings c)) @ '' unavailable/reserved (437): '' @ Trailing msg))
      else if Command msg = ErrPasswdMismatch then
        Some (errorf ''irc handshake: server password rejected (464)'')
      else if Command msg = ErrYoureBannedCreep then
        Some (errorf (''irc handshake: banned from network (465): '' @ Trailing msg))
      else if Command msg = ErrNotRegistered then
        Some (errorf ''irc handshake: server rejected pre-registration command (451)'')
      else None)"

fun awaitHandshake :: "script \<Rightarrow> Connector \<Rightarrow> outcome" where
  "awaitHandshake [] c = (Some (wrap ''irc handshake'' (if client c = None then no_client else eof)), c, [])"
| "awaitHandshake (r # rs) c =
     (if client c = None then (Some (wrap ''irc handshake'' no_client), c, r # rs)
      else case r of
             Inl e \<Rightarrow> (Some (wrap ''irc handshake'' e), c, rs)
           | Inr line \<Rightarrow>
               (let msg = Parse line
                in if Command msg = CmdPing then awaitHandshake rs (respondPong msg c)
                   else let c = handshake_classify line msg c
                   in if Command msg = ErrNickNameInUse then
                        (case nextFallbackNick c of
                           (c, Some nxt) \<Rightarrow>
                             (case c_write (''irc handshake: NICK fallback '' @ go_quote nxt) (CmdNick @ '' '' @ nxt) c rs of
                                (Some e, c, s) \<Rightarrow> (Some e, c, s)
                              | (None, c, s) \<Rightarrow> awaitHandshake rs c)
                         | (c, None) \<Rightarrow>
                             (Some (errorf (''irc handshake: nickname '' @ go_quote (attemptedNick c) @
                                ('' already in use (433); fallbacks exhausted after '' @ nat_str (nickFallbacks c) @ '' tries''))),
                              goto DisconnectedNickInvalid
                                (''nickname '' @ go_quote (desiredNick c) @ '' and its alternates are all taken'') c,
                              rs))
                      else case handshake_abort msg c of
                             Some e \<Rightarrow> (Some e, c, rs)
                           | None \<Rightarrow>
                               (let c = maybePublishHandshakeServerNotice msg c
                                in if IsHandshakeComplete (Command msg) then (None, c, rs)
                                   else awaitHandshake rs c)))"

section \<open>Classifying a failed connect\<close>

definition transitionFromError :: "err \<Rightarrow> Connector \<Rightarrow> Connector" where
  "transitionFromError e c =
     (if fst e = CtxCanceled \<or> fst e = CtxDeadline then goto Stopped [] c
      else case ClassifyError (Some (fst e)) of
             Some st \<Rightarrow> goto st (snd e) c
           | None \<Rightarrow> c)"

text \<open>\<open>cancelled\<close> is \<^verbatim>\<open>ctx.Err() != nil\<close>.\<close>

definition classifyFallback :: "bool \<Rightarrow> err \<Rightarrow> Connector \<Rightarrow> Connector" where
  "classifyFallback cancelled e c =
     (if IsRecoverable (up c) \<or> IsTerminal (up c) \<or> IsParkable (up c) then c
      else if cancelled then goto Stopped [] c
      else case ClassifyError (Some (fst e)) of
             Some st \<Rightarrow> (if st \<noteq> Stopped then goto st (snd e) c else goto DisconnectedTransient (snd e) c)
           | None \<Rightarrow> goto DisconnectedTransient (snd e) c)"

section \<open>One connect cycle\<close>

text \<open>What the outside does to one cycle: the gate's answer, the dial (an error or the local port), the
  TLS handshake, the lines the server sends, how many writes the socket takes, and whether the context
  is found cancelled when a failure is classified.\<close>

record attempt =
  gate_err :: "err option"
  dial_res :: "err + int"
  tls_err :: "err option"
  reads :: script
  budget :: "nat option"
  cancelled :: bool

definition join_line :: "WantedChannel \<Rightarrow> string" where
  "join_line w = CmdJoin @ '' '' @ wc_Name w @ (if Key w \<noteq> [] then '' '' @ Key w else [])"

text \<open>A failed write comes with the label its error is wrapped with; the bare error is the one classified.\<close>

fun replay_joins :: "WantedChannel list \<Rightarrow> Connector \<Rightarrow> (string \<times> err) option \<times> Connector" where
  "replay_joins [] c = (None, c)"
| "replay_joins (w # ws) c =
     (case sock_write (join_line w) c of
        (c, Some e) \<Rightarrow> (Some (''irc JOIN '' @ wc_Name w, e), c)
      | (c, None) \<Rightarrow> replay_joins ws c)"

definition identify :: "Connector \<Rightarrow> (string \<times> err) option \<times> Connector" where
  "identify c =
     (if NickServEnabled (settings c)
      then case sock_write (CmdPrivmsg @ '' NickServ :IDENTIFY '' @ NickServPassword (settings c)) c of
             (c, Some e) \<Rightarrow> (Some (''irc NickServ IDENTIFY'', e), c)
           | (c, None) \<Rightarrow> (None, c)
      else (None, c))"

definition drop_client :: "bool \<Rightarrow> err \<Rightarrow> Connector \<Rightarrow> Connector" where
  "drop_client canc e c = classifyFallback canc e (setClient None c)"

definition go_live :: "Connector \<Rightarrow> Connector" where
  "go_live c =
     (let c = call_bouncer (AttachState (currentNick c) (EffectiveUsername (settings c)) ''turborg'') c;
          c = goto Registered [] c
      in SetPreferredNick [] c)"

definition enter_channels :: "bool \<Rightarrow> Connector \<Rightarrow> err option \<times> Connector" where
  "enter_channels canc c =
     (case replay_joins (Snapshot (wanted c)) c of
        (Some (l, e), c) \<Rightarrow> (Some (wrap l e), drop_client canc e c)
      | (None, c) \<Rightarrow>
          (case identify c of
             (Some (l, e), c) \<Rightarrow> (Some (wrap l e), drop_client canc e c)
           | (None, c) \<Rightarrow> (None, go_live c)))"

definition after_tls :: "attempt \<Rightarrow> int \<Rightarrow> Connector \<Rightarrow> err option \<times> Connector" where
  "after_tls a port c =
     (let c = goto Registering [] (setClient (Some port) c) in
      case andThen (register c (reads a)) (\<lambda>c s. awaitHandshake s c) of
        (Some e, c, s) \<Rightarrow> (Some e, drop_client (cancelled a) e c)
      | (None, c, s) \<Rightarrow> enter_channels (cancelled a) c)"

definition bringUp :: "attempt \<Rightarrow> Connector \<Rightarrow> err option \<times> Connector" where
  "bringUp a c =
     (let c = goto Connecting [] c in
      case gate_err a of
        Some e \<Rightarrow> (Some e, classifyFallback (cancelled a) e c)
      | None \<Rightarrow>
      case dial_res a of
        Inl e \<Rightarrow> (Some e, classifyFallback (cancelled a) e c)
      | Inr port \<Rightarrow>
      (let c = reportIdentPort port (c\<lparr>writes_left := budget a\<rparr>) in
      case tls_err a of
        Some e \<Rightarrow> (Some e, drop_client (cancelled a) e c)
      | None \<Rightarrow> after_tls a port c))"

text \<open>\<open>bouncer_err\<close> is the outcome of bringing the bouncer's listener up.\<close>

definition Start :: "err option \<Rightarrow> attempt \<Rightarrow> Connector \<Rightarrow> err option \<times> Connector" where
  "Start bouncer_err a c =
     (if BouncerEnabled (settings c) \<and> bouncer_err \<noteq> None then (bouncer_err, c)
      else let c = c\<lparr>bouncer := BouncerEnabled (settings c) \<or> bouncer c\<rparr>;
               (err, c) = (if suspended c then (None, goto DisconnectedByUser [] c) else bringUp a c)
           in if err \<noteq> None \<and> \<not> IsRecoverable (up c) \<and> \<not> IsParkable (up c) then (err, c)
              else let mx = CTCPMaxPerWindow (settings c); w = CTCPWindowSeconds (settings c) in
                case (if mx > 0 \<and> w > 0 then map_sum id Some (NewThrottle mx (w * second)) else Inr (ctcp c)) of
                  Inl e \<Rightarrow>
                    (Some (errorf (''irc CTCP throttle: '' @ e)),
                     if client c \<noteq> None then setClient None c else c)
                | Inr t \<Rightarrow>
                    (None, publish EventReady
                             [(''connector'', VStr ''irc''), (''nick'', VStr (st_Nick (settings c)))]
                             (c\<lparr>ctcp := t\<rparr>)))"

definition Stop :: "Connector \<Rightarrow> Connector" where
  "Stop c =
     (if client c = None then goto Stopped [] c
      else if stopped c then c
      else let c = fst (sock_write (CmdQuit @ '' :'' @ EffectiveQuitMessage (settings c)) (c\<lparr>stopped := True\<rparr>))
           in goto Stopped [] (setClient None c))"

section \<open>What a cycle leaves alone\<close>

text \<open>A step moves the machine by transitions only, and takes no time.\<close>

definition tracks :: "Connector \<Rightarrow> Connector \<Rightarrow> bool" where
  "tracks c d \<longleftrightarrow>
     (\<exists>ds. entered (machine d) = entered (machine c) @ ds \<and> up d = last (up c # ds)) \<and> clock d = clock c"

lemma tracks_refl [simp]: "tracks c c"
  by (simp add: tracks_def)

lemma tracks_trans:
  assumes "tracks c d" "tracks d e"
  shows "tracks c e"
proof -
  obtain a where a: "entered (machine d) = entered (machine c) @ a" "up d = last (up c # a)"
    using assms(1) by (auto simp: tracks_def simp del: last.simps)
  obtain b where b: "entered (machine e) = entered (machine d) @ b" "up e = last (up d # b)"
    using assms(2) by (auto simp: tracks_def simp del: last.simps)
  have "last (up c # a @ b) = last (last (up c # a) # b)" by (cases b) simp_all
  then have "entered (machine e) = entered (machine c) @ (a @ b) \<and> up e = last (up c # (a @ b))" using a b by simp
  then show ?thesis using assms unfolding tracks_def by (metis (no_types))
qed

lemma tracks_same [simp]: "machine d = machine c \<Longrightarrow> clock d = clock c \<Longrightarrow> tracks c d"
  by (simp add: tracks_def)

lemma tracks_goto [simp]: "tracks c (goto st r c)"
  by (auto simp: tracks_def goto_def Transition_def Let_def)

text \<open>A step that does not enter \<^const>\<open>Stopped\<close>.\<close>

definition unstopped :: "Connector \<Rightarrow> Connector \<Rightarrow> bool" where
  "unstopped c d \<longleftrightarrow> (\<exists>ds. entered (machine d) = entered (machine c) @ ds \<and> Stopped \<notin> set ds)"

lemma unstopped_refl [simp]: "unstopped c c"
  by (simp add: unstopped_def)

lemma unstopped_trans: "unstopped c d \<Longrightarrow> unstopped d e \<Longrightarrow> unstopped c e"
  by (auto simp: unstopped_def)

lemma unstopped_same [simp]: "machine d = machine c \<Longrightarrow> unstopped c d"
  by (simp add: unstopped_def)

lemma unstopped_goto [simp]: "st \<noteq> Stopped \<Longrightarrow> unstopped c (goto st r c)"
  by (auto simp: unstopped_def goto_def Transition_def Let_def)

text \<open>The frame of the handshake steps: they touch neither the configuration, the channels nor the client,
  never stop the machine, never crash while there is a client, and only append to the wire.\<close>

definition frame :: "Connector \<Rightarrow> Connector \<Rightarrow> bool" where
  "frame c d \<longleftrightarrow>
     tracks c d \<and>
     settings d = settings c \<and> wanted d = wanted c \<and> client d = client c \<and> chan_state d = chan_state c \<and>
     suspended d = suspended c \<and> (client c \<noteq> None \<longrightarrow> crashed d = crashed c) \<and>
     (up c \<noteq> Stopped \<longrightarrow> up d \<noteq> Stopped) \<and> unstopped c d \<and> prefix (wire c) (wire d)"

named_theorems frames "steps that keep the frame"

lemma frame_refl [simp, frames]: "frame c c"
  by (simp add: frame_def)

lemma frame_trans: "frame c d \<Longrightarrow> frame d e \<Longrightarrow> frame c e"
  using tracks_trans [of c d e] unstopped_trans [of c d e] unfolding frame_def
  by (elim conjE, intro conjI) (simp_all add: prefix_order.trans)

lemma goto_up [simp]: "up (goto st r c) = st"
  by (auto simp: goto_def Transition_def Let_def)

lemma goto_fields [simp]:
  "settings (goto st r c) = settings c" "wanted (goto st r c) = wanted c" "client (goto st r c) = client c"
  "chan_state (goto st r c) = chan_state c" "suspended (goto st r c) = suspended c"
  "crashed (goto st r c) = crashed c" "wire (goto st r c) = wire c" "preferredNick (goto st r c) = preferredNick c"
  "currentNick (goto st r c) = currentNick c" "desiredNick (goto st r c) = desiredNick c"
  "writes_left (goto st r c) = writes_left c" "attemptedNick (goto st r c) = attemptedNick c"
  "nickFallbacks (goto st r c) = nickFallbacks c" "bouncer (goto st r c) = bouncer c"
  "lifecycleCh (goto st r c) = lifecycleCh c" "published (goto st r c) = published c"
  by (simp_all add: goto_def)

lemma frame_goto [frames]: "st \<noteq> Stopped \<Longrightarrow> frame c (goto st r c)"
  by (simp add: frame_def)

lemma frame_sock_write [frames]: "frame c (fst (sock_write l c))"
  by (auto simp: sock_write_def frame_def split: option.split nat.split)

lemma frame_send [frames]: "frame c (send_if_connected l c)"
  by (simp add: send_if_connected_def frame_sock_write)

lemma frame_call_bouncer [frames]: "frame c (call_bouncer b c)"
  by (simp add: call_bouncer_def frame_def)

lemma frame_publish [frames]: "frame c (publish t fs c)" "frame c (publishServerNotice k x c)"
  by (simp_all add: publish_def publishServerNotice_def frame_def)

lemma frame_hook [frames]: "frame c (run_nick_hook c)"
  by (simp add: run_nick_hook_def frame_def)

lemma frame_setCurrentNick [frames]: "frame c (setCurrentNick n c)"
proof -
  have "frame d (run_nick_hook (call_bouncer b d))" for d b
    by (rule frame_trans [OF frame_call_bouncer frame_hook])
  moreover have "frame c (c\<lparr>currentNick := n\<rparr>)" by (simp add: frame_def)
  ultimately show ?thesis by (auto simp: setCurrentNick_def Let_def intro: frame_trans)
qed

lemma frame_SetPreferredNick [frames]: "frame c (SetPreferredNick n c)"
  by (auto simp: SetPreferredNick_def Let_def run_nick_hook_def frame_def)

lemma frame_client: "frame c d \<Longrightarrow> client d = client c"
  by (simp add: frame_def)

lemma frame_respondPong [frames]: "frame c (respondPong m c)"
  by (simp add: respondPong_def frame_send)

lemma frame_after_pong: "frame (respondPong m c) d \<Longrightarrow> frame c d"
  using frame_respondPong by (rule frame_trans)

lemma frame_awaitCapAck: "awaitCapAck cap s c = (r, d, t) \<Longrightarrow> frame c d"
proof (induction s arbitrary: c r d t)
  case (Cons x rs)
  from Cons.prems show ?case
    by (cases x) (auto simp: Let_def split: if_splits option.splits dest!: Cons.IH dest: frame_after_pong)
qed auto

lemma frame_awaitAuthenticateContinue: "awaitAuthenticateContinue s c = (r, d, t) \<Longrightarrow> frame c d"
proof (induction s arbitrary: c r d t)
  case (Cons x rs)
  from Cons.prems show ?case
    by (cases x) (auto simp: Let_def split: if_splits dest!: Cons.IH dest: frame_after_pong)
qed auto

lemma ClassifyNumeric_not_stopped: "ClassifyNumeric n = Some st \<Longrightarrow> st \<noteq> Stopped"
  by (auto simp: ClassifyNumeric_def split: if_splits)

lemma ClassifyDisconnectMessage_not_stopped: "ClassifyDisconnectMessage l = Some (st, r) \<Longrightarrow> st \<noteq> Stopped"
  by (auto simp: ClassifyDisconnectMessage_def ClassifyBanReason_def split: option.splits if_splits)

lemma frame_awaitSASLResult: "awaitSASLResult s c = (r, d, t) \<Longrightarrow> frame c d"
proof (induction s arbitrary: c r d t)
  case (Cons x rs)
  have "frame c (case ClassifyNumeric n of None \<Rightarrow> c | Some st \<Rightarrow> goto st r c)" for n r
    by (auto split: option.split intro: frame_goto dest: ClassifyNumeric_not_stopped)
  with Cons.prems show ?case
    by (cases x) (auto simp: Let_def split: if_splits dest!: Cons.IH dest: frame_after_pong)
qed auto

text \<open>A step that keeps the frame whenever there is a client; such steps compose.\<close>

definition framed :: "(Connector \<Rightarrow> script \<Rightarrow> outcome) \<Rightarrow> bool" where
  "framed k \<longleftrightarrow> (\<forall>c s. client c \<noteq> None \<longrightarrow> frame c (fst (snd (k c s))))"

lemma framedD: "framed k \<Longrightarrow> client c \<noteq> None \<Longrightarrow> k c s = (e, d, t) \<Longrightarrow> frame c d"
  by (metis framed_def fst_conv snd_conv)

lemma framed_andThen [frames]:
  assumes "framed f" "framed g"
  shows "framed (\<lambda>c s. andThen (f c s) g)"
  unfolding framed_def
proof (intro allI impI)
  fix c :: Connector and s :: script
  assume c: "client c \<noteq> None"
  obtain e d t where f: "f c s = (e, d, t)" by (cases "f c s")
  note fr = framedD [OF assms(1) c f]
  then have d: "client d \<noteq> None" using c by (simp add: frame_def)
  show "frame c (fst (snd (andThen (f c s) g)))"
  proof (cases e)
    case None
    have "frame d (fst (snd (g d t)))" using assms(2) d by (simp add: framed_def)
    with fr have "frame c (fst (snd (g d t)))" by (rule frame_trans)
    with None f show ?thesis by (simp add: andThen_def)
  qed (use f fr in \<open>simp add: andThen_def\<close>)
qed

lemma frame_c_write: "client c \<noteq> None \<Longrightarrow> frame c (fst (snd (c_write p l c s)))"
  using frame_sock_write [of c l] by (auto simp: c_write_def split: prod.splits option.splits)

lemma framed_c_write [frames]: "framed (\<lambda>c s. c_write (p c) (l c) c s)"
  by (simp add: framed_def frame_c_write del: not_None_eq)

lemma framed_none [frames]: "framed (\<lambda>c s. (None, c, s))"
  by (simp add: framed_def)

lemma framed_if [frames]: "framed f \<Longrightarrow> framed g \<Longrightarrow> framed (\<lambda>c s. if P c then f c s else g c s)"
  by (simp add: framed_def)

lemma framed_await_sasl [frames]: "framed (\<lambda>c s. awaitSASLResult s c)"
  unfolding framed_def using frame_awaitSASLResult by (metis prod.collapse)

lemma framed_sasl_exchange [frames]: "framed sasl_exchange"
  unfolding framed_def
proof (intro allI impI)
  fix c :: Connector and s :: script
  assume c: "client c \<noteq> None"
  obtain r d t where a: "awaitAuthenticateContinue s c = (r, d, t)" by (cases "awaitAuthenticateContinue s c")
  note f = frame_awaitAuthenticateContinue [OF a]
  let ?k = "\<lambda>c s. andThen (c_write ''irc AUTHENTICATE creds'' (CmdAuthenticate @ '' '' @
      base64 ([nul] @ SASLUser (settings c) @ [nul] @ SASLPassword (settings c))) c s) (\<lambda>c s. awaitSASLResult s c)"
  have "framed ?k" by (intro frames)
  moreover have "client d \<noteq> None" using f c by (simp add: frame_def)
  ultimately have "frame d (fst (snd (?k d t)))" unfolding framed_def by blast
  with f have "frame c (fst (snd (?k d t)))" by (rule frame_trans)
  then show "frame c (fst (snd (sasl_exchange c s)))"
    using f a by (cases r) (auto simp: sasl_exchange_def Let_def split: bool.split)
qed

lemma framed_runSASLPlain [frames]: "framed runSASLPlain"
  unfolding framed_def
proof (intro allI impI)
  fix c :: Connector and s :: script
  assume c: "client c \<noteq> None"
  obtain r d t where a: "awaitCapAck ''sasl'' s c = (r, d, t)" by (cases "awaitCapAck ''sasl'' s c")
  note f = frame_awaitCapAck [OF a]
  let ?k = "\<lambda>c s. andThen (c_write ''irc AUTHENTICATE PLAIN'' (CmdAuthenticate @ '' PLAIN'') c s) sasl_exchange"
  have "framed ?k" by (intro frames)
  moreover have "client d \<noteq> None" using f c by (simp add: frame_def)
  ultimately have "frame d (fst (snd (?k d t)))" unfolding framed_def by blast
  with f have "frame c (fst (snd (?k d t)))" by (rule frame_trans)
  then show "frame c (fst (snd (runSASLPlain c s)))"
    using f a by (cases r) (auto simp: runSASLPlain_def split: bool.split)
qed

lemma framed_send_nick [frames]: "framed send_nick"
  unfolding framed_def send_nick_def Let_def
proof (intro allI impI)
  fix c :: Connector and s
  assume c: "client c \<noteq> None"
  let ?c = "(setDesiredNick (effectiveNick c) c)\<lparr>nickFallbacks := 0, attemptedNick := effectiveNick c\<rparr>"
  have "frame c ?c" by (simp add: setDesiredNick_def frame_def)
  moreover have "frame ?c (fst (snd (c_write ''irc NICK'' (CmdNick @ '' '' @ effectiveNick c) ?c s)))"
    by (rule frame_c_write) (use c in \<open>simp add: setDesiredNick_def\<close>)
  ultimately show "frame c (fst (snd (c_write ''irc NICK'' (CmdNick @ '' '' @ effectiveNick c) ?c s)))"
    by (rule frame_trans)
qed

lemma framed_register [frames]: "framed register"
proof -
  have "framed send_cap_req" "framed maybe_sasl" "framed maybe_pass" "framed send_user" "framed send_cap_end"
    unfolding send_cap_req_def maybe_sasl_def maybe_pass_def send_user_def send_cap_end_def Let_def
    by (intro frames)+
  then have "framed (\<lambda>c s. register c s)" unfolding register_def by (intro frames)
  then show ?thesis .
qed

lemma frame_classified:
  assumes "frame c d"
  shows "frame c (case ClassifyNumeric n of
           Some st \<Rightarrow> goto st r d
         | None \<Rightarrow> (case ClassifyDisconnectMessage line of Some (st, reason) \<Rightarrow> goto st reason d | None \<Rightarrow> d))"
proof -
  have g: "st \<noteq> Stopped \<Longrightarrow> frame c (goto st r d)" for st r
    using assms frame_goto by (rule frame_trans)
  show ?thesis
    using assms g [OF ClassifyNumeric_not_stopped] g [OF ClassifyDisconnectMessage_not_stopped]
    by (simp split: option.split prod.split)
qed

lemma frame_handshake_classify [frames]: "frame c (handshake_classify line msg c)"
  unfolding handshake_classify_def Let_def by (rule frame_classified) (simp add: frame_setCurrentNick)

lemma frame_maybePublish [frames]: "frame c (maybePublishHandshakeServerNotice msg c)"
  by (simp add: maybePublishHandshakeServerNotice_def frame_publish)

lemma frame_nextFallbackNick [frames]: "frame c (fst (nextFallbackNick c))"
  by (auto simp: nextFallbackNick_def Let_def frame_def)

lemma frame_awaitHandshake: "client c \<noteq> None \<Longrightarrow> frame c (fst (snd (awaitHandshake s c)))"
proof (induction s arbitrary: c)
  case Nil
  then show ?case by auto
next
  case (Cons x rs)
  show ?case
  proof (cases x)
    case (Inl e)
    with Cons.prems show ?thesis by auto
  next
    case (Inr line)
    let ?m = "Parse line"
    let ?c = "handshake_classify line ?m c"
    have cc: "frame c ?c" by (rule frame_handshake_classify)
    have cl: "client ?c \<noteq> None" using cc Cons.prems by (simp add: frame_def)
    have IH: "frame c d \<Longrightarrow> frame c (fst (snd (awaitHandshake rs d)))" for d
      using Cons.IH [of d] Cons.prems by (metis frame_client frame_trans)
    show ?thesis
    proof (cases "Command ?m = CmdPing")
      case True
      then show ?thesis using Inr Cons.prems IH [OF frame_respondPong] by auto
    next
      case ping: False
      show ?thesis
      proof (cases "Command ?m = ErrNickNameInUse")
        case True
        obtain d nx where nx: "nextFallbackNick ?c = (d, nx)" by (cases "nextFallbackNick ?c")
        have cd: "frame c d" using frame_trans [OF cc frame_nextFallbackNick] nx by simp
        have dl: "client d \<noteq> None" using cd Cons.prems by (simp add: frame_def)
        show ?thesis
        proof (cases nx)
          case None
          have "frame c (goto DisconnectedNickInvalid r d)" for r
            by (rule frame_trans [OF cd]) (simp add: frame_goto)
          with None True ping nx Inr Cons.prems show ?thesis by (auto simp: Let_def)
        next
          case (Some n)
          obtain e c3 s3 where w: "c_write (''irc handshake: NICK fallback '' @ go_quote n) (CmdNick @ '' '' @ n) d rs = (e, c3, s3)"
            by (cases "c_write (''irc handshake: NICK fallback '' @ go_quote n) (CmdNick @ '' '' @ n) d rs")
          have "frame c c3" using frame_trans [OF cd frame_c_write [OF dl, of "''irc handshake: NICK fallback '' @ go_quote n" "CmdNick @ '' '' @ n" rs]] w by simp
          with IH w nx Some True ping Inr Cons.prems show ?thesis by (cases e) (auto simp: Let_def)
        qed
      next
        case False
        have "frame c (maybePublishHandshakeServerNotice ?m ?c)"
          by (rule frame_trans [OF cc frame_maybePublish])
        with IH cc False ping Inr Cons.prems show ?thesis by (auto simp: Let_def split: option.split)
      qed
    qed
  qed
qed

lemma framed_awaitHandshake [frames]: "framed (\<lambda>c s. awaitHandshake s c)"
  unfolding framed_def using frame_awaitHandshake by blast

lemma frame_replay_joins: "frame c (snd (replay_joins ws c))"
proof (induction ws arbitrary: c)
  case (Cons w ws)
  then show ?case using frame_sock_write [of c "join_line w"]
    by (auto split: prod.split option.split intro: frame_trans)
qed simp

lemma frame_identify: "frame c (snd (identify c))"
  using frame_sock_write by (auto simp: identify_def split: prod.split option.split) (metis fst_conv)+

section \<open>Properties\<close>

text \<open>The state a failed step is left in.\<close>

definition settled :: "Connector \<Rightarrow> bool" where
  "settled c \<longleftrightarrow> IsRecoverable (up c) \<or> IsTerminal (up c) \<or> IsParkable (up c)"

lemma classifyFallback_settled: "settled (classifyFallback canc e c)"
  by (auto simp: classifyFallback_def settled_def ClassifyError_def IsTerminal_def IsRecoverable_def split: option.split)

lemma classifyFallback_not_stopped: "up c \<noteq> Stopped \<Longrightarrow> up (classifyFallback False e c) \<noteq> Stopped"
  by (auto simp: classifyFallback_def split: option.split)

lemma classifyFallback_client [simp]: "client (classifyFallback canc e c) = client c"
  by (auto simp: classifyFallback_def split: option.split)

lemma setClient_fields [simp]:
  "client (setClient cl c) = cl" "machine (setClient cl c) = machine c" "settings (setClient cl c) = settings c"
  "wanted (setClient cl c) = wanted c" "wire (setClient cl c) = wire c" "suspended (setClient cl c) = suspended c"
  by (auto simp: setClient_def reportIdentPort_def Let_def split: option.split)

lemma reportIdentPort_fields [simp]:
  "client (reportIdentPort p c) = client c" "machine (reportIdentPort p c) = machine c"
  "wanted (reportIdentPort p c) = wanted c" "wire (reportIdentPort p c) = wire c"
  "settings (reportIdentPort p c) = settings c"
  by (auto simp: reportIdentPort_def Let_def split: option.split)

lemma drop_client_settled: "settled (drop_client canc e c) \<and> client (drop_client canc e c) = None \<and>
    (up c \<noteq> Stopped \<longrightarrow> \<not> canc \<longrightarrow> up (drop_client canc e c) \<noteq> Stopped)"
  using classifyFallback_not_stopped [of "setClient None c" e]
  by (simp add: drop_client_def classifyFallback_settled)

lemma dropped:
  assumes "d = drop_client canc e c" "up c \<noteq> Stopped"
  shows "settled d" "client d = None" "\<not> canc \<Longrightarrow> up d \<noteq> Stopped"
  unfolding assms(1) using drop_client_settled [of canc e c] assms(2) by blast+

lemma replay_joins_ok: "replay_joins ws c = (None, d) \<Longrightarrow> wire d = wire c @ map join_line ws"
proof (induction ws arbitrary: c)
  case (Cons w ws)
  then obtain c1 where w1: "sock_write (join_line w) c = (c1, None)" "replay_joins ws c1 = (None, d)"
    by (auto split: prod.splits option.splits)
  then have "wire c1 = wire c @ [join_line w]" by (auto simp: sock_write_def split: option.splits nat.splits)
  with Cons.IH [OF w1(2)] show ?case by simp
qed simp

lemma identify_ok:
  "identify c = (None, d) \<Longrightarrow>
     wire d = wire c @ (if NickServEnabled (settings c)
       then [CmdPrivmsg @ '' NickServ :IDENTIFY '' @ NickServPassword (settings c)] else [])"
  by (auto simp: identify_def sock_write_def split: prod.splits option.splits if_splits nat.splits)

lemma SetPreferredNick_fields [simp]:
  "client (SetPreferredNick n c) = client c" "machine (SetPreferredNick n c) = machine c"
  "wire (SetPreferredNick n c) = wire c" "preferredNick (SetPreferredNick n c) = n"
  "settings (SetPreferredNick n c) = settings c" "wanted (SetPreferredNick n c) = wanted c"
  by (auto simp: SetPreferredNick_def Let_def run_nick_hook_def)

lemma call_bouncer_fields [simp]:
  "client (call_bouncer b c) = client c" "machine (call_bouncer b c) = machine c" "wire (call_bouncer b c) = wire c"
  "settings (call_bouncer b c) = settings c" "wanted (call_bouncer b c) = wanted c"
  "preferredNick (call_bouncer b c) = preferredNick c"
  by (simp_all add: call_bouncer_def)

definition tail_lines :: "Connector \<Rightarrow> string list" where
  "tail_lines c = map join_line (Snapshot (wanted c)) @
     (if NickServEnabled (settings c)
      then [CmdPrivmsg @ '' NickServ :IDENTIFY '' @ NickServPassword (settings c)] else [])"

text \<open>What a cycle promises once a connection is dialled on \<open>port\<close>, from a connector with these \<open>tail\<close> lines.\<close>

definition cycle_ok :: "bool \<Rightarrow> int \<Rightarrow> string list \<Rightarrow> err option \<Rightarrow> Connector \<Rightarrow> bool" where
  "cycle_ok canc port tail res d \<longleftrightarrow>
     (if res = None then up d = Registered \<and> client d = Some port \<and> preferredNick d = [] \<and> suffix tail (wire d)
      else settled d \<and> client d = None \<and> (\<not> canc \<longrightarrow> up d \<noteq> Stopped))"

lemma cycle_ok_drop:
  "up c \<noteq> Stopped \<Longrightarrow> cycle_ok canc port tail (Some e) (drop_client canc e' c)"
  using dropped [of "drop_client canc e' c" canc e' c] by (simp add: cycle_ok_def)

lemma go_live_fields [simp]:
  "up (go_live c) = Registered" "client (go_live c) = client c" "preferredNick (go_live c) = []" "wire (go_live c) = wire c"
  by (simp_all add: go_live_def Let_def)

lemma enter_channels_ok:
  assumes "client c = Some port" "up c \<noteq> Stopped" "enter_channels canc c = (res, d)"
  shows "cycle_ok canc port (tail_lines c) res d"
proof -
  obtain e1 c1 where j: "replay_joins (Snapshot (wanted c)) c = (e1, c1)" by fastforce
  have f1: "frame c c1" using frame_replay_joins [of c "Snapshot (wanted c)"] j by auto
  show ?thesis
  proof (cases e1)
    case (Some le)
    then show ?thesis using assms j f1 by (cases le) (auto simp: enter_channels_def frame_def intro!: cycle_ok_drop)
  next
    case none1: None
    obtain e2 c2 where k: "identify c1 = (e2, c2)" by fastforce
    have f2: "frame c c2" using frame_trans [OF f1] frame_identify [of c1] k by auto
    show ?thesis
    proof (cases e2)
      case (Some le)
      then show ?thesis using assms j k none1 f2 by (cases le) (auto simp: enter_channels_def frame_def intro!: cycle_ok_drop)
    next
      case none2: None
      have "res = None" "d = go_live c2" using assms(3) j k none1 none2 by (simp_all add: enter_channels_def)
      moreover have "wire c2 = wire c @ tail_lines c"
        using replay_joins_ok [of _ c c1] identify_ok [of c1 c2] j k none1 none2 f1
        by (simp add: tail_lines_def frame_def)
      moreover have "client c2 = Some port" using f2 assms(1) by (simp add: frame_def)
      ultimately show ?thesis by (simp add: cycle_ok_def suffix_def)
    qed
  qed
qed

lemma after_tls_ok:
  assumes "after_tls a port c = (res, d)"
  shows "cycle_ok (cancelled a) port (tail_lines c) res d"
proof -
  let ?c = "goto Registering [] (setClient (Some port) c)"
  have c: "client ?c = Some port" "up ?c = Registering" "tail_lines ?c = tail_lines c"
    by (simp_all add: tail_lines_def)
  have fr: "framed (\<lambda>c s. andThen (register c s) (\<lambda>c s. awaitHandshake s c))" by (intro frames)
  obtain e1 c1 s1 where h: "andThen (register ?c (reads a)) (\<lambda>c s. awaitHandshake s c) = (e1, c1, s1)"
    by (cases "andThen (register ?c (reads a)) (\<lambda>c s. awaitHandshake s c)")
  have f1: "frame ?c c1" using framedD [OF fr _ h] c by simp
  have u1: "up c1 \<noteq> Stopped" "client c1 = Some port" "tail_lines c1 = tail_lines c"
    using f1 c by (auto simp: frame_def tail_lines_def)
  show ?thesis
  proof (cases e1)
    case (Some e)
    then show ?thesis using assms h u1(1) by (auto simp: after_tls_def Let_def intro!: cycle_ok_drop)
  next
    case None
    then show ?thesis using assms h enter_channels_ok [OF u1(2,1)] u1(3) by (simp add: after_tls_def Let_def)
  qed
qed

lemma bringUp_success:
  assumes "bringUp a c = (None, d)"
  shows "up d = Registered \<and> client d \<noteq> None \<and> preferredNick d = []"
proof -
  obtain port where g: "gate_err a = None" "dial_res a = Inr port" "tls_err a = None"
    using assms by (auto simp: bringUp_def Let_def split: option.splits sum.splits)
  let ?c = "reportIdentPort port ((goto Connecting [] c)\<lparr>writes_left := budget a\<rparr>)"
  have "after_tls a port ?c = (None, d)" using assms g by (simp add: bringUp_def Let_def)
  from after_tls_ok [OF this] show ?thesis by (simp add: cycle_ok_def)
qed

text \<open>C6: the outcome of a connect cycle, whatever the gate, the dial, TLS, the server's lines and the socket do.
  On success the machine is \<^const>\<open>Registered\<close> on the dialled connection, the queued nick is consumed, and the
  last things written are the JOINs of every wanted channel, in order and with their keys, and the NickServ
  identification if configured. On failure the machine is in a recoverable, terminal or parkable state,
  never left connecting; it is \<^const>\<open>Stopped\<close> only if the context was cancelled (our own dial deadline
  does not stop the connector). Once a connection had been dialled no client is left installed; where the connect
  gate or the dial failed, the client is the one from before, so a stale one stays installed.\<close>

theorem bringUp_outcome:
  assumes "bringUp a c = (res, d)"
  shows "(res = None \<longrightarrow>
      up d = Registered \<and> dial_res a = Inr (the (client d)) \<and> client d \<noteq> None \<and> preferredNick d = [] \<and>
      suffix (map join_line (Snapshot (wanted c)) @
        (if NickServEnabled (settings c)
         then [CmdPrivmsg @ '' NickServ :IDENTIFY '' @ NickServPassword (settings c)] else [])) (wire d)) \<and>
    (res \<noteq> None \<longrightarrow>
      (IsRecoverable (up d) \<or> IsTerminal (up d) \<or> IsParkable (up d)) \<and>
      (\<not> cancelled a \<longrightarrow> up d \<noteq> Stopped) \<and>
      (gate_err a = None \<and> (\<exists>port. dial_res a = Inr port) \<longrightarrow> client d = None) \<and>
      (gate_err a \<noteq> None \<or> (\<exists>e. dial_res a = Inl e) \<longrightarrow> client d = client c))"
proof (cases "gate_err a")
  case (Some e)
  then have d: "res = Some e" "d = classifyFallback (cancelled a) e (goto Connecting [] c)"
    using assms by (auto simp: bringUp_def)
  then show ?thesis
    using classifyFallback_settled [of "cancelled a" e "goto Connecting [] c"]
      classifyFallback_not_stopped [of "goto Connecting [] c" e] Some
    by (auto simp: settled_def)
next
  case gate: None
  show ?thesis
  proof (cases "dial_res a")
    case (Inl e)
    then have d: "res = Some e" "d = classifyFallback (cancelled a) e (goto Connecting [] c)"
      using assms gate by (auto simp: bringUp_def)
    then show ?thesis
      using classifyFallback_settled [of "cancelled a" e "goto Connecting [] c"]
        classifyFallback_not_stopped [of "goto Connecting [] c" e] Inl
      by (auto simp: settled_def)
  next
    case (Inr port)
    show ?thesis
    proof (cases "tls_err a")
      case (Some e)
      let ?c = "reportIdentPort port ((goto Connecting [] c)\<lparr>writes_left := budget a\<rparr>)"
      have "res = Some e" "d = drop_client (cancelled a) e ?c"
        using assms gate Inr Some by (auto simp: bringUp_def Let_def)
      moreover have "up ?c \<noteq> Stopped" by simp
      ultimately show ?thesis using dropped [of d "cancelled a" e ?c] gate Inr by (simp add: settled_def)
    next
      case None
      let ?c = "reportIdentPort port ((goto Connecting [] c)\<lparr>writes_left := budget a\<rparr>)"
      have t: "tail_lines ?c = tail_lines c" by (simp add: tail_lines_def)
      have "after_tls a port ?c = (res, d)" using assms gate Inr None by (simp add: bringUp_def Let_def)
      from after_tls_ok [OF this] have "cycle_ok (cancelled a) port (tail_lines c) res d" unfolding t .
      then show ?thesis using Inr gate by (auto simp: cycle_ok_def settled_def tail_lines_def)
    qed
  qed
qed

definition sample_attempt :: attempt where
  "sample_attempt =
     \<lparr>gate_err = None, dial_res = Inr 40000, tls_err = None,
      reads = [Inr ''PING :x'', Inr '':s 433 * bot :in use'', Inr '':s 001 bot_ :hi'', Inr '':s 376 bot_ :end''],
      budget = None, cancelled = False\<rparr>"

theorem bringUp_outcome_witness:
  "fst (bringUp sample_attempt (NewConnector sample_settings True 0)) = None \<and>
   up (snd (bringUp sample_attempt (NewConnector sample_settings True 0))) = Registered \<and>
   currentNick (snd (bringUp sample_attempt (NewConnector sample_settings True 0))) = ''bot_''"
proof -
  let ?r = "bringUp sample_attempt (NewConnector sample_settings True 0)"
  have ok: "fst ?r = None" by code_simp
  moreover have "currentNick (snd ?r) = ''bot_''" by code_simp
  moreover have "?r = (fst ?r, snd ?r)" by simp
  from bringUp_outcome [OF this] ok have "up (snd ?r) = Registered" by blast
  ultimately show ?thesis by blast
qed

text \<open>How many more suffixes may be tried: bounded by the count and by the length of the nick.\<close>

definition room :: "Connector \<Rightarrow> nat" where
  "room c = min (maxNickFallbacks - nickFallbacks c) (fallbackMaxNickLen - length (attemptedNick c))"

lemma nextFallbackNick_room:
  "room c = 0 \<Longrightarrow> nextFallbackNick c = (c, None)"
  "room c > 0 \<Longrightarrow> nextFallbackNick c =
     (c\<lparr>nickFallbacks := Suc (nickFallbacks c), attemptedNick := attemptedNick c @ ''_''\<rparr>, Some (attemptedNick c @ ''_''))"
  by (auto simp: room_def nextFallbackNick_def Let_def)

lemma handshake_classify_433:
  "Command msg = ErrNickNameInUse \<Longrightarrow>
     handshake_classify line msg c = goto DisconnectedNickUnavailable (Trailing msg) c"
  by (simp add: handshake_classify_def ClassifyNumeric_def)

text \<open>A taken nick. While the server answers 433, the handshake keeps registering on the same connection
  with one more underscore each time, at most eight times and never past fifteen characters; when the
  answers outlast the alternates, it fails and parks in \<^const>\<open>DisconnectedNickInvalid\<close>, and while they do
  not, it is still reading in the recoverable \<^const>\<open>DisconnectedNickUnavailable\<close>. No other line is written.\<close>

theorem nick_in_use:
  assumes "client c \<noteq> None" "writes_left c = None" "\<forall>l\<in>set lines. Command (Parse l) = ErrNickNameInUse" "lines \<noteq> []"
  shows "\<exists>e d t. awaitHandshake (map Inr lines) c = (Some e, d, t) \<and>
    wire d = wire c @ map (\<lambda>i. CmdNick @ '' '' @ attemptedNick c @ replicate (Suc i) (CHR ''_''))
      [0..<min (length lines) (room c)] \<and>
    up d = (if length lines > room c then DisconnectedNickInvalid else DisconnectedNickUnavailable)"
  using assms
proof (induction lines arbitrary: c)
  case Nil
  then show ?case by simp
next
  case (Cons l ls)
  let ?m = "Parse l"
  let ?c = "goto DisconnectedNickUnavailable (Trailing ?m) c"
  have m: "Command ?m = ErrNickNameInUse" using Cons.prems by simp
  have r: "room ?c = room c" by (simp add: room_def)
  show ?case
  proof (cases "room c = 0")
    case True
    then show ?thesis using Cons.prems(1) m nextFallbackNick_room(1) [of ?c] r
      by (auto simp: handshake_classify_433 Let_def)
  next
    case False
    let ?d = "?c\<lparr>nickFallbacks := Suc (nickFallbacks c), attemptedNick := attemptedNick c @ ''_''\<rparr>"
    let ?w = "?d\<lparr>wire := wire c @ [CmdNick @ '' '' @ attemptedNick c @ ''_'']\<rparr>"
    have step: "awaitHandshake (map Inr (l # ls)) c = awaitHandshake (map Inr ls) ?w"
      using Cons.prems(1,2) m nextFallbackNick_room(2) [of ?c] r False
      by (auto simp: handshake_classify_433 Let_def c_write_def sock_write_def)
    have rw: "room ?w = room c - 1" using False by (auto simp: room_def)
    show ?thesis
    proof (cases "ls = []")
      case True
      have "\<not> length (l # ls) > room c" using True False by simp
      then show ?thesis unfolding step using True False Cons.prems(1) by (simp add: min_def)
    next
      case False
      have "client ?w \<noteq> None" "writes_left ?w = None" "\<forall>l\<in>set ls. Command (Parse l) = ErrNickNameInUse"
        using Cons.prems by simp_all
      from Cons.IH [OF this False] obtain e d t where IH: "awaitHandshake (map Inr ls) ?w = (Some e, d, t)"
        "wire d = wire ?w @ map (\<lambda>i. CmdNick @ '' '' @ attemptedNick ?w @ replicate (Suc i) (CHR ''_''))
           [0..<min (length ls) (room ?w)]"
        "up d = (if length ls > room ?w then DisconnectedNickInvalid else DisconnectedNickUnavailable)" by blast
      have u: "[0..<min (length (l # ls)) (room c)] = 0 # map Suc [0..<min (length ls) (room ?w)]"
        using rw \<open>room c \<noteq> 0\<close> by (cases "room c") (simp_all add: upt_conv_Cons map_Suc_upt del: upt_Suc)
      show ?thesis unfolding step IH(1) using IH(2,3) rw \<open>room c \<noteq> 0\<close> unfolding u by auto
    qed
  qed
qed

section \<open>The user's intent\<close>

text \<open>A cycle keeps what the user asked for: intent, channels, configuration.\<close>

definition keeps :: "Connector \<Rightarrow> Connector \<Rightarrow> bool" where
  "keeps c d \<longleftrightarrow>
     tracks c d \<and> suspended d = suspended c \<and> wanted d = wanted c \<and> settings d = settings c \<and> chan_state d = chan_state c"

lemma frame_keeps: "frame c d \<Longrightarrow> keeps c d"
  by (simp add: frame_def keeps_def)

lemma keeps_refl [simp]: "keeps c c"
  by (simp add: keeps_def)

lemma keeps_trans: "keeps c d \<Longrightarrow> keeps d e \<Longrightarrow> keeps c e"
  using tracks_trans [of c d e] by (simp add: keeps_def)

lemma keeps_steps:
  "keeps c (goto st r c)" "keeps c (setClient cl c)" "keeps c (reportIdentPort p c)"
  "keeps c (classifyFallback canc e c)" "keeps c (drop_client canc e c)" "keeps c (go_live c)"
  "keeps c (c\<lparr>writes_left := b\<rparr>)"
proof -
  have g: "keeps c (goto st r c)" for c st r by (simp add: keeps_def)
  have sc: "keeps c (setClient cl c)" for c cl
    by (auto simp: keeps_def setClient_def reportIdentPort_def Let_def split: option.split)
  have cf: "keeps c (classifyFallback canc e c)" for c canc e
    by (auto simp: classifyFallback_def g split: option.split)
  show "keeps c (goto st r c)" "keeps c (setClient cl c)" "keeps c (classifyFallback canc e c)" by (fact g sc cf)+
  show "keeps c (reportIdentPort p c)"
    by (auto simp: keeps_def reportIdentPort_def Let_def split: option.split)
  show "keeps c (drop_client canc e c)" unfolding drop_client_def by (rule keeps_trans [OF sc cf])
  have "frame c (go_live c)" unfolding go_live_def Let_def
    by (intro frame_trans [OF frame_trans [OF frame_call_bouncer frame_goto] frame_SetPreferredNick]) simp
  then show "keeps c (go_live c)" by (rule frame_keeps)
  show "keeps c (c\<lparr>writes_left := b\<rparr>)" by (simp add: keeps_def)
qed

lemma keeps_enter_channels: "keeps c (snd (enter_channels canc c))"
proof -
  obtain e1 c1 where j: "replay_joins (Snapshot (wanted c)) c = (e1, c1)" by fastforce
  have k1: "keeps c c1" using frame_keeps [OF frame_replay_joins [of c "Snapshot (wanted c)"]] j by simp
  obtain e2 c2 where k: "identify c1 = (e2, c2)" by fastforce
  have k2: "keeps c c2" using keeps_trans [OF k1] frame_keeps [OF frame_identify [of c1]] k by simp
  show ?thesis
    using j k keeps_trans [OF k1 keeps_steps(5)] keeps_trans [OF k2 keeps_steps(5)] keeps_trans [OF k2 keeps_steps(6)]
    by (cases e1; cases e2) (auto simp: enter_channels_def)
qed

lemma keeps_after_tls: "keeps c (snd (after_tls a port c))"
proof -
  let ?c = "goto Registering [] (setClient (Some port) c)"
  have fr: "framed (\<lambda>c s. andThen (register c s) (\<lambda>c s. awaitHandshake s c))" by (intro frames)
  obtain e1 c1 s1 where h: "andThen (register ?c (reads a)) (\<lambda>c s. awaitHandshake s c) = (e1, c1, s1)"
    by (cases "andThen (register ?c (reads a)) (\<lambda>c s. awaitHandshake s c)")
  have "frame ?c c1" using framedD [OF fr _ h] by simp
  then have k: "keeps c c1" using keeps_trans [OF keeps_trans [OF keeps_steps(2) keeps_steps(1)] frame_keeps] by blast
  show ?thesis
    using h keeps_trans [OF k keeps_steps(5)] keeps_trans [OF k keeps_enter_channels]
    by (cases e1) (auto simp: after_tls_def Let_def)
qed

lemma keeps_bringUp: "keeps c (snd (bringUp a c))"
proof -
  have k: "keeps c (reportIdentPort port ((goto Connecting [] c)\<lparr>writes_left := budget a\<rparr>))" for port
    by (rule keeps_trans [OF keeps_trans [OF keeps_steps(1) keeps_steps(7)] keeps_steps(3)])
  have f: "keeps c (classifyFallback (cancelled a) e (goto Connecting [] c))" for e
    by (rule keeps_trans [OF keeps_steps(1) keeps_steps(4)])
  show ?thesis
    using f keeps_trans [OF k keeps_steps(5)] keeps_trans [OF k keeps_after_tls]
    by (auto simp: bringUp_def Let_def split: option.split sum.split)
qed

text \<open>Nor does a cycle stop the machine, unless its context is cancelled.\<close>

lemma unstopped_steps:
  "unstopped c (setClient cl c)" "unstopped c (reportIdentPort p c)" "unstopped c (c\<lparr>writes_left := b\<rparr>)"
  "unstopped c (classifyFallback False e c)" "unstopped c (drop_client False e c)" "unstopped c (go_live c)"
proof -
  have cf: "unstopped c (classifyFallback False e c)" for c e
    by (auto simp: classifyFallback_def split: option.split)
  show "unstopped c (setClient cl c)" "unstopped c (reportIdentPort p c)" "unstopped c (c\<lparr>writes_left := b\<rparr>)"
    "unstopped c (classifyFallback False e c)" using cf by simp_all
  show "unstopped c (drop_client False e c)" unfolding drop_client_def by (rule unstopped_trans [OF _ cf]) simp
  have "unstopped c (goto Registered [] (call_bouncer b c))" for b
    by (rule unstopped_trans [OF unstopped_same unstopped_goto]) simp_all
  then show "unstopped c (go_live c)" unfolding go_live_def Let_def
    by (rule unstopped_trans [OF _ unstopped_same]) simp
qed

lemma frame_unstopped: "frame c d \<Longrightarrow> unstopped c d"
  by (simp add: frame_def)

lemma unstopped_enter_channels: "unstopped c (snd (enter_channels False c))"
proof -
  obtain e1 c1 where j: "replay_joins (Snapshot (wanted c)) c = (e1, c1)" by fastforce
  have k1: "unstopped c c1" using frame_unstopped [OF frame_replay_joins [of c "Snapshot (wanted c)"]] j by simp
  obtain e2 c2 where k: "identify c1 = (e2, c2)" by fastforce
  have k2: "unstopped c c2" using unstopped_trans [OF k1] frame_unstopped [OF frame_identify [of c1]] k by simp
  show ?thesis
    using j k unstopped_trans [OF k1 unstopped_steps(5)] unstopped_trans [OF k2 unstopped_steps(5)]
      unstopped_trans [OF k2 unstopped_steps(6)]
    by (cases e1; cases e2) (auto simp: enter_channels_def)
qed

lemma unstopped_after_tls:
  assumes "\<not> cancelled a"
  shows "unstopped c (snd (after_tls a port c))"
proof -
  let ?c = "goto Registering [] (setClient (Some port) c)"
  have fr: "framed (\<lambda>c s. andThen (register c s) (\<lambda>c s. awaitHandshake s c))" by (intro frames)
  obtain e1 c1 s1 where h: "andThen (register ?c (reads a)) (\<lambda>c s. awaitHandshake s c) = (e1, c1, s1)"
    by (cases "andThen (register ?c (reads a)) (\<lambda>c s. awaitHandshake s c)")
  have "frame ?c c1" using framedD [OF fr _ h] by simp
  moreover have "unstopped c ?c" by (rule unstopped_trans [OF unstopped_same unstopped_goto]) simp_all
  ultimately have k: "unstopped c c1" using unstopped_trans frame_unstopped by blast
  show ?thesis
    using h assms unstopped_trans [OF k unstopped_steps(5)] unstopped_trans [OF k unstopped_enter_channels]
    by (cases e1) (auto simp: after_tls_def Let_def)
qed

lemma unstopped_bringUp:
  assumes "\<not> cancelled a"
  shows "unstopped c (snd (bringUp a c))"
proof -
  have g: "unstopped c (goto Connecting [] c)" by simp
  have k: "unstopped c (reportIdentPort port ((goto Connecting [] c)\<lparr>writes_left := budget a\<rparr>))" for port
    by (rule unstopped_trans [OF g]) simp
  show ?thesis
    using assms unstopped_trans [OF g unstopped_steps(4)] unstopped_trans [OF k unstopped_steps(5)]
      unstopped_trans [OF k unstopped_after_tls [OF assms]]
    by (auto simp: bringUp_def Let_def split: option.split sum.split)
qed

lemma Suspend_fields:
  assumes "\<not> suspended c"
  shows "suspended (Suspend c)" "client (Suspend c) = None" "up (Suspend c) = DisconnectedByUser" "lifecycleCh (Suspend c)"
    "client c \<noteq> None \<Longrightarrow> writes_left c \<noteq> Some 0 \<Longrightarrow>
       wire (Suspend c) = wire c @ [CmdQuit @ '' :'' @ EffectiveQuitMessage (settings c)]"
  using assms
  by (auto simp: Suspend_def Let_def signalLifecycle_def sock_write_def split: option.split nat.split)

text \<open>A user disconnect takes effect at once and for good. \<^const>\<open>Suspend\<close> leaves no client, the parkable state
  and a wake-up for the supervisor, and says QUIT on a live socket first; from then on the supervisor parks,
  whatever connect cycle a race lets through, until \<^const>\<open>Resume\<close>; both are idempotent.\<close>

theorem suspend_parks:
  assumes "\<not> suspended c"
  shows "client (Suspend c) = None \<and> up (Suspend c) = DisconnectedByUser \<and> lifecycleCh (Suspend c) \<and>
    (client c \<noteq> None \<and> writes_left c \<noteq> Some 0 \<longrightarrow>
       wire (Suspend c) = wire c @ [CmdQuit @ '' :'' @ EffectiveQuitMessage (settings c)]) \<and>
    Suspend (Suspend c) = Suspend c \<and>
    shouldPark (snd (bringUp a (Suspend c))) \<and>
    \<not> shouldPark (Resume (Suspend c)) \<and> Resume (Resume (Suspend c)) = Resume (Suspend c)"
proof (intro conjI impI)
  note S = Suspend_fields [OF assms]
  show "client (Suspend c) = None" "up (Suspend c) = DisconnectedByUser" "lifecycleCh (Suspend c)" by (fact S)+
  show "wire (Suspend c) = wire c @ [CmdQuit @ '' :'' @ EffectiveQuitMessage (settings c)]"
    if "client c \<noteq> None \<and> writes_left c \<noteq> Some 0" using S(5) that by blast
  show "Suspend (Suspend c) = Suspend c" using S(1) by (subst Suspend_def) simp
  have "suspended (snd (bringUp a (Suspend c)))" using keeps_bringUp [of "Suspend c" a] S(1) by (simp add: keeps_def)
  then show "shouldPark (snd (bringUp a (Suspend c)))" by (simp add: shouldPark_def)
  show "\<not> shouldPark (Resume (Suspend c))" using S by (simp add: shouldPark_def Resume_def signalLifecycle_def)
  show "Resume (Resume (Suspend c)) = Resume (Suspend c)" by (simp add: Resume_def signalLifecycle_def)
qed

text \<open>The state a race can leave: a cycle that runs to its end after \<^const>\<open>Suspend\<close> is \<^const>\<open>Registered\<close> with a live
  client although the user disconnected; nothing in the cycle looks at the intent.\<close>

lemma suspend_race:
  "let c = snd (bringUp sample_attempt (Suspend (NewConnector sample_settings True 0)))
   in suspended c \<and> up c = Registered \<and> client c = Some 40000"
  by code_simp

text \<open>The nick applied live is registered with once and then forgotten. With a queued nick the next
  registration uses it; a cycle that succeeds clears the queue, so the one after registers, and reclaims,
  the configured nick again, although \<^const>\<open>ApplyNick\<close> says later reconnects keep it.\<close>

theorem applied_nick_forgotten:
  assumes "trim_space nick \<noteq> []" "trim_space nick \<noteq> desiredNick c" "bringUp a (ApplyNick nick c) = (None, d)"
  shows "effectiveNick (ApplyNick nick c) = trim_space nick \<and> desiredNick (ApplyNick nick c) = trim_space nick \<and>
    effectiveNick d = st_Nick (settings c)"
proof -
  let ?c = "ApplyNick nick c"
  have f: "preferredNick ?c = trim_space nick" "desiredNick ?c = trim_space nick" "settings ?c = settings c"
    using assms(1,2)
    by (auto simp: ApplyNick_def Let_def SetPreferredNick_def run_nick_hook_def setDesiredNick_def send_if_connected_def
        sock_write_def signalLifecycle_def split: UpstreamState.split option.split nat.split)
  have "preferredNick d = []" using bringUp_success [OF assms(3)] by blast
  moreover have "settings d = settings c" using keeps_bringUp [of ?c a] assms(3) f(3) by (simp add: keeps_def)
  ultimately show ?thesis using f assms(1) by (simp add: effectiveNick_def)
qed

end
