(* ===== verification/Dispatch.thy ===== *)
theory Dispatch
  imports Handshake "HOL-Library.Word"
begin

text \<open>
  \<^verbatim>\<open>internal/connector/irc/connector.go\<close>, third part: what a live session does with each line the server
  sends. \<open>dispatchLine\<close> classifies it, passes it on to the bouncer, and runs the handler of its command:
  the channel cache, the wanted set, the nick, WHOIS, WHO and LIST collection, CTCP replies, and the
  events published for the web gateway.

  Where a handler ranges over a Go map the order is an argument; \<open>denv\<close> bundles them.
\<close>

section \<open>CTCP\<close>

definition ctcpDelim :: char where "ctcpDelim = CHR 0x01"

definition isCTCP :: "string \<Rightarrow> bool" where
  "isCTCP text \<longleftrightarrow> length text \<ge> 2 \<and> hd text = ctcpDelim \<and> last text = ctcpDelim"

definition trim_ctcp :: "string \<Rightarrow> string" where
  "trim_ctcp text = trim_right (\<lambda>c. c = ctcpDelim) (trim_left (\<lambda>c. c = ctcpDelim) text)"

definition isACTION :: "string \<Rightarrow> bool" where
  "isACTION text \<longleftrightarrow> prefix ''ACTION'' (to_upper (trim_ctcp text))"

text \<open>\<open>rfc3339\<close> is the formatted clock and \<open>version\<close> the build's version string.\<close>

definition ctcpReply :: "string \<Rightarrow> string \<Rightarrow> string \<Rightarrow> string" where
  "ctcpReply version rfc3339 text =
     (let inner = trim_ctcp text
      in if inner = [] then []
         else let cmd = to_upper (takeWhile (\<lambda>c. c \<noteq> sp) inner);
                  arg = drop 1 (dropWhile (\<lambda>c. c \<noteq> sp) inner)
              in if cmd = ''VERSION'' then ''VERSION turborg '' @ version @ '' (https://github.com/turborg/turborg)''
                 else if cmd = ''PING'' then ''PING '' @ arg
                 else if cmd = ''TIME'' then ''TIME '' @ rfc3339
                 else if cmd = ''CLIENTINFO'' then ''CLIENTINFO VERSION PING TIME CLIENTINFO SOURCE USERINFO''
                 else if cmd = ''SOURCE'' then ''SOURCE https://github.com/turborg/turborg''
                 else if cmd = ''USERINFO'' then ''USERINFO turborg agent''
                 else [])"

section \<open>Helpers\<close>

definition joinTarget :: "Message \<Rightarrow> string" where
  "joinTarget msg = (if length (Params msg) > 0 \<and> Params msg ! 0 \<noteq> [] then Params msg ! 0 else Trailing msg)"

text \<open>The loop computes in \<^verbatim>\<open>int64\<close>: it wraps.\<close>

fun parse_unix_loop :: "string \<Rightarrow> 64 word \<Rightarrow> 64 word" where
  "parse_unix_loop [] v = v"
| "parse_unix_loop (b # bs) v =
     (if \<not> is_digit b then 0 else parse_unix_loop bs (v * 10 + of_nat (digit_value b)))"

definition parseUnixSeconds :: "string \<Rightarrow> int" where
  "parseUnixSeconds s = sint (parse_unix_loop s 0)"

definition isServerPrefix :: "string \<Rightarrow> bool" where
  "isServerPrefix p \<longleftrightarrow> p = [] \<or> CHR ''!'' \<notin> set p"

definition shouldFanOutToBouncer :: "string \<Rightarrow> bool" where
  "shouldFanOutToBouncer cmd \<longleftrightarrow>
     cmd \<notin> {[], CmdPing, CmdPong, CmdCap, CmdAuthenticate, RplSaslLoggedIn, RplSaslSuccess,
            ErrSaslFail, ErrSaslAborted, ErrSaslAlready, ErrSaslTooLong}"

definition humanReadableJoinFailure :: "string \<Rightarrow> string" where
  "humanReadableJoinFailure code =
     (if code = ErrBannedFromChan then ''banned from channel''
      else if code = ErrBadChannelKey then ''channel key required or incorrect''
      else if code = ErrChannelIsFull then ''channel is full''
      else if code = ErrInviteOnlyChan then ''channel is invite-only''
      else if code = ErrBadChanMask then ''channel name not accepted by the network''
      else ''rejected by network'')"

definition startsWithChannelSigil :: "string \<Rightarrow> bool" where
  "startsWithChannelSigil s \<longleftrightarrow> s \<noteq> [] \<and> hd s \<in> {CHR ''#'', CHR ''&'', CHR ''+'', CHR ''!''}"

abbreviation conn_field :: "string \<times> val" where "conn_field \<equiv> (''connector'', VStr ''irc'')"

abbreviation on_state :: "(ChannelState \<Rightarrow> ChannelState) \<Rightarrow> Connector \<Rightarrow> Connector" where
  "on_state f c \<equiv> c\<lparr>chan_state := f (chan_state c)\<rparr>"

text \<open>What the handlers read from outside: the build version, the formatted time, and Go's orders over the
  channel map and over a channel's member map.\<close>

record denv =
  build_version :: string
  rfc3339 :: string
  chan_ord :: "string list"
  member_ord :: "string list"

section \<open>Membership\<close>

definition handleJoin :: "Message \<Rightarrow> Connector \<Rightarrow> Connector" where
  "handleJoin msg c =
     (let channel = joinTarget msg
      in if channel = [] then c
         else let nick = Nick (Prefix msg);
                  c = (if equal_fold nick (currentNick c)
                       then (on_state (OnSelfJoin channel) c)\<lparr>wanted := fst (Add channel [] (wanted c))\<rparr>
                       else on_state (OnMemberJoin channel nick) c)
              in publish EventUserJoin [conn_field, (''channel'', VStr channel), (''nick'', VStr nick)] c)"

definition handlePart :: "Message \<Rightarrow> Connector \<Rightarrow> Connector" where
  "handlePart msg c =
     (if length (Params msg) < 1 then c
      else let channel = Params msg ! 0;
               nick = Nick (Prefix msg);
               c = (if equal_fold nick (currentNick c)
                    then (on_state (OnSelfPart channel) c)\<lparr>wanted := fst (Remove channel (wanted c))\<rparr>
                    else on_state (OnMemberPart channel nick) c)
           in publish EventUserLeave [conn_field, (''channel'', VStr channel), (''nick'', VStr nick)] c)"

definition handleQuit :: "denv \<Rightarrow> Message \<Rightarrow> Connector \<Rightarrow> Connector" where
  "handleQuit env msg c =
     (let nick = Nick (Prefix msg)
      in if nick = [] then c
         else let affected = ChannelsContaining (chan_state c) (chan_ord env) nick;
                  c = on_state (OnMemberQuit nick) c
              in fold (\<lambda>channel c. publish EventUserLeave
                         [conn_field, (''channel'', VStr channel), (''nick'', VStr nick),
                          (''reason'', VStr (Trailing msg))] c)
                   affected c)"

definition handleKick :: "Message \<Rightarrow> Connector \<Rightarrow> Connector" where
  "handleKick msg c =
     (if length (Params msg) < 2 then c
      else let channel = Params msg ! 0; victim = Params msg ! 1
           in publish EventUserKicked
                [conn_field, (''channel'', VStr channel), (''nick'', VStr victim),
                 (''by'', VStr (Nick (Prefix msg))), (''reason'', VStr (Trailing msg))]
                (on_state (OnMemberKick channel victim) c))"

definition handleNickChange :: "Message \<Rightarrow> Connector \<Rightarrow> Connector" where
  "handleNickChange msg c =
     (let old = Nick (Prefix msg);
          newNick = (if Trailing msg = [] \<and> length (Params msg) > 0 then Params msg ! 0 else Trailing msg)
      in if old = [] \<or> newNick = [] then c
         else let c = on_state (OnNickChange old newNick) c;
                  c = (if old = currentNick c then setDesiredNick newNick (setCurrentNick newNick c) else c)
              in publish EventUserNickChange [conn_field, (''old'', VStr old), (''new'', VStr newNick)] c)"

definition handleTopic :: "Message \<Rightarrow> Connector \<Rightarrow> Connector" where
  "handleTopic msg c =
     (if length (Params msg) < 1 then c
      else let channel = Params msg ! 0; topic = Trailing msg
           in publish EventTopicChanged
                [conn_field, (''channel'', VStr channel), (''topic'', VStr topic),
                 (''by'', VStr (Nick (Prefix msg)))]
                (on_state (SetTopic channel topic) c))"

definition handleJoinFailure :: "Message \<Rightarrow> Connector \<Rightarrow> Connector" where
  "handleJoinFailure msg c =
     (if length (Params msg) < 2 then c
      else let channel = Params msg ! 1;
               reason = (if Trailing msg = [] then humanReadableJoinFailure (Command msg) else Trailing msg);
               c = c\<lparr>wanted := fst (Remove channel (wanted c))\<rparr>;
               c = call_bouncer (NotifyJoinFailure channel reason) c
           in publish EventJoinFailed
                [conn_field, (''channel'', VStr channel), (''code'', VStr (Command msg)),
                 (''reason'', VStr reason)] c)"

section \<open>Modes\<close>

definition prefixForLetter :: "char \<Rightarrow> string option" where
  "prefixForLetter ch =
     (if ch = CHR ''q'' then Some ''~'' else if ch = CHR ''a'' then Some ''&''
      else if ch = CHR ''o'' then Some ''@'' else if ch = CHR ''h'' then Some ''%''
      else if ch = CHR ''v'' then Some ''+'' else None)"

text \<open>A missing key of the Go map reads as 0.\<close>

definition prefixRank :: "string \<Rightarrow> nat" where
  "prefixRank p =
     (if p = ''~'' then 0 else if p = ''&'' then 1 else if p = ''@'' then 2 else if p = ''%'' then 3
      else if p = ''+'' then 4 else if p = [] then 5 else 0)"

definition argBoth :: "char \<Rightarrow> bool" where
  "argBoth ch \<longleftrightarrow> ch \<in> set ''qaohvbeIkfj''"

text \<open>\<open>members\<close> is the copy of the member map taken before the loop: the code reads it for every letter and
  never refreshes it.\<close>

definition mode_letter ::
  "(string \<rightharpoonup> string) \<Rightarrow> string \<Rightarrow> char \<Rightarrow> string \<Rightarrow> bool \<Rightarrow> ChannelState \<Rightarrow> ChannelState" where
  "mode_letter members channel ch arg adding st =
     (case prefixForLetter ch of
        None \<Rightarrow> st
      | Some pfx \<Rightarrow>
          (if arg = [] then st
           else case members arg of
                  None \<Rightarrow> st
                | Some current \<Rightarrow>
                    (if adding then
                       (if prefixRank pfx < prefixRank current then SetMemberPrefix channel arg pfx st else st)
                     else if current = pfx then SetMemberPrefix channel arg [] st
                     else st)))"

definition consumes_arg :: "char \<Rightarrow> bool \<Rightarrow> bool" where
  "consumes_arg ch adding \<longleftrightarrow> argBoth ch \<or> (adding \<and> ch = CHR ''l'')"

fun mode_loop ::
  "(string \<rightharpoonup> string) \<Rightarrow> string \<Rightarrow> string \<Rightarrow> string list \<Rightarrow> bool \<Rightarrow> ChannelState \<Rightarrow> ChannelState" where
  "mode_loop members channel [] args adding st = st"
| "mode_loop members channel (ch # chs) args adding st =
     (if ch = CHR ''+'' then mode_loop members channel chs args True st
      else if ch = CHR ''-'' then mode_loop members channel chs args False st
      else if consumes_arg ch adding \<and> args \<noteq> []
      then mode_loop members channel chs (tl args) adding (mode_letter members channel ch (hd args) adding st)
      else mode_loop members channel chs args adding (mode_letter members channel ch [] adding st))"

definition applyPrefixModesToState :: "string \<Rightarrow> string \<Rightarrow> string list \<Rightarrow> ChannelState \<Rightarrow> ChannelState" where
  "applyPrefixModesToState channel modes args st =
     (case Channel_State.Get st channel of
        None \<Rightarrow> st
      | Some info \<Rightarrow> mode_loop (Members info) channel modes args True st)"

definition handleMode :: "Message \<Rightarrow> Connector \<Rightarrow> Connector" where
  "handleMode msg c =
     (if length (Params msg) < 2 then c
      else let channel = Params msg ! 0
           in if \<not> startsWithChannelSigil channel then c
              else let modes = Params msg ! 1; args = drop 2 (Params msg)
                   in publish EventModeChanged
                        [conn_field, (''channel'', VStr channel), (''modes'', VStr modes),
                         (''args'', VStr (join '' '' args)), (''by'', VStr (Nick (Prefix msg)))]
                        (on_state (applyPrefixModesToState channel modes args) c))"

section \<open>Messages\<close>

definition handlePrivmsg :: "denv \<Rightarrow> Message \<Rightarrow> string \<Rightarrow> Connector \<Rightarrow> Connector" where
  "handlePrivmsg env msg raw c =
     (if length (Params msg) < 1 then c
      else let tgt = Params msg ! 0; sender = Nick (Prefix msg); text = Trailing msg
      in if isCTCP text \<and> \<not> isACTION text then
           (if \<not> CTCPAutoReply (settings c) then c
            else case ctcp c of
                   None \<Rightarrow> c
                 | Some t \<Rightarrow>
                     (let (t, res) = AllowWithReason (clock c) (to_lower sender) t;
                          c = c\<lparr>ctcp := Some t\<rparr>;
                          reply = ctcpReply (build_version env) (rfc3339 env) text
                      in if \<not> Allow res \<or> reply = [] then c
                         else if client c = None then c\<lparr>crashed := True\<rparr>
                         else publishServerNotice ''notice'' (''[CTCP] replied to '' @ sender @ '': '' @ reply)
                                (fst (sock_write (CmdNotice @ '' '' @ sender @ '' :'' @ [ctcpDelim] @ reply @ [ctcpDelim]) c))))
         else let e = (NewInbound (next_uid c) (clock c) ''irc'' tgt sender text)\<lparr>env_Raw := raw\<rparr>;
                  e = (case Tags msg ''account'' of
                         Some acct \<Rightarrow>
                           (if acct \<noteq> [] then e\<lparr>Metadata := (Metadata e)(''account'' \<mapsto> acct)\<rparr> else e)
                       | None \<Rightarrow> e);
                  e = (if Prefix msg \<noteq> [] then e\<lparr>Metadata := (Metadata e)(''prefix'' \<mapsto> Prefix msg)\<rparr> else e);
                  e = (if \<not> prefix ''#'' tgt \<and> \<not> prefix ''&'' tgt
                       then e\<lparr>IsDirect := True, env_Channel := sender\<rparr> else e)
              in c\<lparr>inbox := inbox c @ [e], next_uid := Suc (next_uid c)\<rparr>)"

definition handleNotice :: "Message \<Rightarrow> Connector \<Rightarrow> Connector" where
  "handleNotice msg c =
     (let sender = Nick (Prefix msg);
          from_sender = (\<lambda>body. if sender \<noteq> [] then sender @ '': '' @ body else body)
      in if isServerPrefix (Prefix msg) then publishServerNotice ''notice'' (serverNoticeText msg) c
         else if isCTCP (Trailing msg) then
           (let inner = trim_ctcp (Trailing msg)
            in if inner \<noteq> [] then publishServerNotice ''notice'' (from_sender (''[CTCP] '' @ inner)) c else c)
         else publishServerNotice ''notice'' (from_sender (serverNoticeText msg)) c)"

section \<open>WHOIS\<close>

definition applyWhoisNumeric :: "whoisBuilder \<Rightarrow> Message \<Rightarrow> whoisBuilder \<times> bool" where
  "applyWhoisNumeric b msg =
     (let cmd = Command msg; ps = Params msg; n = length ps in
      if cmd = RplWhoisUser then
        ((if n \<ge> 4 then b\<lparr>wb_user := ps ! 2, wb_host := ps ! 3\<rparr> else b)\<lparr>realName := Trailing msg\<rparr>, False)
      else if cmd = RplWhoisServer then
        ((if n \<ge> 3 then b\<lparr>server := ps ! 2\<rparr> else b)\<lparr>serverInfo := Trailing msg\<rparr>, False)
      else if cmd = RplWhoisOperator then (b\<lparr>isOperator := True\<rparr>, False)
      else if cmd = RplWhoisIdle then
        (let b = (if n \<ge> 3 then b\<lparr>idleSeconds := parseUnixSeconds (ps ! 2)\<rparr> else b)
         in (if n \<ge> 4 then b\<lparr>signonAt := parseUnixSeconds (ps ! 3)\<rparr> else b, False))
      else if cmd = RplWhoisChannels then
        (if Trailing msg \<noteq> []
         then b\<lparr>wb_channels := wb_channels b @
                  map (trim_left (\<lambda>ch. ch \<in> set ''~&@%+'')) (go_fields (Trailing msg))\<rparr>
         else b, False)
      else if cmd = RplWhoisAccount then (if n \<ge> 3 then b\<lparr>account := ps ! 2\<rparr> else b, False)
      else if cmd = RplWhoisSecure then (b\<lparr>secure := True\<rparr>, False)
      else if cmd = RplEndOfWhois then (b, True)
      else (b, False))"

definition whois_fields :: "whoisBuilder \<Rightarrow> (string \<times> val) list" where
  "whois_fields b =
     (if wb_user b \<noteq> [] then [(''user'', VStr (wb_user b))] else []) @
     (if wb_host b \<noteq> [] then [(''host'', VStr (wb_host b))] else []) @
     (if realName b \<noteq> [] then [(''realName'', VStr (realName b))] else []) @
     (if account b \<noteq> [] then [(''account'', VStr (account b))] else []) @
     (if server b \<noteq> [] then [(''server'', VStr (server b))] else []) @
     (if serverInfo b \<noteq> [] then [(''serverInfo'', VStr (serverInfo b))] else []) @
     (if idleSeconds b > 0 then [(''idleSeconds'', VInt (idleSeconds b))] else []) @
     (if signonAt b > 0 then [(''signonAt'', VInt (signonAt b))] else []) @
     (if secure b then [(''secure'', VBool True)] else []) @
     (if isOperator b then [(''isOperator'', VBool True)] else []) @
     (if wb_channels b \<noteq> [] then [(''channels'', VList (wb_channels b))] else [])"

definition publishWhoisResult :: "string \<Rightarrow> whoisBuilder \<Rightarrow> string \<Rightarrow> Connector \<Rightarrow> Connector" where
  "publishWhoisResult targetNick b errReason c =
     publish EventWhoisResult
       ([conn_field, (''nick'', VStr targetNick)] @
        (if errReason \<noteq> [] then [(''error'', VStr errReason)] else whois_fields b))
       (c\<lparr>whoisInFlight := (whoisInFlight c)(to_lower targetNick := None)\<rparr>)"

definition handleWhoisNumeric :: "Message \<Rightarrow> Connector \<Rightarrow> Connector" where
  "handleWhoisNumeric msg c =
     (if length (Params msg) < 2 then c
      else let targetNick = Params msg ! 1
           in case whoisInFlight c (to_lower targetNick) of
                None \<Rightarrow> c
              | Some b \<Rightarrow>
                  (let b = (if wb_nick b = [] then b\<lparr>wb_nick := targetNick\<rparr> else b);
                       (b, complete) = applyWhoisNumeric b msg;
                       c = c\<lparr>whoisInFlight := (whoisInFlight c)(to_lower targetNick \<mapsto> b)\<rparr>
                   in if complete then publishWhoisResult targetNick b [] c else c))"

definition handleWhoisNoSuchNick :: "string \<Rightarrow> string \<Rightarrow> Connector \<Rightarrow> Connector" where
  "handleWhoisNoSuchNick targetNick reason c =
     (case whoisInFlight c (to_lower targetNick) of
        None \<Rightarrow> c
      | Some b \<Rightarrow> publishWhoisResult targetNick b reason c)"

section \<open>LIST and WHO\<close>

definition list_row :: "listChannelEntry \<Rightarrow> (string \<times> val) list" where
  "list_row e =
     [(''name'', VStr (le_name e))] @
     (if le_users e > 0 then [(''users'', VInt (le_users e))] else []) @
     (if le_topic e \<noteq> [] then [(''topic'', VStr (le_topic e))] else [])"

definition handleListNumeric :: "Message \<Rightarrow> Connector \<Rightarrow> Connector" where
  "handleListNumeric msg c =
     (if Command msg = RplListStart then c\<lparr>listInFlight := []\<rparr>
      else if Command msg = RplList then
        (if length (Params msg) < 3 then c
         else let n = (case atoi (Params msg ! 2) of Some n \<Rightarrow> n | None \<Rightarrow> 0)
              in c\<lparr>listInFlight := listInFlight c @
                     [\<lparr>le_name = Params msg ! 1, le_users = n, le_topic = Trailing msg\<rparr>]\<rparr>)
      else if Command msg = RplListEnd then
        publish EventListResult
          [conn_field, (''channels'', VRows (map list_row (listInFlight c)))]
          (c\<lparr>listInFlight := []\<rparr>)
      else c)"

definition who_row :: "whoUserEntry \<Rightarrow> (string \<times> val) list" where
  "who_row u =
     [(''nick'', VStr (we_nick u))] @
     (if we_user u \<noteq> [] then [(''user'', VStr (we_user u))] else []) @
     (if we_host u \<noteq> [] then [(''host'', VStr (we_host u))] else []) @
     (if we_realName u \<noteq> [] then [(''realName'', VStr (we_realName u))] else []) @
     (if we_flags u \<noteq> [] then [(''flags'', VStr (we_flags u))] else [])"

definition handleWhoNumeric :: "Message \<Rightarrow> Connector \<Rightarrow> Connector" where
  "handleWhoNumeric msg c =
     (if Command msg = RplWhoReply then
        (if length (Params msg) < 7 then c
         else let tgt = Params msg ! 1;
                  real = (if Trailing msg = [] then []
                          else case index_byte sp (Trailing msg) of
                                 Some i \<Rightarrow> drop (Suc i) (Trailing msg)
                               | None \<Rightarrow> Trailing msg);
                  entry = \<lparr>we_nick = Params msg ! 5, we_user = Params msg ! 2, we_host = Params msg ! 3,
                           we_realName = real, we_flags = Params msg ! 6\<rparr>
              in case whoInFlight c (to_lower tgt) of
                   None \<Rightarrow> c
                 | Some b \<Rightarrow>
                     c\<lparr>whoInFlight := (whoInFlight c)(to_lower tgt \<mapsto> b\<lparr>users := users b @ [entry]\<rparr>)\<rparr>)
      else if Command msg = RplEndOfWho then
        (if length (Params msg) < 2 then c
         else let tgt = Params msg ! 1
              in case whoInFlight c (to_lower tgt) of
                   None \<Rightarrow> c
                 | Some b \<Rightarrow>
                     publish EventWhoResult
                       [conn_field, (''target'', VStr tgt), (''users'', VRows (map who_row (users b)))]
                       (c\<lparr>whoInFlight := (whoInFlight c)(to_lower tgt := None)\<rparr>))
      else c)"

section \<open>One line\<close>

text \<open>What a line does to the state machine: an ERROR first, then a numeric; the nick numerics of a live
  session are failed nick changes and leave it alone.\<close>

definition dispatch_classify :: "string \<Rightarrow> Message \<Rightarrow> Connector \<Rightarrow> Connector" where
  "dispatch_classify line msg c =
     (case ClassifyDisconnectMessage line of
        Some (st, reason) \<Rightarrow> goto st reason c
      | None \<Rightarrow>
          (case ClassifyNumeric (Command msg) of
             Some st \<Rightarrow>
               (if st \<noteq> DisconnectedNickUnavailable \<and> st \<noteq> DisconnectedNickInvalid
                then goto st (Trailing msg) c else c)
           | None \<Rightarrow> c))"

definition learn_identity :: "Message \<Rightarrow> Connector \<Rightarrow> Connector" where
  "learn_identity msg c =
     (if Prefix msg \<noteq> [] \<and> Nick (Prefix msg) \<noteq> [] \<and> Nick (Prefix msg) = currentNick c
      then case splitIdentHost (Prefix msg) of
             Some (ident, host) \<Rightarrow> call_bouncer (UpdateUpstreamIdentity ident host) c
           | None \<Rightarrow> c
      else c)"

definition handlePong :: "Message \<Rightarrow> Connector \<Rightarrow> Connector" where
  "handlePong msg c =
     (case pingLedgerRef c of
        None \<Rightarrow> c
      | Some l \<Rightarrow>
          (let token = (if Trailing msg = [] \<and> length (Params msg) > 0 then last (Params msg) else Trailing msg)
           in if token \<noteq> [] then c\<lparr>pingLedgerRef := Some (fst (Ack token l))\<rparr> else c))"

definition handleEndOfNames :: "denv \<Rightarrow> Message \<Rightarrow> Connector \<Rightarrow> Connector" where
  "handleEndOfNames env msg c =
     (if length (Params msg) < 2 then c
      else let channel = Params msg ! 1;
               c = on_state (OnNamesEnd channel) c
           in case Channel_State.Get (chan_state c) channel of
                None \<Rightarrow> c
              | Some info \<Rightarrow>
                  publish EventChannelNames
                    [conn_field, (''channel'', VStr channel),
                     (''members'', VRows (List.map_filter
                        (\<lambda>nick. map_option (\<lambda>mode. [(''nick'', VStr nick), (''mode'', VStr mode)])
                           (Members info nick)) (member_ord env)))] c)"

definition handle_command :: "denv \<Rightarrow> string \<Rightarrow> Message \<Rightarrow> Connector \<Rightarrow> Connector" where
  "handle_command env line msg c =
     (let cmd = Command msg; ps = Params msg in
      if cmd = CmdPing then respondPong msg c
      else if cmd = CmdPong then handlePong msg c
      else if cmd = RplWelcome then
        publishServerNotice ''welcome'' (Trailing msg)
          (if length ps > 0 then setCurrentNick (ps ! 0) c else c)
      else if info_numeric cmd then publishServerNotice ''info'' (serverNoticeText msg) c
      else if motd_numeric cmd then publishServerNotice ''motd'' (serverNoticeText msg) c
      else if cmd = CmdError then publishServerNotice ''error'' (serverNoticeText msg) c
      else if cmd = CmdNotice then handleNotice msg c
      else if cmd = CmdPrivmsg then handlePrivmsg env msg line c
      else if cmd = CmdJoin then handleJoin msg c
      else if cmd = CmdPart then handlePart msg c
      else if cmd = CmdQuit then handleQuit env msg c
      else if cmd = CmdKick then handleKick msg c
      else if cmd = CmdNick then handleNickChange msg c
      else if cmd = CmdTopic then handleTopic msg c
      else if cmd = CmdMode then handleMode msg c
      else if cmd = RplTopic then
        (if length ps \<ge> 2 then on_state (SetTopic (ps ! 1) (Trailing msg)) c else c)
      else if cmd = RplNoTopic then (if length ps \<ge> 2 then on_state (ClearTopic (ps ! 1)) c else c)
      else if cmd = RplTopicWhoTime then
        (if length ps \<ge> 4 then on_state (SetTopicMeta (ps ! 1) (ps ! 2) (parseUnixSeconds (ps ! 3))) c else c)
      else if cmd = RplNamReply then
        (if length ps \<ge> 3 \<and> Trailing msg \<noteq> []
         then on_state (OnNamesReply (last ps) (go_fields (Trailing msg))) c else c)
      else if cmd = RplEndOfNames then handleEndOfNames env msg c
      else if cmd \<in> {ErrBannedFromChan, ErrBadChannelKey, ErrChannelIsFull, ErrInviteOnlyChan, ErrBadChanMask}
      then handleJoinFailure msg c
      else if cmd \<in> {RplWhoisUser, RplWhoisServer, RplWhoisOperator, RplWhoisIdle, RplWhoisChannels,
                     RplWhoisAccount, RplWhoisSecure, RplEndOfWhois}
      then handleWhoisNumeric msg c
      else if cmd \<in> {RplListStart, RplList, RplListEnd} then handleListNumeric msg c
      else if cmd \<in> {RplWhoReply, RplEndOfWho} then handleWhoNumeric msg c
      else if cmd = ErrNoSuchNick then
        (if length ps \<ge> 2 then handleWhoisNoSuchNick (ps ! 1) (Trailing msg) c else c)
      else c)"

definition dispatchLine :: "denv \<Rightarrow> string \<Rightarrow> Connector \<Rightarrow> Connector" where
  "dispatchLine env line c =
     (let msg = Parse line;
          c = dispatch_classify line msg c;
          c = (if shouldFanOutToBouncer (Command msg) then call_bouncer (Broadcast line) c else c);
          c = learn_identity msg c
      in handle_command env line msg c)"

section \<open>What the steps leave alone\<close>

text \<open>The parts of the state the plumbing never touches.\<close>

lemma publish_fields [simp]:
  "chan_state (publish t fs c) = chan_state c" "wanted (publish t fs c) = wanted c"
  "machine (publish t fs c) = machine c" "to_bouncer (publish t fs c) = to_bouncer c"
  "bouncer (publish t fs c) = bouncer c" "currentNick (publish t fs c) = currentNick c"
  "chan_state (publishServerNotice k x c) = chan_state c" "wanted (publishServerNotice k x c) = wanted c"
  "machine (publishServerNotice k x c) = machine c" "to_bouncer (publishServerNotice k x c) = to_bouncer c"
  "bouncer (publishServerNotice k x c) = bouncer c"
  by (simp_all add: publish_def publishServerNotice_def)

lemma sock_write_fields [simp]:
  "chan_state (fst (sock_write l c)) = chan_state c" "wanted (fst (sock_write l c)) = wanted c"
  "machine (fst (sock_write l c)) = machine c" "to_bouncer (fst (sock_write l c)) = to_bouncer c"
  by (simp_all add: sock_write_def split: option.split nat.split)

lemma respondPong_fields [simp]:
  "chan_state (respondPong m c) = chan_state c" "wanted (respondPong m c) = wanted c"
  "machine (respondPong m c) = machine c" "to_bouncer (respondPong m c) = to_bouncer c"
  by (simp_all add: respondPong_def send_if_connected_def)

lemma setCurrentNick_fields [simp]:
  "chan_state (setCurrentNick n c) = chan_state c" "wanted (setCurrentNick n c) = wanted c"
  "machine (setCurrentNick n c) = machine c"
  by (simp_all add: setCurrentNick_def Let_def run_nick_hook_def call_bouncer_def)

lemma setDesiredNick_fields [simp]:
  "chan_state (setDesiredNick n c) = chan_state c" "wanted (setDesiredNick n c) = wanted c"
  "machine (setDesiredNick n c) = machine c" "to_bouncer (setDesiredNick n c) = to_bouncer c"
  by (simp_all add: setDesiredNick_def)

lemma call_bouncer_chan [simp]: "chan_state (call_bouncer b c) = chan_state c"
  by (simp add: call_bouncer_def)

lemma publish_all_fields [simp]:
  "chan_state (fold (\<lambda>x. publish t (f x)) xs c) = chan_state c"
  "wanted (fold (\<lambda>x. publish t (f x)) xs c) = wanted c"
  "machine (fold (\<lambda>x. publish t (f x)) xs c) = machine c"
  "to_bouncer (fold (\<lambda>x. publish t (f x)) xs c) = to_bouncer c"
  by (induction xs arbitrary: c) simp_all

lemma dispatch_classify_fields [simp]:
  "chan_state (dispatch_classify l m c) = chan_state c" "wanted (dispatch_classify l m c) = wanted c"
  "to_bouncer (dispatch_classify l m c) = to_bouncer c" "bouncer (dispatch_classify l m c) = bouncer c"
  "currentNick (dispatch_classify l m c) = currentNick c"
  by (auto simp: dispatch_classify_def goto_def split: option.split prod.split)

lemma learn_identity_fields [simp]:
  "chan_state (learn_identity m c) = chan_state c" "wanted (learn_identity m c) = wanted c"
  "machine (learn_identity m c) = machine c"
  by (auto simp: learn_identity_def split: option.split prod.split)

lemma quiet_handlers [simp]:
  "chan_state (handlePong m c) = chan_state c" "wanted (handlePong m c) = wanted c" "machine (handlePong m c) = machine c"
  "chan_state (handleNotice m c) = chan_state c" "wanted (handleNotice m c) = wanted c" "machine (handleNotice m c) = machine c"
  "chan_state (handleWhoisNumeric m c) = chan_state c" "wanted (handleWhoisNumeric m c) = wanted c"
  "machine (handleWhoisNumeric m c) = machine c"
  "chan_state (handleWhoisNoSuchNick n r c) = chan_state c" "wanted (handleWhoisNoSuchNick n r c) = wanted c"
  "machine (handleWhoisNoSuchNick n r c) = machine c"
  "chan_state (handleListNumeric m c) = chan_state c" "wanted (handleListNumeric m c) = wanted c"
  "machine (handleListNumeric m c) = machine c"
  "chan_state (handleWhoNumeric m c) = chan_state c" "wanted (handleWhoNumeric m c) = wanted c"
  "machine (handleWhoNumeric m c) = machine c"
  by (simp_all add: handlePong_def handleNotice_def handleWhoisNumeric_def handleWhoisNoSuchNick_def
      handleListNumeric_def handleWhoNumeric_def publishWhoisResult_def Let_def split: option.split prod.split)

lemma handlePrivmsg_fields [simp]:
  "chan_state (handlePrivmsg env m l c) = chan_state c" "wanted (handlePrivmsg env m l c) = wanted c"
  "machine (handlePrivmsg env m l c) = machine c" "to_bouncer (handlePrivmsg env m l c) = to_bouncer c"
  by (simp_all add: handlePrivmsg_def Let_def split: option.split prod.split)

section \<open>The connector's invariant\<close>

definition conn_inv :: "Connector \<Rightarrow> bool" where
  "conn_inv c \<longleftrightarrow> channel_inv (chan_state c) \<and> wanted_inv (wanted c)"

lemma conn_inv_same: "chan_state d = chan_state c \<Longrightarrow> wanted d = wanted c \<Longrightarrow> conn_inv c \<Longrightarrow> conn_inv d"
  by (simp add: conn_inv_def)

lemma prefixForLetter_char: "prefixForLetter ch = Some p \<Longrightarrow> p = [] \<or> (\<exists>c\<in>set memberPrefixes. p = [c])"
  by (simp add: prefixForLetter_def memberPrefixes_def split: if_splits)

lemma channel_inv_mode_letter:
  assumes "channel_inv st"
  shows "channel_inv (mode_letter ms channel ch arg adding st)"
proof (cases "prefixForLetter ch")
  case (Some p)
  have "channel_inv (SetMemberPrefix channel arg p st)" "channel_inv (SetMemberPrefix channel arg [] st)"
    using assms prefixForLetter_char [OF Some] channel_inv_prefix by blast+
  with assms Some show ?thesis by (simp add: mode_letter_def split: option.split)
qed (use assms in \<open>simp add: mode_letter_def\<close>)

lemma channel_inv_mode_loop: "channel_inv st \<Longrightarrow> channel_inv (mode_loop ms ch modes args adding st)"
  by (induction modes arbitrary: args adding st) (simp_all add: channel_inv_mode_letter)

lemma conn_inv_publish [simp]: "conn_inv (publish t fs c) = conn_inv c"
  by (simp add: conn_inv_def)

lemma conn_inv_call [simp]: "conn_inv (call_bouncer b c) = conn_inv c"
  by (simp add: conn_inv_def)

lemma conn_inv_on_state: "conn_inv c \<Longrightarrow> channel_inv (f (chan_state c)) \<Longrightarrow> conn_inv (on_state f c)"
  by (simp add: conn_inv_def)

lemma conn_inv_wanted: "conn_inv c \<Longrightarrow> wanted_inv w \<Longrightarrow> conn_inv (c\<lparr>wanted := w\<rparr>)"
  by (simp add: conn_inv_def)

lemma conn_invD: "conn_inv c \<Longrightarrow> channel_inv (chan_state c)" "conn_inv c \<Longrightarrow> wanted_inv (wanted c)"
  by (simp_all add: conn_inv_def)

lemma conn_inv_membership:
  assumes "conn_inv c"
  shows "conn_inv (handleJoin m c)" "conn_inv (handlePart m c)" "conn_inv (handleKick m c)"
proof -
  note i = conn_invD [OF assms]
  show "conn_inv (handleJoin m c)" unfolding handleJoin_def Let_def
    using assms i by (auto intro!: conn_inv_wanted conn_inv_on_state inv_intros)
  show "conn_inv (handlePart m c)" unfolding handlePart_def Let_def
    using assms i by (auto intro!: conn_inv_wanted conn_inv_on_state inv_intros)
  show "conn_inv (handleKick m c)" unfolding handleKick_def Let_def
    using assms i by (auto intro!: conn_inv_on_state inv_intros)
qed

lemma conn_inv_handlers:
  assumes "conn_inv c"
  shows "conn_inv (handleQuit env m c)" "conn_inv (handleNickChange m c)" "conn_inv (handleTopic m c)"
    "conn_inv (handleJoinFailure m c)" "conn_inv (handleMode m c)" "conn_inv (handleEndOfNames env m c)"
proof -
  note i = conn_invD [OF assms]
  have q: "conn_inv (on_state (OnMemberQuit n) c)" for n
    using assms i by (intro conn_inv_on_state inv_intros)
  show "conn_inv (handleQuit env m c)" unfolding handleQuit_def Let_def
    using assms conn_inv_same [OF _ _ q] by simp
  have n: "b \<noteq> [] \<Longrightarrow> conn_inv (on_state (OnNickChange a b) c)" for a b
    using assms i by (intro conn_inv_on_state inv_intros)
  have n': "b \<noteq> [] \<Longrightarrow> conn_inv (setDesiredNick b (setCurrentNick b (on_state (OnNickChange a b) c)))" for a b
    by (rule conn_inv_same [OF _ _ n]) simp_all
  show "conn_inv (handleNickChange m c)" unfolding handleNickChange_def Let_def
    using assms n n' by simp
  show "conn_inv (handleTopic m c)" unfolding handleTopic_def Let_def
    using assms i by (auto intro!: conn_inv_on_state inv_intros)
  show "conn_inv (handleJoinFailure m c)" unfolding handleJoinFailure_def Let_def
    using assms i by (auto intro!: conn_inv_wanted inv_intros)
  have "channel_inv (applyPrefixModesToState ch ms args (chan_state c))" for ch ms args
    using i by (simp add: applyPrefixModesToState_def channel_inv_mode_loop split: option.split)
  then show "conn_inv (handleMode m c)" unfolding handleMode_def Let_def
    using assms by (auto intro!: conn_inv_on_state)
  have e: "conn_inv (on_state (OnNamesEnd n) c)" for n
    using assms i by (intro conn_inv_on_state inv_intros)
  show "conn_inv (handleEndOfNames env m c)" unfolding handleEndOfNames_def Let_def
    using assms e by (simp split: option.split)
qed

lemma conn_inv_if: "conn_inv a \<Longrightarrow> conn_inv b \<Longrightarrow> conn_inv (if P then a else b)"
  by simp

lemma conn_inv_command:
  assumes "conn_inv c"
  shows "conn_inv (handle_command env line msg c)"
proof -
  have q: "conn_inv d" if "chan_state d = chan_state c" "wanted d = wanted c" for d
    using conn_inv_same that assms by blast
  have t: "conn_inv (on_state (SetTopic x y) c)" "conn_inv (on_state (ClearTopic x) c)"
    "conn_inv (on_state (SetTopicMeta x y z) c)" "conn_inv (on_state (OnNamesReply x ys) c)" for x y z ys
    using assms by (auto simp: conn_inv_def intro: inv_intros)
  have "conn_inv (respondPong m c)" "conn_inv (handlePong m c)" "conn_inv (publishServerNotice k x c)"
    "conn_inv (handleNotice m c)" "conn_inv (handlePrivmsg env m l c)" "conn_inv (handleWhoisNumeric m c)"
    "conn_inv (handleWhoisNoSuchNick x y c)" "conn_inv (handleListNumeric m c)" "conn_inv (handleWhoNumeric m c)"
    for m k x y l
    by (rule q; simp)+
  moreover have "conn_inv (publishServerNotice k x (if P then setCurrentNick n c else c))" for k x P n
    by (rule q) simp_all
  ultimately show ?thesis unfolding handle_command_def Let_def
    using assms t conn_inv_handlers [OF assms] conn_inv_membership [OF assms] by (intro conn_inv_if)
qed

text \<open>C33: whatever lines the server sends, in whatever order, the channel cache and the wanted set stay
  consistent: the maps and their order lists hold the same keys once each, entries sit under the folded
  form of their name, no member has an empty nick, every prefix is a prefix character.\<close>

theorem dispatch_keeps_invariants:
  assumes "channel_inv (chan_state c)" "wanted_inv (wanted c)"
  shows "channel_inv (chan_state (fold (dispatchLine env) lines c)) \<and> wanted_inv (wanted (fold (dispatchLine env) lines c))"
proof -
  have "conn_inv c \<Longrightarrow> conn_inv (dispatchLine env l c)" for l c
    unfolding dispatchLine_def Let_def
    by (rule conn_inv_command) (auto intro: conn_inv_same)
  then have "conn_inv c \<Longrightarrow> conn_inv (fold (dispatchLine env) lines c)" for c
    by (induction lines arbitrary: c) auto
  with assms show ?thesis by (simp add: conn_inv_def)
qed

definition sample_env :: denv where
  "sample_env = \<lparr>build_version = ''1'', rfc3339 = ''2024-01-01T00:00:00Z'', chan_ord = [''#c''], member_ord = [''bot'']\<rparr>"

theorem dispatch_keeps_invariants_witness:
  "channel_inv (chan_state (fold (dispatchLine sample_env)
     ['':bot!u@h JOIN #C'', '':s 353 bot = #c :@bot +v'', '':s 366 bot #c :End'', '':bot!u@h NICK :'', '':s MODE #c +o v'']
     (NewConnector sample_settings True 0)))"
proof -
  have "channel_inv (chan_state (NewConnector sample_settings True 0))"
    "wanted_inv (wanted (NewConnector sample_settings True 0))"
    by (simp_all add: NewConnector_def inv_intros)
  from dispatch_keeps_invariants [OF this] show ?thesis by blast
qed

section \<open>The state of a live session\<close>

lemma machine_handlers [simp]:
  "machine (handleJoin m c) = machine c" "machine (handlePart m c) = machine c"
  "machine (handleQuit env m c) = machine c" "machine (handleKick m c) = machine c"
  "machine (handleNickChange m c) = machine c" "machine (handleTopic m c) = machine c"
  "machine (handleJoinFailure m c) = machine c" "machine (handleMode m c) = machine c"
  "machine (handleEndOfNames env m c) = machine c"
  by (simp_all add: handleJoin_def handlePart_def handleQuit_def handleKick_def handleNickChange_def
      handleTopic_def handleJoinFailure_def handleMode_def handleEndOfNames_def Let_def split: option.split)

lemma machine_command [simp]: "machine (handle_command env line msg c) = machine c"
  unfolding handle_command_def Let_def by simp

text \<open>While a session is live only two things move the state machine: an ERROR line, and the numerics that
  refuse the password, SASL or the user outright. A taken, invalid or reserved nick, which is fatal or
  recoverable during registration, changes nothing, and neither does any other line. (464 is also what a
  server answers to a wrong OPER password, so a failed OPER ends the session as an authentication
  failure.)\<close>

theorem live_state_changes:
  "up (dispatchLine env line c) =
     (case ClassifyDisconnectMessage line of
        Some (st, reason) \<Rightarrow> st
      | None \<Rightarrow>
          (if Command (Parse line) \<in> {ErrPasswdMismatch, ErrSaslFail, ErrSaslTooLong} then DisconnectedAuthFailed
           else if Command (Parse line) = ErrYoureBannedCreep then DisconnectedBanned
           else up c))"
proof -
  have "machine (dispatchLine env line c) = machine (dispatch_classify line (Parse line) c)"
    by (simp add: dispatchLine_def Let_def)
  then show ?thesis
    by (auto simp: dispatch_classify_def ClassifyNumeric_def split: option.split prod.split)
qed

section \<open>What the bouncer is told\<close>

definition lines_of :: "bcall list \<Rightarrow> string list" where
  "lines_of bs = List.map_filter (\<lambda>b. case b of Broadcast l \<Rightarrow> Some l | _ \<Rightarrow> None) bs"

lemma lines_of_append [simp]: "lines_of (a @ b) = lines_of a @ lines_of b"
  by (simp add: lines_of_def map_filter_def)

lemma lines_of_call [simp]:
  "lines_of [Broadcast l] = [l]" "lines_of [UpdateUpstreamNick n] = []" "lines_of [UpdateUpstreamIdentity i h] = []"
  "lines_of [NotifyJoinFailure x r] = []" "lines_of [AttachState a b d] = []" "lines_of [BroadcastAsSelf l] = []"
  by (simp_all add: lines_of_def List.map_filter_simps)

lemma lines_of_call_bouncer:
  "lines_of (to_bouncer (call_bouncer b c)) = lines_of (to_bouncer c) @ (if bouncer c then lines_of [b] else [])"
  by (simp add: call_bouncer_def)

lemma hook_to_bouncer [simp]: "to_bouncer (run_nick_hook c) = to_bouncer c"
  by (simp add: run_nick_hook_def)

lemma lines_of_handlers [simp]:
  "lines_of (to_bouncer (setCurrentNick n c)) = lines_of (to_bouncer c)"
  "lines_of (to_bouncer (handleJoin m c)) = lines_of (to_bouncer c)"
  "lines_of (to_bouncer (handlePart m c)) = lines_of (to_bouncer c)"
  "lines_of (to_bouncer (handleQuit env m c)) = lines_of (to_bouncer c)"
  "lines_of (to_bouncer (handleKick m c)) = lines_of (to_bouncer c)"
  "lines_of (to_bouncer (handleTopic m c)) = lines_of (to_bouncer c)"
  "lines_of (to_bouncer (handleJoinFailure m c)) = lines_of (to_bouncer c)"
  "lines_of (to_bouncer (handleMode m c)) = lines_of (to_bouncer c)"
  "lines_of (to_bouncer (handleEndOfNames env m c)) = lines_of (to_bouncer c)"
  "to_bouncer (handlePong m c) = to_bouncer c" "to_bouncer (handleNotice m c) = to_bouncer c"
  "to_bouncer (handleWhoisNumeric m c) = to_bouncer c" "to_bouncer (handleWhoisNoSuchNick x r c) = to_bouncer c"
  "to_bouncer (handleListNumeric m c) = to_bouncer c" "to_bouncer (handleWhoNumeric m c) = to_bouncer c"
  by (simp_all add: setCurrentNick_def handleJoin_def handlePart_def handleQuit_def handleKick_def
      handleTopic_def handleJoinFailure_def handleMode_def handleEndOfNames_def handlePong_def handleNotice_def
      handleWhoisNumeric_def handleWhoisNoSuchNick_def handleListNumeric_def handleWhoNumeric_def publishWhoisResult_def
      lines_of_call_bouncer Let_def split: option.split prod.split)

lemma lines_of_nick_change [simp]: "lines_of (to_bouncer (handleNickChange m c)) = lines_of (to_bouncer c)"
  by (simp add: handleNickChange_def Let_def)

lemma lines_of_command: "lines_of (to_bouncer (handle_command env line msg c)) = lines_of (to_bouncer c)"
  unfolding handle_command_def Let_def by simp

lemma bouncer_plumbing [simp]:
  "bouncer (fst (sock_write l c)) = bouncer c" "bouncer (respondPong m c) = bouncer c"
  "bouncer (setCurrentNick n c) = bouncer c" "bouncer (setDesiredNick n c) = bouncer c"
  "bouncer (call_bouncer b c) = bouncer c" "bouncer (learn_identity m c) = bouncer c"
  "bouncer (fold (\<lambda>x. publish t (f x)) xs c) = bouncer c"
  by (induction xs arbitrary: c)
    (simp_all add: sock_write_def respondPong_def send_if_connected_def setCurrentNick_def run_nick_hook_def
      setDesiredNick_def call_bouncer_def learn_identity_def Let_def split: option.split nat.split prod.split)

lemma bouncer_handlers [simp]:
  "bouncer (handleJoin m c) = bouncer c" "bouncer (handlePart m c) = bouncer c" "bouncer (handleQuit env m c) = bouncer c"
  "bouncer (handleKick m c) = bouncer c" "bouncer (handleNickChange m c) = bouncer c" "bouncer (handleTopic m c) = bouncer c"
  "bouncer (handleJoinFailure m c) = bouncer c" "bouncer (handleMode m c) = bouncer c"
  "bouncer (handleEndOfNames env m c) = bouncer c" "bouncer (handlePong m c) = bouncer c" "bouncer (handleNotice m c) = bouncer c"
  "bouncer (handleWhoisNumeric m c) = bouncer c" "bouncer (handleWhoisNoSuchNick x r c) = bouncer c"
  "bouncer (handleListNumeric m c) = bouncer c" "bouncer (handleWhoNumeric m c) = bouncer c"
  by (simp_all add: handleJoin_def handlePart_def handleQuit_def handleKick_def handleNickChange_def
      handleTopic_def handleJoinFailure_def handleMode_def handleEndOfNames_def handlePong_def handleNotice_def
      handleWhoisNumeric_def handleWhoisNoSuchNick_def handleListNumeric_def handleWhoNumeric_def publishWhoisResult_def
      Let_def split: option.split prod.split)

lemma bouncer_privmsg [simp]: "bouncer (handlePrivmsg env m l c) = bouncer c"
  by (simp add: handlePrivmsg_def Let_def split: option.split prod.split)

lemma bouncer_dispatch [simp]: "bouncer (dispatchLine env line c) = bouncer c"
  unfolding dispatchLine_def handle_command_def Let_def by simp

lemma lines_of_learn [simp]: "lines_of (to_bouncer (learn_identity m c)) = lines_of (to_bouncer c)"
  by (simp add: learn_identity_def lines_of_call_bouncer split: option.split prod.split)

lemma lines_of_dispatch:
  "lines_of (to_bouncer (dispatchLine env line c)) = lines_of (to_bouncer c) @
     (if bouncer c \<and> shouldFanOutToBouncer (Command (Parse line)) then [line] else [])"
  by (simp add: dispatchLine_def Let_def lines_of_command lines_of_call_bouncer)

text \<open>Attached clients see the session exactly as it is. Every line is passed to the bouncer once,
  unchanged and in order, except the ones that only concern the connector and the server (PING, PONG, CAP,
  AUTHENTICATE and the SASL numerics) and lines without a command, of which none ever gets there.\<close>

theorem fan_out_exact:
  "lines_of (to_bouncer (fold (dispatchLine env) lines c)) =
     lines_of (to_bouncer c) @
     filter (\<lambda>l. bouncer c \<and>
       Command (Parse l) \<notin> {[], CmdPing, CmdPong, CmdCap, CmdAuthenticate, RplSaslLoggedIn, RplSaslSuccess,
         ErrSaslFail, ErrSaslAborted, ErrSaslAlready, ErrSaslTooLong}) lines"
  by (induction lines arbitrary: c) (simp_all add: lines_of_dispatch shouldFanOutToBouncer_def)

section \<open>The bot's own membership\<close>

text \<open>Our own JOIN puts a channel in the cache and on the rejoin list, our own PART takes it off both, in
  whatever case the server spells the nick. Our own KICK does neither: the channel stays joined in the
  cache, without us among its members, and stays on the rejoin list.\<close>

theorem self_membership:
  assumes "equal_fold (Nick (Prefix msg)) (currentNick c)" "Params msg = ch # rest" "trim_space ch = ch" "ch \<noteq> []"
  shows "Channel_State.Get (chan_state (handleJoin msg c)) ch \<noteq> None \<and> Wanted.Get (wanted (handleJoin msg c)) ch \<noteq> None \<and>
    Channel_State.Get (chan_state (handlePart msg c)) ch = None \<and> Wanted.Get (wanted (handlePart msg c)) ch = None \<and>
    (Params kick = [ch, currentNick c] \<longrightarrow>
       Channel_State.Get (chan_state (handleKick kick c)) ch =
         map_option (\<lambda>info. info\<lparr>Members := (Members info)(currentNick c := None)\<rparr>) (Channel_State.Get (chan_state c) ch) \<and>
       wanted (handleKick kick c) = wanted c)"
proof -
  have j: "joinTarget msg = ch" using assms by (simp add: joinTarget_def)
  have "Channel_State.Get (chan_state (handleJoin msg c)) ch \<noteq> None"
    using assms(1,4) j by (auto simp: handleJoin_def Let_def Channel_State.Get_def OnSelfJoin_def)
  moreover have "Wanted.Get (wanted (handleJoin msg c)) ch \<noteq> None"
    using assms j Add_lookup [of ch "[]" "wanted c"] by (simp add: handleJoin_def Let_def split: option.split)
  moreover have "Channel_State.Get (chan_state (handlePart msg c)) ch = None"
    using assms by (simp add: handlePart_def Let_def Channel_State.Get_def OnSelfPart_def)
  moreover have "Wanted.Get (wanted (handlePart msg c)) ch = None"
    using assms by (simp add: handlePart_def Let_def Get_Remove)
  moreover have "Channel_State.Get (chan_state (handleKick kick c)) ch =
         map_option (\<lambda>info. info\<lparr>Members := (Members info)(currentNick c := None)\<rparr>) (Channel_State.Get (chan_state c) ch) \<and>
       wanted (handleKick kick c) = wanted c" if "Params kick = [ch, currentNick c]"
    using that by (simp add: handleKick_def Let_def Channel_State.Get_def OnMemberKick_def OnMemberPart_def upd_info_channels)
  ultimately show ?thesis by blast
qed

section \<open>Prefix modes\<close>

text \<open>The intended meaning of a MODE line: each letter acts on the member map as the letters before it left it.\<close>

definition members_now :: "string \<Rightarrow> ChannelState \<Rightarrow> string \<rightharpoonup> string" where
  "members_now channel st =
     (case Channel_State.Get st channel of None \<Rightarrow> Map.empty | Some info \<Rightarrow> Members info)"

fun mode_spec :: "string \<Rightarrow> string \<Rightarrow> string list \<Rightarrow> bool \<Rightarrow> ChannelState \<Rightarrow> ChannelState" where
  "mode_spec channel [] args adding st = st"
| "mode_spec channel (ch # chs) args adding st =
     (if ch = CHR ''+'' then mode_spec channel chs args True st
      else if ch = CHR ''-'' then mode_spec channel chs args False st
      else if consumes_arg ch adding \<and> args \<noteq> []
      then mode_spec channel chs (tl args) adding (mode_letter (members_now channel st) channel ch (hd args) adding st)
      else mode_spec channel chs args adding st)"

lemma members_now_SetMemberPrefix:
  "n \<noteq> m \<Longrightarrow> members_now channel (SetMemberPrefix channel m p st) n = members_now channel st n"
  by (auto simp: members_now_def Channel_State.Get_def SetMemberPrefix_def upd_info_channels split: option.split)

lemma members_now_letter:
  "n \<noteq> arg \<Longrightarrow> members_now channel (mode_letter ms channel ch arg adding st) n = members_now channel st n"
  by (auto simp: mode_letter_def members_now_SetMemberPrefix split: option.split)

lemma mode_letter_cong:
  "ms arg = ms' arg \<Longrightarrow> mode_letter ms channel ch arg adding st = mode_letter ms' channel ch arg adding st"
  by (simp add: mode_letter_def split: option.split)

lemma mode_letter_no_arg [simp]: "mode_letter ms channel ch [] adding st = st"
  by (simp add: mode_letter_def split: option.split)

lemma mode_loop_spec:
  "distinct args \<Longrightarrow> \<forall>a\<in>set args. ms a = members_now channel st a \<Longrightarrow>
     mode_loop ms channel modes args adding st = mode_spec channel modes args adding st"
proof (induction modes arbitrary: args adding st)
  case (Cons ch modes)
  show ?case
  proof (cases args)
    case Nil
    with Cons show ?thesis by simp
  next
    case (Cons a as)
    let ?st = "mode_letter ms channel ch a adding st"
    have "?st = mode_letter (members_now channel st) channel ch a adding st"
      using Cons.prems Cons by (intro mode_letter_cong) simp
    moreover have "\<forall>b\<in>set as. ms b = members_now channel ?st b"
    proof
      fix b assume b: "b \<in> set as"
      with Cons.prems(1) Cons have "b \<noteq> a" by auto
      from members_now_letter [OF this] b Cons.prems(2) Cons
      show "ms b = members_now channel ?st b" by simp
    qed
    ultimately show ?thesis using Cons.IH [of as] Cons.IH [of args] Cons.prems Cons by auto
  qed
qed simp

text \<open>C37: a MODE line whose arguments are distinct has the intended effect, letter by letter: the code reads a
  copy of the member map taken before the line, and that makes no difference.\<close>

theorem mode_line_refines:
  assumes "distinct args" "Channel_State.Get st channel \<noteq> None"
  shows "applyPrefixModesToState channel modes args st = mode_spec channel modes args True st"
proof -
  obtain info where i: "Channel_State.Get st channel = Some info" using assms(2) by blast
  have "\<forall>a\<in>set args. Members info a = members_now channel st a" by (simp add: members_now_def i)
  from mode_loop_spec [OF assms(1) this] i show ?thesis by (simp add: applyPrefixModesToState_def)
qed

theorem mode_line_refines_witness:
  "members_now ''#c'' (applyPrefixModesToState ''#c'' ''+bov'' [''*!*@x'', ''a'', ''b'']
     (OnNamesReply ''#c'' [''a'', ''b''] NewChannelState)) ''a'' = Some ''@''"
proof -
  let ?st = "OnNamesReply ''#c'' [''a'', ''b''] NewChannelState"
  have "Channel_State.Get ?st ''#c'' \<noteq> None"
    "members_now ''#c'' (mode_spec ''#c'' ''+bov'' [''*!*@x'', ''a'', ''b''] True ?st) ''a'' = Some ''@''" by code_simp+
  with mode_line_refines [of "[''*!*@x'', ''a'', ''b'']" ?st "''#c''" "''+bov''"] show ?thesis by simp
qed

text \<open>A MODE line that names the same member twice does not. An operator who is also given voice in one
  line, \<^verbatim>\<open>MODE #c +ov n n\<close>, ends displayed as voiced, because the second letter still sees the member
  without a prefix; the intended meaning keeps the operator prefix.\<close>

theorem mode_line_demotes:
  assumes "Channel_State.Get st channel = Some info" "Members info n = Some []" "n \<noteq> []"
  shows "members_now channel (applyPrefixModesToState channel ''+ov'' [n, n] st) n = Some ''+'' \<and>
    members_now channel (mode_spec channel ''+ov'' [n, n] True st) n = Some ''@''"
  using assms
  by (simp add: applyPrefixModesToState_def mode_letter_def consumes_arg_def argBoth_def prefixForLetter_def
      prefixRank_def members_now_def SetMemberPrefix_def Channel_State.Get_def upd_info_channels)

section \<open>Numbers\<close>

lemma parse_unix_digits:
  "list_all is_digit ds \<Longrightarrow> parse_unix_loop ds v = v * 10 ^ length ds + of_nat (digits_value ds)"
proof (induction ds rule: rev_induct)
  case Nil
  then show ?case by (simp add: digits_value_def)
next
  case (snoc d ds)
  have app: "list_all is_digit xs \<Longrightarrow> parse_unix_loop (xs @ ys) u = parse_unix_loop ys (parse_unix_loop xs u)" for xs ys u
    by (induction xs arbitrary: u) auto
  show ?case using snoc by (simp add: app digits_value_append algebra_simps)
qed

lemma parse_unix_bad: "\<not> list_all is_digit ds \<Longrightarrow> parse_unix_loop ds v = 0"
  by (induction ds arbitrary: v) auto

text \<open>A topic time or an idle time that fits in 64 bits is read exactly; a longer digit string wraps, and
  anything but digits reads as 0.\<close>

theorem parseUnixSeconds_value:
  "parseUnixSeconds s =
     (if list_all is_digit s then sint (of_nat (digits_value s) :: 64 word) else 0) \<and>
   parseUnixSeconds (nat_str (n mod 2 ^ 63)) = int (n mod 2 ^ 63)"
proof
  show "parseUnixSeconds s = (if list_all is_digit s then sint (of_nat (digits_value s) :: 64 word) else 0)"
    by (simp add: parseUnixSeconds_def parse_unix_digits parse_unix_bad)
  have "int (n mod 2 ^ 63) < 2 ^ 63" by (simp add: of_nat_mod)
  then have "signed_take_bit 63 (int (n mod 2 ^ 63)) = int (n mod 2 ^ 63)"
    by (intro signed_take_bit_int_eq_self) simp_all
  then have "sint (of_nat (n mod 2 ^ 63) :: 64 word) = int (n mod 2 ^ 63)"
    using sint_sbintrunc' [of "int (n mod 2 ^ 63)", where ?'a = 64] by simp
  then show "parseUnixSeconds (nat_str (n mod 2 ^ 63)) = int (n mod 2 ^ 63)"
    by (simp add: parseUnixSeconds_def parse_unix_digits nat_str_digits)
qed

end
