(* ===== verification/Gotime.thy ===== *)
theory Gotime
  imports Settings
begin

text \<open>
  What the program uses of Go's package \<^verbatim>\<open>time\<close> on durations: their text and their rounding.
\<close>

section \<open>Durations as text\<close>

text \<open>\<^verbatim>\<open>time.Duration.String\<close>.\<close>

definition fraction :: "nat \<Rightarrow> nat \<Rightarrow> string" where
  "fraction v prec =
     (let ds = nat_str (v mod 10 ^ prec);
          ds = replicate (prec - length ds) (CHR ''0'') @ ds;
          ds = rev (dropWhile (\<lambda>d. d = CHR ''0'') (rev ds))
      in if ds = [] then [] else CHR ''.'' # ds)"

definition duration_str :: "duration \<Rightarrow> string" where
  "duration_str d =
     (let u = nat \<bar>d\<bar>;
          s = u div 10 ^ 9;
          body =
            (if u = 0 then ''0s''
             else if u < 1000 then nat_str u @ ''ns''
             else if u < 10 ^ 6 then nat_str (u div 1000) @ fraction u 3 @ [CHR 0xC2, CHR 0xB5] @ ''s''
             else if u < 10 ^ 9 then nat_str (u div 10 ^ 6) @ fraction u 6 @ ''ms''
             else (if s div 3600 = 0 then [] else nat_str (s div 3600) @ ''h'') @
                  (if s div 60 = 0 then [] else nat_str (s div 60 mod 60) @ ''m'') @
                  nat_str (s mod 60) @ fraction u 9 @ ''s'')
      in if d < 0 then ''-'' @ body else body)"

text \<open>\<^verbatim>\<open>Duration.Round\<close>: to the nearest multiple, halves away from zero.\<close>

definition round_to :: "duration \<Rightarrow> duration \<Rightarrow> duration" where
  "round_to d m =
     (if m \<le> 0 then d
      else if d < 0
      then let r = (- d) mod m in (if r + r < m then d + r else d - m + r)
      else let r = d mod m in (if r + r < m then d - r else d + m - r))"

lemma round_to_close:
  assumes "m > 0"
  shows "2 * \<bar>round_to d m - d\<bar> \<le> m"
proof -
  define p where "p = d mod m"
  define q where "q = (- d) mod m"
  have "0 \<le> p" "p < m" "0 \<le> q" "q < m" using assms by (simp_all add: p_def q_def)
  moreover have "round_to d m =
      (if d < 0 then (if q + q < m then d + q else d - m + q) else (if p + p < m then d - p else d + m - p))"
    using assms by (simp add: round_to_def Let_def p_def q_def)
  ultimately show ?thesis by (cases "d < 0"; cases "q + q < m"; cases "p + p < m") simp_all
qed

text \<open>The seconds a client is told to wait: at least one.\<close>

definition wait_seconds :: "duration \<Rightarrow> int" where
  "wait_seconds d = (let s = round_to d second div second in if s < 1 then 1 else s)"

end
