(* ===== verification/Supervisor.thy ===== *)
theory Supervisor
  imports Dispatch Gotime
begin

text \<open>
  \<^verbatim>\<open>internal/connector/irc/connector.go\<close>, fourth part: the reconnect supervisor \<^verbatim>\<open>Run\<close> with the goroutines
  it starts, as a step relation. The state is the connector, the supervisor's program counter and local
  variables, the two contexts, and the escalation watchdog. A step is one thing one goroutine does between
  two blocking points: a server line dispatched, a ping sent, a pong check, the end of a session, a
  wake-up, a connect cycle, a watchdog tick, a call by the user, the passage of time. Any order of steps
  is a run, so every interleaving at this grain is covered; a \<^verbatim>\<open>select\<close> with several ready cases is a
  choice between steps. The grain is the code's but for the connect cycle: \<^verbatim>\<open>bringUp\<close> waits for the gate, the dial, TLS
  and every line of the handshake, and what arrives in between is not interleaved here; only a cancellation that fails
  the cycle (\<open>cancelled\<close>) and a suspension at its start (\<open>RacedDial\<close>) are.
\<close>

text \<open>\<^verbatim>\<open>strconv.FormatUint(n, 36)\<close>.\<close>

fun base36 :: "nat \<Rightarrow> string" where
  "base36 n =
     (let d = n mod 36; c = char_of (if d < 10 then 48 + d else 87 + d)
      in if n < 36 then [c] else base36 (n div 36) @ [c])"

declare base36.simps [simp del]

section \<open>The state\<close>

text \<open>\<open>Parked n\<close> waits in \<^verbatim>\<open>park\<close> with the captured nick \<open>n\<close>; \<open>InSession p k\<close> is inside \<^verbatim>\<open>runSession\<close> on the
  client with local port \<open>p\<close> after \<open>k\<close> pings; \<open>Sleeping t\<close> sleeps the backoff until \<open>t\<close>; \<open>Returned\<close> holds
  what \<^verbatim>\<open>Run\<close> returned. \<open>hist\<close> is a ghost: the state \<^verbatim>\<open>Run\<close> found, then what its two subscribers were told, and when.\<close>

datatype pc = AtTop | Parked string | InSession int nat | Sleeping instant | Returned "err option"

record Sup =
  conn :: Connector
  pos :: pc
  backoff :: BackoffSchedule
  sessionStart :: "instant option"
  ctx_done :: bool
  run_done :: bool
  wd_on :: bool
  outageSince :: "instant option"
  warned :: bool
  warnings :: "(string \<times> duration) list"
  hist :: "(instant \<times> UpstreamState) list"

abbreviation upc :: "Sup \<Rightarrow> UpstreamState" where "upc s \<equiv> up (conn s)"
abbreviation now :: "Sup \<Rightarrow> instant" where "now s \<equiv> clock (conn s)"

definition isOutageState :: "UpstreamState \<Rightarrow> bool" where
  "isOutageState s \<longleftrightarrow> s \<noteq> Registered \<and> \<not> IsParkable s"

definition startOutage :: "instant \<Rightarrow> instant option \<Rightarrow> instant option" where
  "startOutage t since = (case since of None \<Rightarrow> Some t | Some t0 \<Rightarrow> Some t0)"

text \<open>One state change as the terminal subscriber and the watchdog's subscriber handle it.\<close>

definition see :: "instant \<Rightarrow> UpstreamState \<Rightarrow> Sup \<Rightarrow> Sup" where
  "see t st s =
     s\<lparr>run_done := run_done s \<or> IsTerminal st,
       outageSince := (if wd_on s
                       then (if isOutageState st then startOutage t (outageSince s) else None)
                       else outageSince s),
       hist := hist s @ [(t, st)]\<rparr>"

text \<open>A step of the connector: the subscribers see every state it enters, in order.\<close>

definition on_conn :: "(Connector \<Rightarrow> Connector) \<Rightarrow> Sup \<Rightarrow> Sup" where
  "on_conn f s =
     (let c = f (conn s)
      in fold (see (now s)) (drop (length (entered (machine (conn s)))) (entered (machine c))) (s\<lparr>conn := c\<rparr>))"

section \<open>Leaving\<close>

definition exitTerminal :: "err option \<Rightarrow> Sup \<Rightarrow> Sup" where
  "exitTerminal err s =
     (let text = ''irc: terminal upstream state '' @ state_str (upc s)
      in s\<lparr>pos := Returned (Some (case err of None \<Rightarrow> errorf text | Some e \<Rightarrow> wrap text e)), wd_on := False\<rparr>)"

definition exitStopped :: "Sup \<Rightarrow> Sup" where
  "exitStopped s = (on_conn (goto Stopped []) s)\<lparr>pos := Returned None, wd_on := False\<rparr>"

section \<open>A connect cycle\<close>

text \<open>The cycle may find the context cancelled; if nothing had cancelled it before, the operator just did.\<close>

definition dial :: "attempt \<Rightarrow> Sup \<Rightarrow> err option \<times> Sup" where
  "dial a s =
     (fst (bringUp a (conn s)),
      (on_conn (\<lambda>c. snd (bringUp a c)) s)\<lparr>ctx_done := ctx_done s \<or> (cancelled a \<and> \<not> run_done s)\<rparr>
        \<lparr>run_done := run_done (on_conn (\<lambda>c. snd (bringUp a c)) s) \<or> cancelled a\<rparr>)"

text \<open>The gate and the dialler honour the context they are given: under a cancelled one nothing is dialled.\<close>

definition honours_ctx :: "attempt \<Rightarrow> Sup \<Rightarrow> bool" where
  "honours_ctx a s \<longleftrightarrow> (run_done s \<longrightarrow> cancelled a \<and> (gate_err a \<noteq> None \<or> (\<exists>e. dial_res a = Inl e)))"

section \<open>Parking\<close>

definition stillParked :: "string \<Rightarrow> Connector \<Rightarrow> bool" where
  "stillParked parkNick c \<longleftrightarrow>
     suspended c \<or> (up c = DisconnectedNickInvalid \<and> desiredNick c = parkNick)"

text \<open>\<^verbatim>\<open>runPark\<close> up to the first wait: the state is asserted again and a stale signal is dropped. A park that
  starts is still due, because the nick it compares with was just captured.\<close>

definition enter_park :: "Sup \<Rightarrow> Sup" where
  "enter_park s =
     (let s = (if suspended (conn s) then on_conn (goto DisconnectedByUser []) s else s);
          parkNick = desiredNick (conn s)
      in s\<lparr>conn := (conn s)\<lparr>lifecycleCh := False\<rparr>, pos := Parked parkNick\<rparr>)"

definition resume_park :: "attempt \<Rightarrow> Sup \<Rightarrow> Sup" where
  "resume_park a s =
     (let s = s\<lparr>backoff := Reset (backoff s)\<rparr>;
          (res, s) = dial a s
      in s\<lparr>pos := AtTop, sessionStart := (if res = None then Some (now s) else None)\<rparr>)"

section \<open>A session\<close>

definition sessionStableWindow :: duration where "sessionStableWindow = 30 * second"

definition begin_session :: "int \<Rightarrow> Sup \<Rightarrow> Sup" where
  "begin_session port s =
     s\<lparr>conn := (conn s)\<lparr>pingLedgerRef := Some newPingLedger\<rparr>, pos := InSession port 0\<rparr>"

text \<open>A write on the client the session captured: once that client was closed the socket refuses.\<close>

definition session_write :: "int \<Rightarrow> string \<Rightarrow> Connector \<Rightarrow> Connector \<times> err option" where
  "session_write port line c =
     (if client c = Some port then sock_write line c
      else (c, Some (NetClosed, ''use of closed network connection'')))"

text \<open>\<^verbatim>\<open>reconnectDelay\<close>; \<open>u\<close> is the random draw of the jitter.\<close>

definition reconnectDelay :: "rat \<Rightarrow> Sup \<Rightarrow> Sup \<times> duration" where
  "reconnectDelay u s =
     (let (b, d) = Next u (backoff s);
          (st, d) = nextDelay (now s) d (storm (conn s));
          d = (if reconnectFloor (conn s) > 0 \<and> d < reconnectFloor (conn s) then reconnectFloor (conn s) else d)
      in (s\<lparr>backoff := b, conn := (conn s)\<lparr>storm := st\<rparr>\<rparr>, d))"

text \<open>What \<^verbatim>\<open>Run\<close> does with the result of a session.\<close>

definition settle_error :: "err option \<Rightarrow> Sup \<Rightarrow> Sup" where
  "settle_error err s =
     (if \<not> IsRecoverable (upc s) \<and> \<not> IsTerminal (upc s) \<and> \<not> IsParkable (upc s)
      then (case err of None \<Rightarrow> s | Some e \<Rightarrow> on_conn (transitionFromError e) s)
      else s)"

definition after_session :: "rat \<Rightarrow> err option \<Rightarrow> Sup \<Rightarrow> Sup" where
  "after_session u err s =
     (if ctx_done s then exitStopped s
      else let s = settle_error err s
      in if IsTerminal (upc s) then exitTerminal err s
         else if shouldPark (conn s) then s\<lparr>pos := AtTop\<rparr>
         else let s = (case sessionStart s of
                         None \<Rightarrow> s
                       | Some t \<Rightarrow> if now s - t \<ge> sessionStableWindow then s\<lparr>backoff := Reset (backoff s)\<rparr> else s);
                  s = s\<lparr>sessionStart := None\<rparr>;
                  (s, delay) = reconnectDelay u s
              in s\<lparr>pos := Sleeping (now s + delay)\<rparr>)"

definition end_session :: "rat \<Rightarrow> err option \<Rightarrow> Sup \<Rightarrow> Sup" where
  "end_session u err s = after_session u err (s\<lparr>conn := (conn s)\<lparr>pingLedgerRef := None\<rparr>\<rparr>)"

text \<open>What the reader makes of a failed read; \<open>timeout\<close> is \<^verbatim>\<open>ne.Timeout()\<close>.\<close>

definition read_failed :: "bool \<Rightarrow> err \<Rightarrow> Sup \<Rightarrow> err option" where
  "read_failed timeout e s =
     (let idle = ReadIdleTimeout (settings (conn s))
      in if run_done s then None
         else if timeout
         then (if idle > 0 then Some (errorf (''irc read idle: no data for '' @ duration_str idle)) else None)
         else Some (wrap ''irc read'' e))"

definition ping_token :: "nat \<Rightarrow> string" where "ping_token n = ''tb-'' @ base36 n"

definition ping_tick :: "rat \<Rightarrow> int \<Rightarrow> nat \<Rightarrow> Sup \<Rightarrow> Sup" where
  "ping_tick u port n s =
     (let token = ping_token (Suc n);
          s = s\<lparr>pos := InSession port (Suc n),
                conn := (conn s)\<lparr>pingLedgerRef := map_option (ledger_Add token (now s)) (pingLedgerRef (conn s))\<rparr>\<rparr>
      in case session_write port (CmdPing @ '' :'' @ token) (conn s) of
           (c, None) \<Rightarrow> s\<lparr>conn := c\<rparr>
         | (c, Some e) \<Rightarrow>
             end_session u (if run_done s then None else Some (wrap ''irc client ping'' e)) (s\<lparr>conn := c\<rparr>))"

definition pong_check :: "rat \<Rightarrow> string list \<Rightarrow> Sup \<Rightarrow> Sup" where
  "pong_check u ord s =
     (let timeout = PongTimeout (settings (conn s)) in
      case pingLedgerRef (conn s) of
        None \<Rightarrow> s
      | Some l \<Rightarrow>
          (case Oldest ord l of
             None \<Rightarrow> s
           | Some oldest \<Rightarrow>
               (let age = now s - oldest
                in if age \<le> timeout then s
                   else end_session u
                          (Some (NetError, ''irc pong timeout: outstanding for '' @ duration_str age))
                          (on_conn (goto DisconnectedTransient (''no PONG for '' @ duration_str timeout)) s))))"

definition reclaim_tick :: "int \<Rightarrow> Connector \<Rightarrow> Connector" where
  "reclaim_tick port c =
     (if desiredNick c = [] \<or> currentNick c = desiredNick c \<or> up c \<noteq> Registered then c
      else fst (session_write port (CmdNick @ '' '' @ desiredNick c) c))"

section \<open>The backoff sleep\<close>

definition wake_dial :: "attempt \<Rightarrow> Sup \<Rightarrow> Sup" where
  "wake_dial a s =
     (case dial a s of
        (None, s) \<Rightarrow> s\<lparr>pos := AtTop, sessionStart := Some (now s)\<rparr>
      | (Some e, s) \<Rightarrow>
          (if IsTerminal (upc s) then exitTerminal (Some e) s
           else if ctx_done s then exitStopped s
           else s\<lparr>pos := AtTop\<rparr>))"

definition wake_cancelled :: "Sup \<Rightarrow> Sup" where
  "wake_cancelled s = (if ctx_done s then exitStopped s else exitTerminal None s)"

section \<open>The watchdog\<close>

text \<open>A negative target ends at the floor whichever way the division rounds.\<close>

definition watchdogPollInterval :: "duration \<Rightarrow> duration \<Rightarrow> duration" where
  "watchdogPollInterval warn pause =
     (let target = (if pause > 0 \<and> (warn = 0 \<or> pause < warn) then pause else warn)
      in if target = 0 then second
         else let d = target div 4;
                  d = (if d < 10 * 10 ^ 6 then 10 * 10 ^ 6 else d)
              in (if d > second then second else d))"

definition watch_tick :: "Sup \<Rightarrow> Sup" where
  "watch_tick s =
     (let warnAfter = UpstreamWarnAfter (settings (conn s));
          pauseAfter = UpstreamPauseAfter (settings (conn s));
          dwell = (case outageSince s of None \<Rightarrow> 0 | Some t \<Rightarrow> now s - t);
          reason = serverReason (machine (conn s))
      in if IsTerminal (upc s) then s\<lparr>wd_on := False\<rparr>
         else if dwell = 0 then s\<lparr>warned := False\<rparr>
         else let s = (if \<not> warned s \<and> warnAfter > 0 \<and> dwell \<ge> warnAfter
                       then s\<lparr>warned := True, warnings := warnings s @ [(reason, dwell)]\<rparr> else s)
              in if pauseAfter > 0 \<and> dwell \<ge> pauseAfter
                 then (on_conn (goto PausedIdle reason) s)\<lparr>wd_on := False\<rparr>
                 else s)"

section \<open>Starting\<close>

definition watching :: "Settings \<Rightarrow> bool" where
  "watching st \<longleftrightarrow> \<not> (UpstreamWarnAfter st \<le> 0 \<and> UpstreamPauseAfter st \<le> 0)"

definition run_start :: "Connector \<Rightarrow> Sup" where
  "run_start c =
     \<lparr>conn = c,
      pos = (if client c = None \<and> up c = Idle then Returned (Some (errorf ''irc: Run before Start'')) else AtTop),
      backoff = NewBackoffSchedule, sessionStart = Some (clock c), ctx_done = False, run_done = False,
      wd_on = watching (settings c) \<and> \<not> (client c = None \<and> up c = Idle),
      outageSince = (if watching (settings c) \<and> isOutageState (up c) then Some (clock c) else None),
      warned = False, warnings = [], hist = [(clock c, up c)]\<rparr>"

section \<open>The steps\<close>

text \<open>What moves: the supervisor, the goroutines of the session, the watchdog, the user, the operator, time.
  \<open>RacedDial\<close> is a dial whose check of the park condition came just before a \<open>Suspend\<close> and whose first
  statement just after. The environment is frozen once \<^verbatim>\<open>Run\<close> has returned.\<close>

datatype label =
    EnterPark | ParkCancelled | ParkSignal | Dial attempt | RacedDial attempt | WakeParked | WakeSignal | WakeCancelled
  | BeginSession | SessionEnd "err option" | Line string | Ping | Pong | Reclaim
  | Watch | WatchStop | Elapse duration | UserSuspend | UserResume | UserNick string | UserSend string
  | UserReconcile "string list" | Cancel

definition clear_signal :: "Sup \<Rightarrow> Sup" where
  "clear_signal s = s\<lparr>conn := (conn s)\<lparr>lifecycleCh := False\<rparr>\<rparr>"

definition live :: "Sup \<Rightarrow> bool" where
  "live s \<longleftrightarrow> (case pos s of Returned _ \<Rightarrow> False | _ \<Rightarrow> True)"

text \<open>Reads and writes of a session take no context: a socket fails with an error of its own, never with the one of a
  context that ended.\<close>

definition of_socket :: "err \<Rightarrow> bool" where
  "of_socket e \<longleftrightarrow> fst e \<noteq> CtxCanceled \<and> fst e \<noteq> CtxDeadline"

inductive step :: "Sup \<Rightarrow> label \<Rightarrow> Sup \<Rightarrow> bool" where
  enter_park: "pos s = AtTop \<Longrightarrow> shouldPark (conn s) \<Longrightarrow> step s EnterPark (enter_park s)"
| park_cancelled: "pos s = Parked n \<Longrightarrow> run_done s \<Longrightarrow> step s ParkCancelled (exitStopped s)"
| park_signal: "pos s = Parked n \<Longrightarrow> stillParked n (conn s) \<Longrightarrow> step s ParkSignal (clear_signal s)"
| park_resume: "pos s = Parked n \<Longrightarrow> \<not> stillParked n (conn s) \<Longrightarrow> honours_ctx a s \<Longrightarrow>
    step s (Dial a) (resume_park a (if by_signal then clear_signal s else s))"
| session: "pos s = AtTop \<Longrightarrow> \<not> shouldPark (conn s) \<Longrightarrow> client (conn s) = Some port \<Longrightarrow>
    step s BeginSession (begin_session port s)"
| no_session: "pos s = AtTop \<Longrightarrow> \<not> shouldPark (conn s) \<Longrightarrow> client (conn s) = None \<Longrightarrow>
    step s (SessionEnd (Some no_client)) (after_session u (Some no_client) s)"
| line: "pos s = InSession port n \<Longrightarrow> step s (Line l) (on_conn (dispatchLine env l) s)"
| read_error: "pos s = InSession port n \<Longrightarrow> (timeout \<longrightarrow> ReadIdleTimeout (settings (conn s)) > 0 \<or> run_done s) \<Longrightarrow>
    of_socket e \<Longrightarrow>
    step s (SessionEnd (read_failed timeout e s)) (end_session u (read_failed timeout e s) s)"
| ping: "pos s = InSession port n \<Longrightarrow> ClientPingInterval (settings (conn s)) > 0 \<Longrightarrow>
    of_socket (write_err (conn s)) \<Longrightarrow>
    step s Ping (ping_tick u port n s)"
| pong: "pos s = InSession port n \<Longrightarrow> PongTimeout (settings (conn s)) > 0 \<Longrightarrow>
    ClientPingInterval (settings (conn s)) > 0 \<Longrightarrow> pingLedgerRef (conn s) = Some l \<Longrightarrow> set ord = dom l \<Longrightarrow>
    step s Pong (pong_check u ord s)"
| reclaim: "pos s = InSession port n \<Longrightarrow> step s Reclaim (on_conn (reclaim_tick port) s)"
| wake_parked: "pos s = Sleeping t \<Longrightarrow> t \<le> now s \<Longrightarrow> shouldPark (conn s) \<Longrightarrow> step s WakeParked (s\<lparr>pos := AtTop\<rparr>)"
| wake_dial: "pos s = Sleeping t \<Longrightarrow> t \<le> now s \<Longrightarrow> \<not> shouldPark (conn s) \<Longrightarrow> honours_ctx a s \<Longrightarrow>
    step s (Dial a) (wake_dial a s)"
| wake_raced: "pos s = Sleeping t \<Longrightarrow> t \<le> now s \<Longrightarrow> \<not> shouldPark (conn s) \<Longrightarrow> honours_ctx a s \<Longrightarrow>
    step s (RacedDial a) (wake_dial a (on_conn Suspend s))"
| wake_signal: "pos s = Sleeping t \<Longrightarrow> lifecycleCh (conn s) \<Longrightarrow> step s WakeSignal ((clear_signal s)\<lparr>pos := AtTop\<rparr>)"
| wake_cancelled: "pos s = Sleeping t \<Longrightarrow> run_done s \<Longrightarrow> step s WakeCancelled (wake_cancelled s)"
| watch: "live s \<Longrightarrow> wd_on s \<Longrightarrow> step s Watch (watch_tick s)"
| watch_stop: "live s \<Longrightarrow> wd_on s \<Longrightarrow> ctx_done s \<Longrightarrow> step s WatchStop (s\<lparr>wd_on := False\<rparr>)"
| elapse: "live s \<Longrightarrow> d \<ge> 0 \<Longrightarrow> step s (Elapse d) (s\<lparr>conn := (conn s)\<lparr>clock := now s + d\<rparr>\<rparr>)"
| user_suspend: "live s \<Longrightarrow> step s UserSuspend (on_conn Suspend s)"
| user_resume: "live s \<Longrightarrow> step s UserResume (on_conn Resume s)"
| user_nick: "live s \<Longrightarrow> step s (UserNick nick) (on_conn (ApplyNick nick) s)"
| user_send: "live s \<Longrightarrow> step s (UserSend l) (on_conn (\<lambda>c. fst (SendRaw l c)) s)"
| user_reconcile: "live s \<Longrightarrow> set ord = dom (desired_map desired) \<Longrightarrow>
    step s (UserReconcile desired) (on_conn (ReconcileChannels ord desired) s)"
| cancel: "live s \<Longrightarrow> step s Cancel (s\<lparr>ctx_done := True, run_done := True\<rparr>)"

inductive reachable :: "Connector \<Rightarrow> Sup \<Rightarrow> bool" for c where
  start: "client c \<noteq> None \<or> up c \<noteq> Idle \<Longrightarrow> reachable c (run_start c)"
| next_step: "reachable c s \<Longrightarrow> step s L t \<Longrightarrow> reachable c t"

section \<open>What the connector's steps leave alone\<close>

text \<open>The part of the connector that no server line and no message changes.\<close>

definition outer :: "Connector \<Rightarrow> Settings \<times> bool \<times> instant \<times> int option \<times> duration" where
  "outer c = (settings c, suspended c, clock c, client c, reconnectFloor c)"

named_theorems outers "steps that keep the outer part"

lemma outer_plumbing [outers]:
  "outer (publish t fs c) = outer c" "outer (publishServerNotice k x c) = outer c"
  "outer (fst (sock_write l c)) = outer c" "outer (send_if_connected l c) = outer c"
  "outer (call_bouncer b c) = outer c" "outer (goto st r c) = outer c" "outer (run_nick_hook c) = outer c"
  "outer (setDesiredNick n c) = outer c"
  by (simp_all add: outer_def publish_def publishServerNotice_def sock_write_def send_if_connected_def call_bouncer_def
      goto_def run_nick_hook_def setDesiredNick_def split: option.split nat.split)

lemma outer_fields [outers]:
  "outer (c\<lparr>chan_state := x1\<rparr>) = outer c" "outer (c\<lparr>wanted := x2\<rparr>) = outer c"
  "outer (c\<lparr>currentNick := x3\<rparr>) = outer c" "outer (c\<lparr>pingLedgerRef := x4\<rparr>) = outer c"
  "outer (c\<lparr>whoisInFlight := x5\<rparr>) = outer c" "outer (c\<lparr>listInFlight := x6\<rparr>) = outer c"
  "outer (c\<lparr>whoInFlight := x7\<rparr>) = outer c" "outer (c\<lparr>ctcp := x8\<rparr>) = outer c"
  "outer (c\<lparr>inbox := x9\<rparr>) = outer c" "outer (c\<lparr>crashed := b\<rparr>) = outer c" "outer (c\<lparr>next_uid := n\<rparr>) = outer c"
  by (simp_all add: outer_def)

lemma outer_nick [outers]: "outer (setCurrentNick n c) = outer c"
  by (simp add: setCurrentNick_def Let_def outers)

lemma outer_publish_all [outers]: "outer (fold (\<lambda>x. publish t (f x)) xs c) = outer c"
  by (induction xs arbitrary: c) (simp_all add: outers)

lemma outer_handlers [outers]:
  "outer (respondPong m c) = outer c" "outer (handlePong m c) = outer c"
  "outer (handleJoin m c) = outer c" "outer (handlePart m c) = outer c" "outer (handleQuit env m c) = outer c"
  "outer (handleKick m c) = outer c" "outer (handleNickChange m c) = outer c" "outer (handleTopic m c) = outer c"
  "outer (handleJoinFailure m c) = outer c" "outer (handleMode m c) = outer c" "outer (handleEndOfNames env m c) = outer c"
  "outer (handleNotice m c) = outer c" "outer (handleWhoisNumeric m c) = outer c"
  "outer (handleWhoisNoSuchNick x r c) = outer c" "outer (handleListNumeric m c) = outer c"
  "outer (handleWhoNumeric m c) = outer c"
  by (simp_all add: respondPong_def handlePong_def handleJoin_def handlePart_def handleQuit_def handleKick_def
      handleNickChange_def handleTopic_def handleJoinFailure_def handleMode_def handleEndOfNames_def handleNotice_def
      handleWhoisNumeric_def handleWhoisNoSuchNick_def handleListNumeric_def handleWhoNumeric_def publishWhoisResult_def
      Let_def outers split: option.split prod.split)

lemma outer_privmsg [outers]: "outer (handlePrivmsg env m l c) = outer c"
  by (simp add: handlePrivmsg_def Let_def outers split: option.split prod.split)

lemma outer_around [outers]:
  "outer (dispatch_classify l m c) = outer c" "outer (learn_identity m c) = outer c"
  by (simp_all add: dispatch_classify_def learn_identity_def outers split: option.split prod.split)

lemma outer_if: "outer x = outer c \<Longrightarrow> outer y = outer c \<Longrightarrow> outer (if P then x else y) = outer c"
  by simp

lemma outer_command [outers]: "outer (handle_command env line msg c) = outer c"
  unfolding handle_command_def Let_def by (intro outer_if) (simp_all add: outers)

lemma outer_dispatch [outers]: "outer (dispatchLine env line c) = outer c"
  by (simp add: dispatchLine_def Let_def outers)

lemma outer_clock: "outer d = outer c \<Longrightarrow> clock d = clock c"
  by (simp add: outer_def)

lemma tracks_dispatch: "tracks c (dispatchLine env line c)"
proof -
  have "machine (dispatchLine env line c) = machine (dispatch_classify line (Parse line) c)"
    by (simp add: dispatchLine_def Let_def)
  moreover have "tracks c (dispatch_classify line (Parse line) c)"
    by (simp add: dispatch_classify_def split: option.split prod.split)
  moreover have "clock (dispatchLine env line c) = clock c" by (intro outer_clock outer_dispatch)
  ultimately show ?thesis by (simp add: tracks_def)
qed

lemma tracks_write: "tracks c (fst (sock_write l c))" "tracks c (send_if_connected l c)"
  using frame_sock_write frame_send by (simp_all add: frame_def)

lemma tracks_bringUp: "tracks c (snd (bringUp a c))"
  using keeps_bringUp by (simp add: keeps_def)

lemma tracks_setClient: "tracks c (setClient cl c)"
  using keeps_steps(2) by (simp add: keeps_def)

lemma tracks_Suspend: "tracks c (Suspend c)"
proof -
  let ?c = "goto DisconnectedByUser [] (c\<lparr>suspended := True\<rparr>)"
  have a: "tracks c ?c" by (rule tracks_trans [OF tracks_same tracks_goto]) simp_all
  have b: "tracks ?c (setClient None (fst (sock_write l ?c)))" for l
    by (rule tracks_trans [OF tracks_write(1) tracks_setClient])
  have "tracks d (signalLifecycle d)" for d by (simp add: signalLifecycle_def)
  then show ?thesis using a tracks_trans [OF a b]
    by (auto simp: Suspend_def Let_def simp del: goto_fields intro: tracks_trans)
qed

lemma tracks_Resume: "tracks c (Resume c)"
  by (simp add: Resume_def signalLifecycle_def)

lemma tracks_signal: "tracks c d \<Longrightarrow> tracks c (d\<lparr>lifecycleCh := b\<rparr>)"
  by (erule tracks_trans) simp

lemma tracks_ApplyNick: "tracks c (ApplyNick n c)"
proof -
  have "tracks c (SetPreferredNick m (setDesiredNick m c))" for m
    by (simp add: SetPreferredNick_def Let_def run_nick_hook_def setDesiredNick_def)
  then show ?thesis using tracks_trans [OF _ tracks_write(2)]
    by (auto simp: ApplyNick_def Let_def signalLifecycle_def split: UpstreamState.split intro: tracks_trans tracks_signal)
qed

lemma tracks_transitionFromError: "tracks c (transitionFromError e c)"
  by (simp add: transitionFromError_def split: option.split)

lemma tracks_reclaim: "tracks c (reclaim_tick p c)"
  using tracks_write(1) by (simp add: reclaim_tick_def session_write_def)

lemma tracks_SendRaw: "tracks c (fst (SendRaw l c))"
proof -
  have "tracks c (registerWebQuery l c)"
    by (simp add: registerWebQuery_def markWhoisRequested_def markWhoRequested_def Let_def)
  then show ?thesis using tracks_trans [OF _ tracks_write(1)] by (simp add: SendRaw_def)
qed

lemma tracks_fold: "(\<And>x c. tracks c (f x c)) \<Longrightarrow> tracks c (fold f xs c)"
  by (induction xs arbitrary: c) (auto intro: tracks_trans)

lemma tracks_Reconcile: "tracks c (ReconcileChannels ord desired c)"
proof -
  have "tracks c (reconcile_part w l x c)" for w l x c
    using tracks_trans [OF tracks_same tracks_write(2)] by (simp add: reconcile_part_def Let_def)
  moreover have "tracks c (reconcile_join l x c)" for l x c
    using tracks_trans [OF tracks_same tracks_write(2)] by (simp add: reconcile_join_def Let_def)
  ultimately show ?thesis unfolding ReconcileChannels_def Let_def
    by (intro tracks_trans [OF tracks_fold tracks_fold])
qed

lemmas tracks_ops = tracks_dispatch tracks_bringUp tracks_Suspend tracks_Resume tracks_ApplyNick tracks_goto
  tracks_transitionFromError tracks_reclaim tracks_SendRaw tracks_Reconcile

section \<open>What the watchdog measures\<close>

text \<open>Since when the machine has been out of service without interruption, read off the whole history.\<close>

definition outage_of :: "(instant \<times> UpstreamState) list \<Rightarrow> instant option" where
  "outage_of h =
     (case rev (takeWhile (\<lambda>x. isOutageState (snd x)) (rev h)) of [] \<Rightarrow> None | x # xs \<Rightarrow> Some (fst x))"

lemma outage_of_snoc:
  "outage_of (h @ [(t, st)]) = (if isOutageState st then startOutage t (outage_of h) else None)"
  by (auto simp: outage_of_def startOutage_def split: list.split)

definition watch_inv :: "Sup \<Rightarrow> bool" where
  "watch_inv s \<longleftrightarrow>
     (wd_on s \<longrightarrow> outageSince s = outage_of (hist s)) \<and> hist s \<noteq> [] \<and> snd (last (hist s)) = upc s \<and>
     (run_done s \<longleftrightarrow> ctx_done s \<or> (\<exists>x\<in>set (tl (hist s)). IsTerminal (snd x))) \<and>
     (\<forall>x\<in>set (hist s). fst x \<le> now s)"

lemma see_fields [simp]:
  "conn (see t st s) = conn s" "pos (see t st s) = pos s" "backoff (see t st s) = backoff s"
  "sessionStart (see t st s) = sessionStart s" "ctx_done (see t st s) = ctx_done s" "wd_on (see t st s) = wd_on s"
  "warned (see t st s) = warned s" "warnings (see t st s) = warnings s" "hist (see t st s) = hist s @ [(t, st)]"
  "run_done (see t st s) = (run_done s \<or> IsTerminal st)"
  by (simp_all add: see_def)

lemma see_all_fields [simp]:
  "conn (fold (see t) ds s) = conn s" "pos (fold (see t) ds s) = pos s" "backoff (fold (see t) ds s) = backoff s"
  "sessionStart (fold (see t) ds s) = sessionStart s" "ctx_done (fold (see t) ds s) = ctx_done s"
  "wd_on (fold (see t) ds s) = wd_on s" "warned (fold (see t) ds s) = warned s"
  "warnings (fold (see t) ds s) = warnings s" "hist (fold (see t) ds s) = hist s @ map (Pair t) ds"
  "run_done (fold (see t) ds s) = (run_done s \<or> (\<exists>d\<in>set ds. IsTerminal d))"
  by (induction ds arbitrary: s) auto

lemma see_all_outage:
  "wd_on s \<Longrightarrow> outageSince s = outage_of h \<Longrightarrow>
     outageSince (fold (see t) ds s) = outage_of (h @ map (Pair t) ds)"
proof (induction ds arbitrary: s h)
  case (Cons d ds)
  have "outageSince (see t d s) = outage_of (h @ [(t, d)])"
    using Cons.prems by (simp add: see_def outage_of_snoc)
  with Cons.IH [of "see t d s" "h @ [(t, d)]"] Cons.prems show ?case by simp
qed simp

lemma on_conn_fields [simp]:
  "conn (on_conn f s) = f (conn s)" "pos (on_conn f s) = pos s" "backoff (on_conn f s) = backoff s"
  "sessionStart (on_conn f s) = sessionStart s" "ctx_done (on_conn f s) = ctx_done s" "wd_on (on_conn f s) = wd_on s"
  "warned (on_conn f s) = warned s" "warnings (on_conn f s) = warnings s"
  by (simp_all add: on_conn_def Let_def)

lemma last_pairs: "snd (last h) = u \<Longrightarrow> h \<noteq> [] \<Longrightarrow> snd (last (h @ map (Pair t) ds)) = last (u # ds)"
  by (cases ds rule: rev_cases) auto

lemma watch_inv_on_conn:
  assumes "watch_inv s" "tracks (conn s) (f (conn s))"
  shows "watch_inv (on_conn f s)"
proof -
  obtain ds where ds: "entered (machine (f (conn s))) = entered (machine (conn s)) @ ds"
      "up (f (conn s)) = last (upc s # ds)" and cl: "clock (f (conn s)) = now s"
    using assms(2) by (auto simp: tracks_def simp del: last.simps)
  have e: "on_conn f s = fold (see (now s)) ds (s\<lparr>conn := f (conn s)\<rparr>)" by (simp add: on_conn_def Let_def ds(1))
  have h: "hist s \<noteq> []" "snd (last (hist s)) = upc s" using assms(1) by (simp_all add: watch_inv_def)
  have "outageSince (on_conn f s) = outage_of (hist s @ map (Pair (now s)) ds)" if "wd_on s"
    unfolding e using that assms(1) by (intro see_all_outage) (simp_all add: watch_inv_def)
  moreover have "snd (last (hist s @ map (Pair (now s)) ds)) = up (f (conn s))"
    using last_pairs [OF h(2,1)] ds(2) by simp
  ultimately show ?thesis using assms(1) h cl unfolding watch_inv_def
    by (auto simp: e ball_Un simp del: last_append)
qed

lemma watch_inv_same:
  assumes "watch_inv s" "hist t = hist s" "machine (conn t) = machine (conn s)" "now t \<ge> now s"
    "run_done t = run_done s" "ctx_done t = ctx_done s"
    "wd_on t \<longrightarrow> wd_on s \<and> outageSince t = outageSince s"
  shows "watch_inv t"
  using assms unfolding watch_inv_def by fastforce

lemma watch_inv_on:
  assumes "watch_inv s" "\<And>c. tracks c (f c)"
  shows "watch_inv (on_conn f s)"
  using watch_inv_on_conn [OF assms(1)] assms(2) .

lemma watch_inv_dial:
  assumes "watch_inv s"
  shows "watch_inv (snd (dial a s))"
proof -
  have "watch_inv (on_conn (\<lambda>c. snd (bringUp a c)) s)" by (rule watch_inv_on [OF assms]) (rule tracks_bringUp)
  then show ?thesis using assms unfolding watch_inv_def dial_def
    by (auto simp: on_conn_def Let_def)
qed

lemma watch_inv_stopped: "watch_inv s \<Longrightarrow> watch_inv (exitStopped s)"
  unfolding exitStopped_def by (rule watch_inv_same [OF watch_inv_on]) auto

lemma watch_inv_terminal: "watch_inv s \<Longrightarrow> watch_inv (exitTerminal e s)"
  by (erule watch_inv_same) (auto simp: exitTerminal_def Let_def)

lemma watch_inv_settle: "watch_inv s \<Longrightarrow> watch_inv (settle_error e s)"
  by (auto simp: settle_error_def split: option.split intro: watch_inv_on_conn tracks_transitionFromError)

lemma reconnectDelay_fields [simp]:
  "hist (fst (reconnectDelay u s)) = hist s" "machine (conn (fst (reconnectDelay u s))) = machine (conn s)"
  "now (fst (reconnectDelay u s)) = now s" "run_done (fst (reconnectDelay u s)) = run_done s"
  "ctx_done (fst (reconnectDelay u s)) = ctx_done s" "wd_on (fst (reconnectDelay u s)) = wd_on s"
  "outageSince (fst (reconnectDelay u s)) = outageSince s" "sessionStart (fst (reconnectDelay u s)) = sessionStart s"
  "settings (conn (fst (reconnectDelay u s))) = settings (conn s)"
  "reconnectFloor (conn (fst (reconnectDelay u s))) = reconnectFloor (conn s)"
  by (simp_all add: reconnectDelay_def Let_def split: prod.split)

lemma watch_inv_after_session: "watch_inv s \<Longrightarrow> watch_inv (after_session u e s)"
proof -
  assume s: "watch_inv s"
  let ?t = "settle_error e s"
  let ?r = "(case sessionStart ?t of None \<Rightarrow> ?t
     | Some t \<Rightarrow> if now ?t - t \<ge> sessionStableWindow then ?t\<lparr>backoff := Reset (backoff ?t)\<rparr> else ?t)\<lparr>sessionStart := None\<rparr>"
  have t: "watch_inv ?t" by (rule watch_inv_settle [OF s])
  have "watch_inv ?r" by (rule watch_inv_same [OF t]) (auto split: option.split)
  then have "watch_inv ((fst (reconnectDelay u ?r))\<lparr>pos := p\<rparr>)" for p by (rule watch_inv_same) auto
  moreover have "watch_inv (?t\<lparr>pos := AtTop\<rparr>)" by (rule watch_inv_same [OF t]) auto
  ultimately show ?thesis
    using watch_inv_stopped [OF s] watch_inv_terminal [OF t]
    by (simp add: after_session_def Let_def case_prod_unfold)
qed

lemma watch_inv_end_session: "watch_inv s \<Longrightarrow> watch_inv (end_session u e s)"
  unfolding end_session_def by (intro watch_inv_after_session) (erule watch_inv_same, auto)

lemma watch_inv_resume_park: "watch_inv s \<Longrightarrow> watch_inv (resume_park a s)"
proof -
  assume "watch_inv s"
  then have "watch_inv (s\<lparr>backoff := b\<rparr>)" for b by (rule watch_inv_same) auto
  from watch_inv_dial [OF this] show ?thesis
    unfolding resume_park_def Let_def case_prod_unfold by (rule watch_inv_same) auto
qed

lemma watch_inv_wake_dial: "watch_inv s \<Longrightarrow> watch_inv (wake_dial a s)"
proof -
  assume s: "watch_inv s"
  obtain r t where d: "dial a s = (r, t)" by fastforce
  with watch_inv_dial [OF s, of a] have t: "watch_inv t" by simp
  have "watch_inv (t\<lparr>pos := p\<rparr>)" "watch_inv (t\<lparr>pos := p, sessionStart := q\<rparr>)" for p q
    by (rule watch_inv_same [OF t], auto)+
  then show ?thesis using d watch_inv_stopped [OF t] watch_inv_terminal [OF t]
    by (simp add: wake_dial_def split: option.split)
qed

lemma watch_inv_pong: "watch_inv s \<Longrightarrow> watch_inv (pong_check u ord s)"
  by (auto simp: pong_check_def Let_def split: option.split
      intro!: watch_inv_end_session watch_inv_on_conn tracks_goto)

lemma session_write_fields [simp]:
  "machine (fst (session_write p l c)) = machine c" "clock (fst (session_write p l c)) = clock c"
  "settings (fst (session_write p l c)) = settings c" "suspended (fst (session_write p l c)) = suspended c"
  "client (fst (session_write p l c)) = client c"
  using outer_plumbing(3) [of l c] by (simp_all add: session_write_def outer_def)

lemma ping_tick_cases:
  assumes "watch_inv s"
  obtains s' where "watch_inv s'" "suspended (conn s') = suspended (conn s)" "client (conn s') = client (conn s)"
    "backoff s' = backoff s" "sessionStart s' = sessionStart s" "now s' = now s"
    "ping_tick u p n s = s' \<and> pos s' = InSession p (Suc n) \<or> (\<exists>e. ping_tick u p n s = end_session u e s')"
proof -
  let ?tok = "ping_token (Suc n)"
  let ?s = "s\<lparr>pos := InSession p (Suc n),
      conn := (conn s)\<lparr>pingLedgerRef := map_option (ledger_Add ?tok (now s)) (pingLedgerRef (conn s))\<rparr>\<rparr>"
  let ?w = "session_write p (CmdPing @ '' :'' @ ?tok) (conn ?s)"
  obtain c r where w: "?w = (c, r)" by fastforce
  have "machine (fst ?w) = machine (conn s)" "clock (fst ?w) = now s" "suspended (fst ?w) = suspended (conn s)"
    "client (fst ?w) = client (conn s)" unfolding session_write_fields by simp_all
  then have c: "machine c = machine (conn s)" "clock c = now s" "suspended c = suspended (conn s)" "client c = client (conn s)"
    unfolding w by simp_all
  have "watch_inv (?s\<lparr>conn := c\<rparr>)" by (rule watch_inv_same [OF assms]) (auto simp: c)
  moreover have "ping_tick u p n s = ?s\<lparr>conn := c\<rparr> \<or> (\<exists>e. ping_tick u p n s = end_session u e (?s\<lparr>conn := c\<rparr>))"
    using w by (cases r) (auto simp: ping_tick_def Let_def)
  ultimately show ?thesis using that [of "?s\<lparr>conn := c\<rparr>"] c by auto
qed

lemma watch_inv_ping: "watch_inv s \<Longrightarrow> watch_inv (ping_tick u p n s)"
  by (erule ping_tick_cases [of s u p n]) (auto simp: watch_inv_end_session)

lemma watch_inv_tick: "watch_inv s \<Longrightarrow> watch_inv (watch_tick s)"
proof -
  assume s: "watch_inv s"
  have n: "watch_inv (s\<lparr>warned := w, warnings := ws\<rparr>)" for w ws by (rule watch_inv_same [OF s]) auto
  then have "watch_inv ((on_conn (goto PausedIdle r) (s\<lparr>warned := w, warnings := ws\<rparr>))\<lparr>wd_on := False\<rparr>)" for w ws r
    by (intro watch_inv_same [OF watch_inv_on [OF n]]) auto
  moreover have "watch_inv ((on_conn (goto PausedIdle r) s)\<lparr>wd_on := False\<rparr>)" for r
    by (intro watch_inv_same [OF watch_inv_on [OF s]]) auto
  moreover have "watch_inv (s\<lparr>wd_on := False\<rparr>)" "watch_inv (s\<lparr>warned := False\<rparr>)"
    by (rule watch_inv_same [OF s], auto)+
  ultimately show ?thesis using s n by (simp add: watch_tick_def Let_def)
qed

lemma watch_inv_step: "step s L t \<Longrightarrow> watch_inv s \<Longrightarrow> watch_inv t"
proof (induction rule: step.induct)
  case (enter_park s)
  have "watch_inv (if suspended (conn s) then on_conn (goto DisconnectedByUser []) s else s)"
    using enter_park watch_inv_on_conn tracks_goto by simp
  then show ?case unfolding enter_park_def Let_def by (rule watch_inv_same) auto
next
  case (park_resume s n a by_signal)
  have "watch_inv (if by_signal then clear_signal s else s)"
    by (rule watch_inv_same [OF park_resume.prems]) (auto simp: clear_signal_def)
  then show ?case by (rule watch_inv_resume_park)
next
  case (park_signal s n)
  show ?case by (rule watch_inv_same [OF park_signal.prems]) (auto simp: clear_signal_def)
next
  case (session s port)
  show ?case by (rule watch_inv_same [OF session.prems]) (auto simp: begin_session_def)
next
  case (wake_parked s t)
  show ?case by (rule watch_inv_same [OF wake_parked.prems]) auto
next
  case (wake_signal s t)
  show ?case by (rule watch_inv_same [OF wake_signal.prems]) (auto simp: clear_signal_def)
next
  case (watch_stop s)
  show ?case by (rule watch_inv_same [OF watch_stop.prems]) auto
next
  case (elapse s d)
  show ?case by (rule watch_inv_same [OF elapse.prems]) (use elapse in auto)
next
  case (cancel s)
  then show ?case by (simp add: watch_inv_def)
qed (simp_all add: watch_inv_stopped watch_inv_after_session watch_inv_end_session watch_inv_ping watch_inv_pong
    watch_inv_wake_dial watch_inv_tick watch_inv_terminal wake_cancelled_def watch_inv_on_conn tracks_ops)

lemma reachable_watch_inv: "reachable c s \<Longrightarrow> watch_inv s"
proof (induction rule: reachable.induct)
  case start
  then show ?case by (auto simp: watch_inv_def run_start_def outage_of_def)
next
  case (next_step s L t)
  then show ?case using watch_inv_step by blast
qed

section \<open>How Run ends\<close>

definition exit_ok :: "Sup \<Rightarrow> bool" where
  "exit_ok s \<longleftrightarrow>
     (case pos s of
        Returned None \<Rightarrow> upc s = Stopped
      | Returned (Some e) \<Rightarrow> (\<exists>x\<in>set (hist s). IsTerminal (snd x))
      | _ \<Rightarrow> True)"

lemma watch_inv_saw: "watch_inv s \<Longrightarrow> IsTerminal (upc s) \<Longrightarrow> \<exists>x\<in>set (hist s). IsTerminal (snd x)"
  unfolding watch_inv_def by (metis last_in_set)

lemma watch_inv_saw_done: "watch_inv s \<Longrightarrow> run_done s \<Longrightarrow> \<not> ctx_done s \<Longrightarrow> \<exists>x\<in>set (hist s). IsTerminal (snd x)"
  unfolding watch_inv_def by (metis list.set_sel(2))

lemma exit_ok_stopped: "exit_ok (exitStopped s)"
  by (simp add: exit_ok_def exitStopped_def)

lemma exit_ok_terminal: "\<exists>x\<in>set (hist s). IsTerminal (snd x) \<Longrightarrow> exit_ok (exitTerminal e s)"
  by (simp add: exit_ok_def exitTerminal_def Let_def)

lemma exit_ok_live: "live s \<Longrightarrow> exit_ok s"
  by (auto simp: exit_ok_def live_def split: pc.splits)

lemma exit_ok_pos: "pos t \<noteq> Returned None \<Longrightarrow> \<forall>e. pos t \<noteq> Returned (Some e) \<Longrightarrow> exit_ok t"
  by (auto simp: exit_ok_def split: pc.splits option.splits)

lemma exit_ok_after_session: "watch_inv s \<Longrightarrow> exit_ok (after_session u e s)"
  using watch_inv_saw [OF watch_inv_settle, of s e]
  by (auto simp: after_session_def Let_def exit_ok_stopped case_prod_unfold intro!: exit_ok_terminal exit_ok_pos)

lemma exit_ok_end_session: "watch_inv s \<Longrightarrow> exit_ok (end_session u e s)"
  unfolding end_session_def by (intro exit_ok_after_session) (erule watch_inv_same, auto)

lemma exit_ok_wake_dial: "watch_inv s \<Longrightarrow> exit_ok (wake_dial a s)"
  using watch_inv_saw [OF watch_inv_dial, of s a]
  by (auto simp: wake_dial_def exit_ok_stopped split: prod.split option.split intro!: exit_ok_terminal exit_ok_pos)

lemma exit_ok_ping: "watch_inv s \<Longrightarrow> exit_ok (ping_tick u p n s)"
  by (erule ping_tick_cases [of s u p n]) (auto simp: exit_ok_end_session intro: exit_ok_pos)

lemma live_on_conn [simp]: "live (on_conn f s) = live s"
  by (simp add: live_def)

lemma exit_ok_pong: "watch_inv s \<Longrightarrow> live s \<Longrightarrow> exit_ok (pong_check u ord s)"
  by (auto simp: pong_check_def Let_def exit_ok_live split: option.split
      intro!: exit_ok_end_session watch_inv_on tracks_goto)

lemma pos_watch_tick [simp]: "pos (watch_tick s) = pos s"
  by (simp add: watch_tick_def Let_def)

lemma live_watch_tick: "live s \<Longrightarrow> live (watch_tick s)"
  by (auto simp: watch_tick_def Let_def live_def)

lemma exit_ok_step:
  assumes "step s L t" "watch_inv s"
  shows "exit_ok t"
  using assms
proof (cases rule: step.cases)
  case (pong port n l ord u)
  then show ?thesis using assms(2) by (simp add: exit_ok_pong live_def)
next
  case watch
  then show ?thesis by (simp add: exit_ok_live live_watch_tick)
next
  case (wake_raced t a)
  then show ?thesis using assms(2) by (auto intro!: exit_ok_wake_dial watch_inv_on tracks_Suspend)
next
  case (wake_cancelled t)
  then show ?thesis using assms(2) watch_inv_saw_done [of s]
    by (auto simp: wake_cancelled_def exit_ok_stopped intro: exit_ok_terminal)
qed (use assms(2) in \<open>auto simp: exit_ok_stopped exit_ok_after_session exit_ok_end_session exit_ok_ping exit_ok_wake_dial
    resume_park_def enter_park_def clear_signal_def begin_session_def Let_def live_def case_prod_unfold
    intro!: exit_ok_pos exit_ok_live split: pc.splits\<close>)

text \<open>Why the supervisor may end: the operator cancelled, or the server refused the login, or banned the bot, or the
  watchdog paused it, or the machine was stopped before \<^verbatim>\<open>Run\<close>.\<close>

definition cause :: "Connector \<Rightarrow> Sup \<Rightarrow> bool" where
  "cause c s \<longleftrightarrow> ctx_done s \<or> up c = Stopped \<or>
     (\<exists>x\<in>set (hist s). snd x \<in> {DisconnectedAuthFailed, DisconnectedBanned, PausedIdle})"

definition caused :: "Connector \<Rightarrow> Sup \<Rightarrow> bool" where
  "caused c s \<longleftrightarrow> ((\<exists>x\<in>set (hist s). snd x = Stopped) \<longrightarrow> cause c s)"

text \<open>A step that only adds to the history, and one that in addition adds no \<^const>\<open>Stopped\<close> to it.\<close>

definition adds :: "Sup \<Rightarrow> Sup \<Rightarrow> bool" where
  "adds s t \<longleftrightarrow> (\<exists>h. hist t = hist s @ h) \<and> (ctx_done s \<longrightarrow> ctx_done t)"

definition calm :: "Sup \<Rightarrow> Sup \<Rightarrow> bool" where
  "calm s t \<longleftrightarrow> (\<exists>h. hist t = hist s @ h \<and> (\<forall>x\<in>set h. snd x \<noteq> Stopped)) \<and> (ctx_done s \<longrightarrow> ctx_done t)"

lemma calm_same [simp]: "hist t = hist s \<Longrightarrow> ctx_done t = ctx_done s \<Longrightarrow> calm s t"
  by (simp add: calm_def)

lemma calm_trans: "calm s t \<Longrightarrow> calm t u \<Longrightarrow> calm s u"
  by (auto simp: calm_def)

lemma cause_adds: "cause c s \<Longrightarrow> adds s t \<Longrightarrow> cause c t"
  by (auto simp: cause_def adds_def)

lemma calm_adds: "calm s t \<Longrightarrow> adds s t"
  by (auto simp: calm_def adds_def)

lemma caused_calm:
  assumes "caused c s" "calm s t"
  shows "caused c t"
  unfolding caused_def
proof
  assume "\<exists>x\<in>set (hist t). snd x = Stopped"
  moreover obtain h where "hist t = hist s @ h" "\<forall>x\<in>set h. snd x \<noteq> Stopped" using assms(2) by (auto simp: calm_def)
  ultimately have "\<exists>x\<in>set (hist s). snd x = Stopped" unfolding set_append bex_Un by (metis UnE set_append)
  then have "cause c s" using assms(1) by (simp add: caused_def)
  then show "cause c t" using calm_adds [OF assms(2)] by (rule cause_adds)
qed

lemma calm_end: "calm s t \<Longrightarrow> hist u = hist t \<Longrightarrow> ctx_done u = ctx_done t \<Longrightarrow> calm s u"
  by (simp add: calm_def)

lemma cause_caused: "cause c s \<Longrightarrow> caused c s"
  by (simp add: caused_def)

lemma hist_on_conn: "hist (on_conn f s) =
    hist s @ map (Pair (now s)) (drop (length (entered (machine (conn s)))) (entered (machine (f (conn s)))))"
  by (simp add: on_conn_def Let_def)

lemma adds_on_conn [simp]: "adds s (on_conn f s)"
  by (simp add: adds_def hist_on_conn)

lemma calm_on_conn: "unstopped (conn s) (f (conn s)) \<Longrightarrow> calm s (on_conn f s)"
  by (auto simp: calm_def hist_on_conn unstopped_def)

lemma machine_fold: "(\<And>x c. machine (f x c) = machine c) \<Longrightarrow> machine (fold f xs c) = machine c"
  by (induction xs arbitrary: c) simp_all

lemma unstopped_ops:
  "unstopped c (dispatchLine env l c)" "unstopped c (Suspend c)" "unstopped c (Resume c)" "unstopped c (ApplyNick n c)"
  "unstopped c (reclaim_tick p c)" "unstopped c (fst (SendRaw l c))" "unstopped c (ReconcileChannels ord desired c)"
  "of_socket e \<Longrightarrow> unstopped c (transitionFromError e c)"
proof -
  have m: "machine (fst (sock_write l c)) = machine c" for l c
    by (simp add: sock_write_def split: option.split nat.split)
  have "machine (dispatchLine env l c) = machine (dispatch_classify l (Parse l) c)" by (simp add: dispatchLine_def Let_def)
  moreover have "unstopped c (dispatch_classify l (Parse l) c)"
    by (auto simp: dispatch_classify_def split: option.split intro!: unstopped_goto
        dest: ClassifyDisconnectMessage_not_stopped ClassifyNumeric_not_stopped)
  ultimately show "unstopped c (dispatchLine env l c)" by (simp add: unstopped_def)
  have "unstopped c (goto DisconnectedByUser [] (c\<lparr>suspended := True\<rparr>))"
    by (rule unstopped_trans [OF unstopped_same unstopped_goto]) simp_all
  then show "unstopped c (Suspend c)" by (simp add: Suspend_def Let_def signalLifecycle_def unstopped_def m)
  show "unstopped c (Resume c)" by (simp add: Resume_def signalLifecycle_def)
  have p: "machine (SetPreferredNick m (setDesiredNick m c)) = machine c" for m
    by (simp add: SetPreferredNick_def Let_def run_nick_hook_def setDesiredNick_def)
  then show "unstopped c (ApplyNick n c)"
    by (auto simp: ApplyNick_def Let_def signalLifecycle_def split: UpstreamState.split)
  show "unstopped c (reclaim_tick p c)" by (simp add: reclaim_tick_def session_write_def m)
  have "machine (registerWebQuery l c) = machine c"
    by (simp add: registerWebQuery_def markWhoisRequested_def markWhoRequested_def Let_def)
  then show "unstopped c (fst (SendRaw l c))" by (simp add: SendRaw_def m)
  show "unstopped c (ReconcileChannels ord desired c)"
    unfolding ReconcileChannels_def Let_def
    by (rule unstopped_same) (simp add: machine_fold reconcile_part_def reconcile_join_def Let_def)
  show "of_socket e \<Longrightarrow> unstopped c (transitionFromError e c)"
    by (auto simp: transitionFromError_def of_socket_def ClassifyError_def split: option.split intro!: unstopped_goto)
qed

lemma cause_done: "caused c s \<Longrightarrow> watch_inv s \<Longrightarrow> run_done s \<Longrightarrow> cause c s"
proof -
  assume a: "caused c s" "watch_inv s" "run_done s"
  show "cause c s"
  proof (cases "ctx_done s")
    case True
    then show ?thesis by (simp add: cause_def)
  next
    case False
    then obtain x where "x \<in> set (hist s)" "IsTerminal (snd x)" using watch_inv_saw_done a by blast
    then show ?thesis using a(1) by (auto simp: IsTerminal_def caused_def cause_def)
  qed
qed

lemma caused_stopped: "cause c s \<Longrightarrow> caused c (exitStopped s)"
proof -
  assume "cause c s"
  then have "cause c (on_conn (goto Stopped []) s)" using cause_adds adds_on_conn by blast
  then show ?thesis by (simp add: exitStopped_def cause_def caused_def)
qed

lemma calm_terminal: "calm s (exitTerminal e s)"
  by (simp add: exitTerminal_def Let_def)

lemma calm_settle: "(\<And>x. e = Some x \<Longrightarrow> of_socket x) \<Longrightarrow> calm s (settle_error e s)"
  by (auto simp: settle_error_def split: option.split intro!: calm_on_conn unstopped_ops)

lemma caused_after_session:
  assumes "caused c s" "\<And>x. e = Some x \<Longrightarrow> of_socket x"
  shows "caused c (after_session u e s)"
proof (cases "ctx_done s")
  case True
  then show ?thesis using caused_stopped by (simp add: after_session_def cause_def)
next
  case False
  let ?t = "settle_error e s"
  let ?r = "(case sessionStart ?t of None \<Rightarrow> ?t
     | Some t \<Rightarrow> if now ?t - t \<ge> sessionStableWindow then ?t\<lparr>backoff := Reset (backoff ?t)\<rparr> else ?t)\<lparr>sessionStart := None\<rparr>"
  have t: "caused c ?t" using caused_calm [OF assms(1) calm_settle] assms(2) by blast
  have r: "hist ?r = hist ?t" "ctx_done ?r = ctx_done ?t" by (simp_all split: option.split)
  have "calm ?t ((fst (reconnectDelay u ?r))\<lparr>pos := p\<rparr>)" for p
    using r by (intro calm_same) (simp_all del: Sup.update_convs)
  then have "caused c ((fst (reconnectDelay u ?r))\<lparr>pos := p\<rparr>)" for p using caused_calm [OF t] by blast
  moreover have "caused c (exitTerminal e ?t)" "caused c (?t\<lparr>pos := AtTop\<rparr>)"
    using caused_calm [OF t] calm_terminal by simp_all
  ultimately show ?thesis
    using False by (simp add: after_session_def Let_def case_prod_unfold)
qed

lemma caused_end_session:
  "caused c s \<Longrightarrow> (\<And>x. e = Some x \<Longrightarrow> of_socket x) \<Longrightarrow> caused c (end_session u e s)"
  unfolding end_session_def
  by (rule caused_after_session [OF caused_calm [where s = s]]) simp_all

lemma caused_dial:
  assumes "caused c s" "watch_inv s"
  shows "caused c (snd (dial a s))"
proof (cases "cancelled a")
  case True
  show ?thesis
  proof (cases "run_done s")
    case True
    have "adds s (snd (dial a s))" by (simp add: dial_def adds_def hist_on_conn)
    from cause_adds [OF cause_done [OF assms True] this] show ?thesis by (rule cause_caused)
  next
    case False
    then show ?thesis using \<open>cancelled a\<close> by (simp add: dial_def caused_def cause_def)
  qed
next
  case False
  then have "calm s (on_conn (\<lambda>c. snd (bringUp a c)) s)" by (intro calm_on_conn unstopped_bringUp)
  then have "calm s (snd (dial a s))" using False by (simp add: dial_def calm_def hist_on_conn)
  then show ?thesis by (rule caused_calm [OF assms(1)])
qed

lemma caused_wake_dial: "caused c s \<Longrightarrow> watch_inv s \<Longrightarrow> caused c (wake_dial a s)"
proof -
  assume s: "caused c s" "watch_inv s"
  obtain r t where d: "dial a s = (r, t)" by fastforce
  with caused_dial [OF s, of a] have t: "caused c t" by simp
  have "caused c (t\<lparr>pos := p\<rparr>)" "caused c (t\<lparr>pos := p, sessionStart := q\<rparr>)" for p q
    by (rule caused_calm [OF t], simp)+
  moreover have "ctx_done t \<Longrightarrow> caused c (exitStopped t)" by (rule caused_stopped) (simp add: cause_def)
  ultimately show ?thesis using d caused_calm [OF t calm_terminal]
    by (simp add: wake_dial_def split: option.split)
qed

lemma of_socket_wrap [simp]: "of_socket (wrap l e) = of_socket e" "of_socket (errorf x)" "of_socket (NetError, x)"
  by (simp_all add: of_socket_def wrap_def errorf_def)

lemma caused_ping:
  assumes "caused c s" "of_socket (write_err (conn s))"
  shows "caused c (ping_tick u p n s)"
proof -
  let ?tok = "ping_token (Suc n)"
  let ?s = "s\<lparr>pos := InSession p (Suc n),
      conn := (conn s)\<lparr>pingLedgerRef := map_option (ledger_Add ?tok (now s)) (pingLedgerRef (conn s))\<rparr>\<rparr>"
  obtain d r where w: "session_write p (CmdPing @ '' :'' @ ?tok) (conn ?s) = (d, r)" by fastforce
  have "of_socket e" if "r = Some e" for e
    using w that assms(2)
    by (auto simp: session_write_def sock_write_def of_socket_def split: if_splits option.splits nat.splits)
  moreover have "caused c (?s\<lparr>conn := d\<rparr>)" by (rule caused_calm [OF assms(1)]) simp
  moreover have "of_socket x"
    if "r = Some e" "(if run_done s then None else Some (wrap ''irc client ping'' e)) = Some x" for e x
    using calculation(1) [OF that(1)] that(2) by (metis of_socket_wrap(1) option.distinct(1) option.inject)
  ultimately have "caused c (?s\<lparr>conn := d\<rparr>)"
    "\<And>e. r = Some e \<Longrightarrow> caused c (end_session u (if run_done s then None else Some (wrap ''irc client ping'' e)) (?s\<lparr>conn := d\<rparr>))"
    by (blast intro: caused_end_session)+
  then show ?thesis using w
    by (cases r) (simp_all add: ping_tick_def Let_def)
qed

lemma caused_pong: "caused c s \<Longrightarrow> caused c (pong_check u ord s)"
proof -
  assume s: "caused c s"
  have "caused c (on_conn (goto DisconnectedTransient r) s)" for r
    by (rule caused_calm [OF s calm_on_conn]) simp
  then have "caused c (end_session u (Some (NetError, x)) (on_conn (goto DisconnectedTransient r) s))" for x r
    by (rule caused_end_session) auto
  with s show ?thesis by (simp add: pong_check_def Let_def split: option.split)
qed

lemma calm_tick: "calm s (watch_tick s)"
proof -
  have p: "calm t (on_conn (goto PausedIdle r) t)" for t r by (rule calm_on_conn) simp
  have "calm s ((on_conn (goto PausedIdle r) (s\<lparr>warned := w, warnings := ws\<rparr>))\<lparr>wd_on := False\<rparr>)" for r w ws
    by (rule calm_end [OF calm_trans [OF calm_same p [of "s\<lparr>warned := w, warnings := ws\<rparr>" r]]]) simp_all
  moreover have "calm s ((on_conn (goto PausedIdle r) s)\<lparr>wd_on := False\<rparr>)" for r
    by (rule calm_end [OF p [of s r]]) simp_all
  ultimately show ?thesis by (simp add: watch_tick_def Let_def)
qed

lemma caused_step: "step s L t \<Longrightarrow> watch_inv s \<Longrightarrow> caused c s \<Longrightarrow> caused c t"
proof (induction rule: step.induct)
  case (enter_park s)
  have "calm s (enter_park s)" unfolding enter_park_def Let_def
    by (rule calm_trans [OF _ calm_same]) (auto intro: calm_on_conn)
  then show ?case by (rule caused_calm [OF enter_park.prems(2)])
next
  case (park_cancelled s n)
  then show ?case using cause_done caused_stopped by blast
next
  case (park_resume s n a by_signal)
  have "caused c ((if by_signal then clear_signal s else s)\<lparr>backoff := b\<rparr>)" for b
    by (rule caused_calm [OF park_resume.prems(2)]) (simp add: clear_signal_def)
  moreover have "watch_inv ((if by_signal then clear_signal s else s)\<lparr>backoff := b\<rparr>)" for b
    by (rule watch_inv_same [OF park_resume.prems(1)]) (auto simp: clear_signal_def)
  ultimately have "caused c (snd (dial a ((if by_signal then clear_signal s else s)\<lparr>backoff := b\<rparr>)))" for b
    by (rule caused_dial)
  from this [of "Reset (backoff (if by_signal then clear_signal s else s))"] show ?case
    unfolding resume_park_def Let_def case_prod_unfold by (rule caused_calm) simp
next
  case (read_error s port n timeout e u)
  have "of_socket x" if "read_failed timeout e s = Some x" for x
    using that read_error(3) by (auto simp: read_failed_def Let_def split: if_splits)
  then show ?case using read_error.prems(2) by (intro caused_end_session)
next
  case (no_session s u)
  have "of_socket no_client" by (simp add: no_client_def)
  then show ?case using no_session.prems(2) caused_after_session by (metis option.inject)
next
  case (wake_raced s w a)
  have "calm s (on_conn Suspend s)" by (rule calm_on_conn) (rule unstopped_ops)
  moreover have "watch_inv (on_conn Suspend s)" using wake_raced.prems(1) by (intro watch_inv_on tracks_Suspend)
  ultimately show ?case using caused_wake_dial caused_calm [OF wake_raced.prems(2)] by blast
next
  case (wake_cancelled s w)
  show ?case
  proof (cases "ctx_done s")
    case True
    then show ?thesis using caused_stopped by (simp add: Supervisor.wake_cancelled_def cause_def)
  next
    case False
    then show ?thesis using caused_calm [OF wake_cancelled.prems(2) calm_terminal] by (simp add: Supervisor.wake_cancelled_def)
  qed
next
  case (cancel s)
  then show ?case by (simp add: caused_def cause_def)
next
  case (line s port n env l)
  then show ?case using caused_calm calm_on_conn unstopped_ops(1) by blast
next
  case (reclaim s port n)
  then show ?case using caused_calm calm_on_conn unstopped_ops(5) by blast
next
  case (user_suspend s)
  then show ?case using caused_calm calm_on_conn unstopped_ops(2) by blast
next
  case (user_resume s)
  then show ?case using caused_calm calm_on_conn unstopped_ops(3) by blast
next
  case (user_nick s nick)
  then show ?case using caused_calm calm_on_conn unstopped_ops(4) by blast
next
  case (user_send s l)
  show ?case by (rule caused_calm [OF user_send.prems(2) calm_on_conn]) (rule unstopped_ops(6))
next
  case (user_reconcile s ord desired)
  then show ?case using caused_calm calm_on_conn unstopped_ops(7) by blast
next
  case (watch s)
  then show ?case using caused_calm calm_tick by blast
qed (auto simp: caused_wake_dial caused_ping caused_pong begin_session_def clear_signal_def elim!: caused_calm)

lemma reachable_caused: "reachable c s \<Longrightarrow> caused c s"
proof (induction rule: reachable.induct)
  case start
  then show ?case by (simp add: caused_def cause_def run_start_def)
next
  case (next_step s L t)
  then show ?case using caused_step reachable_watch_inv by blast
qed

text \<open>C4: how the supervisor ends, whatever the server, the user and the watchdog did and in whatever order (a connect
  cycle counts as one step). It returns without an error only with the machine stopped. And it returns at all only if
  the operator cancelled, the server refused the login or banned the bot, the watchdog paused it, or the machine was
  stopped before it began: no sequence of lost connections and failed connect cycles, however long, ends it.\<close>

theorem run_result:
  assumes "reachable c s" "pos s = Returned r"
  shows "(r = None \<longrightarrow> upc s = Stopped) \<and>
    (ctx_done s \<or> up c = Stopped \<or>
     (\<exists>x\<in>set (hist s). snd x \<in> {DisconnectedAuthFailed, DisconnectedBanned, PausedIdle}))"
proof -
  note inv = reachable_watch_inv [OF assms(1)]
  from assms have ok: "exit_ok s"
  proof (cases rule: reachable.cases)
    case start
    then show ?thesis by (intro exit_ok_live) (auto simp: live_def run_start_def)
  next
    case (next_step s' L)
    then show ?thesis using exit_ok_step reachable_watch_inv by blast
  qed
  then have none: "r = None \<Longrightarrow> upc s = Stopped" using assms(2) by (simp add: exit_ok_def)
  have "\<exists>x\<in>set (hist s). IsTerminal (snd x)"
  proof (cases r)
    case None
    then show ?thesis using none watch_inv_saw [OF inv] by (simp add: IsTerminal_def)
  qed (use ok assms(2) in \<open>simp add: exit_ok_def\<close>)
  then have "cause c s" using reachable_caused [OF assms(1)] by (auto simp: IsTerminal_def caused_def cause_def)
  with none show ?thesis by (simp add: cause_def)
qed

definition sample_conn :: Connector where
  "sample_conn = goto Registered [] ((NewConnector sample_settings True 0)\<lparr>client := Some 40000, desiredNick := ''bot''\<rparr>)"

lemma sample_start: "reachable sample_conn (run_start sample_conn)"
proof -
  have "client sample_conn = Some 40000" by code_simp
  then show ?thesis by (intro reachable.start) simp
qed

lemma sample_session: "reachable sample_conn (begin_session 40000 (run_start sample_conn))"
proof -
  have "\<not> shouldPark (conn (run_start sample_conn))" "client (conn (run_start sample_conn)) = Some 40000"
    "pos (run_start sample_conn) = AtTop" by code_simp+
  from reachable.next_step [OF sample_start step.session [OF this(3,1,2)]] show ?thesis .
qed

theorem run_result_witness:
  "upc (end_session 0 None
     ((begin_session 40000 (run_start sample_conn))\<lparr>ctx_done := True, run_done := True\<rparr>)) = Stopped"
  (is "upc (end_session _ _ ?t) = _")
proof -
  let ?s = "begin_session 40000 (run_start sample_conn)"
  have "live ?s" by (simp add: live_def begin_session_def)
  from reachable.next_step [OF sample_session step.cancel [OF this]] have t: "reachable sample_conn ?t" .
  have "pos ?t = InSession 40000 0" by (simp add: begin_session_def)
  from step.read_error [OF this, where timeout = False and u = 0 and e = "(NetClosed, ''x'')"]
  have "step ?t (SessionEnd None) (end_session 0 None ?t)" by (simp add: read_failed_def of_socket_def)
  from reachable.next_step [OF t this] have "reachable sample_conn (end_session 0 None ?t)" .
  moreover have "pos (end_session 0 None ?t) = Returned None" by (simp add: end_session_def after_session_def exitStopped_def)
  ultimately show ?thesis using run_result by blast
qed

section \<open>Suspended\<close>

named_theorems silents "steps that write nothing without a client"

lemma silent_plumbing [silents]:
  "wire (publish t fs c) = wire c" "wire (publishServerNotice k x c) = wire c" "wire (call_bouncer b c) = wire c"
  "wire (run_nick_hook c) = wire c" "wire (setDesiredNick n c) = wire c" "wire (setCurrentNick n c) = wire c"
  "wire (SetPreferredNick n c) = wire c"
  "client c = None \<Longrightarrow> send_if_connected l c = c" "client c = None \<Longrightarrow> respondPong m c = c"
  by (simp_all add: publish_def publishServerNotice_def send_if_connected_def call_bouncer_def respondPong_def Let_def
      run_nick_hook_def setDesiredNick_def setCurrentNick_def SetPreferredNick_def)

lemma silent_publish_all [silents]: "wire (fold (\<lambda>x. publish t (f x)) xs c) = wire c"
  by (induction xs arbitrary: c) (simp_all add: silents)

lemma silent_handlers [silents]:
  "wire (handlePong m c) = wire c" "wire (handleJoin m c) = wire c" "wire (handlePart m c) = wire c"
  "wire (handleQuit env m c) = wire c" "wire (handleKick m c) = wire c" "wire (handleNickChange m c) = wire c"
  "wire (handleTopic m c) = wire c" "wire (handleJoinFailure m c) = wire c" "wire (handleMode m c) = wire c"
  "wire (handleEndOfNames env m c) = wire c" "wire (handleNotice m c) = wire c" "wire (handleWhoisNumeric m c) = wire c"
  "wire (handleWhoisNoSuchNick x r c) = wire c" "wire (handleListNumeric m c) = wire c" "wire (handleWhoNumeric m c) = wire c"
  by (simp_all add: handlePong_def handleJoin_def handlePart_def handleQuit_def handleKick_def
      handleNickChange_def handleTopic_def handleJoinFailure_def handleMode_def handleEndOfNames_def handleNotice_def
      handleWhoisNumeric_def handleWhoisNoSuchNick_def handleListNumeric_def handleWhoNumeric_def publishWhoisResult_def
      Let_def silents split: option.split prod.split)

lemma silent_privmsg [silents]: "client c = None \<Longrightarrow> wire (handlePrivmsg env m l c) = wire c"
  by (simp add: handlePrivmsg_def Let_def split: option.split prod.split)

lemma silent_around [silents]:
  "wire (dispatch_classify l m c) = wire c" "wire (learn_identity m c) = wire c"
  "client (dispatch_classify l m c) = client c" "client (learn_identity m c) = client c"
  by (simp_all add: dispatch_classify_def learn_identity_def silents split: option.split prod.split)

lemma silent_if: "wire x = wire c \<Longrightarrow> wire y = wire c \<Longrightarrow> wire (if P then x else y) = wire c"
  by simp

lemma silent_command: "client c = None \<Longrightarrow> wire (handle_command env line msg c) = wire c"
  unfolding handle_command_def Let_def by (intro silent_if) (simp_all add: silents)

lemma silent_dispatch: "client c = None \<Longrightarrow> wire (dispatchLine env line c) = wire c"
  unfolding dispatchLine_def Let_def by (subst silent_command) (simp_all add: silents)

text \<open>The connector is off the network and nothing has been written since it held \<open>w\<close>.\<close>

definition quiet :: "string list \<Rightarrow> Connector \<Rightarrow> bool" where
  "quiet w c \<longleftrightarrow> suspended c \<and> client c = None \<and> wire c = w"

lemma quiet_outer: "quiet w c \<Longrightarrow> outer d = outer c \<Longrightarrow> wire d = wire c \<Longrightarrow> quiet w d"
  by (simp add: quiet_def outer_def)

lemma quiet_goto [simp]: "quiet w (goto st r c) = quiet w c"
  by (simp add: quiet_def)

lemma quiet_dispatch: "quiet w c \<Longrightarrow> quiet w (dispatchLine env l c)"
  by (rule quiet_outer [OF _ outer_dispatch]) (auto simp: quiet_def intro: silent_dispatch)

lemma quiet_Suspend: "quiet w c \<Longrightarrow> quiet w (Suspend c)"
  by (simp add: quiet_def Suspend_def)

lemma quiet_ApplyNick: "quiet w c \<Longrightarrow> quiet w (ApplyNick n c)"
proof -
  assume q: "quiet w c"
  have "quiet w (SetPreferredNick m (setDesiredNick m c))" for m
    using q by (simp add: quiet_def SetPreferredNick_def setDesiredNick_def run_nick_hook_def Let_def)
  then show ?thesis using q
    by (auto simp: ApplyNick_def Let_def signalLifecycle_def quiet_def send_if_connected_def split: UpstreamState.split)
qed

lemma quiet_SendRaw: "quiet w c \<Longrightarrow> quiet w (fst (SendRaw l c))"
  by (simp add: quiet_def SendRaw_def)

lemma quiet_fold: "(\<And>x c. quiet w c \<Longrightarrow> quiet w (f x c)) \<Longrightarrow> quiet w c \<Longrightarrow> quiet w (fold f xs c)"
  by (induction xs arbitrary: c) auto

lemma quiet_Reconcile: "quiet w c \<Longrightarrow> quiet w (ReconcileChannels ord desired c)"
  unfolding ReconcileChannels_def Let_def
  by (intro quiet_fold) (auto simp: quiet_def reconcile_part_def reconcile_join_def send_if_connected_def Let_def)

lemma quiet_reclaim: "quiet w c \<Longrightarrow> quiet w (reclaim_tick p c)"
  by (simp add: quiet_def reclaim_tick_def session_write_def)

lemma quiet_settle: "quiet w (conn s) \<Longrightarrow> quiet w (conn (settle_error e s))"
  by (simp add: settle_error_def transitionFromError_def split: option.split)

lemma quiet_after_session: "quiet w (conn s) \<Longrightarrow> quiet w (conn (after_session u e s))"
  using quiet_settle [of w s e]
  by (simp add: after_session_def exitStopped_def exitTerminal_def Let_def shouldPark_def quiet_def)

lemma quiet_end_session: "quiet w (conn s) \<Longrightarrow> quiet w (conn (end_session u e s))"
  unfolding end_session_def by (intro quiet_after_session) (simp add: quiet_def)

lemma quiet_ping: "quiet w (conn s) \<Longrightarrow> quiet w (conn (ping_tick u p n s))"
  by (auto simp: ping_tick_def session_write_def quiet_def Let_def intro!: quiet_end_session [unfolded quiet_def])

lemma quiet_pong: "quiet w (conn s) \<Longrightarrow> quiet w (conn (pong_check u ord s))"
  by (auto simp: pong_check_def Let_def intro!: quiet_end_session split: option.split)

lemma quiet_step:
  assumes "step s L t" "quiet w (conn s)" "L \<noteq> UserResume"
  shows "quiet w (conn t)"
proof -
  have "\<not> shouldPark (conn s) \<Longrightarrow> False" "\<not> stillParked n (conn s) \<Longrightarrow> False" for n
    using assms(2) by (auto simp: quiet_def shouldPark_def stillParked_def)
  with assms show ?thesis
    by (cases rule: step.cases)
      (auto simp: exitStopped_def exitTerminal_def enter_park_def clear_signal_def begin_session_def wake_cancelled_def
        watch_tick_def Let_def quiet_dispatch quiet_Suspend quiet_ApplyNick quiet_SendRaw quiet_Reconcile quiet_reclaim
        quiet_end_session quiet_ping quiet_pong, auto simp: quiet_def)
qed

text \<open>A run: the steps taken, in order.\<close>

inductive steps :: "Sup \<Rightarrow> label list \<Rightarrow> Sup \<Rightarrow> bool" where
  none: "steps s [] s"
| more: "step s L t \<Longrightarrow> steps t Ls u \<Longrightarrow> steps s (L # Ls) u"

text \<open>A user disconnect is silent and lasts, when no connect cycle is under way. From the moment the connector is
  suspended without a client, no step of any goroutine dials, writes a byte to the network or clears the suspension,
  until \<open>Resume\<close>. (A cycle is one step here; one that is under way when the suspension comes goes on to dial and
  register, see \<open>raced_suspend_stays_online\<close>.)\<close>

theorem suspended_is_silent:
  assumes "steps s Ls t" "suspended (conn s)" "client (conn s) = None" "UserResume \<notin> set Ls"
  shows "suspended (conn t) \<and> client (conn t) = None \<and> wire (conn t) = wire (conn s)"
proof -
  have "quiet w (conn s) \<Longrightarrow> UserResume \<notin> set Ls \<Longrightarrow> quiet w (conn t)" for w
    using assms(1) by (induction rule: steps.induct) (auto dest: quiet_step)
  from this [of "wire (conn s)"] assms(2-4) show ?thesis by (simp add: quiet_def)
qed

section \<open>The watchdog\<close>

text \<open>The escalation watchdog pauses the connector exactly when it has been out of service for the pause
  window without interruption, counting from the first state of the outage whatever reconnect attempts came
  in between; and it warns when the warn window has passed, unless it already did since it last saw the
  connector in service.\<close>

theorem watchdog_exact:
  assumes "reachable c s" "wd_on s" "\<not> IsTerminal (upc s)"
  shows "(upc (watch_tick s) = PausedIdle) =
      (UpstreamPauseAfter (settings (conn s)) > 0 \<and>
       (\<exists>t. outage_of (hist s) = Some t \<and> now s - t \<ge> UpstreamPauseAfter (settings (conn s)))) \<and>
    warnings (watch_tick s) = warnings s @
      (case outage_of (hist s) of
         None \<Rightarrow> []
       | Some t \<Rightarrow> if \<not> warned s \<and> UpstreamWarnAfter (settings (conn s)) > 0 \<and> now s - t \<ge> UpstreamWarnAfter (settings (conn s))
                   then [(serverReason (machine (conn s)), now s - t)] else [])"
proof -
  have o: "outageSince s = outage_of (hist s)" using reachable_watch_inv [OF assms(1)] assms(2) by (simp add: watch_inv_def)
  have n: "upc s \<noteq> PausedIdle" using assms(3) by (auto simp: IsTerminal_def)
  show ?thesis
  proof (cases "outage_of (hist s)")
    case None
    then show ?thesis using o n assms(3) by (simp add: watch_tick_def)
  next
    case (Some t)
    then show ?thesis using o n assms(3) by (auto simp: watch_tick_def Let_def)
  qed
qed

section \<open>Patience\<close>

lemma Next_idx: "idx (fst (Next u b)) \<ge> idx b"
  by (simp add: Next_shape)

lemma reconnectDelay_backoff: "backoff (fst (reconnectDelay u s)) = fst (Next u (backoff s))"
  by (simp add: reconnectDelay_def Let_def split: prod.split)

lemma reconnectDelay_floor:
  "reconnectFloor (conn s) > 0 \<Longrightarrow> snd (reconnectDelay u s) \<ge> reconnectFloor (conn s)"
  by (simp add: reconnectDelay_def Let_def split: prod.split)

definition stable :: "Sup \<Rightarrow> bool" where
  "stable s \<longleftrightarrow> (\<exists>t. sessionStart s = Some t \<and> now s - t \<ge> sessionStableWindow)"

definition patient :: "Sup \<Rightarrow> Sup \<Rightarrow> bool" where
  "patient s t \<longleftrightarrow>
     (idx (backoff t) < idx (backoff s) \<longrightarrow> stable s) \<and>
     (\<forall>w. pos t = Sleeping w \<and> reconnectFloor (conn t) > 0 \<longrightarrow> w \<ge> now t + reconnectFloor (conn t))"

lemma patient_same: "backoff t = backoff s \<Longrightarrow> \<forall>w. pos t \<noteq> Sleeping w \<Longrightarrow> patient s t"
  by (simp add: patient_def)

lemma settle_fields [simp]:
  "backoff (settle_error e s) = backoff s" "sessionStart (settle_error e s) = sessionStart s"
  "now (settle_error e s) = now s"
  using tracks_transitionFromError
  by (auto simp: settle_error_def tracks_def split: option.split)

lemma patient_sleep:
  assumes "\<not> stable s \<Longrightarrow> idx (backoff r) = idx (backoff s)"
  shows "patient s ((fst (reconnectDelay u r))\<lparr>pos := Sleeping (now (fst (reconnectDelay u r)) + snd (reconnectDelay u r))\<rparr>)"
proof (cases "stable s")
  case True
  then show ?thesis using reconnectDelay_floor [of r u] by (simp add: patient_def)
next
  case False
  then show ?thesis using reconnectDelay_floor [of r u] Next_idx [of "backoff r" u] assms
    by (simp add: patient_def reconnectDelay_backoff)
qed

lemma patient_after_session: "patient s (after_session u e s)"
proof -
  let ?t = "settle_error e s"
  let ?r = "(case sessionStart ?t of None \<Rightarrow> ?t
     | Some t \<Rightarrow> if now ?t - t \<ge> sessionStableWindow then ?t\<lparr>backoff := Reset (backoff ?t)\<rparr> else ?t)\<lparr>sessionStart := None\<rparr>"
  have "patient s ((fst (reconnectDelay u ?r))\<lparr>pos := Sleeping (now (fst (reconnectDelay u ?r)) + snd (reconnectDelay u ?r))\<rparr>)"
    by (rule patient_sleep) (auto simp: stable_def Reset_def split: option.split)
  moreover have "patient s (exitStopped s)" "patient s (exitTerminal e ?t)" "patient s (?t\<lparr>pos := AtTop\<rparr>)"
    by (simp_all add: patient_same exitStopped_def exitTerminal_def Let_def)
  ultimately show ?thesis
    unfolding after_session_def Let_def case_prod_unfold by simp
qed

lemma patient_end_session: "patient s (end_session u e s)"
  using patient_after_session [of "s\<lparr>conn := (conn s)\<lparr>pingLedgerRef := None\<rparr>\<rparr>" u e]
  by (simp add: end_session_def patient_def stable_def)

lemma dial_backoff [simp]: "backoff (snd (dial a s)) = backoff s"
  by (simp add: dial_def)

lemma patient_wake_dial: "patient s (wake_dial a s)"
proof -
  obtain r t where d: "dial a s = (r, t)" by fastforce
  then have "backoff t = backoff s" using dial_backoff [of a s] by simp
  then show ?thesis using d
    by (auto simp: wake_dial_def exitTerminal_def exitStopped_def Let_def split: option.split intro!: patient_same)
qed

lemma patient_ping:
  assumes "watch_inv s"
  shows "patient s (ping_tick u p n s)"
proof (rule ping_tick_cases [OF assms, of u p n])
  fix s'
  assume "backoff s' = backoff s" "sessionStart s' = sessionStart s" "now s' = now s"
    "ping_tick u p n s = s' \<and> pos s' = InSession p (Suc n) \<or> (\<exists>e. ping_tick u p n s = end_session u e s')"
  then show ?thesis using patient_end_session [of s' u]
    by (auto simp: patient_def stable_def)
qed

lemma patient_pong: "pos s = InSession p n \<Longrightarrow> patient s (pong_check u ord s)"
proof -
  assume p: "pos s = InSession p n"
  have "patient s (end_session u e (on_conn (goto DisconnectedTransient r) s))" for e r
    using patient_end_session [of "on_conn (goto DisconnectedTransient r) s" u e] tracks_goto [of "conn s"]
    by (simp add: patient_def stable_def tracks_def)
  with p show ?thesis by (auto simp: pong_check_def Let_def intro: patient_same split: option.split)
qed

text \<open>C36: the supervisor never hammers the network. The position in the backoff schedule only moves back when the
  session that ended ran for the stable window, or when the user deliberately resumed a parked connector; a sleep is
  armed for at least the configured reconnect floor; and it is left before its time only on a signal of the user
  (suspend, resume, a new nick) or when the run is over.\<close>

theorem backoff_patience:
  assumes "reachable c s" "step s L t"
  shows "(idx (backoff t) < idx (backoff s) \<longrightarrow>
      (\<exists>w. sessionStart s = Some w \<and> now s - w \<ge> 30 * second) \<or> (\<exists>a n. L = Dial a \<and> pos s = Parked n)) \<and>
    (\<forall>w. pos t = Sleeping w \<and> (\<forall>w'. pos s \<noteq> Sleeping w') \<and> reconnectFloor (conn t) > 0 \<longrightarrow>
       w \<ge> now t + reconnectFloor (conn t)) \<and>
    (\<forall>w. pos s = Sleeping w \<and> pos t \<noteq> Sleeping w \<and> now s < w \<longrightarrow>
       L = WakeSignal \<and> lifecycleCh (conn s) \<or> L = WakeCancelled \<and> run_done s)"
proof -
  have inv: "watch_inv s" by (rule reachable_watch_inv [OF assms(1)])
  have early: "L = WakeSignal \<and> lifecycleCh (conn s) \<or> L = WakeCancelled \<and> run_done s"
    if "pos s = Sleeping w" "pos t \<noteq> Sleeping w" "now s < w" for w
    using assms(2) that by (cases rule: step.cases) auto
  have "patient s t \<or> (\<exists>a n. L = Dial a \<and> pos s = Parked n \<and> pos t = AtTop) \<or> (\<exists>w. pos s = Sleeping w \<and> backoff t = backoff s)"
    using assms(2)
  proof (cases rule: step.cases)
    case (wake_raced w a)
    then show ?thesis using patient_wake_dial [of "on_conn Suspend s" a] tracks_Suspend [of "conn s"]
      by (simp add: patient_def stable_def tracks_def)
  next
    case (watch)
    show ?thesis
    proof (cases "\<exists>w. pos s = Sleeping w")
      case False
      then show ?thesis using watch by (auto simp: watch_tick_def Let_def intro!: patient_same)
    qed (use watch in \<open>auto simp: watch_tick_def Let_def\<close>)
  qed (auto simp: exitStopped_def enter_park_def clear_signal_def resume_park_def begin_session_def Let_def case_prod_unfold
      wake_cancelled_def exitTerminal_def patient_after_session patient_end_session patient_ping [OF inv] patient_pong patient_wake_dial
      intro: patient_same)
  then show ?thesis using early by (auto simp: patient_def stable_def sessionStableWindow_def)
qed

definition floored :: Connector where
  "floored = sample_conn\<lparr>reconnectFloor := 90 * second\<rparr>"

theorem backoff_patience_witness:
  "now (end_session 0 (Some (wrap ''irc read'' (Eof, ''EOF''))) (begin_session 40000 (run_start floored))) + 90 * second
     \<le> 90000000000"
proof -
  let ?s = "begin_session 40000 (run_start floored)"
  let ?t = "end_session 0 (Some (wrap ''irc read'' (Eof, ''EOF''))) ?s"
  have c: "client floored = Some 40000" by code_simp
  have "\<not> shouldPark (conn (run_start floored))" by code_simp
  then have "step (run_start floored) BeginSession ?s"
    by (intro step.session) (simp_all add: run_start_def c)
  with reachable.next_step [OF reachable.start] have s: "reachable floored ?s" using c by blast
  have p: "pos ?s = InSession 40000 0" by (simp add: begin_session_def)
  have r: "read_failed False (Eof, ''EOF'') ?s = Some (wrap ''irc read'' (Eof, ''EOF''))"
    by (simp add: read_failed_def begin_session_def run_start_def)
  have "step ?s (SessionEnd (Some (wrap ''irc read'' (Eof, ''EOF'')))) ?t"
    using step.read_error [OF p, where timeout = False and u = 0 and e = "(Eof, ''EOF'')"] unfolding r
    by (simp add: of_socket_def)
  from backoff_patience [OF s this]
  have P: "pos ?t = Sleeping w \<Longrightarrow> reconnectFloor (conn ?t) > 0 \<Longrightarrow> w \<ge> now ?t + reconnectFloor (conn ?t)" for w
    using p by simp
  have t: "pos ?t = Sleeping 90000000000" "reconnectFloor (conn ?t) = 90 * second" by code_simp+
  have "(90::int) * second > 0" by (simp add: second_def)
  with P [OF t(1)] show ?thesis unfolding t(2) by blast
qed

section \<open>The pong watchdog\<close>

text \<open>The pong watchdog fails the session exactly when some PING has gone unanswered for longer than the pong
  timeout, names the age of the oldest one, and otherwise changes nothing.\<close>

theorem pong_exact:
  assumes "pingLedgerRef (conn s) = Some l" "set ord = dom l"
  shows "((\<forall>k t. l k = Some t \<longrightarrow> now s - t \<le> PongTimeout (settings (conn s))) \<longrightarrow> pong_check u ord s = s) \<and>
    (l k = Some t \<and> now s - t > PongTimeout (settings (conn s)) \<longrightarrow>
       (\<exists>k' t'. l k' = Some t' \<and> now s - t' \<ge> now s - t \<and>
          pong_check u ord s =
            end_session u (Some (NetError, ''irc pong timeout: outstanding for '' @ duration_str (now s - t')))
              (on_conn (goto DisconnectedTransient (''no PONG for '' @ duration_str (PongTimeout (settings (conn s))))) s)))"
proof (cases ord)
  case Nil
  then have "l = Map.empty" using assms(2) by (metis dom_eq_empty_conv empty_set)
  then show ?thesis using assms(1) Nil by (simp add: pong_check_def Oldest_def)
next
  case (Cons a as)
  have some: "\<forall>k\<in>set ord. l k \<noteq> None" using assms(2) by auto
  obtain b where b: "l a = Some b" using some Cons by auto
  let ?m = "Min (the ` l ` set ord)"
  have "Oldest ord l = Some (oldest_loop l as b False)" using Cons b by (simp add: Oldest_def)
  moreover have "oldest_loop l as b False = ?m"
    using oldest_loop_min [of as l b] some Cons b by simp
  ultimately have o: "Oldest ord l = Some ?m" by simp
  have fin: "finite (the ` l ` set ord)" "the ` l ` set ord \<noteq> {}" using Cons by simp_all
  obtain k0 where k0: "k0 \<in> set ord" "?m = the (l k0)" using Min_in [OF fin] by auto
  then have m: "l k0 = Some ?m" using some by auto
  have le: "?m \<le> t'" if "l k' = Some t'" for k' t'
  proof -
    have "k' \<in> set ord" using that assms(2) by (simp add: domI)
    then have "t' \<in> the ` l ` set ord" using that by force
    then show ?thesis by (rule Min_le [OF fin(1)])
  qed
  show ?thesis
  proof (intro conjI impI)
    show "pong_check u ord s = s" if "\<forall>k t. l k = Some t \<longrightarrow> now s - t \<le> PongTimeout (settings (conn s))"
      using that m o assms(1) by (simp add: pong_check_def Let_def)
  next
    assume t: "l k = Some t \<and> now s - t > PongTimeout (settings (conn s))"
    have "?m \<le> t" using t le by blast
    with t have "\<not> now s - ?m \<le> PongTimeout (settings (conn s))" by linarith
    then have "pong_check u ord s =
        end_session u (Some (NetError, ''irc pong timeout: outstanding for '' @ duration_str (now s - ?m)))
          (on_conn (goto DisconnectedTransient (''no PONG for '' @ duration_str (PongTimeout (settings (conn s))))) s)"
      using o assms(1) by (simp add: pong_check_def Let_def)
    with m \<open>?m \<le> t\<close> show "\<exists>k' t'. l k' = Some t' \<and> now s - t' \<ge> now s - t \<and> pong_check u ord s =
            end_session u (Some (NetError, ''irc pong timeout: outstanding for '' @ duration_str (now s - t')))
              (on_conn (goto DisconnectedTransient (''no PONG for '' @ duration_str (PongTimeout (settings (conn s))))) s)"
      by (intro exI [of _ k0] exI [of _ ?m]) simp
  qed
qed

section \<open>Races\<close>

text \<open>What an evaluation reads off a state.\<close>

definition summary :: "Sup \<Rightarrow> pc \<times> UpstreamState \<times> bool \<times> int option \<times> bool \<times> bool" where
  "summary s = (pos s, upc s, suspended (conn s), client (conn s), run_done s, ctx_done s)"

text \<open>Runs that end where the code does not mean to. A server that announces a ban with 465 and then closes the link
  with an \<^verbatim>\<open>ERROR\<close> the classifier calls transient ends the supervisor, with an error, in a state the rest of the
  program reads as reconnecting.\<close>

lemma ban_then_close:
  "\<exists>s e. reachable sample_conn s \<and> pos s = Returned (Some e) \<and> upc s = DisconnectedTransient \<and> \<not> ctx_done s"
proof -
  let ?s0 = "begin_session 40000 (run_start sample_conn)"
  let ?s1 = "on_conn (dispatchLine sample_env '':s 465 bot :You are banned'') ?s0"
  let ?s2 = "on_conn (dispatchLine sample_env ''ERROR :Closing Link: bot (Connection reset)'') ?s1"
  let ?s3 = "end_session 0 None ?s2"
  have "reachable sample_conn ?s1"
    by (rule reachable.next_step [OF sample_session step.line]) (simp add: begin_session_def)
  then have "reachable sample_conn ?s2"
    by (rule reachable.next_step [OF _ step.line]) (simp add: begin_session_def)
  moreover have "step ?s2 (SessionEnd None) ?s3"
  proof -
    have "summary ?s2 = (InSession 40000 0, DisconnectedTransient, False, Some 40000, True, False)" by code_simp
    then have "pos ?s2 = InSession 40000 0" "read_failed False (Eof, ''EOF'') ?s2 = None"
      by (simp_all add: summary_def read_failed_def)
    then show ?thesis using step.read_error [where s = ?s2 and timeout = False and u = 0 and e = "(Eof, ''EOF'')"]
      by (simp add: of_socket_def)
  qed
  ultimately have s3: "reachable sample_conn ?s3" by (rule reachable.next_step)
  have "summary ?s3 = (Sleeping 800000000, DisconnectedTransient, False, Some 40000, True, False)" by code_simp
  then have p: "pos ?s3 = Sleeping 800000000" "run_done ?s3" "\<not> ctx_done ?s3" "upc ?s3 = DisconnectedTransient"
    by (simp_all add: summary_def)
  from reachable.next_step [OF s3 step.wake_cancelled [OF p(1,2)]] have "reachable sample_conn (wake_cancelled ?s3)" .
  moreover have "wake_cancelled ?s3 = exitTerminal None ?s3" using p by (simp add: wake_cancelled_def)
  ultimately show ?thesis using p by (intro exI [of _ "exitTerminal None ?s3"]) (simp add: exitTerminal_def Let_def)
qed

text \<open>A supervisor whose link is down, at the end of its first backoff sleep.\<close>

definition down_conn :: Connector where
  "down_conn = goto DisconnectedTransient [] (setClient None sample_conn)"

definition woken :: Sup where
  "woken = (let s = after_session 0 (Some no_client) (run_start down_conn)
            in s\<lparr>conn := (conn s)\<lparr>clock := now s + 800000000\<rparr>\<rparr>)"

lemma woken_reachable: "reachable down_conn woken"
proof -
  let ?s0 = "run_start down_conn"
  let ?s1 = "after_session 0 (Some no_client) ?s0"
  have s0: "reachable down_conn ?s0" by (rule reachable.start) (simp add: down_conn_def)
  have "pos ?s0 = AtTop" "\<not> shouldPark (conn ?s0)" "client (conn ?s0) = None" by code_simp+
  from reachable.next_step [OF s0 step.no_session [OF this]] have s1: "reachable down_conn ?s1" .
  have "live ?s1" by code_simp
  from reachable.next_step [OF s1 step.elapse [OF this, of 800000000]] show ?thesis by (simp add: woken_def Let_def)
qed

lemma woken_ready: "pos woken = Sleeping 800000000" "800000000 \<le> now woken" "\<not> shouldPark (conn woken)" "\<not> run_done woken"
  by code_simp+

text \<open>A \<open>Suspend\<close> that lands while a reconnect is under way leaves the connector parked as disconnected by the user
  but connected: \<^const>\<open>bringUp\<close> does not look at the intent again before it goes live, and nothing closes the client.\<close>

lemma raced_suspend_stays_online:
  "\<exists>s n. reachable down_conn s \<and> pos s = Parked n \<and> suspended (conn s) \<and> upc s = DisconnectedByUser \<and>
     client (conn s) = Some 40000"
proof -
  let ?s = "wake_dial sample_attempt (on_conn Suspend woken)"
  have "step woken (RacedDial sample_attempt) ?s"
    by (rule step.wake_raced [OF woken_ready(1-3)]) (simp add: honours_ctx_def woken_ready)
  from reachable.next_step [OF woken_reachable this] have s: "reachable down_conn ?s" .
  have "summary ?s = (AtTop, Registered, True, Some 40000, False, False)" by code_simp
  then have p: "pos ?s = AtTop" "shouldPark (conn ?s)" "suspended (conn ?s)" "client (conn ?s) = Some 40000"
    by (simp_all add: summary_def shouldPark_def)
  from reachable.next_step [OF s step.enter_park [OF p(1,2)]] have "reachable down_conn (enter_park ?s)" .
  then show ?thesis using p by (intro exI [of _ "enter_park ?s"]) (simp add: enter_park_def Let_def)
qed

text \<open>An operator who cancels while a reconnect is dialling gets an error from \<^verbatim>\<open>Run\<close>, not the documented nil.\<close>

lemma shutdown_mid_dial:
  "\<exists>s e. reachable down_conn s \<and> ctx_done s \<and> upc s = Stopped \<and> pos s = Returned (Some e)"
proof -
  let ?a = "sample_attempt\<lparr>dial_res := Inl (CtxCanceled, ''context canceled''), cancelled := True\<rparr>"
  have "step woken (Dial ?a) (wake_dial ?a woken)"
    by (rule step.wake_dial [OF woken_ready(1-3)]) (simp add: honours_ctx_def woken_ready)
  from reachable.next_step [OF woken_reachable this] have "reachable down_conn (wake_dial ?a woken)" .
  moreover have "summary (wake_dial ?a woken) =
      (Returned (Some (wrap ''irc: terminal upstream state stopped'' (CtxCanceled, ''context canceled''))), Stopped, False, None,
       True, True)" by code_simp
  ultimately show ?thesis by (intro exI [of _ "wake_dial ?a woken"]) (simp add: summary_def)
qed

end
