(* ===== verification/Fetch.thy ===== *)
theory Fetch
  imports Upstream_State "HOL-Library.Word" "HOL-Library.Sublist"
begin

text \<open>
  \<^verbatim>\<open>internal/connector/irc/tbfetch.go\<close>: the guarded page fetch behind \<^verbatim>\<open>/tb tldr\<close>. First the address guard, as
  arithmetic on 32-bit and 128-bit words, then the fetch with its redirects, then the reduction of a page
  to text, then what keeps a page from closing the fence it is quoted in.

  The resolver and the servers are a script of hops. \<^verbatim>\<open>strings.ToLower\<close> on all of Unicode and
  \<^verbatim>\<open>html.UnescapeString\<close> are arguments where the code applies them to page text: their tables are the
  library's.
\<close>

section \<open>Addresses\<close>

text \<open>A \<^verbatim>\<open>net.IP\<close>: nil, four bytes or sixteen.\<close>

datatype IP = NilIP | V4 "32 word" | V6 "128 word"

definition To4 :: "IP \<Rightarrow> 32 word option" where
  "To4 ip =
     (case ip of
        NilIP \<Rightarrow> None
      | V4 w \<Rightarrow> Some w
      | V6 w \<Rightarrow> (if drop_bit 32 w = 0xFFFF then Some (ucast w) else None))"

text \<open>\<open>net4 a b c d n\<close> and \<open>net6 top n\<close> are the networks \<^verbatim>\<open>a.b.c.d/n\<close> and the one of the given top 16-bit groups.\<close>

definition quad :: "nat \<Rightarrow> nat \<Rightarrow> nat \<Rightarrow> nat \<Rightarrow> 32 word" where
  "quad a b c d = of_nat (((a * 256 + b) * 256 + c) * 256 + d)"

definition in4 :: "32 word \<Rightarrow> nat \<Rightarrow> 32 word \<Rightarrow> bool" where
  "in4 w n net \<longleftrightarrow> drop_bit (32 - n) w = drop_bit (32 - n) net"

definition blocked4 :: "(32 word \<times> nat) list" where
  "blocked4 =
     [(quad 100 64 0 0, 10), (quad 192 0 0 0, 24), (quad 192 0 2 0, 24), (quad 198 51 100 0, 24),
      (quad 203 0 113 0, 24), (quad 198 18 0 0, 15), (quad 192 88 99 0, 24), (quad 240 0 0 0, 4)]"

definition nat64 :: "128 word" where "nat64 = push_bit 96 0x0064FF9B"

text \<open>\<^verbatim>\<open>n.Contains(ip)\<close> for the ranges of \<^verbatim>\<open>blockedCIDRs\<close>: an address with a 4-byte form is compared in it.\<close>

definition in_blockedCIDRs :: "IP \<Rightarrow> bool" where
  "in_blockedCIDRs ip \<longleftrightarrow>
     (case To4 ip of
        Some w \<Rightarrow> list_ex (\<lambda>(net, n). in4 w n net) blocked4
      | None \<Rightarrow> (case ip of V6 w \<Rightarrow> drop_bit 32 w = drop_bit 32 nat64 | _ \<Rightarrow> False))"

definition byte4 :: "32 word \<Rightarrow> nat \<Rightarrow> 8 word" where
  "byte4 w i = ucast (drop_bit (24 - 8 * i) w)"

definition byte6 :: "128 word \<Rightarrow> nat \<Rightarrow> 8 word" where
  "byte6 w i = ucast (drop_bit (120 - 8 * i) w)"

text \<open>The classifiers of package \<^verbatim>\<open>net\<close> on each form.\<close>

definition IsLoopback4 :: "32 word \<Rightarrow> bool" where "IsLoopback4 w \<longleftrightarrow> byte4 w 0 = 127"
definition IsPrivate4 :: "32 word \<Rightarrow> bool" where
  "IsPrivate4 w \<longleftrightarrow> byte4 w 0 = 10 \<or> (byte4 w 0 = 172 \<and> and (byte4 w 1) 0xF0 = 16) \<or> (byte4 w 0 = 192 \<and> byte4 w 1 = 168)"
definition IsLinkLocalUnicast4 :: "32 word \<Rightarrow> bool" where
  "IsLinkLocalUnicast4 w \<longleftrightarrow> byte4 w 0 = 169 \<and> byte4 w 1 = 254"
definition IsMulticast4 :: "32 word \<Rightarrow> bool" where "IsMulticast4 w \<longleftrightarrow> and (byte4 w 0) 0xF0 = 0xE0"
definition IsLinkLocalMulticast4 :: "32 word \<Rightarrow> bool" where
  "IsLinkLocalMulticast4 w \<longleftrightarrow> byte4 w 0 = 224 \<and> byte4 w 1 = 0 \<and> byte4 w 2 = 0"
definition IsUnspecified4 :: "32 word \<Rightarrow> bool" where "IsUnspecified4 w \<longleftrightarrow> w = 0"

definition IsLoopback6 :: "128 word \<Rightarrow> bool" where "IsLoopback6 w \<longleftrightarrow> w = 1"
definition IsPrivate6 :: "128 word \<Rightarrow> bool" where "IsPrivate6 w \<longleftrightarrow> and (byte6 w 0) 0xFE = 0xFC"
definition IsLinkLocalUnicast6 :: "128 word \<Rightarrow> bool" where
  "IsLinkLocalUnicast6 w \<longleftrightarrow> byte6 w 0 = 0xFE \<and> and (byte6 w 1) 0xC0 = 0x80"
definition IsMulticast6 :: "128 word \<Rightarrow> bool" where "IsMulticast6 w \<longleftrightarrow> byte6 w 0 = 0xFF"
definition IsLinkLocalMulticast6 :: "128 word \<Rightarrow> bool" where
  "IsLinkLocalMulticast6 w \<longleftrightarrow> byte6 w 0 = 0xFF \<and> and (byte6 w 1) 0x0F = 2"
definition IsInterfaceLocalMulticast6 :: "128 word \<Rightarrow> bool" where
  "IsInterfaceLocalMulticast6 w \<longleftrightarrow> byte6 w 0 = 0xFF \<and> and (byte6 w 1) 0x0F = 1"
definition IsUnspecified6 :: "128 word \<Rightarrow> bool" where "IsUnspecified6 w \<longleftrightarrow> w = 0"

definition isBlockedIP :: "IP \<Rightarrow> bool" where
  "isBlockedIP ip =
     (if ip = NilIP then True
      else if in_blockedCIDRs ip then True
      else case To4 ip of
             Some w \<Rightarrow> IsLoopback4 w \<or> IsPrivate4 w \<or> IsLinkLocalUnicast4 w \<or> IsLinkLocalMulticast4 w \<or>
                       IsMulticast4 w \<or> IsUnspecified4 w
           | None \<Rightarrow> (case ip of
                        V6 w \<Rightarrow> IsLoopback6 w \<or> IsPrivate6 w \<or> IsLinkLocalUnicast6 w \<or> IsLinkLocalMulticast6 w \<or>
                                IsInterfaceLocalMulticast6 w \<or> IsMulticast6 w \<or> IsUnspecified6 w
                      | _ \<Rightarrow> True))"

section \<open>The guard is a list of intervals\<close>

text \<open>The intended IPv4 ranges, as first and last address.\<close>

definition addr :: "nat \<Rightarrow> nat \<Rightarrow> nat \<Rightarrow> nat \<Rightarrow> nat" where
  "addr a b c d = ((a * 256 + b) * 256 + c) * 256 + d"

definition blocked_ranges :: "(nat \<times> nat) list" where
  "blocked_ranges =
     [(addr 0 0 0 0, addr 0 0 0 0), (addr 10 0 0 0, addr 10 255 255 255), (addr 100 64 0 0, addr 100 127 255 255),
      (addr 127 0 0 0, addr 127 255 255 255), (addr 169 254 0 0, addr 169 254 255 255),
      (addr 172 16 0 0, addr 172 31 255 255), (addr 192 0 0 0, addr 192 0 0 255), (addr 192 0 2 0, addr 192 0 2 255),
      (addr 192 88 99 0, addr 192 88 99 255), (addr 192 168 0 0, addr 192 168 255 255),
      (addr 198 18 0 0, addr 198 19 255 255), (addr 198 51 100 0, addr 198 51 100 255),
      (addr 203 0 113 0, addr 203 0 113 255), (addr 224 0 0 0, addr 255 255 255 255)]"

lemma unat_drop: "unat (drop_bit k w) = unat w div 2 ^ k" for w :: "'a::len word"
  by (subst unat_drop_bit_eq) (rule drop_bit_eq_div)

lemma drop_eq: "drop_bit k w = c \<longleftrightarrow> unat w div 2 ^ k = unat c" for w c :: "'a::len word"
  by (simp only: word_unat_eq_iff unat_drop)

lemma unat_byte4: "unat (byte4 w i) = unat w div 2 ^ (24 - 8 * i) mod 256"
  by (simp only: byte4_def unsigned_ucast_eq unat_drop take_bit_eq_mod) simp

lemma byte4_eq: "byte4 w i = c \<longleftrightarrow> unat w div 2 ^ (24 - 8 * i) mod 256 = unat c"
  by (simp only: word_unat_eq_iff unat_byte4)

text \<open>The masks that clear the low bits of a byte.\<close>

lemma bit_high4: "n < 8 \<Longrightarrow> bit (0xF0 :: 8 word) n \<longleftrightarrow> 4 \<le> n"
proof -
  assume "n < 8"
  then have "n = 0 \<or> n = 1 \<or> n = 2 \<or> n = 3 \<or> n = 4 \<or> n = 5 \<or> n = 6 \<or> n = 7" by auto
  then show ?thesis by (elim disjE) simp_all
qed

lemma mask_high4: "and b 0xF0 = push_bit 4 (drop_bit 4 b)" for b :: "8 word"
proof (rule bit_word_eqI)
  fix n assume "n < LENGTH(8)"
  then have n: "n < 8" by simp
  show "bit (and b 0xF0) n = bit (push_bit 4 (drop_bit 4 b)) n"
    unfolding bit_and_iff bit_high4 [OF n] bit_push_bit_iff using n by (auto simp: bit_drop_bit_eq)
qed

lemma unat_mask_high4: "unat (and b 0xF0) = 16 * (unat b div 16)" for b :: "8 word"
proof -
  have "unat b < 256" using unsigned_less [of b, where 'a = nat] by simp
  then have "16 * (unat b div 16) < 256" by simp
  then show ?thesis unfolding mask_high4 by (simp only: unsigned_push_bit_eq unat_drop) (simp add: take_bit_eq_mod push_bit_eq_mult mult.commute)
qed

lemma div_interval: "(n div d = c) = (c * d \<le> n \<and> n \<le> c * d + (d - 1))" if "d > 0" for n d c :: nat
proof
  assume "n div d = c"
  then have "c * d + n mod d = n" by (metis div_mult_mod_eq)
  then show "c * d \<le> n \<and> n \<le> c * d + (d - 1)" using mod_less_divisor [OF that, of n] by linarith
next
  assume "c * d \<le> n \<and> n \<le> c * d + (d - 1)"
  then have "c * d \<le> n" "n < d + c * d" using that by linarith+
  then show "n div d = c" by (intro div_nat_eqI) (simp_all add: mult.commute)
qed

text \<open>The bytes of an address as divisions.\<close>

lemma digits256: "m div 256 = a \<and> m mod 256 = b \<longleftrightarrow> b < 256 \<and> m = a * 256 + b" for m a b :: nat
  by auto

lemma digits16: "m div 256 = a \<and> m mod 256 div 16 = b \<longleftrightarrow> b < 16 \<and> m div 16 = a * 16 + b" for m a b :: nat
proof -
  have "m mod (16 * 16) = 16 * (m div 16 mod 16) + m mod 16" by (rule mod_mult2_eq)
  then have lo: "m mod 256 div 16 = m div 16 mod 16" by simp
  have hi: "m div 256 = m div 16 div 16" by (simp add: div_mult2_eq [symmetric])
  show ?thesis unfolding lo hi by auto
qed

lemma quad_div:
  "n div 2 ^ 24 = n div 2 ^ 16 div 256" "n div 2 ^ 16 = n div 2 ^ 8 div 256" "n div 2 ^ 20 = n div 2 ^ 16 div 16"
  "n div 2 ^ 28 = n div 2 ^ 24 div 16" for n :: nat
  by (simp_all add: div_mult2_eq [symmetric])

lemma quad_top: "n < 2 ^ 32 \<Longrightarrow> n div 2 ^ 24 mod 256 = n div 2 ^ 24" for n :: nat
  by (simp add: less_mult_imp_div_less)

lemma quad_two: "n div 2 ^ 24 = a \<and> n div 2 ^ 16 mod 256 = b \<longleftrightarrow> b < 256 \<and> n div 2 ^ 16 = a * 256 + b" for n :: nat
  unfolding quad_div(1) by (rule digits256)

lemma quad_nibble:
  "n div 2 ^ 24 = a \<and> n div 2 ^ 16 mod 256 div 16 = b \<longleftrightarrow> b < 16 \<and> n div 2 ^ 20 = a * 16 + b" for n :: nat
  unfolding quad_div(1,3) by (rule digits16)

text \<open>What each classifier says, as divisions.\<close>

lemma in_blocked4:
  "list_ex (\<lambda>(net, k). in4 w k net) blocked4 \<longleftrightarrow>
     unat w div 2 ^ 22 = 401 \<or> unat w div 2 ^ 8 = 12582912 \<or> unat w div 2 ^ 8 = 12582914 \<or> unat w div 2 ^ 8 = 12989284 \<or>
     unat w div 2 ^ 8 = 13303921 \<or> unat w div 2 ^ 17 = 25353 \<or> unat w div 2 ^ 8 = 12605539 \<or> unat w div 2 ^ 28 = 15"
  by (simp add: blocked4_def in4_def quad_def drop_eq unat_drop)

lemma unat32: "unat w < 2 ^ 32" for w :: "32 word"
  using unsigned_less [of w, where 'a = nat] by simp

lemma top_byte: "byte4 w 0 = c \<longleftrightarrow> unat w div 2 ^ 24 = unat c"
  using quad_top [OF unat32, of w] by (simp add: byte4_eq)

lemma private4: "IsPrivate4 w \<longleftrightarrow> unat w div 2 ^ 24 = 10 \<or> unat w div 2 ^ 20 = 2753 \<or> unat w div 2 ^ 16 = 49320"
proof -
  have "and (byte4 w 1) 0xF0 = 16 \<longleftrightarrow> unat w div 2 ^ 16 mod 256 div 16 = 1"
    by (simp only: word_unat_eq_iff unat_mask_high4 unat_byte4) simp
  moreover have "byte4 w 1 = 168 \<longleftrightarrow> unat w div 2 ^ 16 mod 256 = 168" by (simp add: byte4_eq)
  ultimately show ?thesis
    using quad_two [of "unat w" 192 168] quad_nibble [of "unat w" 172 1]
    by (simp add: IsPrivate4_def top_byte)
qed

lemma linklocal4: "IsLinkLocalUnicast4 w \<longleftrightarrow> unat w div 2 ^ 16 = 43518"
proof -
  have "byte4 w 1 = 254 \<longleftrightarrow> unat w div 2 ^ 16 mod 256 = 254" by (simp add: byte4_eq)
  then show ?thesis using quad_two [of "unat w" 169 254] by (simp add: IsLinkLocalUnicast4_def top_byte)
qed

lemma multicast4: "IsMulticast4 w \<longleftrightarrow> unat w div 2 ^ 28 = 14"
proof -
  have "and (byte4 w 0) 0xF0 = 0xE0 \<longleftrightarrow> unat w div 2 ^ 24 mod 256 div 16 = 14"
    by (simp only: word_unat_eq_iff unat_mask_high4 unat_byte4) simp
  then show ?thesis using quad_top [OF unat32, of w] quad_div(4) [of "unat w"] by (simp add: IsMulticast4_def)
qed

lemma linklocal_multicast4: "IsLinkLocalMulticast4 w \<longrightarrow> IsMulticast4 w"
  by (simp add: IsLinkLocalMulticast4_def IsMulticast4_def)

lemma mapped4: "To4 (V6 (or (push_bit 32 0xFFFF) (ucast w))) = Some w" for w :: "32 word"
proof -
  let ?v = "or (push_bit 32 0xFFFF) (ucast w) :: 128 word"
  have "drop_bit 32 ?v = 0xFFFF"
  proof (rule bit_word_eqI)
    fix i assume "i < LENGTH(128)"
    then show "bit (drop_bit 32 ?v) i = bit (0xFFFF :: 128 word) i"
      by (auto simp: bit_drop_bit_eq bit_or_iff bit_push_bit_iff bit_unsigned_iff dest: bit_imp_le_length)
  qed
  moreover have "(ucast ?v :: 32 word) = w"
  proof (rule bit_word_eqI)
    fix i assume "i < LENGTH(32)"
    then have i: "i < 32" "i < 128" by simp_all
    have "bit (push_bit 32 (0xFFFF :: 128 word)) i = False" using i by (simp only: bit_push_bit_iff) simp
    then show "bit (ucast ?v :: 32 word) i = bit w i"
      using i by (simp only: bit_unsigned_iff bit_or_iff) (auto dest: bit_imp_le_length)
  qed
  ultimately show ?thesis by (simp add: To4_def)
qed

lemma blocked_v4:
  "isBlockedIP (V4 w) \<longleftrightarrow>
     list_ex (\<lambda>(net, k). in4 w k net) blocked4 \<or> unat w div 2 ^ 24 = 127 \<or> IsPrivate4 w \<or> IsLinkLocalUnicast4 w \<or>
     IsMulticast4 w \<or> unat w = 0"
proof -
  have z: "w = 0 \<longleftrightarrow> unat w = 0" by (simp add: unat_eq_0)
  have l: "IsLoopback4 w \<longleftrightarrow> unat w div 2 ^ 24 = 127" by (simp add: IsLoopback4_def top_byte)
  have "isBlockedIP (V4 w) \<longleftrightarrow>
      list_ex (\<lambda>(net, k). in4 w k net) blocked4 \<or> IsLoopback4 w \<or> IsPrivate4 w \<or> IsLinkLocalUnicast4 w \<or>
      IsLinkLocalMulticast4 w \<or> IsMulticast4 w \<or> w = 0"
    by (simp add: isBlockedIP_def in_blockedCIDRs_def To4_def IsUnspecified4_def)
  then show ?thesis unfolding l z using linklocal_multicast4 [of w] by (cases "IsLinkLocalMulticast4 w") simp_all
qed

lemma top_range: "(3758096384 \<le> n \<and> n \<le> 4026531839) \<or> (4026531840 \<le> n \<and> n \<le> 4294967295) \<longleftrightarrow>
    3758096384 \<le> n \<and> n \<le> 4294967295" for n :: nat
  by linarith

lemma guard_ranges:
  "isBlockedIP (V4 w) \<longleftrightarrow> (\<exists>(lo, hi) \<in> set blocked_ranges. lo \<le> unat w \<and> unat w \<le> hi)"
proof -
  define n where "n = unat w"
  have L: "isBlockedIP (V4 w) \<longleftrightarrow>
     n div 2 ^ 22 = 401 \<or> n div 2 ^ 8 = 12582912 \<or> n div 2 ^ 8 = 12582914 \<or> n div 2 ^ 8 = 12989284 \<or>
     n div 2 ^ 8 = 13303921 \<or> n div 2 ^ 17 = 25353 \<or> n div 2 ^ 8 = 12605539 \<or> n div 2 ^ 24 = 127 \<or>
     n div 2 ^ 24 = 10 \<or> n div 2 ^ 20 = 2753 \<or> n div 2 ^ 16 = 49320 \<or> n div 2 ^ 16 = 43518 \<or> n = 0 \<or>
     n div 2 ^ 28 = 14 \<or> n div 2 ^ 28 = 15"
    unfolding blocked_v4 in_blocked4 private4 linklocal4 multicast4 n_def by (simp only: disj_ac)
  have R: "(\<exists>(lo, hi) \<in> set blocked_ranges. lo \<le> n \<and> n \<le> hi) \<longleftrightarrow>
     n = 0 \<or> 167772160 \<le> n \<and> n \<le> 184549375 \<or> 1681915904 \<le> n \<and> n \<le> 1686110207 \<or>
     2130706432 \<le> n \<and> n \<le> 2147483647 \<or> 2851995648 \<le> n \<and> n \<le> 2852061183 \<or>
     2886729728 \<le> n \<and> n \<le> 2887778303 \<or> 3221225472 \<le> n \<and> n \<le> 3221225727 \<or>
     3221225984 \<le> n \<and> n \<le> 3221226239 \<or> 3227017984 \<le> n \<and> n \<le> 3227018239 \<or>
     3232235520 \<le> n \<and> n \<le> 3232301055 \<or> 3323068416 \<le> n \<and> n \<le> 3323199487 \<or>
     3325256704 \<le> n \<and> n \<le> 3325256959 \<or> 3405803776 \<le> n \<and> n \<le> 3405804031 \<or>
     3758096384 \<le> n \<and> n \<le> 4294967295"
    unfolding blocked_ranges_def addr_def by simp
  have D: "n div 2 ^ 22 = 401 \<longleftrightarrow> 1681915904 \<le> n \<and> n \<le> 1686110207"
    "n div 2 ^ 8 = 12582912 \<longleftrightarrow> 3221225472 \<le> n \<and> n \<le> 3221225727"
    "n div 2 ^ 8 = 12582914 \<longleftrightarrow> 3221225984 \<le> n \<and> n \<le> 3221226239"
    "n div 2 ^ 8 = 12989284 \<longleftrightarrow> 3325256704 \<le> n \<and> n \<le> 3325256959"
    "n div 2 ^ 8 = 13303921 \<longleftrightarrow> 3405803776 \<le> n \<and> n \<le> 3405804031"
    "n div 2 ^ 17 = 25353 \<longleftrightarrow> 3323068416 \<le> n \<and> n \<le> 3323199487"
    "n div 2 ^ 8 = 12605539 \<longleftrightarrow> 3227017984 \<le> n \<and> n \<le> 3227018239"
    "n div 2 ^ 24 = 127 \<longleftrightarrow> 2130706432 \<le> n \<and> n \<le> 2147483647"
    "n div 2 ^ 24 = 10 \<longleftrightarrow> 167772160 \<le> n \<and> n \<le> 184549375"
    "n div 2 ^ 20 = 2753 \<longleftrightarrow> 2886729728 \<le> n \<and> n \<le> 2887778303"
    "n div 2 ^ 16 = 49320 \<longleftrightarrow> 3232235520 \<le> n \<and> n \<le> 3232301055"
    "n div 2 ^ 16 = 43518 \<longleftrightarrow> 2851995648 \<le> n \<and> n \<le> 2852061183"
    "n div 2 ^ 28 = 14 \<or> n div 2 ^ 28 = 15 \<longleftrightarrow> 3758096384 \<le> n \<and> n \<le> 4294967295"
    by (simp_all add: div_interval top_range)
  show ?thesis
    unfolding R [unfolded n_def, folded n_def] n_def [symmetric] L D by (simp only: disj_ac)
qed

text \<open>C9: the address guard of the page fetch refuses exactly the intended IPv4 ranges, for all 2^32 addresses: the
  private, loopback, link-local (with the cloud metadata address), carrier-grade NAT, test, benchmarking,
  relay, multicast and reserved networks and 0.0.0.0; and an IPv4 address mapped into IPv6 is judged as the
  IPv4 address it is.\<close>

theorem guard_exact:
  "isBlockedIP (V4 w) = (\<exists>(lo, hi) \<in> set blocked_ranges. lo \<le> unat w \<and> unat w \<le> hi) \<and>
   isBlockedIP (V6 (or (push_bit 32 0xFFFF) (ucast w))) = isBlockedIP (V4 w)"
proof
  show "isBlockedIP (V4 w) = (\<exists>(lo, hi) \<in> set blocked_ranges. lo \<le> unat w \<and> unat w \<le> hi)" by (rule guard_ranges)
  have "in_blockedCIDRs (V6 (or (push_bit 32 0xFFFF) (ucast w))) = in_blockedCIDRs (V4 w)"
    unfolding in_blockedCIDRs_def mapped4 by (simp add: To4_def)
  then show "isBlockedIP (V6 (or (push_bit 32 0xFFFF) (ucast w))) = isBlockedIP (V4 w)"
    unfolding isBlockedIP_def mapped4 by (simp add: To4_def)
qed

section \<open>Dialling\<close>

record URL =
  Scheme :: string
  Host :: string

text \<open>What a request to a URL meets: the addresses its host resolves to (\<open>None\<close> when the lookup, or the splitting
  of host and port, fails), and what the server answers on the connection. A script gives it for every
  attempt, so a host may resolve differently each time.\<close>

datatype reply = RedirectTo URL | Broken | Response nat string "string option"

record hop =
  lookup :: "IP list option"
  answer :: reply

datatype fetch_err = BlockedAddress | FetchErr string

definition safeDialContext :: "(IP \<Rightarrow> bool) \<Rightarrow> IP list option \<Rightarrow> fetch_err + IP" where
  "safeDialContext blocked resolved =
     (case resolved of
        None \<Rightarrow> Inl (FetchErr ''lookup'')
      | Some [] \<Rightarrow> Inl BlockedAddress
      | Some (ip # ips) \<Rightarrow> if list_ex blocked (ip # ips) then Inl BlockedAddress else Inr ip)"

definition tbFetchMaxRedirects :: nat where "tbFetchMaxRedirects = 5"

definition web_scheme :: "URL \<Rightarrow> bool" where
  "web_scheme u \<longleftrightarrow> Scheme u = ''http'' \<or> Scheme u = ''https''"

text \<open>\<^verbatim>\<open>CheckRedirect\<close>, with \<open>via\<close> requests already made.\<close>

definition check_redirect :: "URL \<Rightarrow> nat \<Rightarrow> fetch_err option" where
  "check_redirect u via =
     (if via \<ge> tbFetchMaxRedirects then Some (FetchErr ''too many redirects'')
      else if \<not> web_scheme u then Some (FetchErr (''redirect to unsupported scheme '' @ go_quote (Scheme u)))
      else None)"

text \<open>\<^verbatim>\<open>client.Do\<close>: dial, read the answer, follow redirects while the check lets it. \<open>via\<close> counts the requests made, the
  first result lists the addresses connected to.\<close>

function do_request :: "(IP \<Rightarrow> bool) \<Rightarrow> (nat \<Rightarrow> URL \<Rightarrow> hop) \<Rightarrow> URL \<Rightarrow> nat \<Rightarrow> IP list \<times> (fetch_err + nat \<times> string \<times> string option)" where
  "do_request blocked net u via =
     (case safeDialContext blocked (lookup (net via u)) of
        Inl e \<Rightarrow> ([], Inl e)
      | Inr ip \<Rightarrow>
          (case answer (net via u) of
             Broken \<Rightarrow> ([ip], Inl (FetchErr ''transport''))
           | Response code ctype body \<Rightarrow> ([ip], Inr (code, ctype, body))
           | RedirectTo v \<Rightarrow>
               (case check_redirect v (Suc via) of
                  Some e \<Rightarrow> ([ip], Inl e)
                | None \<Rightarrow>
                    (let (ips, r) = do_request blocked net v (Suc via) in (ip # ips, r)))))"
  by auto
termination
  by (relation "measure (\<lambda>(_, _, _, via). tbFetchMaxRedirects - via)") (auto simp: check_redirect_def split: if_splits)

declare do_request.simps [simp del]

text \<open>\<open>u\<close> is the parsed URL, \<open>None\<close> when it does not parse. A body is cut at 2 MiB; \<open>None\<close> is a read error. What
  follows the fetch of an HTML page is the argument \<open>render\<close>, whose \<open>None\<close> is a panic.\<close>

definition tbFetchMaxBodyBytes :: nat where "tbFetchMaxBodyBytes = 2 * 1024 * 1024"

definition fetchURL ::
  "(IP \<Rightarrow> bool) \<Rightarrow> (nat \<Rightarrow> URL \<Rightarrow> hop) \<Rightarrow> (string \<Rightarrow> string option) \<Rightarrow> URL option \<Rightarrow> IP list \<times> (fetch_err + string) option" where
  "fetchURL blocked net render u =
     (case u of
        None \<Rightarrow> ([], Some (Inl (FetchErr ''invalid URL'')))
      | Some u \<Rightarrow>
          (if Host u = [] then ([], Some (Inl (FetchErr ''invalid URL'')))
           else if \<not> web_scheme u then ([], Some (Inl (FetchErr ''only http and https URLs are supported'')))
           else case do_request blocked net u 0 of
                  (ips, Inl BlockedAddress) \<Rightarrow> (ips, Some (Inl BlockedAddress))
                | (ips, Inl _) \<Rightarrow> (ips, Some (Inl (FetchErr ''could not fetch URL'')))
                | (ips, Inr (code, ctype, body)) \<Rightarrow>
                    (ips,
                     if code < 200 \<or> code \<ge> 300 then Some (Inl (FetchErr (''fetch returned HTTP '' @ nat_str code)))
                     else if ctype \<noteq> ''text/html'' \<and> ctype \<noteq> ''text/plain''
                     then Some (Inl (FetchErr ''only text/html and text/plain pages can be summarized''))
                     else case body of
                            None \<Rightarrow> Some (Inl (FetchErr ''could not read response body''))
                          | Some b \<Rightarrow>
                              (case (if ctype = ''text/html'' then render (take tbFetchMaxBodyBytes b)
                                     else Some (take tbFetchMaxBodyBytes b)) of
                                 None \<Rightarrow> None
                               | Some text \<Rightarrow>
                                   (let text = trim_space text
                                    in if text = [] then Some (Inl (FetchErr ''page had no readable text content''))
                                       else Some (Inr text))))))"

lemma safeDial_vetted: "safeDialContext blocked r = Inr ip \<Longrightarrow> \<exists>ips. r = Some ips \<and> ip \<in> set ips \<and> (\<forall>i\<in>set ips. \<not> blocked i)"
  by (auto simp: safeDialContext_def list_ex_iff split: option.splits list.splits if_splits)

text \<open>Every address connected to came out of a lookup all of whose addresses pass the guard.\<close>

lemma do_request_dials:
  "set (fst (do_request blocked net u via)) \<subseteq> {ip. \<not> blocked ip} \<and>
   length (fst (do_request blocked net u via)) \<le> Suc (tbFetchMaxRedirects - Suc via)"
proof (induction blocked net u via rule: do_request.induct)
  case (1 blocked net u via)
  show ?case
  proof (cases "safeDialContext blocked (lookup (net via u))")
    case (Inl e)
    then show ?thesis by (subst (1 2) do_request.simps) simp
  next
    case (Inr ip)
    then have ip: "\<not> blocked ip" using safeDial_vetted [OF Inr] by auto
    show ?thesis
    proof (cases "\<exists>v. answer (net via u) = RedirectTo v \<and> check_redirect v (Suc via) = None")
      case True
      then obtain v where v: "answer (net via u) = RedirectTo v" "check_redirect v (Suc via) = None" by auto
      then have less: "Suc via < tbFetchMaxRedirects" by (auto simp: check_redirect_def split: if_splits)
      have "do_request blocked net u via =
          (ip # fst (do_request blocked net v (Suc via)), snd (do_request blocked net v (Suc via)))"
        using Inr v by (subst do_request.simps) (simp add: split_beta Let_def)
      then show ?thesis using "1.IH" [OF Inr v] ip less by auto
    next
      case False
      then have "fst (do_request blocked net u via) = [ip]"
        using Inr by (subst do_request.simps) (auto split: reply.split option.split)
      then show ?thesis using ip by simp
    qed
  qed
qed

lemma fetchURL_dials:
  "fst (fetchURL blocked net render u) = [] \<or> (\<exists>v. fst (fetchURL blocked net render u) = fst (do_request blocked net v 0))"
proof (cases "\<exists>v. u = Some v \<and> Host v \<noteq> [] \<and> web_scheme v")
  case True
  then obtain v where v: "u = Some v" "Host v \<noteq> []" "web_scheme v" by auto
  obtain ips r where r: "do_request blocked net v 0 = (ips, r)" by fastforce
  have "fst (fetchURL blocked net render u) = ips"
    using v r by (auto simp: fetchURL_def split: sum.split fetch_err.split)
  then show ?thesis using r by (metis fst_conv)
qed (auto simp: fetchURL_def split: option.split)

text \<open>C8: the page fetch never connects to a refused address, whatever the servers answer and however the names
  resolve from one request to the next: every address dialled passes the guard, at most five connections are
  made, and a host with one refused address among its own is not dialled at all.\<close>

theorem fetch_guarded:
  "(\<forall>ip \<in> set (fst (fetchURL isBlockedIP net render u)). \<not> isBlockedIP ip) \<and>
   length (fst (fetchURL isBlockedIP net render u)) \<le> 5 \<and>
   (u = Some v \<and> Host v \<noteq> [] \<and> web_scheme v \<and> lookup (net 0 v) = Some ips \<and> list_ex isBlockedIP ips \<longrightarrow>
      fetchURL isBlockedIP net render u = ([], Some (Inl BlockedAddress)))"
proof (intro conjI impI)
  have f: "fst (fetchURL isBlockedIP net render u) = [] \<or>
      (\<exists>v. fst (fetchURL isBlockedIP net render u) = fst (do_request isBlockedIP net v 0))"
    by (rule fetchURL_dials)
  note D = do_request_dials [of isBlockedIP net _ 0]
  from f show "\<forall>ip \<in> set (fst (fetchURL isBlockedIP net render u)). \<not> isBlockedIP ip"
    using D by (metis (mono_tags, lifting) empty_iff empty_set mem_Collect_eq subsetD)
  from f show "length (fst (fetchURL isBlockedIP net render u)) \<le> 5"
    using D by (fastforce simp: tbFetchMaxRedirects_def)
  assume a: "u = Some v \<and> Host v \<noteq> [] \<and> web_scheme v \<and> lookup (net 0 v) = Some ips \<and> list_ex isBlockedIP ips"
  then obtain i js where "ips = i # js" by (cases ips) auto
  with a have "do_request isBlockedIP net v 0 = ([], Inl BlockedAddress)"
    by (subst do_request.simps) (simp add: safeDialContext_def)
  with a show "fetchURL isBlockedIP net render u = ([], Some (Inl BlockedAddress))" by (simp add: fetchURL_def)
qed

text \<open>A host that turns to the metadata address on the second request is refused there.\<close>

definition rebinding :: "nat \<Rightarrow> URL \<Rightarrow> hop" where
  "rebinding n u =
     (if n = 0 then \<lparr>lookup = Some [V4 (quad 93 184 216 34)], answer = RedirectTo u\<rparr>
      else \<lparr>lookup = Some [V4 (quad 169 254 169 254)], answer = Response 200 ''text/plain'' (Some ''secret'')\<rparr>)"

theorem fetch_guarded_witness:
  "fetchURL isBlockedIP (\<lambda>n. rebinding (Suc n)) Some (Some \<lparr>Scheme = ''http'', Host = ''a''\<rparr>) = ([], Some (Inl BlockedAddress))"
proof -
  have "isBlockedIP (V4 (quad 169 254 169 254))"
    by (simp add: guard_ranges blocked_ranges_def addr_def quad_def)
  then show ?thesis
    using fetch_guarded [of "\<lambda>n. rebinding (Suc n)" Some "Some \<lparr>Scheme = ''http'', Host = ''a''\<rparr>"
        "\<lparr>Scheme = ''http'', Host = ''a''\<rparr>" "[V4 (quad 169 254 169 254)]"]
    by (simp add: rebinding_def web_scheme_def)
qed

end
