(* ===== verification/Page.thy ===== *)
theory Page
  imports Prelude
begin

text \<open>
  \<^verbatim>\<open>internal/connector/irc/tbfetch.go\<close>, second part: a fetched page as text. What drops the markup, what bounds
  the size, and what keeps the page from closing the fence it is quoted in.

  \<^verbatim>\<open>strings.ToLower\<close> over all of Unicode is the argument \<open>lower\<close>, because it may change the length of a
  string and \<^verbatim>\<open>removeHTMLBlock\<close> uses offsets of the lowered text in the original. A result \<open>None\<close> is the
  panic of a slice out of range. The title and description that \<^verbatim>\<open>extractMetadata\<close> finds are an argument.
\<close>

section \<open>Runes\<close>

text \<open>Ranging over a string, or converting it to runes, replaces each byte that starts no valid UTF-8 sequence by U+FFFD.
  A rune is kept as the bytes it is written back with.\<close>

definition in_range :: "nat \<Rightarrow> nat \<Rightarrow> char \<Rightarrow> bool" where
  "in_range lo hi c \<longleftrightarrow> lo \<le> (of_char c :: nat) \<and> (of_char c :: nat) \<le> hi"

abbreviation ascii :: "char \<Rightarrow> bool" where "ascii \<equiv> in_range 0 0x7F"
abbreviation conts :: "char list \<Rightarrow> bool" where "conts \<equiv> list_all (in_range 0x80 0xBF)"

definition rune_width :: "string \<Rightarrow> nat" where
  "rune_width s =
     (case s of
        [] \<Rightarrow> 0
      | c # cs \<Rightarrow>
          (if ascii c then 1
           else if in_range 0xC2 0xDF c \<and> length cs \<ge> 1 \<and> conts (take 1 cs) then 2
           else if in_range 0xE0 0xEF c \<and> length cs \<ge> 2 \<and> conts (take 2 cs) \<and>
                   (c = CHR 0xE0 \<longrightarrow> in_range 0xA0 0xBF (cs ! 0)) \<and> (c = CHR 0xED \<longrightarrow> in_range 0x80 0x9F (cs ! 0)) then 3
           else if in_range 0xF0 0xF4 c \<and> length cs \<ge> 3 \<and> conts (take 3 cs) \<and>
                   (c = CHR 0xF0 \<longrightarrow> in_range 0x90 0xBF (cs ! 0)) \<and> (c = CHR 0xF4 \<longrightarrow> in_range 0x80 0x8F (cs ! 0)) then 4
           else 0))"

definition replacement :: string where
  "replacement = [CHR 0xEF, CHR 0xBF, CHR 0xBD]"

function runes :: "string \<Rightarrow> string list" where
  "runes [] = []"
| "runes (c # cs) =
     (let w = rune_width (c # cs)
      in if w = 0 then replacement # runes cs else take w (c # cs) # runes (drop (w - 1) cs))"
  by pat_completeness auto
termination by (relation "measure length") auto

declare runes.simps(2) [simp del]

section \<open>The fence\<close>

definition re_space :: "char \<Rightarrow> bool" where
  "re_space c \<longleftrightarrow> c \<in> {CHR 0x09, CHR 0x0A, CHR 0x0C, CHR 0x0D, CHR 0x20}"

text \<open>\<^verbatim>\<open>contentTagPattern\<close> at one position: the text after the match. No part of the pattern can take a character the
  next part needs, so the greedy reading is the only one.\<close>

definition match_fence :: "string \<Rightarrow> string option" where
  "match_fence s =
     (case s of
        [] \<Rightarrow> None
      | c # cs \<Rightarrow>
          (if c \<noteq> CHR ''<'' then None
           else let s1 = dropWhile re_space cs;
                    s2 = dropWhile re_space (if prefix ''/'' s1 then tl s1 else s1)
                in if to_lower (take 7 s2) \<noteq> ''content'' then None
                   else let s3 = dropWhile re_space (drop 7 s2)
                        in if prefix ''>'' s3 then Some (tl s3) else None))"

lemma match_fence_shorter: "match_fence s = Some r \<Longrightarrow> length r < length s"
proof -
  assume m: "match_fence s = Some r"
  have d: "length (dropWhile p t) \<le> length t" for p and t :: string by (rule length_dropWhile_le)
  from m obtain cs where s: "s = CHR ''<'' # cs" by (auto simp: match_fence_def split: list.splits if_splits)
  define s1 where "s1 = dropWhile re_space cs"
  define s2 where "s2 = dropWhile re_space (if prefix ''/'' s1 then tl s1 else s1)"
  define s3 where "s3 = dropWhile re_space (drop 7 s2)"
  have "r = tl s3" using m by (simp add: match_fence_def s s1_def s2_def s3_def Let_def split: if_splits)
  moreover have "length s1 \<le> length cs" unfolding s1_def by (rule d)
  moreover have "length s2 \<le> length s1" unfolding s2_def by (rule order_trans [OF d]) simp
  moreover have "length s3 \<le> length s2" unfolding s3_def by (rule order_trans [OF d]) simp
  ultimately show ?thesis by (simp add: s)
qed

function neutralizeContentDelimiters :: "string \<Rightarrow> string" where
  "neutralizeContentDelimiters [] = []"
| "neutralizeContentDelimiters (c # cs) =
     (case match_fence (c # cs) of
        Some rest \<Rightarrow> ''[content]'' @ neutralizeContentDelimiters rest
      | None \<Rightarrow> c # neutralizeContentDelimiters cs)"
  by pat_completeness auto
termination by (relation "measure length") (auto dest: match_fence_shorter)

declare neutralizeContentDelimiters.simps(2) [simp del]

section \<open>Size\<close>

definition clampContent :: "string \<Rightarrow> int \<Rightarrow> string" where
  "clampContent s n =
     (if n \<le> 0 then []
      else if int (length (runes s)) \<le> n then s
      else concat (take (nat n) (runes s)) @ '' '' @ ellipsis @ ''[truncated]'')"

section \<open>Markup\<close>

definition collapseWhitespace :: "string \<Rightarrow> string" where
  "collapseWhitespace s = join '' '' (go_fields s)"

function remove_loop :: "string \<Rightarrow> string \<Rightarrow> string \<Rightarrow> string \<Rightarrow> string option" where
  "remove_loop tag s low out =
     (case index_str (''<'' @ tag) low of
        None \<Rightarrow> Some (out @ s)
      | Some i \<Rightarrow>
          (if i > length s then None
           else let out = out @ take i s
                in case index_str (''</'' @ tag @ ''>'') (drop i low) of
                     None \<Rightarrow> Some out
                   | Some j \<Rightarrow>
                       (let cut = i + j + length (''</'' @ tag @ ''>'')
                        in if cut > length s then None
                           else remove_loop tag (drop cut s) (drop cut low) out)))"
  by auto
termination
  by (relation "measure (\<lambda>(_, s, _, _). length s)") auto

declare remove_loop.simps [simp del]

definition removeHTMLBlock :: "(string \<Rightarrow> string) \<Rightarrow> string \<Rightarrow> string \<Rightarrow> string option" where
  "removeHTMLBlock lower s tag = remove_loop tag s (lower s) []"

fun drop_tags :: "string list \<Rightarrow> bool \<Rightarrow> string" where
  "drop_tags [] inTag = []"
| "drop_tags (r # rs) inTag =
     (if r = ''<'' then drop_tags rs True
      else if r = ''>'' then (if inTag then '' '' @ drop_tags rs False else drop_tags rs inTag)
      else if \<not> inTag then r @ drop_tags rs inTag
      else drop_tags rs inTag)"

definition stripHTMLToText :: "(string \<Rightarrow> string) \<Rightarrow> string \<Rightarrow> string option" where
  "stripHTMLToText lower s =
     (case removeHTMLBlock lower s ''script'' of
        None \<Rightarrow> None
      | Some s \<Rightarrow>
          (case removeHTMLBlock lower s ''style'' of
             None \<Rightarrow> None
           | Some s \<Rightarrow> Some (collapseWhitespace (drop_tags (runes s) False))))"

record pageMetadata =
  title :: string
  description :: string

definition buildHTMLText :: "(string \<Rightarrow> string) \<Rightarrow> (string \<Rightarrow> pageMetadata) \<Rightarrow> string \<Rightarrow> string option" where
  "buildHTMLText lower extractMetadata htmlStr =
     (case stripHTMLToText lower htmlStr of
        None \<Rightarrow> None
      | Some body \<Rightarrow>
          (let md = extractMetadata htmlStr;
               b = (if title md \<noteq> [] then ''Title: '' @ title md @ [lf] else []) @
                   (if description md \<noteq> [] then ''Description: '' @ description md @ [lf] else [])
           in Some (if body \<noteq> [] then b @ (if b \<noteq> [] then [lf] else []) @ body else b)))"

section \<open>Stripping never panics when lowering keeps the length\<close>

lemma index_str_le: "index_str sub s = Some i \<Longrightarrow> i + length sub \<le> length s"
  by (induction s arbitrary: i) (auto split: if_splits dest: prefix_length_le)

lemma remove_loop_total: "length low = length s \<Longrightarrow> \<exists>r. remove_loop tag s low out = Some r"
proof (induction tag s low out rule: remove_loop.induct)
  case (1 tag s low out)
  show ?case
  proof (cases "index_str (''<'' @ tag) low")
    case None
    then show ?thesis by (subst remove_loop.simps) simp
  next
    case (Some i)
    then have i: "\<not> i > length s" using index_str_le [OF Some] "1.prems" by simp
    show ?thesis
    proof (cases "index_str (''</'' @ tag @ ''>'') (drop i low)")
      case None
      with Some i show ?thesis by (subst remove_loop.simps) simp
    next
      case j: (Some j)
      let ?cut = "i + j + length (''</'' @ tag @ ''>'')"
      have cut: "\<not> ?cut > length s" using index_str_le [OF j] i "1.prems" by simp
      have "length (drop ?cut low) = length (drop ?cut s)" using "1.prems" by simp
      from "1.IH" [OF Some i refl j refl cut this] show ?thesis
        using Some i j cut by (subst remove_loop.simps) (simp add: Let_def)
    qed
  qed
qed

lemma removeHTMLBlock_total: "length (lower s) = length s \<Longrightarrow> removeHTMLBlock lower s tag \<noteq> None"
  using remove_loop_total by (metis option.distinct(1) removeHTMLBlock_def)

text \<open>Lowering U+023A, two bytes, gives U+2C65, three bytes: one such letter before a script block that ends the page
  puts the cut past the end.\<close>

fun lower_A_stroke :: "string \<Rightarrow> string" where
  "lower_A_stroke (a # b # cs) =
     (if a = CHR 0xC8 \<and> b = CHR 0xBA then [CHR 0xE2, CHR 0xB1, CHR 0xA5] @ lower_A_stroke cs
      else lower_char a # lower_A_stroke (b # cs))"
| "lower_A_stroke cs = to_lower cs"

lemma long_lowering_panics:
  "stripHTMLToText lower_A_stroke ([CHR 0xC8, CHR 0xBA] @ ''<script></script>'') = None"
  by code_simp

section \<open>No markup is left\<close>

lemma conts_not_ascii: "conts cs \<Longrightarrow> c \<in> set cs \<Longrightarrow> \<not> ascii c"
  by (auto simp: list_all_iff in_range_def)

lemma rune_width_1: "rune_width (c # cs) = 1 \<longleftrightarrow> ascii c"
  by (auto simp: rune_width_def)

lemma rune_width_wide:
  assumes "\<not> ascii c" "x \<in> set (take (rune_width (c # cs)) (c # cs))"
  shows "\<not> ascii x"
proof -
  have "x = c \<or> x \<in> set (take (rune_width (c # cs) - 1) cs)"
    using assms(2) by (cases "rune_width (c # cs)") auto
  moreover have "rune_width (c # cs) \<noteq> 0 \<Longrightarrow> conts (take (rune_width (c # cs) - 1) cs)"
    using assms(1) by (auto simp: rune_width_def numeral_eq_Suc split: if_splits)
  ultimately show ?thesis
    using assms conts_not_ascii by (cases "rune_width (c # cs) = 0") auto
qed

lemma runes_cases:
  "runes (c # cs) = (if ascii c then [c] # runes cs
     else if rune_width (c # cs) = 0 then replacement # runes cs
     else take (rune_width (c # cs)) (c # cs) # runes (drop (rune_width (c # cs) - 1) cs))"
proof (cases "ascii c")
  case True
  then have "rune_width (c # cs) = 1" using rune_width_1 by blast
  then show ?thesis using True by (simp add: runes.simps(2) Let_def)
qed (simp add: runes.simps(2) Let_def)

lemma rune_shape: "r \<in> set (runes s) \<Longrightarrow> (\<exists>c. ascii c \<and> r = [c]) \<or> (\<forall>c\<in>set r. \<not> ascii c)"
proof (induction s rule: runes.induct)
  case (2 c cs)
  have rep: "\<forall>c\<in>set replacement. \<not> ascii c" by (simp add: replacement_def in_range_def)
  show ?case
  proof (cases "ascii c")
    case True
    then have "rune_width (c # cs) = 1" using rune_width_1 by blast
    then show ?thesis using 2 True by (auto simp: runes_cases)
  next
    case False
    then show ?thesis using 2 rep rune_width_wide [OF False, of _ cs]
      by (cases "rune_width (c # cs) = 0") (auto simp: runes_cases)
  qed
qed simp

lemma drop_tags_no_angle:
  "\<forall>r\<in>set rs. (\<exists>c. ascii c \<and> r = [c]) \<or> (\<forall>c\<in>set r. \<not> ascii c) \<Longrightarrow>
   CHR ''<'' \<notin> set (drop_tags rs b) \<and> CHR ''>'' \<notin> set (drop_tags rs b)"
proof (induction rs b rule: drop_tags.induct)
  case (2 r rs b)
  have "ascii (CHR ''<'')" "ascii (CHR ''>'')" by (simp_all add: in_range_def)
  with 2 show ?case by (auto split: if_splits)
qed simp

lemma collapse_chars: "c \<in> set (collapseWhitespace s) \<Longrightarrow> c = sp \<or> c \<in> set s"
  using set_join [of c "'' ''" "go_fields s"] go_fields_pieces [of _ s] by (auto simp: collapseWhitespace_def)

lemma collapse_idem: "go_fields (collapseWhitespace s) = go_fields s"
  unfolding collapseWhitespace_def by (rule go_fields_join) (use go_fields_pieces in blast)

text \<open>Reducing a page to text is total as long as lowering keeps lengths (it is not otherwise), and what it gives
  holds no angle bracket, so no markup, and no blank that is not one single space between two words.\<close>

theorem strip_text:
  assumes "\<And>t. length (lower t) = length t"
  shows "\<exists>t. stripHTMLToText lower s = Some t \<and> CHR ''<'' \<notin> set t \<and> CHR ''>'' \<notin> set t \<and> t = join '' '' (go_fields t)"
proof -
  obtain s1 where s1: "removeHTMLBlock lower s ''script'' = Some s1" using removeHTMLBlock_total assms by blast
  obtain s2 where s2: "removeHTMLBlock lower s1 ''style'' = Some s2" using removeHTMLBlock_total assms by blast
  let ?d = "drop_tags (runes s2) False"
  have "CHR ''<'' \<notin> set ?d \<and> CHR ''>'' \<notin> set ?d" using rune_shape by (intro drop_tags_no_angle) blast
  then have "CHR ''<'' \<notin> set (collapseWhitespace ?d) \<and> CHR ''>'' \<notin> set (collapseWhitespace ?d)"
    using collapse_chars by force
  then show ?thesis using collapse_idem [of ?d] s1 s2 by (simp add: stripHTMLToText_def) (simp add: collapseWhitespace_def)
qed

section \<open>The page cannot forge the fence\<close>

definition blanks :: "string \<Rightarrow> bool" where "blanks s \<longleftrightarrow> list_all re_space s"

text \<open>The language of the pattern.\<close>

inductive fence :: "string \<Rightarrow> bool" where
  mark: "blanks s1 \<Longrightarrow> blanks s2 \<Longrightarrow> blanks s3 \<Longrightarrow> sl = [] \<or> sl = ''/'' \<Longrightarrow> to_lower t = ''content'' \<Longrightarrow>
     fence (''<'' @ s1 @ sl @ s2 @ t @ s3 @ ''>'')"

definition no_fence :: "string \<Rightarrow> bool" where
  "no_fence s \<longleftrightarrow> (\<forall>a w b. s = a @ w @ b \<longrightarrow> \<not> fence w)"

lemma skip_blanks: "blanks a \<Longrightarrow> \<not> re_space x \<Longrightarrow> dropWhile re_space (a @ x # b) = x # b"
  by (induction a) (auto simp: blanks_def)

lemma re_space_small: "re_space c \<Longrightarrow> (of_char c :: nat) \<le> 32"
  by (auto simp: re_space_def)

lemma content_chars:
  assumes "to_lower t = ''content''"
  shows "\<forall>c\<in>set t. ascii c \<and> 67 \<le> (of_char c :: nat) \<and> c \<noteq> CHR ''['' \<and> \<not> re_space c" "length t = 7"
proof -
  show "length t = 7" using arg_cong [OF assms, of length] by simp
  show "\<forall>c\<in>set t. ascii c \<and> 67 \<le> (of_char c :: nat) \<and> c \<noteq> CHR ''['' \<and> \<not> re_space c"
  proof
    fix c assume "c \<in> set t"
    then have "lower_char c \<in> set ''content''" using assms by (metis image_eqI list.set_map to_lower_def)
    then have l: "lower_char c \<in> {CHR ''c'', CHR ''o'', CHR ''n'', CHR ''t'', CHR ''e''}" by auto
    have b: "67 \<le> (of_char c :: nat) \<and> (of_char c :: nat) \<le> 127 \<and> c \<noteq> CHR ''[''"
    proof (cases "65 \<le> (of_char c :: nat) \<and> (of_char c :: nat) \<le> 90")
      case True
      then have "lower_char c = char_of ((of_char c :: nat) + 32)" by (simp add: lower_char_def)
      then have "(of_char (lower_char c) :: nat) = of_char c + 32" using True by simp
      then show ?thesis using l True by auto
    next
      case False
      then have "lower_char c = c" by (auto simp: lower_char_def Let_def)
      then show ?thesis using l by auto
    qed
    then show "ascii c \<and> 67 \<le> (of_char c :: nat) \<and> c \<noteq> CHR ''['' \<and> \<not> re_space c"
      using re_space_small [of c] by (auto simp: in_range_def)
  qed
qed

lemma match_fence_step:
  assumes a: "dropWhile re_space
      (if prefix ''/'' (dropWhile re_space cs) then tl (dropWhile re_space cs) else dropWhile re_space cs) = t @ u"
    and t: "to_lower t = ''content''" "length t = 7" and u: "dropWhile re_space u = CHR ''>'' # r"
  shows "match_fence (CHR ''<'' # cs) = Some r"
proof -
  have l: "take 7 (t @ u) = t" "drop 7 (t @ u) = u" using t(2) by simp_all
  have "match_fence (CHR ''<'' # cs) = (let s3 = dropWhile re_space (drop 7 (t @ u)) in
     if to_lower (take 7 (t @ u)) \<noteq> ''content'' then None else if prefix ''>'' s3 then Some (tl s3) else None)"
    unfolding match_fence_def list.case Let_def a by (rule if_not_P) simp
  then show ?thesis unfolding l t(1) u Let_def by simp
qed

lemma fence_char:
  assumes "re_space c \<or> c = CHR ''/'' \<or> c \<in> set t" "to_lower t = ''content''"
  shows "ascii c \<and> c \<noteq> CHR ''<'' \<and> c \<noteq> CHR ''['' \<and> c \<noteq> CHR ''>''"
  using assms(1)
proof (elim disjE)
  assume "c \<in> set t"
  then have "ascii c \<and> 67 \<le> (of_char c :: nat) \<and> c \<noteq> CHR ''[''" using content_chars(1) [OF assms(2)] by blast
  then show ?thesis by auto
qed (auto simp: re_space_def in_range_def)

lemma match_fence_complete: "fence w \<Longrightarrow> match_fence (w @ r) = Some r"
proof (induction rule: fence.induct)
  case (mark s1 s2 s3 sl t)
  note C = content_chars [OF mark(5)]
  obtain x t' where t: "t = x # t'" using C(2) by (cases t) simp_all
  have "x \<in> set t" by (simp add: t)
  with C(1) have x_ok: "67 \<le> (of_char x :: nat)" "\<not> re_space x" by blast+
  note x = t x_ok(2)
  have x': "x \<noteq> CHR ''/''" using x_ok(1) by auto
  have gt: "\<not> re_space (CHR ''>'')" "\<not> re_space (CHR ''/'')" by (simp_all add: re_space_def)
  let ?u = "s3 @ CHR ''>'' # r"
  let ?f = "\<lambda>cs. dropWhile re_space
      (if prefix ''/'' (dropWhile re_space cs) then tl (dropWhile re_space cs) else dropWhile re_space cs)"
  have "?f (s1 @ sl @ s2 @ t @ ?u) = t @ ?u"
  proof (cases "sl = []")
    case True
    have "blanks (s1 @ s2)" using mark by (simp add: blanks_def)
    from skip_blanks [OF this x(2)] have "dropWhile re_space (s1 @ sl @ s2 @ t @ ?u) = t @ ?u" using True x(1) by simp
    then show ?thesis using x x' by simp
  next
    case False
    then have "dropWhile re_space (s1 @ sl @ s2 @ t @ ?u) = CHR ''/'' # s2 @ t @ ?u"
      using mark(4) skip_blanks [OF mark(1) gt(2)] by auto
    moreover have "dropWhile re_space (s2 @ t @ ?u) = t @ ?u" using skip_blanks [OF mark(2) x(2)] x(1) by simp
    ultimately show ?thesis by simp
  qed
  from match_fence_step [OF this mark(5) C(2) skip_blanks [OF mark(3) gt(1)]]
  show ?case by (simp only: append.assoc append_Cons append_Nil)
qed

lemma fence_shape:
  "fence w \<Longrightarrow> \<exists>v. w = CHR ''<'' # v @ ''>'' \<and> CHR ''<'' \<notin> set v \<and> CHR ''['' \<notin> set v \<and> CHR ''>'' \<notin> set v \<and> list_all ascii v"
proof (induction rule: fence.induct)
  case (mark s1 s2 s3 sl t)
  let ?v = "s1 @ sl @ s2 @ t @ s3"
  have ok: "ascii c \<and> c \<noteq> CHR ''<'' \<and> c \<noteq> CHR ''['' \<and> c \<noteq> CHR ''>''" if "c \<in> set ?v" for c
  proof -
    from that have "re_space c \<or> c = CHR ''/'' \<or> c \<in> set t"
      using mark(1-4) by (auto simp: blanks_def list_all_iff)
    then show ?thesis using mark(5) by (rule fence_char)
  qed
  have "''<'' @ s1 @ sl @ s2 @ t @ s3 @ ''>'' = CHR ''<'' # ?v @ ''>''" by simp
  moreover have "CHR ''<'' \<notin> set ?v" "CHR ''['' \<notin> set ?v" "CHR ''>'' \<notin> set ?v" using ok by blast+
  moreover have "list_all ascii ?v" using ok unfolding list_all_iff by blast
  ultimately show ?case by blast
qed

lemma neutral_copy:
  "neutralizeContentDelimiters s = v @ b \<Longrightarrow> CHR ''['' \<notin> set v \<Longrightarrow> \<exists>b'. s = v @ b'"
proof (induction v arbitrary: s)
  case (Cons x v)
  then obtain c cs where s: "s = c # cs" by (cases s) auto
  have "match_fence (c # cs) = None"
    using Cons.prems by (auto simp: s neutralizeContentDelimiters.simps(2) split: option.splits)
  then have "x = c" "neutralizeContentDelimiters cs = v @ b"
    using Cons.prems by (simp_all add: s neutralizeContentDelimiters.simps(2))
  with Cons show ?case by (auto simp: s)
qed simp

lemma skip_block: "r @ y = a @ x # b \<Longrightarrow> x \<notin> set r \<Longrightarrow> \<exists>a'. a = r @ a'"
proof -
  assume "r @ y = a @ x # b" "x \<notin> set r"
  then obtain us where "r = a @ us \<and> us @ y = x # b \<or> r @ us = a" by (auto simp: append_eq_append_conv2)
  then show "\<exists>a'. a = r @ a'" using \<open>x \<notin> set r\<close> by (cases us) auto
qed

lemma neutral_no_fence: "no_fence (neutralizeContentDelimiters s)"
proof -
  have "\<not> fence w" if "neutralizeContentDelimiters s = a @ w @ b" for a w b
    using that
  proof (induction s arbitrary: a rule: neutralizeContentDelimiters.induct)
    case 1
    then show ?case using fence_shape by force
  next
    case (2 c cs)
    show ?case
    proof
      assume f: "fence w"
      obtain v where w: "w = CHR ''<'' # v" and v: "CHR ''['' \<notin> set v" using fence_shape [OF f] by auto
      show False
      proof (cases "match_fence (c # cs)")
        case (Some rest)
        then have eq: "''[content]'' @ neutralizeContentDelimiters rest = a @ w @ b"
          using "2.prems" by (simp add: neutralizeContentDelimiters.simps(2))
        have "CHR ''<'' \<notin> set ''[content]''" by simp
        with skip_block [of "''[content]''" "neutralizeContentDelimiters rest" a "CHR ''<''" "v @ b"] eq
        obtain a' where "a = ''[content]'' @ a'" by (auto simp: w)
        then have "neutralizeContentDelimiters rest = a' @ w @ b" using eq by simp
        from "2.IH"(2) [OF Some this] f show False by simp
      next
        case None
        then have eq: "c # neutralizeContentDelimiters cs = a @ w @ b"
          using "2.prems" by (simp add: neutralizeContentDelimiters.simps(2))
        show False
        proof (cases a)
          case Nil
          with eq w have "c = CHR ''<''" "neutralizeContentDelimiters cs = v @ b" by auto
          then obtain b' where "c # cs = w @ b'" using neutral_copy [OF _ v] w by fastforce
          with None match_fence_complete [OF f] show False by simp
        next
          case (Cons x a')
          with eq have "neutralizeContentDelimiters cs = a' @ w @ b" by simp
          from "2.IH"(1) [OF None this] f show False by simp
        qed
      qed
    qed
  qed
  then show ?thesis by (simp add: no_fence_def)
qed

text \<open>Cutting to whole runes keeps every ASCII text where it was.\<close>

lemma runes_prefix:
  "concat (take n (runes s)) = v @ b \<Longrightarrow> list_all ascii v \<Longrightarrow> \<exists>b'. s = v @ b'"
proof (induction v arbitrary: s n)
  case (Cons x v)
  then obtain c cs where s: "s = c # cs" by (cases s) auto
  obtain m where n: "n = Suc m" using Cons.prems by (cases n) auto
  have x: "ascii x" using Cons.prems by simp
  have rep: "\<not> ascii (CHR 0xEF)" by (simp add: in_range_def)
  have "ascii c"
  proof (rule ccontr)
    assume c: "\<not> ascii c"
    show False
    proof (cases "rune_width (c # cs) = 0")
      case True
      then show False using Cons.prems(1) c x rep by (simp add: s n runes_cases replacement_def)
    next
      case False
      then obtain k where "rune_width (c # cs) = Suc k" by (cases "rune_width (c # cs)") auto
      then show False using Cons.prems(1) c x by (simp add: s n runes_cases)
    qed
  qed
  then have "x = c" "concat (take m (runes cs)) = v @ b" using Cons.prems(1) by (simp_all add: s n runes_cases)
  with Cons.IH [of m cs] Cons.prems(2) show ?case by (auto simp: s)
qed simp

lemma runes_infix:
  "concat (take n (runes s)) = a @ w @ b \<Longrightarrow> w \<noteq> [] \<Longrightarrow> list_all ascii w \<Longrightarrow> \<exists>a' b'. s = a' @ w @ b'"
proof (induction s arbitrary: a n rule: runes.induct)
  case 1
  then show ?case by simp
next
  case (2 c cs)
  obtain y w' where w: "w = y # w'" "ascii y" using "2.prems"(2,3) by (cases w) auto
  show ?case
  proof (cases n)
    case 0
    then show ?thesis using "2.prems" by simp
  next
    case (Suc m)
    have rep: "\<forall>c\<in>set replacement. \<not> ascii c" by (simp add: replacement_def in_range_def)
    show ?thesis
    proof (cases "ascii c")
      case True
      then have rw: "rune_width (c # cs) = 1" using rune_width_1 by blast
      have eq: "c # concat (take m (runes cs)) = a @ w @ b" using "2.prems"(1) Suc True by (simp add: runes_cases)
      show ?thesis
      proof (cases a)
        case Nil
        then have "concat (take n (runes (c # cs))) = w @ b" using "2.prems"(1) by simp
        from runes_prefix [OF this "2.prems"(3)] show ?thesis by (metis append_Nil)
      next
        case (Cons z a')
        then have "concat (take m (runes cs)) = a' @ w @ b" using eq by simp
        moreover have "drop (rune_width (c # cs) - 1) cs = cs" using rw by simp
        ultimately obtain a'' b' where "cs = a'' @ w @ b'"
          using "2.IH"(2) [OF refl, of m a'] rw "2.prems"(2,3) by auto
        then show ?thesis by (metis append_Cons)
      qed
    next
      case False
      let ?k = "rune_width (c # cs)"
      show ?thesis
      proof (cases "?k = 0")
        case True
        then have "replacement @ concat (take m (runes cs)) = a @ y # w' @ b"
          using "2.prems"(1) Suc False w by (simp add: runes_cases)
        then obtain a' where "a = replacement @ a'" using skip_block rep w(2) by metis
        then have "concat (take m (runes cs)) = a' @ w @ b"
          using "2.prems"(1) Suc False True by (simp add: runes_cases)
        then obtain a'' b' where "cs = a'' @ w @ b'" using "2.IH"(1) [OF refl True, of m a'] "2.prems"(2,3) by auto
        then show ?thesis by (metis append_Cons)
      next
        case wide: False
        let ?r = "take ?k (c # cs)"
        have eq: "?r @ concat (take m (runes (drop (?k - 1) cs))) = a @ w @ b"
          using "2.prems"(1) Suc False wide by (simp add: runes_cases)
        have "y \<notin> set ?r" using rune_width_wide [OF False] w(2) by blast
        then obtain a' where a: "a = ?r @ a'" using skip_block eq w(1) by (metis append_Cons)
        then have "concat (take m (runes (drop (?k - 1) cs))) = a' @ w @ b" using eq by simp
        then obtain a'' b' where "drop (?k - 1) cs = a'' @ w @ b'"
          using "2.IH"(2) [OF refl wide, of m a'] "2.prems"(2,3) by auto
        moreover have "cs = take (?k - 1) cs @ drop (?k - 1) cs" by simp
        ultimately show ?thesis by (metis append.assoc append_Cons)
      qed
    qed
  qed
qed

text \<open>C10: text that goes into a prompt between \<^verbatim>\<open><content>\<close> and \<^verbatim>\<open></content>\<close> holds neither of them, in any case and
  with any blanks inside: neutralising leaves no match of the pattern, and cutting to size, which replaces
  invalid bytes and appends a marker, forms no new one.\<close>

theorem fence_unforgeable: "no_fence (clampContent (neutralizeContentDelimiters s) n)"
proof -
  let ?s = "neutralizeContentDelimiters s"
  have N: "no_fence ?s" by (rule neutral_no_fence)
  consider "n \<le> 0" | "n > 0" "int (length (runes ?s)) \<le> n" | "n > 0" "int (length (runes ?s)) > n" by linarith
  then show ?thesis
  proof cases
    case 1
    then show ?thesis using fence_shape by (auto simp: clampContent_def no_fence_def)
  next
    case 2
    then show ?thesis using N by (simp add: clampContent_def)
  next
    case 3
    let ?m = "'' '' @ ellipsis @ ''[truncated]''"
    have c: "clampContent ?s n = concat (take (nat n) (runes ?s)) @ ?m" using 3 by (simp add: clampContent_def)
    have "\<not> fence w" if eq: "concat (take (nat n) (runes ?s)) @ ?m = a @ w @ b" for a w b
    proof
      assume f: "fence w"
      then obtain v where v: "w = v @ ''>''" "list_all ascii w" using fence_shape by (force simp: in_range_def)
      have gt: "CHR ''>'' \<notin> set (rev ?m)" by (simp add: ellipsis_def)
      have "rev ?m @ rev (concat (take (nat n) (runes ?s))) = rev b @ CHR ''>'' # rev v @ rev a"
        using arg_cong [OF eq, of rev] v by simp
      from skip_block [OF this gt] obtain b' where "rev b = rev ?m @ b'" by auto
      then have "b = rev b' @ ?m" by (metis rev_append rev_rev_ident)
      then have "concat (take (nat n) (runes ?s)) = a @ w @ rev b'" using eq by simp
      from runes_infix [OF this] v fence_shape [OF f] obtain a' b'' where "?s = a' @ w @ b''" by auto
      with N [unfolded no_fence_def] f show False by blast
    qed
    then show ?thesis by (simp add: c no_fence_def)
  qed
qed

end
