(* ===== verification/Messages.thy ===== *)
theory Messages
  imports Prelude "HOL-Library.Sublist"
begin

text \<open>
  \<^verbatim>\<open>internal/messages/messages.go\<close>: the channel history the bouncer replays and \<^verbatim>\<open>CHATHISTORY\<close> and \<^verbatim>\<open>/tb\<close>
  read. The interface \<^verbatim>\<open>Store\<close> is the locale \<open>history\<close>; \<^verbatim>\<open>MemoryStore\<close> is the implementation, a bounded list
  per channel. The zero time is \<open>None\<close>.
\<close>

definition PerChannelCap :: nat where "PerChannelCap = 200"

record Message =
  m_ID :: string
  m_Channel :: string
  m_Nick :: string
  m_Text :: string
  m_TS :: instant

section \<open>The interface\<close>

definition older :: "instant option \<Rightarrow> Message \<Rightarrow> bool" where
  "older before m \<longleftrightarrow> (case before of None \<Rightarrow> True | Some b \<Rightarrow> m_TS m < b)"

text \<open>What a reader relies on: \<open>recent\<close> yields the newest kept messages of the channel that are strictly older than
  the bound, newest first, at most so many.\<close>

locale history =
  fixes kept :: "'s \<Rightarrow> string \<Rightarrow> Message list"
    and recent :: "'s \<Rightarrow> string \<Rightarrow> instant option \<Rightarrow> int \<Rightarrow> Message list"
  assumes recent_law: "ch \<noteq> [] \<Longrightarrow> recent s ch b n = take (nat n) (filter (older b) (rev (kept s ch)))"
begin

lemma recent_bounded: "ch \<noteq> [] \<Longrightarrow> length (recent s ch b n) \<le> nat n"
  by (simp add: recent_law)

lemma recent_older: "ch \<noteq> [] \<Longrightarrow> m \<in> set (recent s ch b n) \<Longrightarrow> older b m"
  by (auto simp: recent_law dest: in_set_takeD)

lemma recent_kept: "ch \<noteq> [] \<Longrightarrow> m \<in> set (recent s ch b n) \<Longrightarrow> m \<in> set (kept s ch)"
  by (auto simp: recent_law dest: in_set_takeD)

text \<open>Reversed, as every reader does, it is in the order of submission.\<close>

lemma replay_order: "ch \<noteq> [] \<Longrightarrow> subseq (rev (recent s ch b n)) (kept s ch)"
proof -
  assume "ch \<noteq> []"
  then have "rev (recent s ch b n) = drop (length (filter (older b) (kept s ch)) - nat n) (filter (older b) (kept s ch))"
    by (simp add: recent_law rev_take flip: rev_filter)
  moreover have "suffix (drop k xs) xs" for k and xs :: "Message list" by (rule suffix_drop)
  ultimately show ?thesis
    by (metis subseq_filter_left suffix_imp_subseq subseq_order.trans)
qed

lemma recent_all:
  "ch \<noteq> [] \<Longrightarrow> int (length (kept s ch)) \<le> n \<Longrightarrow> rev (recent s ch None n) = kept s ch"
  by (simp add: recent_law older_def)

text \<open>Paging: asking again, before the oldest message of a page, yields messages older than all of the page.\<close>

lemma next_page:
  "ch \<noteq> [] \<Longrightarrow> m \<in> set (recent s ch (Some (m_TS x)) n) \<Longrightarrow> m_TS m < m_TS x"
  using recent_older by (fastforce simp: older_def)

end

section \<open>The memory store\<close>

record MemoryStore =
  ms_cap :: nat
  ms_channels :: "string \<rightharpoonup> Message list"

definition NewMemoryStore :: "int \<Rightarrow> MemoryStore" where
  "NewMemoryStore c = \<lparr>ms_cap = (if c \<le> 0 then PerChannelCap else nat c), ms_channels = Map.empty\<rparr>"

definition ms_bucket :: "MemoryStore \<Rightarrow> string \<Rightarrow> Message list" where
  "ms_bucket s ch = (case ms_channels s ch of None \<Rightarrow> [] | Some b \<Rightarrow> b)"

definition Submit :: "Message \<Rightarrow> MemoryStore \<Rightarrow> MemoryStore" where
  "Submit m s =
     (if m_Channel m = [] then s
      else let b = ms_bucket s (m_Channel m) @ [m];
               b = (if length b > ms_cap s then drop (length b - ms_cap s) b else b)
           in s\<lparr>ms_channels := (ms_channels s)(m_Channel m \<mapsto> b)\<rparr>)"

text \<open>The loop walks the bucket from its end and stops once \<open>limit\<close> messages are out.\<close>

fun recent_loop :: "instant option \<Rightarrow> nat \<Rightarrow> Message list \<Rightarrow> Message list \<Rightarrow> Message list" where
  "recent_loop before limit [] out = out"
| "recent_loop before limit (m # ms) out =
     (if \<not> older before m then recent_loop before limit ms out
      else if length (out @ [m]) \<ge> limit then out @ [m]
      else recent_loop before limit ms (out @ [m]))"

definition Recent :: "MemoryStore \<Rightarrow> string \<Rightarrow> instant option \<Rightarrow> int \<Rightarrow> Message list" where
  "Recent s channel before limit =
     (if channel = [] \<or> limit \<le> 0 then []
      else if ms_bucket s channel = [] then []
      else recent_loop before (nat limit) (rev (ms_bucket s channel)) [])"

definition Len :: "MemoryStore \<Rightarrow> string \<Rightarrow> nat" where
  "Len s channel = length (ms_bucket s channel)"

lemma recent_loop_take:
  "length out < limit \<Longrightarrow> recent_loop before limit ms out = out @ take (limit - length out) (filter (older before) ms)"
proof (induction ms arbitrary: out)
  case (Cons m ms)
  then show ?case
    by (auto simp: take_Cons' diff_Suc split: nat.split)
qed simp

interpretation memory: history ms_bucket Recent
  by unfold_locales (auto simp: Recent_def recent_loop_take)

section \<open>Bounded, and exact within the bound\<close>

lemma ms_cap_Submit [simp]: "ms_cap (Submit m s) = ms_cap s"
  by (simp add: Submit_def Let_def)

text \<open>The last \<open>n\<close> elements.\<close>

definition lastn :: "nat \<Rightarrow> 'a list \<Rightarrow> 'a list" where
  "lastn n xs = drop (length xs - n) xs"

lemma lastn_if: "(if length xs > n then drop (length xs - n) xs else xs) = lastn n xs"
  by (simp add: lastn_def)

lemma bucket_Submit:
  assumes "ch \<noteq> []"
  shows "ms_bucket (Submit m s) ch =
     (if m_Channel m = ch then lastn (ms_cap s) (ms_bucket s ch @ [m]) else ms_bucket s ch)"
proof -
  let ?b = "lastn (ms_cap s) (ms_bucket s (m_Channel m) @ [m])"
  have S: "Submit m s = (if m_Channel m = [] then s else s\<lparr>ms_channels := (ms_channels s)(m_Channel m \<mapsto> ?b)\<rparr>)"
    unfolding Submit_def Let_def lastn_if by (rule refl)
  have upd: "ms_bucket (s\<lparr>ms_channels := (ms_channels s)(k \<mapsto> b)\<rparr>) ch = (if k = ch then b else ms_bucket s ch)" for k b
    by (simp add: ms_bucket_def)
  show ?thesis
  proof (cases "m_Channel m = ch")
    case True
    then show ?thesis using assms unfolding S by (simp only: upd if_False if_True refl not_False_eq_True)
  next
    case False
    then show ?thesis unfolding S by (simp only: upd if_False split: if_split) simp
  qed
qed

lemma lastn_snoc: "lastn n (lastn n xs @ [x]) = lastn n (xs @ [x])"
proof (cases "length xs < n")
  case False
  have "length xs - n + (Suc n - n) = Suc (length xs) - n" using False by simp
  then show ?thesis using False by (simp add: lastn_def drop_append)
qed (simp add: lastn_def)

lemma lastn_id: "length xs \<le> n \<Longrightarrow> lastn n xs = xs"
  by (simp add: lastn_def)

lemma rev_lastn: "rev (lastn n xs) = take n (rev xs)"
  by (cases "n \<le> length xs") (simp_all add: lastn_def rev_drop)

lemma bucket_Submit_all:
  assumes "ch \<noteq> []" "ms_bucket s ch = lastn (ms_cap s) xs"
  shows "ms_bucket (fold Submit ms s) ch = lastn (ms_cap s) (xs @ filter (\<lambda>m. m_Channel m = ch) ms)"
  using assms(2)
proof (induction ms arbitrary: s xs)
  case (Cons m ms)
  have "ms_bucket (Submit m s) ch = lastn (ms_cap s) (if m_Channel m = ch then xs @ [m] else xs)"
    using Cons.prems assms(1) by (simp add: bucket_Submit lastn_snoc)
  from Cons.IH [of "Submit m s", unfolded ms_cap_Submit, OF this] show ?case by simp
qed simp

text \<open>C31: the bounded store refines the history that keeps everything. After any submissions, a query yields the
  newest messages of exactly that channel that are strictly older than the bound, newest first, at most
  \<open>limit\<close>, from the last \<open>cap\<close> submitted to the channel; traffic in other channels never displaces any.\<close>

theorem store_refines:
  assumes "ch \<noteq> []" "cap > 0"
  shows "Recent (fold Submit ms (NewMemoryStore cap)) ch before limit =
    take (nat limit) (filter (older before) (take (nat cap) (rev (filter (\<lambda>m. m_Channel m = ch) ms))))"
proof -
  have "ms_bucket (NewMemoryStore cap) ch = lastn (ms_cap (NewMemoryStore cap)) []"
    by (simp add: ms_bucket_def NewMemoryStore_def lastn_def)
  from bucket_Submit_all [OF assms(1) this, of ms] memory.recent_law [OF assms(1)] assms(2)
  show ?thesis by (simp add: rev_lastn NewMemoryStore_def)
qed

definition note_msg :: "string \<Rightarrow> string \<Rightarrow> instant \<Rightarrow> Message" where
  "note_msg ch text ts = \<lparr>m_ID = [], m_Channel = ch, m_Nick = ''n'', m_Text = text, m_TS = ts\<rparr>"

theorem store_refines_witness:
  "Recent (fold Submit [note_msg ''#a'' ''1'' 1, note_msg ''#b'' ''2'' 2, note_msg ''#a'' ''3'' 3, note_msg ''#a'' ''4'' 4] (NewMemoryStore 2))
     ''#a'' (Some 4) 5 = [note_msg ''#a'' ''3'' 3]"
  by (subst store_refines) (simp_all add: note_msg_def older_def)

end
