(* ===== verification/Bouncer.thy ===== *)
theory Bouncer
  imports Dispatch Tb
begin

text \<open>
  \<^verbatim>\<open>internal/connector/irc/bouncer.go\<close> and \<^verbatim>\<open>chathistory.go\<close>: the server that local IRC clients attach to. It
  authenticates them, answers PING, CAP and CHATHISTORY itself, replays the session's state and history, forwards
  what the policy and the state of the upstream link allow, and fans what comes back out to all of them.

  The bouncer and the connector it fronts are one record, \<open>Hub\<close>, wired as \<^verbatim>\<open>startBouncer\<close> wires them: the bouncer
  reads the connector's machine and channel cache, writes its wanted set and preferred nick, and sends through its
  client. A client is a number; \<open>attached\<close> is the set \<^verbatim>\<open>b.clients\<close>, as a list because Go ranges over it. A client's
  socket takes \<open>accepts\<close> more lines (\<open>None\<close>: any number) and fails afterwards; \<open>got\<close> is what it was sent.
  A goroutine the code starts for \<^verbatim>\<open>/tb\<close> runs to its end at once.
\<close>

section \<open>State\<close>

record BouncerClient =
  bc_ip :: string
  auth :: bool
  caps :: "string list"
  capStarted :: bool
  welcomeDeferred :: bool
  closed :: bool
  serving :: bool
  deadline :: "instant option"
  accepts :: "nat option"
  got :: "string list"

definition newBouncerClient :: "string \<Rightarrow> nat option \<Rightarrow> BouncerClient" where
  "newBouncerClient ip lines_ok =
     \<lparr>bc_ip = ip, auth = False, caps = [], capStarted = False, welcomeDeferred = False, closed = False,
      serving = True, deadline = None, accepts = lines_ok, got = []\<rparr>"

text \<open>What the code takes from outside: random batch identifiers, the formatted and parsed times, Go's order over the
  capability map and over the members of a channel, the parsed URL, and the guarded fetch.\<close>

record benv =
  batch_id :: "nat \<Rightarrow> string"
  format_time :: "instant \<Rightarrow> string"
  parse_time :: "string \<Rightarrow> string \<Rightarrow> instant option"
  cap_order :: "string list"
  nick_order :: "string \<Rightarrow> string list"
  parse_url :: "string \<Rightarrow> URL option"
  guarded_fetch :: fetcher

record Hub =
  conn :: Connector
  password :: string
  rateLimiter :: "RateLimiter option"
  objs :: "nat \<rightharpoonup> BouncerClient"
  attached :: "nat list"
  started :: nat
  running :: bool
  upstreamNick :: string
  upstreamIdent :: string
  upstreamHost :: string
  has_state :: bool
  has_machine :: bool
  has_send :: bool
  has_wanted :: bool
  has_nick_hook :: bool
  has_observer :: bool
  limits :: ClientLimits
  outboundThrottle :: "Throttle option"
  has_attach_hook :: bool
  hook_log :: "string list"
  networkName :: string
  messageStore :: "store option"
  submitted :: "Messages.Message list"
  welcomeReplayDepth :: int
  tb :: tbHandler
  batches :: nat
  pingInterval :: duration
  pongGrace :: duration
  down :: bool

definition defaultClientPingInterval :: duration where "defaultClientPingInterval = 60 * second"
definition defaultClientPongGrace :: duration where "defaultClientPongGrace = 30 * second"
definition defaultReplayDepthOnAttach :: int where "defaultReplayDepthOnAttach = 200"
definition serviceNick :: string where "serviceNick = ''*turborg''"

definition NewBouncer :: "Connector \<Rightarrow> string \<Rightarrow> RateLimiter option \<Rightarrow> fetcher \<Rightarrow> string + Hub" where
  "NewBouncer c pw rl guarded =
     (if pw = [] then Inl ''bouncer: password cannot be empty''
      else Inr \<lparr>conn = c, password = pw, rateLimiter = rl, objs = Map.empty, attached = [], started = 0, running = False,
                upstreamNick = [], upstreamIdent = [], upstreamHost = ''turborg'', has_state = False,
                has_machine = False, has_send = False, has_wanted = False, has_nick_hook = False, has_observer = False,
                limits = no_limits, outboundThrottle = None, has_attach_hook = False, hook_log = [],
                networkName = [], messageStore = None, submitted = [], welcomeReplayDepth = 0,
                tb = newTBHandler guarded, batches = 0, pingInterval = defaultClientPingInterval,
                pongGrace = defaultClientPongGrace, down = False\<rparr>)"

definition AttachState_b :: "string \<Rightarrow> string \<Rightarrow> string \<Rightarrow> Hub \<Rightarrow> Hub" where
  "AttachState_b nick ident host h =
     (let h = h\<lparr>has_state := True, upstreamNick := nick, upstreamIdent := ident\<rparr>
      in if host \<noteq> [] then h\<lparr>upstreamHost := host\<rparr> else h)"

definition UpdateUpstreamNick_b :: "string \<Rightarrow> Hub \<Rightarrow> Hub" where
  "UpdateUpstreamNick_b nick h = h\<lparr>upstreamNick := nick\<rparr>"

definition UpdateUpstreamIdentity_b :: "string \<Rightarrow> string \<Rightarrow> Hub \<Rightarrow> Hub" where
  "UpdateUpstreamIdentity_b ident host h =
     (let h = h\<lparr>upstreamIdent := ident\<rparr> in if host \<noteq> [] then h\<lparr>upstreamHost := host\<rparr> else h)"

definition AttachWelcomeReplayDepth :: "int \<Rightarrow> Hub \<Rightarrow> Hub" where
  "AttachWelcomeReplayDepth n h = h\<lparr>welcomeReplayDepth := (if n \<le> 0 then defaultReplayDepthOnAttach else n)\<rparr>"

definition currentWelcomeReplayDepth :: "Hub \<Rightarrow> int" where
  "currentWelcomeReplayDepth h =
     (if welcomeReplayDepth h \<le> 0 then defaultReplayDepthOnAttach else welcomeReplayDepth h)"

definition attachTBHandler :: "tbHandler option \<Rightarrow> Hub \<Rightarrow> Hub" where
  "attachTBHandler t h = (case t of Some t \<Rightarrow> h\<lparr>tb := t\<rparr> | None \<Rightarrow> h)"

text \<open>\<^verbatim>\<open>startBouncer\<close>: the limiter, the bouncer, every attachment, then the start.\<close>

definition startBouncer ::
  "ClientLimits \<Rightarrow> Throttle option \<Rightarrow> bool \<Rightarrow> store option \<Rightarrow> tbHandler \<Rightarrow> int \<Rightarrow> Connector \<Rightarrow> string + Hub" where
  "startBouncer pol throttle hook st tbh depth c =
     (let s = settings c
      in case (if BouncerRatelimitEnabled s
               then map_sum id Some (NewRateLimiter (BouncerMaxFailedAttempts s)
                      (BouncerFailureWindowSeconds s * second) (BouncerLockoutSeconds s * second))
               else Inr None) of
           Inl e \<Rightarrow> Inl (''bouncer ratelimit: '' @ e)
         | Inr rl \<Rightarrow>
             (case NewBouncer c (BouncerPassword s) rl (\<lambda>_. None) of
                Inl e \<Rightarrow> Inl e
              | Inr h \<Rightarrow>
                  (let h = AttachState_b (currentNick c) (EffectiveUsername s) ''turborg'' h;
                       h = h\<lparr>limits := pol, outboundThrottle := throttle, has_attach_hook := hook, has_machine := True,
                             networkName := Hostname s, has_wanted := True, has_nick_hook := True, messageStore := st\<rparr>;
                       h = AttachWelcomeReplayDepth depth (attachTBHandler (Some tbh) h);
                       h = h\<lparr>has_send := True, has_observer := has_events c, running := True\<rparr>
                   in Inr (h\<lparr>conn := c\<lparr>bouncer := True\<rparr>\<rparr>))))"

section \<open>Writing to a client\<close>

definition sendLine :: "string \<Rightarrow> BouncerClient \<Rightarrow> BouncerClient \<times> bool" where
  "sendLine line cl =
     (let text = trim_right (\<lambda>c. c \<in> set crlf) line
      in if closed cl then (cl, True)
         else case accepts cl of
                None \<Rightarrow> (cl\<lparr>got := got cl @ [text]\<rparr>, False)
              | Some 0 \<Rightarrow> (cl, True)
              | Some (Suc n) \<Rightarrow> (cl\<lparr>got := got cl @ [text], accepts := Some n\<rparr>, False))"

definition on_client :: "(BouncerClient \<Rightarrow> BouncerClient) \<Rightarrow> nat \<Rightarrow> Hub \<Rightarrow> Hub" where
  "on_client f i h = (case objs h i of None \<Rightarrow> h | Some cl \<Rightarrow> h\<lparr>objs := (objs h)(i \<mapsto> f cl)\<rparr>)"

definition send_to :: "nat \<Rightarrow> string \<Rightarrow> Hub \<Rightarrow> Hub" where
  "send_to i line h = on_client (\<lambda>cl. fst (sendLine line cl)) i h"

definition send_all :: "nat \<Rightarrow> string list \<Rightarrow> Hub \<Rightarrow> Hub" where
  "send_all i ls h = fold (send_to i) ls h"

text \<open>A loop that returns at the first line that cannot be written.\<close>

fun send_while :: "nat \<Rightarrow> string list \<Rightarrow> Hub \<Rightarrow> Hub \<times> bool" where
  "send_while i [] h = (h, False)"
| "send_while i (l # ls) h =
     (if (case objs h i of None \<Rightarrow> True | Some cl \<Rightarrow> snd (sendLine l cl)) then (send_to i l h, True)
      else send_while i ls (send_to i l h))"

definition close_client :: "nat \<Rightarrow> Hub \<Rightarrow> Hub" where
  "close_client i h = on_client (\<lambda>cl. cl\<lparr>closed := True\<rparr>) i h"

definition client_has :: "Hub \<Rightarrow> nat \<Rightarrow> string \<Rightarrow> bool" where
  "client_has h i cap = (case objs h i of None \<Rightarrow> False | Some cl \<Rightarrow> cap \<in> set (caps cl))"

definition Authenticated :: "Hub \<Rightarrow> nat \<Rightarrow> bool" where
  "Authenticated h i = (case objs h i of None \<Rightarrow> False | Some cl \<Rightarrow> auth cl)"

text \<open>One turn of a fan-out: skip the excluded and the unauthenticated, drop a client that cannot be written to from
  the set. It is not closed.\<close>

definition fan_one :: "(BouncerClient \<Rightarrow> string) \<Rightarrow> nat option \<Rightarrow> nat \<Rightarrow> Hub \<Rightarrow> Hub" where
  "fan_one line_of exclude i h =
     (case objs h i of
        None \<Rightarrow> h
      | Some cl \<Rightarrow>
          (if exclude = Some i \<or> \<not> auth cl then h
           else let (cl', failed) = sendLine (line_of cl) cl;
                    h = h\<lparr>objs := (objs h)(i \<mapsto> cl')\<rparr>
                in if failed then h\<lparr>attached := removeAll i (attached h)\<rparr> else h))"

definition fan :: "(BouncerClient \<Rightarrow> string) \<Rightarrow> nat option \<Rightarrow> Hub \<Rightarrow> Hub" where
  "fan line_of exclude h = fold (fan_one line_of exclude) (attached h) h"

definition Broadcast_b :: "string \<Rightarrow> nat option \<Rightarrow> Hub \<Rightarrow> Hub" where
  "Broadcast_b line exclude h = fan (\<lambda>_. line) exclude h"

definition self_mask :: "Hub \<Rightarrow> string" where
  "self_mask h = '':'' @ upstreamNick h @ ''!'' @ upstreamIdent h @ ''@'' @ upstreamHost h"

definition upstreamPrefix :: "Hub \<Rightarrow> string" where
  "upstreamPrefix h = (if upstreamNick h = [] then [] else self_mask h)"

definition self_line :: "string \<Rightarrow> BouncerClient \<Rightarrow> string" where
  "self_line line cl =
     (if ''znc.in/self-message'' \<in> set (caps cl) then ''@znc.in/self-message '' @ line else line)"

definition BroadcastAsSelf_b :: "string \<Rightarrow> nat option \<Rightarrow> Hub \<Rightarrow> Hub" where
  "BroadcastAsSelf_b line exclude h =
     (let line = (if upstreamPrefix h \<noteq> [] then upstreamPrefix h @ '' '' @ line else line)
      in fan (self_line line) exclude h)"

section \<open>Notices\<close>

definition statusTarget :: "Hub \<Rightarrow> string" where
  "statusTarget h = (if upstreamNick h = [] then ''*'' else upstreamNick h)"

definition notifyPolicyDenial :: "nat \<Rightarrow> string \<Rightarrow> string \<Rightarrow> Hub \<Rightarrow> Hub" where
  "notifyPolicyDenial i tgt reason h =
     send_to i ('':turborg-bouncer NOTICE '' @ (if tgt = [] then ''*'' else tgt) @ '' :'' @ reason) h"

definition notifyService :: "nat \<Rightarrow> string \<Rightarrow> Hub \<Rightarrow> Hub" where
  "notifyService i body h =
     (let tgt = statusTarget h
      in if tgt = [] \<or> tgt = ''*'' then notifyPolicyDenial i ''*'' body h
         else send_to i ('':'' @ serviceNick @ ''!turborg@bouncer PRIVMSG '' @ tgt @ '' :'' @ body) h)"

definition network :: "Hub \<Rightarrow> string" where
  "network h = (if networkName h = [] then ''the network'' else networkName h)"

definition upstreamState :: "Hub \<Rightarrow> UpstreamState" where
  "upstreamState h = (if has_machine h then up (conn h) else Registered)"

definition firstJoinTarget :: "Protocol.Message \<Rightarrow> string" where
  "firstJoinTarget msg =
     (let tgt = (if length (Params msg) > 0 then Params msg ! 0 else []);
          tgt = (if tgt = [] then Trailing msg else tgt)
      in case splitAndTrim tgt (CHR '','') of [] \<Rightarrow> [] | ch # _ \<Rightarrow> ch)"

definition requested_nick :: "Protocol.Message \<Rightarrow> string" where
  "requested_nick msg =
     trim_space (if Trailing msg = [] \<and> length (Params msg) > 0 then Params msg ! 0 else Trailing msg)"

definition notifyPolicyDenialForCommand :: "nat \<Rightarrow> Protocol.Message \<Rightarrow> string \<Rightarrow> Hub \<Rightarrow> Hub" where
  "notifyPolicyDenialForCommand i msg baseReason h =
     (if Command msg = CmdJoin then
        (let tgt = firstJoinTarget msg
         in notifyService i
              (if tgt \<noteq> [] then ''Channel cap reached '' @ em_dash @ '' NOT joined '' @ tgt @
                               ''. /part another channel first, or raise the operator policy limit.''
               else ''Channel cap reached '' @ em_dash @ '' NOT joined.'') h)
      else if Command msg = CmdNick then
        (let n = requested_nick msg
         in notifyService i
              (if n \<noteq> [] then ''Nick change to '' @ n @ '' rejected '' @ em_dash @ '' locked by operator policy.''
               else ''Nick change rejected '' @ em_dash @ '' locked by operator policy.'') h)
      else notifyService i baseReason h)"

text \<open>The fan of a notice over every joined channel, and one copy in the service tab of each client.\<close>

definition broadcastServiceAudit :: "string \<Rightarrow> Hub \<Rightarrow> Hub" where
  "broadcastServiceAudit body h =
     (if body = [] then h
      else fold (\<lambda>i h. if Authenticated h i then notifyService i body h else h) (attached h) h)"

definition joined_names :: "Hub \<Rightarrow> string list" where
  "joined_names h = (if has_state h then map ci_Name (JoinedChannels (chan_state (conn h))) else [])"

definition broadcastChannelNotice :: "string \<Rightarrow> Hub \<Rightarrow> Hub" where
  "broadcastChannelNotice body h =
     (if body = [] then h
      else broadcastServiceAudit body
             (fold (\<lambda>name h. Broadcast_b ('':turborg-bouncer NOTICE '' @ name @ '' :'' @ body) None h)
                (joined_names h) h))"

definition onUpstreamStateChange :: "UpstreamStateChange \<Rightarrow> Hub \<Rightarrow> Hub" where
  "onUpstreamStateChange change h =
     (let entering = (To change = Registered);
          leaving = (From change = Registered \<and> To change \<noteq> Registered)
      in if \<not> entering \<and> \<not> leaving then h
         else if entering then
           (if From change = Idle \<or> From change = Connecting \<or> From change = Registering then h
            else broadcastChannelNotice (''Reconnected to '' @ network h @ ''. You're back live.'') h)
         else broadcastChannelNotice (DescribeUpstreamState (To change) (network h) (ServerReason change)) h)"

definition onUpstreamWarn :: "string \<Rightarrow> duration \<Rightarrow> Hub \<Rightarrow> Hub" where
  "onUpstreamWarn reason dwell h =
     (let rounded = round_to dwell (60 * second);
          rounded = (if rounded \<le> 0 then round_to dwell second else rounded);
          body = ''Network unreachable for over '' @ duration_str rounded @ '' '' @ em_dash @ '' still retrying.''
      in broadcastChannelNotice (if reason \<noteq> [] then body @ '' Last reason: '' @ reason @ ''.'' else body) h)"

definition NotifyJoinFailure_b :: "string \<Rightarrow> string \<Rightarrow> Hub \<Rightarrow> Hub" where
  "NotifyJoinFailure_b channel reason h =
     (if channel = [] then h
      else let reason = (if reason = [] then ''rejected by network'' else reason)
           in Broadcast_b ('':turborg-bouncer NOTICE '' @ channel @ '' :Could not rejoin '' @ channel @ '': '' @ reason @
                ''. Removed from auto-join. Use /join '' @ channel @ '' to retry.'') None h)"

definition surfaceStateToClient :: "nat \<Rightarrow> Hub \<Rightarrow> Hub" where
  "surfaceStateToClient i h =
     (if \<not> has_machine h then h
      else let body = DescribeUpstreamState (up (conn h)) (network h) (serverReason (machine (conn h)))
           in if body = [] then h else send_to i ('':turborg-bouncer NOTICE * :'' @ body) h)"

end
