(* ===== verification/Client_Line.thy ===== *)
theory Client_Line
  imports Bouncer
begin

text \<open>
  \<^verbatim>\<open>internal/connector/irc/bouncer.go\<close> and \<^verbatim>\<open>chathistory.go\<close>, continued: what the bouncer does with each line a
  client sends, and the life of a connection.
\<close>

section \<open>When the upstream link is down\<close>

definition detachedRejectBody :: "UpstreamState \<Rightarrow> string \<Rightarrow> Hub \<Rightarrow> string" where
  "detachedRejectBody st cmd h =
     (let verb = (if cmd = CmdPrivmsg \<or> cmd = CmdNotice then ''message NOT sent'' else ''operation NOT performed'');
          net = network h;
          dash = '' '' @ em_dash @ '' ''
      in case st of
           DisconnectedNickUnavailable \<Rightarrow>
             ''Nickname unavailable on '' @ net @ dash @ verb @ ''. Retrying with an alternate.''
         | DisconnectedAuthFailed \<Rightarrow>
             ''Authentication failed for '' @ net @ dash @ verb @ ''. Update credentials and restart the connector.''
         | DisconnectedBanned \<Rightarrow> ''Banned from '' @ net @ dash @ verb @ ''. Manual intervention required.''
         | PausedIdle \<Rightarrow> ''Connector paused after extended unreachability'' @ dash @ verb @ ''. Restart to retry.''
         | Stopped \<Rightarrow> ''Connector stopped'' @ dash @ verb @ ''.''
         | Idle \<Rightarrow> ''Not yet connected to '' @ net @ dash @ verb @ ''. Connecting'' @ ellipsis
         | Connecting \<Rightarrow> ''Not yet connected to '' @ net @ dash @ verb @ ''. Connecting'' @ ellipsis
         | Registering \<Rightarrow> ''Not yet connected to '' @ net @ dash @ verb @ ''. Connecting'' @ ellipsis
         | _ \<Rightarrow> ''Not connected to '' @ net @ dash @ verb @ ''. Reconnecting.'')"

definition on_wanted :: "(WantedChannels \<Rightarrow> WantedChannels) \<Rightarrow> Hub \<Rightarrow> Hub" where
  "on_wanted f h =
     (if has_wanted h then h\<lparr>conn := (conn h)\<lparr>wanted := f (wanted (conn h))\<rparr>\<rparr> else h)"

definition handleDetachedJoin :: "nat \<Rightarrow> Protocol.Message \<Rightarrow> Hub \<Rightarrow> Hub" where
  "handleDetachedJoin i msg h =
     (let (chans, keys) = parseJoinLine (Params msg) (Trailing msg)
      in fold (\<lambda>(ch, key) h.
                 let h = on_wanted (\<lambda>w. fst (Add ch key w)) h
                 in notifyService i
                      (''Queued JOIN '' @ ch @ '' '' @ em_dash @ '' channel will be available when reconnected to '' @
                       network h @ ''.'') h)
           (zip chans keys) h)"

definition handleDetachedPart :: "nat \<Rightarrow> Protocol.Message \<Rightarrow> Hub \<Rightarrow> Hub" where
  "handleDetachedPart i msg h =
     (if Params msg = [] then h
      else fold (\<lambda>ch h.
                   let h = on_wanted (\<lambda>w. fst (Remove ch w)) h
                   in notifyService i
                        (''Removed '' @ ch @ '' from the auto-join list. Will not rejoin on next reconnect.'') h)
             (splitAndTrim (Params msg ! 0) (CHR '','')) h)"

definition handleDetachedNick :: "nat \<Rightarrow> Protocol.Message \<Rightarrow> Hub \<Rightarrow> Hub" where
  "handleDetachedNick i msg h =
     (let n = requested_nick msg
      in if n = [] then h
         else let h = (if has_nick_hook h then h\<lparr>conn := SetPreferredNick n (conn h)\<rparr> else h)
              in notifyService i
                   (''Nick change queued '' @ em_dash @ '' '' @ n @ '' will be used on next reconnect to '' @
                    network h @ ''.'') h)"

definition handleDetachedRefusal :: "nat \<Rightarrow> Protocol.Message \<Rightarrow> Hub \<Rightarrow> Hub" where
  "handleDetachedRefusal i msg h =
     (let body = detachedRejectBody (upstreamState h) (Command msg) h
      in if Command msg = CmdPrivmsg \<or> Command msg = CmdNotice
         then send_to i ('':turborg-bouncer NOTICE '' @
                (if length (Params msg) > 0 then Params msg ! 0 else statusTarget h) @ '' :'' @ body) h
         else notifyService i body h)"

definition rejectForDetached :: "nat \<Rightarrow> Protocol.Message \<Rightarrow> Hub \<Rightarrow> Hub" where
  "rejectForDetached i msg h =
     (if Command msg = CmdJoin then handleDetachedJoin i msg h
      else if Command msg = CmdPart then handleDetachedPart i msg h
      else if Command msg = CmdNick then handleDetachedNick i msg h
      else handleDetachedRefusal i msg h)"

section \<open>Policy\<close>

definition allowByPolicy :: "nat \<Rightarrow> Protocol.Message \<Rightarrow> Hub \<Rightarrow> Hub \<times> bool" where
  "allowByPolicy i msg h =
     (let currentChannels = (if Command msg = CmdJoin \<and> has_state h then Channel_State.Count (chan_state (conn h)) else 0)
      in case AllowCommand (limits h) (Command msg) (int currentChannels) of
           Some reason \<Rightarrow> (notifyPolicyDenialForCommand i msg reason h, False)
         | None \<Rightarrow>
             (case outboundThrottle h of
                None \<Rightarrow> (h, True)
              | Some t \<Rightarrow>
                  (if Command msg = CmdPrivmsg \<and> length (Params msg) > 0
                   then let tgt = Params msg ! 0;
                            (t, res) = AllowWithReason (clock (conn h)) tgt t;
                            h = h\<lparr>outboundThrottle := Some t\<rparr>
                        in if Allow res then (h, True)
                           else (notifyPolicyDenial i tgt
                                   (''Message rate-limited '' @ em_dash @ '' wait '' @ itoa (wait_seconds (RetryAfter res)) @
                                    ''s before sending to '' @ tgt @ '' again. NOT sent.'') h, False)
                   else (h, True))))"

section \<open>Forwarding\<close>

definition forwardable :: "string \<Rightarrow> bool" where
  "forwardable cmd \<longleftrightarrow>
     cmd \<in> {CmdPrivmsg, CmdNotice, CmdJoin, CmdPart, CmdMode, CmdTopic, CmdKick, CmdNick, CmdNames, CmdWhois, CmdWho}"

definition requiresTarget :: "string \<Rightarrow> bool" where
  "requiresTarget cmd \<longleftrightarrow>
     cmd \<in> {CmdPrivmsg, CmdNotice, CmdJoin, CmdPart, CmdMode, CmdTopic, CmdKick, CmdNames, CmdWhois, CmdWho}"

definition isWellFormed :: "Protocol.Message \<Rightarrow> bool" where
  "isWellFormed m \<longleftrightarrow>
     (if Command m = CmdNick then length (Params m) > 0 \<or> Trailing m \<noteq> []
      else if requiresTarget (Command m) then length (Params m) > 0 \<and> Params m ! 0 \<noteq> []
      else True)"

definition recordJoinedToWanted :: "Protocol.Message \<Rightarrow> Hub \<Rightarrow> Hub" where
  "recordJoinedToWanted msg h =
     (let (chans, keys) = parseJoinLine (Params msg) (Trailing msg)
      in on_wanted (\<lambda>w. fold (\<lambda>(ch, key) w. fst (Add ch key w)) (zip chans keys) w) h)"

definition recordPartedFromWanted :: "Protocol.Message \<Rightarrow> Hub \<Rightarrow> Hub" where
  "recordPartedFromWanted msg h =
     (if Params msg = [] then h
      else on_wanted (\<lambda>w. fold (\<lambda>ch w. fst (Remove ch w)) (splitAndTrim (Params msg ! 0) (CHR '','')) w) h)"

text \<open>The observer publishes a \<^verbatim>\<open>MESSAGE_SENT\<close> event.\<close>

definition fanMessage :: "nat \<Rightarrow> Protocol.Message \<Rightarrow> string \<Rightarrow> Hub \<Rightarrow> Hub" where
  "fanMessage i msg line h =
     (let exclude = (if client_has h i ''echo-message'' then None else Some i);
          h = BroadcastAsSelf_b line exclude h
      in if \<not> has_observer h \<or> Params msg = [] then h
         else h\<lparr>conn := publish EventMessageSent
                  [conn_field, (''channel'', VStr (Params msg ! 0)), (''sender'', VStr (statusTarget h)),
                   (''text'', VStr (Trailing msg)), (''kind'', VStr (Command msg))] (conn h)\<rparr>)"

definition afterForwarded :: "nat \<Rightarrow> Protocol.Message \<Rightarrow> string \<Rightarrow> Hub \<Rightarrow> Hub" where
  "afterForwarded i msg line h =
     (if Command msg = CmdPrivmsg \<or> Command msg = CmdNotice then fanMessage i msg line h
      else if Command msg = CmdJoin then recordJoinedToWanted msg h
      else if Command msg = CmdPart then recordPartedFromWanted msg h
      else h)"

text \<open>The closure \<^verbatim>\<open>startBouncer\<close> attaches: an error while there is no client, else a write on its socket.\<close>

definition send_upstream :: "string \<Rightarrow> Connector \<Rightarrow> Connector \<times> err option" where
  "send_upstream line c =
     (if client c = None then (c, Some (errorf ''irc: upstream not yet connected; please retry''))
      else sock_write line c)"

definition forward :: "nat \<Rightarrow> Protocol.Message \<Rightarrow> string \<Rightarrow> Hub \<Rightarrow> Hub" where
  "forward i msg line h =
     (if \<not> forwardable (Command msg) then h
      else if \<not> isWellFormed msg then h
      else if upstreamState h \<noteq> Registered then rejectForDetached i msg h
      else case allowByPolicy i msg h of
             (h, False) \<Rightarrow> h
           | (h, True) \<Rightarrow>
               (if \<not> has_send h then h
                else case send_upstream line (conn h) of
                       (c, Some _) \<Rightarrow> rejectForDetached i msg (h\<lparr>conn := c\<rparr>)
                     | (c, None) \<Rightarrow> afterForwarded i msg line (h\<lparr>conn := c\<rparr>)))"

section \<open>History\<close>

definition decorateReplayLine :: "benv \<Rightarrow> string \<Rightarrow> instant \<Rightarrow> bool \<Rightarrow> string \<Rightarrow> string" where
  "decorateReplayLine env line ts tagTime batchID =
     (let hasTags = prefix ''@'' line;
          added = (if batchID \<noteq> [] then [''batch='' @ batchID] else []) @
                  (if tagTime \<and> \<not> hasTags then [''time='' @ format_time env ts] else [])
      in if added = [] then line
         else if \<not> hasTags then ''@'' @ join '';'' added @ '' '' @ line
         else case index_byte sp line of
                None \<Rightarrow> line
              | Some k \<Rightarrow> ''@'' @ join '';'' added @ '';'' @ drop 1 (take k line) @ '' '' @ drop (Suc k) line)"

definition formatMessageForReplay :: "Hub \<Rightarrow> Messages.Message \<Rightarrow> string" where
  "formatMessageForReplay h m =
     (if m_Nick m = upstreamNick h \<and> upstreamNick h \<noteq> [] then self_mask h
      else '':'' @ m_Nick m @ ''!~user@upstream'') @ '' PRIVMSG '' @ m_Channel m @ '' :'' @ m_Text m"

definition replay_lines :: "benv \<Rightarrow> Hub \<Rightarrow> bool \<Rightarrow> string \<Rightarrow> Messages.Message list \<Rightarrow> string list" where
  "replay_lines env h tagTime batchID msgs =
     map (\<lambda>m. decorateReplayLine env (formatMessageForReplay h m) (m_TS m) tagTime batchID) msgs"

definition newBatchID :: "benv \<Rightarrow> Hub \<Rightarrow> Hub \<times> string" where
  "newBatchID env h = (h\<lparr>batches := Suc (batches h)\<rparr>, batch_id env (batches h))"

definition writeReplayBatch ::
  "benv \<Rightarrow> nat \<Rightarrow> string \<Rightarrow> Messages.Message list \<Rightarrow> bool \<Rightarrow> bool \<Rightarrow> Hub \<Rightarrow> Hub" where
  "writeReplayBatch env i channel msgs tagTime useBatch h =
     (let (h, batchID) = (if useBatch then newBatchID env h else (h, []));
          h = send_to i
                (if useBatch then ''BATCH +'' @ batchID @ '' chathistory '' @ channel
                 else '':turborg-bouncer NOTICE '' @ channel @ '' :--- buffer playback for '' @ channel @ '' ('' @
                      nat_str (length msgs) @ '' lines) ---'') h;
          (h, failed) = send_while i (replay_lines env h tagTime batchID msgs) h
      in if failed then h
         else send_to i (if useBatch then ''BATCH -'' @ batchID
                         else '':turborg-bouncer NOTICE '' @ channel @ '' :--- end of buffer ---'') h)"

definition writeChathistoryBatch :: "benv \<Rightarrow> nat \<Rightarrow> string \<Rightarrow> Messages.Message list \<Rightarrow> Hub \<Rightarrow> Hub" where
  "writeChathistoryBatch env i tgt msgs h =
     (let useBatch = client_has h i ''batch'';
          tagTime = client_has h i ''server-time'';
          (h, batchID) = (if useBatch then newBatchID env h else (h, []));
          h = (if useBatch then send_to i (''BATCH +'' @ batchID @ '' chathistory '' @ tgt) h else h);
          h = send_all i (replay_lines env h tagTime batchID msgs) h
      in if useBatch then send_to i (''BATCH -'' @ batchID) h else h)"

definition parseChathistorySelector :: "benv \<Rightarrow> string \<Rightarrow> instant option" where
  "parseChathistorySelector env selector =
     (if \<not> prefix ''timestamp='' selector then None
      else let raw = drop 10 selector
           in case parse_time env ''2006-01-02T15:04:05.999999999Z07:00'' raw of
                Some t \<Rightarrow> Some t
              | None \<Rightarrow>
                  (case parse_time env ''2006-01-02T15:04:05.000Z'' raw of
                     Some t \<Rightarrow> Some t
                   | None \<Rightarrow> parse_time env ''2006-01-02T15:04:05Z'' raw))"

definition sendChathistoryFail :: "nat \<Rightarrow> string \<Rightarrow> string \<Rightarrow> string \<Rightarrow> Hub \<Rightarrow> Hub" where
  "sendChathistoryFail i code ctx text h =
     send_to i (''FAIL CHATHISTORY '' @ code @ '' '' @ (if ctx = [] then ''*'' else ctx) @ '' :'' @ text) h"

definition chathistoryMaxLimit :: int where "chathistoryMaxLimit = 200"

definition chathistory_reply :: "benv \<Rightarrow> nat \<Rightarrow> string \<Rightarrow> instant option \<Rightarrow> int \<Rightarrow> Hub \<Rightarrow> Hub" where
  "chathistory_reply env i tgt before limit h =
     (case messageStore h of
        None \<Rightarrow> writeChathistoryBatch env i tgt [] h
      | Some recent \<Rightarrow>
          (case recent tgt before limit of
             Inl _ \<Rightarrow> sendChathistoryFail i ''MESSAGE_ERROR'' tgt ''history lookup failed'' h
           | Inr out \<Rightarrow> writeChathistoryBatch env i tgt (rev out) h))"

text \<open>A parsed bound that is the zero time reads as no bound. Instants are Unix nanoseconds.\<close>

definition zero_time :: instant where "zero_time = - 62135596800 * 10 ^ 9"

definition bound :: "instant \<Rightarrow> instant option" where
  "bound t = (if t = zero_time then None else Some t)"

definition handleChathistory :: "benv \<Rightarrow> nat \<Rightarrow> Protocol.Message \<Rightarrow> Hub \<Rightarrow> Hub" where
  "handleChathistory env i msg h =
     (if length (Params msg) < 4
      then sendChathistoryFail i ''NEED_MORE_PARAMS'' (Command msg) ''Need <subcommand> <target> <selector> <limit>'' h
      else let sub = to_upper (Params msg ! 0); tgt = Params msg ! 1; selector = Params msg ! 2
      in if tgt = [] \<or> \<not> startsWithChannelSigil tgt
         then sendChathistoryFail i ''INVALID_TARGET'' tgt ''Channel target required for CHATHISTORY'' h
      else case atoi (Params msg ! 3) of
        None \<Rightarrow> sendChathistoryFail i ''INVALID_PARAMS'' tgt ''Limit must be a positive integer'' h
      | Some limit \<Rightarrow>
          (if limit \<le> 0 then sendChathistoryFail i ''INVALID_PARAMS'' tgt ''Limit must be a positive integer'' h
           else let limit = (if limit > chathistoryMaxLimit then chathistoryMaxLimit else limit)
           in if sub = ''BEFORE'' then
                (case parseChathistorySelector env selector of
                   None \<Rightarrow> sendChathistoryFail i ''INVALID_PARAMS'' tgt ''Selector must be timestamp=<ISO8601>'' h
                 | Some t \<Rightarrow> chathistory_reply env i tgt (bound t) limit h)
              else if sub = ''LATEST'' then
                (if selector = ''*'' then chathistory_reply env i tgt None limit h
                 else case parseChathistorySelector env selector of
                        None \<Rightarrow>
                          sendChathistoryFail i ''INVALID_PARAMS'' tgt ''Selector must be * or timestamp=<ISO8601>'' h
                      | Some t \<Rightarrow> chathistory_reply env i tgt (bound t) limit h)
              else sendChathistoryFail i ''UNKNOWN_COMMAND'' sub ''Subcommand not implemented'' h))"

section \<open>The welcome\<close>

text \<open>The session as a client sees it on attach: each joined channel, its topic, its members.\<close>

definition member_parts :: "benv \<Rightarrow> ChannelInfo \<Rightarrow> string list" where
  "member_parts env info =
     List.map_filter (\<lambda>n. map_option (\<lambda>p. p @ n) (Members info n)) (nick_order env (ci_Name info))"

definition state_lines :: "benv \<Rightarrow> Hub \<Rightarrow> ChannelInfo \<Rightarrow> string list" where
  "state_lines env h info =
     (let tgt = upstreamNick h; name = ci_Name info; parts = member_parts env info
      in [self_mask h @ '' JOIN '' @ name] @
         (if TopicSet info then
            ['':turborg-bouncer 332 '' @ tgt @ '' '' @ name @ '' :'' @ Topic info] @
            (if TopicSetBy info \<noteq> [] \<and> TopicSetAt info > 0
             then ['':turborg-bouncer 333 '' @ tgt @ '' '' @ name @ '' '' @ TopicSetBy info @ '' '' @ itoa (TopicSetAt info)]
             else [])
          else []) @
         (if parts \<noteq> [] then ['':turborg-bouncer 353 '' @ tgt @ '' = '' @ name @ '' :'' @ join '' '' parts] else []) @
         ['':turborg-bouncer 366 '' @ tgt @ '' '' @ name @ '' :End of /NAMES list''])"

definition replayState :: "benv \<Rightarrow> nat \<Rightarrow> Hub \<Rightarrow> Hub" where
  "replayState env i h =
     (if \<not> has_state h \<or> upstreamNick h = [] then h
      else send_all i (concat (map (state_lines env h) (JoinedChannels (chan_state (conn h))))) h)"

definition replay_channel ::
  "benv \<Rightarrow> nat \<Rightarrow> store \<Rightarrow> bool \<Rightarrow> bool \<Rightarrow> int \<Rightarrow> string \<Rightarrow> Hub \<Rightarrow> Hub" where
  "replay_channel env i recent tagTime useBatch depth name h =
     (case recent name None depth of
        Inl _ \<Rightarrow> h
      | Inr [] \<Rightarrow> h
      | Inr (m # ms) \<Rightarrow> writeReplayBatch env i name (rev (m # ms)) tagTime useBatch h)"

definition replayChannelLogs :: "benv \<Rightarrow> nat \<Rightarrow> Hub \<Rightarrow> Hub" where
  "replayChannelLogs env i h =
     (case messageStore h of
        None \<Rightarrow> h
      | Some recent \<Rightarrow>
          (if \<not> has_state h \<or> upstreamNick h = [] then h
           else fold (replay_channel env i recent (client_has h i ''server-time'') (client_has h i ''batch'')
                        (currentWelcomeReplayDepth h))
                  (joined_names h) h))"

definition sendWelcome :: "benv \<Rightarrow> nat \<Rightarrow> Hub \<Rightarrow> Hub" where
  "sendWelcome env i h =
     (let h = send_to i ('':turborg-bouncer 001 '' @ statusTarget h @ '' :Welcome to the turborg bouncer'') h;
          h = send_to i ('':turborg-bouncer NOTICE * :System messages from this bouncer arrive in the '' @ serviceNick @
                '' query tab '' @ em_dash @ '' open it for policy denials, queued actions, and similar meta-info.'') h;
          h = surfaceStateToClient i h;
          h = replayState env i h
      in replayChannelLogs env i h)"

section \<open>Capabilities\<close>

definition supportedCaps :: "string list" where
  "supportedCaps =
     [''echo-message'', ''znc.in/self-message'', ''message-tags'', ''server-time'', ''account-tag'', ''away-notify'',
      ''batch'', ''draft/chathistory'']"

definition startCapNeg :: "BouncerClient \<Rightarrow> BouncerClient" where
  "startCapNeg cl = cl\<lparr>capStarted := True\<rparr>"

definition endCapNeg :: "BouncerClient \<Rightarrow> BouncerClient \<times> bool" where
  "endCapNeg cl =
     (let cl = cl\<lparr>capStarted := False\<rparr>
      in if welcomeDeferred cl then (cl\<lparr>welcomeDeferred := False\<rparr>, True) else (cl, False))"

definition deferOrAllowWelcome :: "BouncerClient \<Rightarrow> BouncerClient \<times> bool" where
  "deferOrAllowWelcome cl = (if capStarted cl then (cl\<lparr>welcomeDeferred := True\<rparr>, False) else (cl, True))"

definition ackCap :: "string \<Rightarrow> BouncerClient \<Rightarrow> BouncerClient" where
  "ackCap c cl = cl\<lparr>caps := List.insert c (caps cl)\<rparr>"

definition handleCap :: "benv \<Rightarrow> nat \<Rightarrow> Protocol.Message \<Rightarrow> Hub \<Rightarrow> Hub" where
  "handleCap env i msg h =
     (let sub = (if length (Params msg) > 0 then to_upper (Params msg ! 0) else [])
      in if sub = ''LS'' then
           send_to i ('':turborg-bouncer CAP * LS :'' @ join '' '' (filter (\<lambda>c. c \<in> set supportedCaps) (cap_order env)))
             (on_client startCapNeg i h)
         else if sub = ''REQ'' then
           (let requested = (if Trailing msg = [] \<and> length (Params msg) > 1 then join '' '' (tl (Params msg)) else Trailing msg);
                ack = filter (\<lambda>c. c \<in> set supportedCaps) (go_fields requested);
                nak = filter (\<lambda>c. c \<notin> set supportedCaps) (go_fields requested);
                h = on_client (\<lambda>cl. fold ackCap ack (startCapNeg cl)) i h;
                h = (if ack \<noteq> [] then send_to i ('':turborg-bouncer CAP * ACK :'' @ join '' '' ack) h else h)
            in if nak \<noteq> [] then send_to i ('':turborg-bouncer CAP * NAK :'' @ join '' '' nak) h else h)
         else if sub = ''LIST'' then
           send_to i ('':turborg-bouncer CAP * LIST :'' @ join '' '' (filter (client_has h i) (cap_order env))) h
         else if sub = ''END'' then
           (case objs h i of
              None \<Rightarrow> h
            | Some cl \<Rightarrow>
                (let (cl', flush) = endCapNeg cl;
                     h = h\<lparr>objs := (objs h)(i \<mapsto> cl')\<rparr>
                 in if flush then sendWelcome env i h else h))
         else h)"

section \<open>Authentication\<close>

definition fire_hook :: "string \<Rightarrow> Hub \<Rightarrow> Hub" where
  "fire_hook reason h = (if has_attach_hook h then h\<lparr>hook_log := hook_log h @ [reason]\<rparr> else h)"

text \<open>\<^verbatim>\<open>IsLocked\<close> forgets a lock that has run out.\<close>

definition check_lock :: "string \<Rightarrow> Hub \<Rightarrow> Hub \<times> bool" where
  "check_lock ip h =
     (case rateLimiter h of
        None \<Rightarrow> (h, False)
      | Some r \<Rightarrow>
          (if ip = [] then (h, False)
           else let (r, remaining) = TimeUntilUnlock (clock (conn h)) ip r
                in (h\<lparr>rateLimiter := Some r\<rparr>, remaining > 0)))"

definition on_limiter :: "(RateLimiter \<Rightarrow> RateLimiter) \<Rightarrow> string \<Rightarrow> Hub \<Rightarrow> Hub" where
  "on_limiter f ip h =
     (case rateLimiter h of None \<Rightarrow> h | Some r \<Rightarrow> (if ip = [] then h else h\<lparr>rateLimiter := Some (f r)\<rparr>))"

definition handlePass :: "benv \<Rightarrow> nat \<Rightarrow> string list \<Rightarrow> Hub \<Rightarrow> Hub" where
  "handlePass env i params h =
     (case objs h i of
        None \<Rightarrow> h
      | Some cl \<Rightarrow>
          (let ip = bc_ip cl;
               (h, locked) = check_lock ip h
           in if locked then close_client i (send_to i ''ERROR :Closing Link (Too many attempts)'' h)
              else if params \<noteq> [] \<and> params ! 0 = password h then
                (let h = on_client (\<lambda>cl. cl\<lparr>auth := True\<rparr>) i h;
                     h = on_limiter (RecordSuccess ip) ip h;
                     h = fire_hook ''bouncer_attach'' h;
                     (cl, now) = deferOrAllowWelcome (cl\<lparr>auth := True\<rparr>);
                     h = h\<lparr>objs := (objs h)(i \<mapsto> cl)\<rparr>
                 in if now then sendWelcome env i h else h)
              else close_client i (send_to i ''ERROR :Closing Link (Bad password)''
                     (on_limiter (\<lambda>r. fst (RecordFailure (clock (conn h)) ip r)) ip h))))"

section \<open>/tb\<close>

definition botIsChannelOperator :: "benv \<Rightarrow> string \<Rightarrow> Hub \<Rightarrow> bool" where
  "botIsChannelOperator env channel h =
     IsOperator (if has_state h then Some (chan_state (conn h)) else None) (nick_order env channel) channel (upstreamNick h)"

text \<open>The last channel and the last positive number among the arguments.\<close>

fun tb_args :: "string list \<Rightarrow> string \<Rightarrow> int \<Rightarrow> string \<times> int" where
  "tb_args [] channel n = (channel, n)"
| "tb_args (a # as) channel n =
     (if startsWithChannelSigil a then tb_args as a n
      else case atoi a of
             Some v \<Rightarrow> (if v > 0 then tb_args as channel v else tb_args as channel n)
           | None \<Rightarrow> tb_args as channel n)"

definition summary_mark :: string where
  "summary_mark = [CHR 0xF0, CHR 0x9F, CHR 0x93, CHR 0x8B]"

definition handleTBSummarize :: "benv \<Rightarrow> nat \<Rightarrow> string list \<Rightarrow> Hub \<Rightarrow> Hub" where
  "handleTBSummarize env i args h =
     (let (channel, n) = tb_args args [] 0
      in if channel = [] then notifyService i ''Please specify a channel: /tb summarize #channel [N]'' h
         else if AIStrict (limits h) \<and> \<not> botIsChannelOperator env channel h
         then notifyService i (AIStrictDenyMessage (limits h)) h
         else let h = notifyService i (''Summarizing '' @ channel @ ''...'') h
              in case tbSummarize (tb h) channel n (TBSummarizeMaxMessages (limits h)) (messageStore h) of
                   Inl e \<Rightarrow> notifyService i (''Error: '' @ e) h
                 | Inr summary \<Rightarrow>
                     (let h = (if messageStore h = None then h
                               else h\<lparr>submitted := submitted h @
                                      [\<lparr>m_ID = [], m_Channel = channel, m_Nick = ''*turborg'',
                                        m_Text = summary_mark @ '' Summary: '' @ summary,
                                        m_TS = clock (conn h)\<rparr>]\<rparr>)
                      in notifyService i (''['' @ channel @ '' summary] '' @ summary) h))"

definition handleTBTLDR :: "benv \<Rightarrow> nat \<Rightarrow> string list \<Rightarrow> Hub \<Rightarrow> Hub" where
  "handleTBTLDR env i args h =
     (let rawURL = (if args \<noteq> [] then args ! 0 else [])
      in if rawURL = [] then notifyService i ''Usage: /tb tldr <url>'' h
         else let h = notifyService i (''Fetching '' @ rawURL @ ''...'') h;
                  (t, r) = tbTLDR (clock (conn h)) (parse_url env) (guarded_fetch env) tbDefaultRateLimitKey rawURL (tb h);
                  h = h\<lparr>tb := t\<rparr>
              in case r of
                   None \<Rightarrow> h\<lparr>down := True\<rparr>
                 | Some (Inl e) \<Rightarrow> notifyService i (''Error: '' @ e) h
                 | Some (Inr summary) \<Rightarrow> notifyService i (''[tldr] '' @ summary) h)"

definition handleTB :: "benv \<Rightarrow> nat \<Rightarrow> Protocol.Message \<Rightarrow> Hub \<Rightarrow> Hub" where
  "handleTB env i msg h =
     (let h = fire_hook ''tb_command'' h
      in case Params msg of
           [] \<Rightarrow> notifyService i ''Usage: /tb summarize [#channel] [N] | /tb tldr <url>'' h
         | p # args \<Rightarrow>
             (let sub = to_lower p
              in if sub = ''summarize'' then handleTBSummarize env i args h
                 else if sub = ''tldr'' then handleTBTLDR env i args h
                 else notifyService i (''Unknown /tb subcommand: '' @ sub @ ''. Available: summarize, tldr'') h))"

section \<open>One line\<close>

definition pong_line :: "Protocol.Message \<Rightarrow> string" where
  "pong_line msg =
     '':turborg-bouncer PONG turborg-bouncer :'' @
     (if Trailing msg = [] \<and> length (Params msg) > 0 then Params msg ! 0 else Trailing msg)"

definition handleLine :: "benv \<Rightarrow> nat \<Rightarrow> string \<Rightarrow> Hub \<Rightarrow> Hub" where
  "handleLine env i line h =
     (let msg = Parse line; cmd = Command msg
      in if cmd = CmdPass then handlePass env i (Params msg) h
         else if cmd = CmdPing then send_to i (pong_line msg) h
         else if cmd = CmdPong then h
         else if cmd = CmdCap then handleCap env i msg h
         else if \<not> Authenticated h i then h
         else if cmd = CmdChathistory then handleChathistory env i msg h
         else if cmd = CmdTB then handleTB env i msg h
         else forward i msg line h)"

section \<open>The life of a connection\<close>

definition greeting :: string where
  "greeting =
     '':turborg-bouncer NOTICE AUTH :*** This is a turborg bouncer. Set your client's *server password* to TURBORG_IRC_BOUNCER_PASSWORD and reconnect. (HexChat: Network List '' @
     [CHR 0xE2, CHR 0x86, CHR 0x92] @ '' Edit '' @ [CHR 0xE2, CHR 0x86, CHR 0x92] @ '' Password.)''"

definition next_deadline :: "Hub \<Rightarrow> instant option" where
  "next_deadline h = (if pingInterval h > 0 then Some (clock (conn h) + pingInterval h + pongGrace h) else None)"

text \<open>\<^verbatim>\<open>ServeConn\<close>, and the body of \<^verbatim>\<open>acceptLoop\<close>, up to the first read.\<close>

definition ServeConn :: "string \<Rightarrow> nat option \<Rightarrow> Hub \<Rightarrow> Hub" where
  "ServeConn ip lines_ok h =
     (if \<not> running h then h
      else let i = started h;
               h = h\<lparr>objs := (objs h)(i \<mapsto> newBouncerClient ip lines_ok), attached := attached h @ [i],
                     started := Suc i\<rparr>
           in on_client (\<lambda>cl. cl\<lparr>deadline := next_deadline h\<rparr>) i (send_to i greeting h))"

text \<open>The end of \<^verbatim>\<open>handleClient\<close>.\<close>

definition disconnect :: "nat \<Rightarrow> Hub \<Rightarrow> Hub" where
  "disconnect i h =
     on_client (\<lambda>cl. cl\<lparr>serving := False, closed := True\<rparr>) i (h\<lparr>attached := removeAll i (attached h)\<rparr>)"

text \<open>A line the read loop gets, which may be one buffered before the connection was closed. Then the next turn of the
  loop, which ends when the bouncer has stopped.\<close>

definition client_line :: "benv \<Rightarrow> nat \<Rightarrow> string \<Rightarrow> Hub \<Rightarrow> Hub" where
  "client_line env i raw h =
     (case objs h i of
        None \<Rightarrow> h
      | Some cl \<Rightarrow>
          (if \<not> serving cl then h
           else let h = handleLine env i (trim_right (\<lambda>c. c \<in> set crlf) raw) h
                in if running h then on_client (\<lambda>cl. cl\<lparr>deadline := next_deadline h\<rparr>) i h else disconnect i h))"

text \<open>Silence until the read deadline ends the loop.\<close>

definition client_silent :: "nat \<Rightarrow> Hub \<Rightarrow> Hub" where
  "client_silent i h =
     (case objs h i of
        None \<Rightarrow> h
      | Some cl \<Rightarrow>
          (case deadline cl of
             None \<Rightarrow> h
           | Some d \<Rightarrow> if serving cl \<and> d \<le> clock (conn h) then disconnect i h else h))"

text \<open>A tick of \<^verbatim>\<open>pingClientLoop\<close>, \<open>token\<close> from the clock.\<close>

definition client_ping :: "nat \<Rightarrow> string \<Rightarrow> Hub \<Rightarrow> Hub" where
  "client_ping i token h =
     (case objs h i of
        None \<Rightarrow> h
      | Some cl \<Rightarrow>
          (if serving cl \<and> running h \<and> pingInterval h > 0 then send_to i (CmdPing @ '' :tb-'' @ token) h else h))"

text \<open>A tick of \<^verbatim>\<open>activityHeartbeat\<close>.\<close>

definition activityHeartbeat :: "Hub \<Rightarrow> Hub" where
  "activityHeartbeat h = (if running h \<and> attached h \<noteq> [] then fire_hook ''presence'' h else h)"

text \<open>\<^verbatim>\<open>Stop\<close>: the handlers of the clients it closes return; a client a fan-out dropped before is not among them.\<close>

definition bouncer_Stop :: "Hub \<Rightarrow> Hub" where
  "bouncer_Stop h = fold disconnect (attached h) (h\<lparr>running := False\<rparr>)"

section \<open>Lines from upstream\<close>

definition deliver :: "bcall \<Rightarrow> Hub \<Rightarrow> Hub" where
  "deliver b h =
     (case b of
        Broadcast line \<Rightarrow> Broadcast_b line None h
      | UpdateUpstreamNick n \<Rightarrow> UpdateUpstreamNick_b n h
      | UpdateUpstreamIdentity ident host \<Rightarrow> UpdateUpstreamIdentity_b ident host h
      | NotifyJoinFailure channel reason \<Rightarrow> NotifyJoinFailure_b channel reason h
      | BroadcastAsSelf line \<Rightarrow> BroadcastAsSelf_b line None h
      | AttachState n ident host \<Rightarrow> AttachState_b n ident host h)"

text \<open>A step of the connector, then what it asked of the bouncer: the change of state first, which
  \<open>dispatch_classify\<close> makes before anything else and which reads the channels as they were, then the calls.\<close>

definition state_change :: "Connector \<Rightarrow> Connector \<Rightarrow> UpstreamStateChange" where
  "state_change c d = \<lparr>From = up c, To = up d, At = clock d, ServerReason = serverReason (machine d)\<rparr>"

definition connector_step :: "(Connector \<Rightarrow> Connector) \<Rightarrow> Hub \<Rightarrow> Hub" where
  "connector_step f h =
     (let c = conn h; d = f c;
          h = (if up d \<noteq> up c \<and> running h \<and> has_machine h then onUpstreamStateChange (state_change c d) h else h)
      in fold deliver (drop (length (to_bouncer c)) (to_bouncer d)) (h\<lparr>conn := d\<rparr>))"

definition upstream_line :: "denv \<Rightarrow> string \<Rightarrow> Hub \<Rightarrow> Hub" where
  "upstream_line env line h = connector_step (dispatchLine env line) h"

end
