(* ===== verification/Bouncer_Auth.thy ===== *)
theory Bouncer_Auth
  imports Client_Line
begin

text \<open>
  What a client that has not given the password can see and do: nothing of the session reaches it and nothing it
  sends leaves the bouncer, over any run of the hub.
\<close>

named_theorems outside "operations that leave an unauthenticated client as it is"

section \<open>Runs\<close>

text \<open>Everything that can happen to the bouncer: connections, lines, silence and timers of its clients, any step of the
  connector (with what it asks of the bouncer), the watchdog's warning, and the stop.\<close>

datatype event =
    Connect string "nat option"
  | Line nat string
  | Silent nat
  | PingTick nat string
  | Heartbeat
  | Step "Connector \<Rightarrow> Connector"
  | Warn string duration
  | StopBouncer

fun run_event :: "benv \<Rightarrow> event \<Rightarrow> Hub \<Rightarrow> Hub" where
  "run_event env (Connect ip n) h = ServeConn ip n h"
| "run_event env (Line i l) h = client_line env i l h"
| "run_event env (Silent i) h = client_silent i h"
| "run_event env (PingTick i t) h = client_ping i t h"
| "run_event env Heartbeat h = activityHeartbeat h"
| "run_event env (Step f) h = connector_step f h"
| "run_event env (Warn r d) h = onUpstreamWarn r d h"
| "run_event env StopBouncer h = bouncer_Stop h"

abbreviation run :: "benv \<Rightarrow> event list \<Rightarrow> Hub \<Rightarrow> Hub" where
  "run env evs h \<equiv> fold (run_event env) evs h"

section \<open>The client as it is\<close>

definition holds :: "nat \<Rightarrow> BouncerClient \<Rightarrow> string \<Rightarrow> Hub \<Rightarrow> bool" where
  "holds i cl pw h \<longleftrightarrow> objs h i = Some cl \<and> password h = pw \<and> i < started h"

lemma holds_fields [outside]:
  "holds i cl pw h \<Longrightarrow> holds i cl pw (h\<lparr>conn := c\<rparr>)" "holds i cl pw h \<Longrightarrow> holds i cl pw (h\<lparr>attached := a\<rparr>)"
  "holds i cl pw h \<Longrightarrow> holds i cl pw (h\<lparr>rateLimiter := r\<rparr>)" "holds i cl pw h \<Longrightarrow> holds i cl pw (h\<lparr>outboundThrottle := t\<rparr>)"
  "holds i cl pw h \<Longrightarrow> holds i cl pw (h\<lparr>upstreamNick := n\<rparr>)" "holds i cl pw h \<Longrightarrow> holds i cl pw (h\<lparr>hook_log := l\<rparr>)"
  "holds i cl pw h \<Longrightarrow> holds i cl pw (h\<lparr>batches := b\<rparr>)" "holds i cl pw h \<Longrightarrow> holds i cl pw (h\<lparr>submitted := s\<rparr>)"
  "holds i cl pw h \<Longrightarrow> holds i cl pw (h\<lparr>tb := th\<rparr>)" "holds i cl pw h \<Longrightarrow> holds i cl pw (h\<lparr>down := d\<rparr>)"
  "holds i cl pw h \<Longrightarrow> holds i cl pw (h\<lparr>running := r'\<rparr>)" "holds i cl pw h \<Longrightarrow> holds i cl pw (h\<lparr>upstreamIdent := n\<rparr>)"
  "holds i cl pw h \<Longrightarrow> holds i cl pw (h\<lparr>upstreamHost := n\<rparr>)" "holds i cl pw h \<Longrightarrow> holds i cl pw (h\<lparr>has_state := s'\<rparr>)"
  "holds i cl pw h \<Longrightarrow> j \<noteq> i \<Longrightarrow> holds i cl pw (h\<lparr>objs := (objs h)(j \<mapsto> d')\<rparr>)"
  by (simp_all add: holds_def)

lemma holds_client [outside]:
  assumes "holds i cl pw h" "j \<noteq> i"
  shows "holds i cl pw (on_client f j h)" "holds i cl pw (send_to j l h)" "holds i cl pw (close_client j h)"
    "holds i cl pw (notifyPolicyDenial j t r h)" "holds i cl pw (notifyService j body h)"
    "holds i cl pw (surfaceStateToClient j h)" "holds i cl pw (notifyPolicyDenialForCommand j m r h)"
proof -
  have on: "holds i cl pw (on_client f j h)" for f
    using assms by (simp add: holds_def on_client_def split: option.split)
  then show "holds i cl pw (on_client f j h)" .
  then have send: "holds i cl pw (send_to j l h)" for l using on by (simp add: send_to_def)
  then show "holds i cl pw (send_to j l h)" .
  show "holds i cl pw (close_client j h)" using on by (simp add: close_client_def)
  show "holds i cl pw (notifyPolicyDenial j t r h)" using send by (simp add: notifyPolicyDenial_def)
  have svc: "holds i cl pw (notifyService j body h)" for body
    using send by (simp add: notifyService_def notifyPolicyDenial_def Let_def)
  then show "holds i cl pw (notifyService j body h)" .
  show "holds i cl pw (surfaceStateToClient j h)"
    using send assms(1) by (simp add: surfaceStateToClient_def Let_def)
  show "holds i cl pw (notifyPolicyDenialForCommand j m r h)"
    using svc by (simp add: notifyPolicyDenialForCommand_def Let_def)
qed

lemma holds_send_all [outside]: "holds i cl pw h \<Longrightarrow> j \<noteq> i \<Longrightarrow> holds i cl pw (send_all j ls h)"
  unfolding send_all_def by (rule fold_keeps [where P = "holds i cl pw"]) (simp_all add: holds_client)

lemma holds_send_while [outside]: "holds i cl pw h \<Longrightarrow> j \<noteq> i \<Longrightarrow> holds i cl pw (fst (send_while j ls h))"
  by (induction j ls h rule: send_while.induct) (simp_all add: holds_client)

lemma holds_fan [outside]:
  assumes "holds i cl pw h" "\<not> auth cl"
  shows "holds i cl pw (fan f ex h)" "holds i cl pw (Broadcast_b l ex h)" "holds i cl pw (BroadcastAsSelf_b l ex h)"
proof -
  have one: "holds i cl pw g \<Longrightarrow> holds i cl pw (fan_one f ex j g)" for f j g
    using assms(2) by (cases "j = i")
      (auto simp: fan_one_def holds_def Let_def split: option.split prod.split)
  have all: "holds i cl pw (fan f ex h)" for f
    unfolding fan_def by (rule fold_keeps [where P = "holds i cl pw"]) (use one assms(1) in simp_all)
  then show "holds i cl pw (fan f ex h)" .
  show "holds i cl pw (Broadcast_b l ex h)" "holds i cl pw (BroadcastAsSelf_b l ex h)"
    unfolding Broadcast_b_def BroadcastAsSelf_b_def Let_def by (rule all)+
qed

lemma holds_notices [outside]:
  assumes "holds i cl pw h" "\<not> auth cl"
  shows "holds i cl pw (broadcastChannelNotice body h)" "holds i cl pw (onUpstreamStateChange ch h)"
    "holds i cl pw (onUpstreamWarn r d h)" "holds i cl pw (NotifyJoinFailure_b c r h)"
    "holds i cl pw (deliver b h)"
proof -
  have audit: "holds i cl pw g \<Longrightarrow> holds i cl pw (broadcastServiceAudit body g)" for g body
  proof -
    assume g: "holds i cl pw g"
    have "holds i cl pw k \<Longrightarrow> holds i cl pw (if Authenticated k j then notifyService j body k else k)" for j k
      using assms(2) by (cases "j = i") (auto simp: holds_def Authenticated_def intro!: outside [unfolded holds_def])
    then show ?thesis
      unfolding broadcastServiceAudit_def using g by (auto intro: fold_keeps [where P = "holds i cl pw"])
  qed
  have notice: "holds i cl pw (broadcastChannelNotice body h)" for body
    unfolding broadcastChannelNotice_def
    using assms by (auto intro!: audit fold_keeps [where P = "holds i cl pw"] holds_fan)
  then show "holds i cl pw (broadcastChannelNotice body h)" .
  show "holds i cl pw (onUpstreamStateChange ch h)"
    using notice assms(1) by (simp add: onUpstreamStateChange_def Let_def)
  show "holds i cl pw (onUpstreamWarn r d h)" using notice by (simp add: onUpstreamWarn_def Let_def)
  have njf: "holds i cl pw (NotifyJoinFailure_b c r h)" for c r
    using assms by (simp add: NotifyJoinFailure_b_def Let_def holds_fan)
  then show "holds i cl pw (NotifyJoinFailure_b c r h)" .
  show "holds i cl pw (deliver b h)"
    using assms njf by (cases b)
      (simp_all add: deliver_def UpdateUpstreamNick_b_def UpdateUpstreamIdentity_b_def AttachState_b_def Let_def
        holds_fan holds_fields)
qed

lemma holds_step [outside]:
  assumes "holds i cl pw h" "\<not> auth cl"
  shows "holds i cl pw (connector_step f h)"
proof -
  let ?g = "if up (f (conn h)) \<noteq> up (conn h) \<and> running h \<and> has_machine h
    then onUpstreamStateChange (state_change (conn h) (f (conn h))) h else h"
  have "holds i cl pw (?g\<lparr>conn := f (conn h)\<rparr>)" using assms outside by simp
  then show ?thesis
    unfolding connector_step_def Let_def
    by (rule fold_keeps [where P = "holds i cl pw", rotated]) (rule holds_notices(5) [OF _ assms(2)])
qed

section \<open>Other clients' lines\<close>

lemma holds_detached [outside]:
  assumes "holds i cl pw h" "j \<noteq> i"
  shows "holds i cl pw (rejectForDetached j m h)"
proof -
  have w: "holds i cl pw g \<Longrightarrow> holds i cl pw (on_wanted f g)" for f g by (simp add: on_wanted_def holds_fields)
  have J: "holds i cl pw (handleDetachedJoin j m h)"
    unfolding handleDetachedJoin_def Let_def using assms w
    by (auto split: prod.split intro!: fold_keeps [where P = "holds i cl pw"] holds_client)
  have P: "holds i cl pw (handleDetachedPart j m h)"
    unfolding handleDetachedPart_def Let_def using assms w
    by (auto intro!: fold_keeps [where P = "holds i cl pw"] holds_client)
  have N: "holds i cl pw (handleDetachedNick j m h)"
    unfolding handleDetachedNick_def Let_def using assms by (simp add: holds_client holds_fields)
  have R: "holds i cl pw (handleDetachedRefusal j m h)"
    unfolding handleDetachedRefusal_def Let_def using assms by (simp add: holds_client)
  from J P N R show ?thesis by (simp add: rejectForDetached_def)
qed

lemma holds_policy [outside]: "holds i cl pw h \<Longrightarrow> j \<noteq> i \<Longrightarrow> holds i cl pw (fst (allowByPolicy j m h))"
  by (simp add: allowByPolicy_def Let_def holds_client holds_fields split: option.split prod.split)

lemma holds_forward [outside]:
  assumes "holds i cl pw h" "\<not> auth cl" "j \<noteq> i"
  shows "holds i cl pw (forward j m l h)"
proof -
  have w: "holds i cl pw g \<Longrightarrow> holds i cl pw (on_wanted f g)" for f g by (simp add: on_wanted_def holds_fields)
  have after: "holds i cl pw g \<Longrightarrow> holds i cl pw (afterForwarded j m l g)" for g
    using assms(2)
    by (simp add: afterForwarded_def fanMessage_def recordJoinedToWanted_def recordPartedFromWanted_def Let_def w
        holds_fan holds_fields split: prod.split)
  obtain g ok where g: "allowByPolicy j m h = (g, ok)" by fastforce
  then have K: "holds i cl pw g" using holds_policy [OF assms(1,3), of m] by simp
  obtain c e where c: "send_upstream l (conn g) = (c, e)" by fastforce
  have "holds i cl pw (g\<lparr>conn := c\<rparr>)" using K by (rule holds_fields)
  then have "holds i cl pw (rejectForDetached j m (g\<lparr>conn := c\<rparr>))" "holds i cl pw (afterForwarded j m l (g\<lparr>conn := c\<rparr>))"
    using holds_detached [OF _ assms(3)] after by blast+
  then show ?thesis
    unfolding forward_def g prod.case c
    using assms(1) K holds_detached [OF assms(1,3), of m] by (cases ok; cases e) simp_all
qed

lemma holds_history [outside]:
  assumes "holds i cl pw h" "j \<noteq> i"
  shows "holds i cl pw (writeReplayBatch env j ch ms t b h)" "holds i cl pw (handleChathistory env j m h)"
proof -
  show "holds i cl pw (writeReplayBatch env j ch ms t b h)"
  proof -
    let ?r = "if b then newBatchID env h else (h, [])"
    have r: "holds i cl pw (fst ?r)" using assms by (simp add: newBatchID_def holds_fields)
    obtain g bid where g: "?r = (g, bid)" by fastforce
    have "holds i cl pw (send_to j l g)" for l using r g assms(2) by (simp add: holds_client)
    then have "holds i cl pw (fst (send_while j ls (send_to j l g)))" for l ls
      using holds_send_while assms(2) by blast
    then show ?thesis
      unfolding writeReplayBatch_def Let_def g prod.case
      using assms(2) by (simp add: split_beta holds_client)
  qed
  have fail: "holds i cl pw (sendChathistoryFail j a b' c h)" for a b' c
    using assms by (simp add: sendChathistoryFail_def holds_client)
  have batch: "holds i cl pw (writeChathistoryBatch env j tgt ms h)" for tgt ms
    using assms by (simp add: writeChathistoryBatch_def newBatchID_def Let_def holds_client holds_send_all holds_fields)
  have reply: "holds i cl pw (chathistory_reply env j tgt before limit h)" for tgt before limit
    by (simp add: chathistory_reply_def fail batch split: option.split sum.split)
  show "holds i cl pw (handleChathistory env j m h)"
    by (simp add: handleChathistory_def Let_def fail reply split: option.split)
qed

lemma holds_welcome [outside]:
  assumes "holds i cl pw h" "j \<noteq> i"
  shows "holds i cl pw (sendWelcome env j h)"
proof -
  have chan: "holds i cl pw g \<Longrightarrow> holds i cl pw (replay_channel env j recent t b d name g)" for g recent t b d name
    using assms(2) by (simp add: replay_channel_def holds_history split: sum.split list.split)
  have logs: "holds i cl pw g \<Longrightarrow> holds i cl pw (replayChannelLogs env j g)" for g
    unfolding replayChannelLogs_def
    by (auto split: option.split intro!: fold_keeps [where P = "holds i cl pw"] chan)
  have st: "holds i cl pw g \<Longrightarrow> holds i cl pw (replayState env j g)" for g
    using assms(2) by (simp add: replayState_def holds_send_all)
  show ?thesis unfolding sendWelcome_def Let_def using assms by (intro logs st holds_client) simp_all
qed

lemma holds_cap_pass [outside]:
  assumes "holds i cl pw h" "j \<noteq> i"
  shows "holds i cl pw (handleCap env j m h)" "holds i cl pw (handlePass env j ps h)"
proof -
  show "holds i cl pw (handleCap env j m h)"
    using assms by (simp add: handleCap_def Let_def holds_client holds_welcome holds_fields split: option.split prod.split)
  have lock: "holds i cl pw (fst (check_lock ip h))" for ip
    using assms(1) by (simp add: check_lock_def holds_fields split: option.split prod.split)
  have lim: "holds i cl pw g \<Longrightarrow> holds i cl pw (on_limiter f ip g)" for f ip g
    by (simp add: on_limiter_def holds_fields split: option.split)
  have hook: "holds i cl pw g \<Longrightarrow> holds i cl pw (fire_hook r g)" for r g
    by (simp add: fire_hook_def holds_fields)
  show "holds i cl pw (handlePass env j ps h)"
  proof (cases "objs h j")
    case (Some d)
    obtain g locked where g: "check_lock (bc_ip d) h = (g, locked)" by fastforce
    have "holds i cl pw g" using lock [of "bc_ip d"] g by simp
    then show ?thesis
      using Some g assms(2)
      by (simp add: handlePass_def Let_def holds_client holds_welcome holds_fields lim hook split: prod.split)
  qed (use assms in \<open>simp add: handlePass_def\<close>)
qed

lemma holds_tb [outside]:
  assumes "holds i cl pw h" "j \<noteq> i"
  shows "holds i cl pw (handleTB env j m h)"
proof -
  have s: "holds i cl pw g \<Longrightarrow> holds i cl pw (handleTBSummarize env j args g)" for g args
    using assms(2) by (simp add: handleTBSummarize_def Let_def holds_client holds_fields split: prod.split sum.split)
  have t: "holds i cl pw g \<Longrightarrow> holds i cl pw (handleTBTLDR env j args g)" for g args
    using assms(2) by (simp add: handleTBTLDR_def Let_def holds_client holds_fields split: prod.split sum.split option.split)
  have "holds i cl pw (fire_hook ''tb_command'' h)" using assms(1) by (simp add: fire_hook_def holds_fields)
  then show ?thesis using s t assms(2) by (simp add: handleTB_def Let_def holds_client split: list.split)
qed

lemma holds_line: "holds i cl pw h \<Longrightarrow> \<not> auth cl \<Longrightarrow> j \<noteq> i \<Longrightarrow> holds i cl pw (handleLine env j l h)"
  by (simp add: handleLine_def Let_def holds_client holds_cap_pass holds_history holds_tb holds_forward)

section \<open>The client's own lines\<close>

definition preauth_prefixes :: "string list" where
  "preauth_prefixes =
     ['':turborg-bouncer NOTICE AUTH :'', ''PING :tb-'', '':turborg-bouncer PONG turborg-bouncer :'',
      '':turborg-bouncer CAP * '', ''ERROR :Closing Link'']"

definition preauth_line :: "string \<Rightarrow> bool" where
  "preauth_line l \<longleftrightarrow> (\<exists>p\<in>set preauth_prefixes. prefix p l)"

definition outsider :: "BouncerClient \<Rightarrow> bool" where
  "outsider cl \<longleftrightarrow> \<not> auth cl \<and> \<not> welcomeDeferred cl \<and> (\<forall>l\<in>set (got cl). preauth_line l)"

definition outside_now :: "nat \<Rightarrow> string \<Rightarrow> Hub \<Rightarrow> bool" where
  "outside_now i pw h \<longleftrightarrow> (\<exists>cl. holds i cl pw h \<and> outsider cl)"

definition gives_password :: "string \<Rightarrow> string \<Rightarrow> bool" where
  "gives_password pw raw \<longleftrightarrow>
     (let msg = Parse (trim_right (\<lambda>c. c \<in> set crlf) raw)
      in Command msg = CmdPass \<and> Params msg \<noteq> [] \<and> Params msg ! 0 = pw)"

lemma trim_right_append: "trim_right q (p @ r) = (if \<forall>c\<in>set r. q c then trim_right q p else p @ trim_right q r)"
proof (cases "\<forall>c\<in>set r. q c")
  case True
  then show ?thesis by (simp add: trim_right_append_all)
next
  case False
  then obtain c where "c \<in> set (rev r)" "\<not> q c" by auto
  then show ?thesis unfolding if_not_P [OF False] by (simp add: trim_right_def dropWhile_append1)
qed

lemma preauth_trim:
  assumes "preauth_line l"
  shows "preauth_line (trim_right (\<lambda>c. c \<in> set crlf) l)"
proof -
  obtain p r where p: "p \<in> set preauth_prefixes" "l = p @ r" using assms by (auto simp: preauth_line_def prefix_def)
  have "last p \<notin> set crlf" "p \<noteq> []" using p(1) by (auto simp: preauth_prefixes_def crlf_def)
  then have "trim_right (\<lambda>c. c \<in> set crlf) p = p" by (simp add: trim_right_id)
  then have "prefix p (trim_right (\<lambda>c. c \<in> set crlf) l)" by (simp add: p(2) trim_right_append)
  then show ?thesis using p(1) by (auto simp: preauth_line_def)
qed

lemma outsider_send: "outsider cl \<Longrightarrow> preauth_line l \<Longrightarrow> outsider (fst (sendLine l cl))"
  using preauth_trim by (auto simp: outsider_def sendLine_def Let_def split: option.split nat.split)

lemma outside_client:
  assumes "outside_now i pw h" "\<And>cl. outsider cl \<Longrightarrow> outsider (f cl)"
  shows "outside_now i pw (on_client f i h)"
  using assms by (auto simp: outside_now_def holds_def on_client_def)

lemma outside_send: "outside_now i pw h \<Longrightarrow> preauth_line l \<Longrightarrow> outside_now i pw (send_to i l h)"
  unfolding send_to_def by (rule outside_client) (simp_all add: outsider_send)

lemma outside_close: "outside_now i pw h \<Longrightarrow> outside_now i pw (close_client i h)"
  unfolding close_client_def by (rule outside_client) (simp_all add: outsider_def)

lemma preauth_known [simp]:
  "preauth_line (pong_line m)" "preauth_line greeting"
  "preauth_line ('':turborg-bouncer CAP * LS :'' @ x)" "preauth_line ('':turborg-bouncer CAP * ACK :'' @ x)"
  "preauth_line ('':turborg-bouncer CAP * NAK :'' @ x)" "preauth_line ('':turborg-bouncer CAP * LIST :'' @ x)"
  "preauth_line ''ERROR :Closing Link (Too many attempts)''" "preauth_line ''ERROR :Closing Link (Bad password)''"
  "preauth_line (''PING :tb-'' @ x)"
  by (simp_all add: preauth_line_def preauth_prefixes_def pong_line_def greeting_def)

lemma caps_outsider: "outsider cl \<Longrightarrow> outsider (fold ackCap cs (startCapNeg cl))"
proof -
  have "outsider cl \<Longrightarrow> outsider (fold ackCap cs cl)" for cl
  proof (induction cs arbitrary: cl)
    case (Cons c cs)
    have "outsider (ackCap c cl)" using Cons.prems by (simp add: ackCap_def outsider_def)
    then show ?case using Cons.IH by simp
  qed simp
  moreover assume "outsider cl"
  then have "outsider (startCapNeg cl)" by (simp add: startCapNeg_def outsider_def)
  ultimately show ?thesis by blast
qed

lemma outside_cap:
  assumes "outside_now i pw h"
  shows "outside_now i pw (handleCap env i m h)"
proof -
  obtain cl where cl: "objs h i = Some cl" "outsider cl" using assms by (auto simp: outside_now_def holds_def)
  have e: "endCapNeg cl = (cl\<lparr>capStarted := False\<rparr>, False)" "outsider (cl\<lparr>capStarted := False\<rparr>)"
    using cl(2) by (simp_all add: endCapNeg_def outsider_def Let_def)
  have "outside_now i pw (h\<lparr>objs := (objs h)(i \<mapsto> cl\<lparr>capStarted := False\<rparr>)\<rparr>)"
    using assms e(2) by (auto simp: outside_now_def holds_def)
  moreover have "outside_now i pw (on_client startCapNeg i h)"
    using assms by (rule outside_client) (simp add: startCapNeg_def outsider_def)
  moreover have "outside_now i pw (on_client (\<lambda>cl. fold ackCap cs (startCapNeg cl)) i h)" for cs
    using assms by (rule outside_client) (rule caps_outsider)
  ultimately show ?thesis
    using assms cl(1) e(1) by (simp add: handleCap_def Let_def outside_send del: append_Cons)
qed

lemma outside_fields:
  "outside_now i pw h \<Longrightarrow> outside_now i pw (h\<lparr>rateLimiter := r\<rparr>)"
  "outside_now i pw h \<Longrightarrow> outside_now i pw (on_limiter f ip h)"
  by (auto simp: outside_now_def on_limiter_def holds_def split: option.split)

lemma outside_pass:
  assumes "outside_now i pw h" "\<not> (ps \<noteq> [] \<and> ps ! 0 = pw)"
  shows "outside_now i pw (handlePass env i ps h)"
proof -
  obtain cl where cl: "objs h i = Some cl" "password h = pw" using assms by (auto simp: outside_now_def holds_def)
  obtain g locked where g: "check_lock (bc_ip cl) h = (g, locked)" by fastforce
  have "outside_now i pw g" "password g = pw"
    using g assms(1) cl(2) by (auto simp: check_lock_def outside_fields split: option.splits if_splits prod.splits)
  then show ?thesis
    using cl g assms(2) by (auto simp: handlePass_def Let_def intro!: outside_close outside_send outside_fields)
qed

lemma outside_unauth: "outside_now i pw h \<Longrightarrow> \<not> Authenticated h i"
  by (auto simp: outside_now_def holds_def outsider_def Authenticated_def)

lemma outside_own_line:
  assumes "outside_now i pw h" "\<not> gives_password pw raw"
  shows "outside_now i pw (handleLine env i (trim_right (\<lambda>c. c \<in> set crlf) raw) h)"
  using assms outside_unauth [OF assms(1)]
  by (auto simp: handleLine_def gives_password_def Let_def intro!: outside_pass outside_cap outside_send)

section \<open>The gate\<close>

lemma outside_from_holds: "(\<And>cl. holds i cl pw h \<Longrightarrow> \<not> auth cl \<Longrightarrow> holds i cl pw (f h)) \<Longrightarrow> outside_now i pw h \<Longrightarrow> outside_now i pw (f h)"
  by (auto simp: outside_now_def outsider_def)

lemma outside_disconnect: "outside_now i pw h \<Longrightarrow> outside_now i pw (disconnect j h)"
proof (cases "j = i")
  case True
  assume "outside_now i pw h"
  then have "outside_now i pw (h\<lparr>attached := removeAll j (attached h)\<rparr>)" by (auto simp: outside_now_def holds_def)
  then show ?thesis unfolding disconnect_def True by (rule outside_client) (simp add: outsider_def)
next
  case False
  then show "outside_now i pw h \<Longrightarrow> outside_now i pw (disconnect j h)"
    by (intro outside_from_holds [where f = "disconnect j"]) (simp_all add: disconnect_def holds_client holds_fields)
qed

lemma outside_on_other: "outside_now i pw h \<Longrightarrow> j \<noteq> i \<Longrightarrow> outside_now i pw (on_client f j h)"
  by (intro outside_from_holds [where f = "on_client f j"]) (simp_all add: holds_client)

lemma outside_deadline: "outside_now i pw h \<Longrightarrow> outside_now i pw (on_client (\<lambda>cl. cl\<lparr>deadline := t\<rparr>) j h)"
  by (cases "j = i") (auto intro: outside_client outside_on_other simp: outsider_def)

lemma opt_if: "Q h \<Longrightarrow> Q k \<Longrightarrow> Q (case x of None \<Rightarrow> h | Some c \<Rightarrow> if P c then h else k)"
  by (simp split: option.split)

lemma outside_line:
  assumes h: "outside_now i pw h" and ev: "j = i \<Longrightarrow> \<not> gives_password pw l"
  shows "outside_now i pw (client_line env j l h)"
proof -
  let ?h = "handleLine env j (trim_right (\<lambda>c. c \<in> set crlf) l) h"
  have "outside_now i pw ?h"
  proof (cases "j = i")
    case True
    then show ?thesis using outside_own_line [OF h] ev by simp
  next
    case False
    show ?thesis by (rule outside_from_holds [OF holds_line h]) (use False in simp_all)
  qed
  then have "outside_now i pw (if running ?h then on_client (\<lambda>cl. cl\<lparr>deadline := next_deadline ?h\<rparr>) j ?h else disconnect j ?h)"
    using outside_deadline outside_disconnect by simp
  then show ?thesis unfolding client_line_def Let_def by (rule opt_if [where Q = "outside_now i pw", OF h])
qed

lemma outside_ping: "outside_now i pw h \<Longrightarrow> outside_now i pw (client_ping j t h)"
proof -
  assume h: "outside_now i pw h"
  have "outside_now i pw (send_to j (CmdPing @ '' :tb-'' @ t) h)"
  proof (cases "j = i")
    case True
    have "preauth_line (CmdPing @ '' :tb-'' @ t)" using preauth_known(9) [of t] by simp
    then show ?thesis using outside_send [OF h] True by blast
  next
    case False
    then show ?thesis unfolding send_to_def using h by (intro outside_on_other)
  qed
  then show ?thesis using h unfolding client_ping_def by (simp only: split: option.split if_split) blast
qed

lemma outside_serve: "outside_now i pw h \<Longrightarrow> outside_now i pw (ServeConn ip n h)"
proof -
  assume "outside_now i pw h"
  then obtain cl where "holds i cl pw h" "outsider cl" by (auto simp: outside_now_def)
  then have "holds i cl pw (ServeConn ip n h)"
    by (auto simp: ServeConn_def Let_def holds_def on_client_def send_to_def split: option.split)
  with \<open>outsider cl\<close> show ?thesis by (auto simp: outside_now_def)
qed

lemma outside_stop: "outside_now i pw h \<Longrightarrow> outside_now i pw (bouncer_Stop h)"
proof -
  assume "outside_now i pw h"
  then have "outside_now i pw (h\<lparr>running := False\<rparr>)" by (auto simp: outside_now_def holds_def)
  then show ?thesis unfolding bouncer_Stop_def
    by (rule fold_keeps [where P = "outside_now i pw", rotated]) (rule outside_disconnect)
qed

lemma outside_event:
  assumes h: "outside_now i pw h" and ev: "\<forall>l. ev = Line i l \<longrightarrow> \<not> gives_password pw l"
  shows "outside_now i pw (run_event env ev h)"
proof (cases ev)
  case (Silent j)
  then show ?thesis using h outside_disconnect [OF h] by (simp add: client_silent_def split: option.split)
next
  case Heartbeat
  then show ?thesis using h by (auto simp: activityHeartbeat_def fire_hook_def outside_now_def holds_def)
next
  case (Step f)
  then show ?thesis using outside_from_holds [OF holds_step h] by simp
next
  case (Warn r d)
  then show ?thesis using outside_from_holds [OF holds_notices(3) h] by simp
qed (use h ev outside_serve outside_line outside_ping outside_stop in simp_all)

text \<open>C1: until a client gives the password it is shown nothing of the session. Over any run (any lines of any clients,
  any steps of the connector, reconnects, warnings, timers, the stop) in which none of its own lines is a PASS with
  the right password, it stays unauthenticated and every line it was ever sent is the greeting, a keepalive
  PING, a PONG, a CAP reply or a closing ERROR.\<close>

theorem nothing_before_password:
  assumes "running h" "pw = password h" "i = started h"
    "\<forall>l. Line i l \<in> set evs \<longrightarrow> \<not> gives_password pw l"
  shows "\<exists>cl. objs (run env evs (ServeConn ip n h)) i = Some cl \<and> \<not> auth cl \<and> (\<forall>l\<in>set (got cl). preauth_line l)"
proof -
  have "outside_now i pw (h\<lparr>objs := (objs h)(i \<mapsto> newBouncerClient ip n), attached := attached h @ [i], started := Suc i\<rparr>)"
    using assms(2) by (simp add: outside_now_def holds_def outsider_def newBouncerClient_def)
  then have "outside_now i pw (ServeConn ip n h)"
    using assms(1,3) unfolding ServeConn_def Let_def
    by (auto intro!: outside_client outside_send simp: outsider_def)
  then have "outside_now i pw (run env evs (ServeConn ip n h))"
    using assms(4)
  proof (induction evs arbitrary: h rule: rev_induct)
    case (snoc ev evs)
    then show ?case by (simp add: outside_event)
  qed simp
  then show ?thesis by (auto simp: outside_now_def holds_def outsider_def)
qed

definition idle_env :: benv where
  "idle_env =
     \<lparr>batch_id = (\<lambda>n. ''b'' @ nat_str n), format_time = itoa, parse_time = (\<lambda>layout s. atoi s), cap_order = supportedCaps,
      nick_order = (\<lambda>_. []), parse_url = (\<lambda>_. None), guarded_fetch = (\<lambda>_. None)\<rparr>"

definition sample_hub :: Hub where
  "sample_hub =
     (case startBouncer no_limits None True None (newTBHandler (\<lambda>_. None)) 0
             (NewConnector (sample_settings\<lparr>BouncerPassword := ''secret'', BouncerRatelimitEnabled := False\<rparr>) True 0) of
        Inr h \<Rightarrow> h
      | Inl _ \<Rightarrow> undefined)"

lemma sample_hub_fields: "running sample_hub" "password sample_hub = ''secret''" "started sample_hub = 0" "has_machine sample_hub"
  by (simp_all add: sample_hub_def startBouncer_def NewBouncer_def AttachState_b_def AttachWelcomeReplayDepth_def
      attachTBHandler_def NewConnector_def Let_def)

definition guess_pass :: string where "guess_pass = ''PASS guess''"
definition blind_msg :: string where "blind_msg = ''PRIVMSG #a :hi''"

theorem nothing_before_password_witness:
  "\<exists>cl. objs (run idle_env [Line 0 blind_msg, Heartbeat, Line 0 guess_pass] (ServeConn ''ip'' None sample_hub)) 0 = Some cl \<and>
     \<not> auth cl \<and> list_all preauth_line (got cl)"
  unfolding list_all_iff
proof (rule nothing_before_password [where pw = "''secret''"])
  have "\<not> gives_password ''secret'' blind_msg" "\<not> gives_password ''secret'' guess_pass" by code_simp+
  then show "\<forall>l. Line 0 l \<in> set [Line 0 blind_msg, Heartbeat, Line 0 guess_pass] \<longrightarrow> \<not> gives_password ''secret'' l"
    by auto
qed (simp_all add: sample_hub_fields)

text \<open>What an operation on client \<open>i\<close> alone leaves as it is.\<close>

definition only_client :: "nat \<Rightarrow> Hub \<Rightarrow> Hub \<Rightarrow> bool" where
  "only_client i h h' \<longleftrightarrow>
     conn h' = conn h \<and> submitted h' = submitted h \<and> tb h' = tb h \<and> hook_log h' = hook_log h \<and>
     outboundThrottle h' = outboundThrottle h \<and> (\<forall>j. j \<noteq> i \<longrightarrow> objs h' j = objs h j) \<and>
     (\<forall>j. j \<noteq> i \<longrightarrow> j \<in> set (attached h') \<longleftrightarrow> j \<in> set (attached h))"

lemma only_refl: "only_client i h h"
  by (simp add: only_client_def)

lemma only_trans: "only_client i h g \<Longrightarrow> only_client i g k \<Longrightarrow> only_client i h k"
  by (simp add: only_client_def)

lemma only_client_ops:
  "only_client i h (on_client f i h)" "only_client i h (send_to i l h)" "only_client i h (close_client i h)"
  "only_client i h (on_limiter r ip h)" "only_client i h (h\<lparr>objs := (objs h)(i \<mapsto> cl)\<rparr>)"
  "only_client i h (disconnect i h)" "only_client i h (fst (check_lock ip h))"
  by (simp_all add: only_client_def on_client_def send_to_def close_client_def on_limiter_def disconnect_def check_lock_def
      split: option.split prod.split)

lemma only_send: "only_client i h g \<Longrightarrow> only_client i h (send_to i l g)" "only_client i h g \<Longrightarrow> only_client i h (close_client i g)"
  using only_trans only_client_ops by blast+

lemma only_cap:
  assumes "outside_now i pw h"
  shows "only_client i h (handleCap env i m h)"
proof -
  obtain cl where cl: "objs h i = Some cl" "outsider cl" using assms by (auto simp: outside_now_def holds_def)
  have "endCapNeg cl = (cl\<lparr>capStarted := False\<rparr>, False)" using cl(2) by (simp add: endCapNeg_def outsider_def Let_def)
  then show ?thesis using cl(1)
    by (simp add: handleCap_def Let_def only_refl only_send only_client_ops del: append_Cons)
qed

lemma only_pass:
  assumes "outside_now i pw h" "\<not> (ps \<noteq> [] \<and> ps ! 0 = pw)"
  shows "only_client i h (handlePass env i ps h)"
proof -
  obtain cl where cl: "objs h i = Some cl" "password h = pw" using assms by (auto simp: outside_now_def holds_def)
  obtain g locked where g: "check_lock (bc_ip cl) h = (g, locked)" by fastforce
  then have G: "only_client i h g" "password g = pw"
    using only_client_ops(7) [of i h "bc_ip cl"] cl(2)
    by (auto simp: check_lock_def split: option.splits if_splits prod.splits)
  have "only_client i h (on_limiter r ip g)" for r ip using G(1) only_client_ops(4) only_trans by blast
  then show ?thesis
    using cl g G assms(2) by (auto simp: handlePass_def Let_def only_send)
qed

text \<open>C5: nor does anything it sends leave the bouncer or reach another client before that: one line of such a client,
  whatever it is, changes nothing of the upstream connection (no write, no wanted channel, no nick), of the
  history, of the other clients and of their set, of the outbound quota and of the owner's presence signals.\<close>

theorem outsider_is_harmless:
  assumes "outside_now i (password h) h" "\<not> gives_password (password h) raw"
  shows "only_client i h (client_line env i raw h)"
proof -
  let ?h = "handleLine env i (trim_right (\<lambda>c. c \<in> set crlf) raw) h"
  have "only_client i h ?h"
    using assms outside_unauth [OF assms(1)]
    by (auto simp: handleLine_def gives_password_def Let_def only_refl only_client_ops intro!: only_pass only_cap)
  then have "only_client i h (if running ?h then on_client (\<lambda>cl. cl\<lparr>deadline := next_deadline ?h\<rparr>) i ?h else disconnect i ?h)"
    using only_client_ops(1,6) only_trans by (simp split: if_split)
  then show ?thesis unfolding client_line_def Let_def by (rule opt_if [where Q = "only_client i h", OF only_refl])
qed

theorem outsider_is_harmless_witness:
  "only_client 0 (ServeConn ''ip'' None sample_hub) (client_line idle_env 0 blind_msg (ServeConn ''ip'' None sample_hub))"
proof (rule outsider_is_harmless)
  have "outside_now 0 ''secret'' (sample_hub\<lparr>objs := (objs sample_hub)(0 \<mapsto> newBouncerClient ''ip'' None),
      attached := attached sample_hub @ [0], started := Suc 0\<rparr>)"
    by (simp add: outside_now_def holds_def outsider_def newBouncerClient_def sample_hub_fields)
  then have o: "outside_now 0 ''secret'' (ServeConn ''ip'' None sample_hub)"
    unfolding ServeConn_def Let_def by (auto intro!: outside_client outside_send simp: outsider_def sample_hub_fields)
  then have pw: "password (ServeConn ''ip'' None sample_hub) = ''secret''" by (auto simp: outside_now_def holds_def)
  show "outside_now 0 (password (ServeConn ''ip'' None sample_hub)) (ServeConn ''ip'' None sample_hub)" using o pw by simp
  have "\<not> gives_password ''secret'' blind_msg" by code_simp
  then show "\<not> gives_password (password (ServeConn ''ip'' None sample_hub)) blind_msg" using pw by simp
qed

end
