(* ===== verification/Bouncer_Flow.thy ===== *)
theory Bouncer_Flow
  imports Bouncer_Auth
begin

text \<open>
  What an attached client sees of the session: the connector and the bouncer together. Each line from upstream reaches
  every live client once, unchanged and in order, among notices the bouncer adds under its own name.
\<close>

section \<open>What the connector asks of the bouncer for one line\<close>

definition quiet_call :: "bcall \<Rightarrow> bool" where
  "quiet_call b \<longleftrightarrow>
     (case b of UpdateUpstreamNick _ \<Rightarrow> True | UpdateUpstreamIdentity _ _ \<Rightarrow> True | NotifyJoinFailure _ _ \<Rightarrow> True | _ \<Rightarrow> False)"

definition grows :: "Connector \<Rightarrow> Connector \<Rightarrow> bool" where
  "grows c d \<longleftrightarrow> (\<exists>bs. to_bouncer d = to_bouncer c @ bs \<and> list_all quiet_call bs)"

lemma grows_refl: "to_bouncer d = to_bouncer c \<Longrightarrow> grows c d"
  by (simp add: grows_def)

lemma grows_trans: "grows c d \<Longrightarrow> grows d e \<Longrightarrow> grows c e"
  unfolding grows_def by force

lemma grows_call: "quiet_call b \<Longrightarrow> grows c (call_bouncer b c)"
  by (simp add: grows_def call_bouncer_def)

lemma quiet_handlers_calls [simp]:
  "to_bouncer (handleJoin m c) = to_bouncer c" "to_bouncer (handlePart m c) = to_bouncer c"
  "to_bouncer (handleQuit env m c) = to_bouncer c" "to_bouncer (handleKick m c) = to_bouncer c"
  "to_bouncer (handleTopic m c) = to_bouncer c" "to_bouncer (handleMode m c) = to_bouncer c"
  "to_bouncer (handleEndOfNames env m c) = to_bouncer c"
  by (simp_all add: handleJoin_def handlePart_def handleQuit_def handleKick_def handleTopic_def handleMode_def
      handleEndOfNames_def Let_def split: option.split)

lemma grows_nick: "grows c (setCurrentNick n c)"
  unfolding setCurrentNick_def Let_def
  using grows_call [of "UpdateUpstreamNick n" "c\<lparr>currentNick := n\<rparr>"]
  by (simp add: grows_def quiet_call_def)

lemma grows_identity: "grows c (learn_identity m c)"
  by (auto simp: learn_identity_def quiet_call_def intro: grows_call grows_refl split: option.split prod.split)

lemma grows_join_failure: "grows c (handleJoinFailure m c)"
proof -
  have "grows c (publish t f (call_bouncer (NotifyJoinFailure x r) (c\<lparr>wanted := w\<rparr>)))" for t f x r w
    by (simp add: grows_def call_bouncer_def quiet_call_def)
  then show ?thesis unfolding handleJoinFailure_def Let_def by (simp add: grows_refl)
qed

lemma grows_nick_change: "grows c (handleNickChange m c)"
proof -
  have "grows c (publish t f (setDesiredNick x (setCurrentNick x (on_state s c))))" for t f x s
    using grows_nick [of "on_state s c" x] by (simp add: grows_def)
  then show ?thesis unfolding handleNickChange_def Let_def by (simp add: grows_refl)
qed

lemma grows_if: "grows c a \<Longrightarrow> grows c b \<Longrightarrow> grows c (if P then a else b)"
  by simp

lemma notice_calls [simp]: "to_bouncer (publishServerNotice k t c) = to_bouncer c"
  by (simp add: publishServerNotice_def Let_def)

lemma grows_command: "grows c (handle_command env line msg c)"
proof -
  have w: "grows c (publishServerNotice k t (if b then setCurrentNick n c else c))" for k t b n
    using grows_nick [of c n] by (simp add: grows_def)
  show ?thesis
    unfolding handle_command_def Let_def
    by (intro grows_if w grows_join_failure grows_nick_change; rule grows_refl; simp)
qed

lemma dispatch_calls:
  "\<exists>bs. to_bouncer (dispatchLine env line c) = to_bouncer c @
      (if bouncer c \<and> shouldFanOutToBouncer (Command (Parse line)) then [Broadcast line] else []) @ bs \<and>
    list_all quiet_call bs"
proof -
  let ?c1 = "dispatch_classify line (Parse line) c"
  let ?c2 = "if shouldFanOutToBouncer (Command (Parse line)) then call_bouncer (Broadcast line) ?c1 else ?c1"
  have "grows ?c2 (dispatchLine env line c)"
    unfolding dispatchLine_def Let_def by (rule grows_trans [OF grows_identity grows_command])
  moreover have "to_bouncer ?c2 = to_bouncer c @
      (if bouncer c \<and> shouldFanOutToBouncer (Command (Parse line)) then [Broadcast line] else [])"
    by (simp add: call_bouncer_def)
  ultimately show ?thesis by (simp add: grows_def)
qed

lemma fan_conn: "conn (fan f ex k) = conn k"
  unfolding fan_def
  by (rule fold_keeps [where P = "\<lambda>k'. conn k' = conn k"]) (auto simp: fan_one_def Let_def split: option.split prod.split)

lemma deliver_conn: "conn (deliver b k) = conn k"
  by (cases b) (simp_all add: deliver_def Broadcast_b_def BroadcastAsSelf_b_def NotifyJoinFailure_b_def fan_conn Let_def
      UpdateUpstreamNick_b_def UpdateUpstreamIdentity_b_def AttachState_b_def)

lemma connector_step_conn: "conn (connector_step f h) = f (conn h)"
  unfolding connector_step_def Let_def
  by (rule fold_keeps [where P = "\<lambda>k. conn k = f (conn h)"]) (simp_all add: deliver_conn)

section \<open>A live client\<close>

definition live :: "BouncerClient \<Rightarrow> bool" where
  "live cl \<longleftrightarrow> auth cl \<and> \<not> closed cl \<and> accepts cl = None"

text \<open>The lines the bouncer speaks under its own name.\<close>

definition own_line :: "string \<Rightarrow> bool" where
  "own_line l \<longleftrightarrow> prefix '':turborg-bouncer NOTICE '' l \<or> prefix '':*turborg!turborg@bouncer PRIVMSG '' l"

definition wire_text :: "string \<Rightarrow> string" where
  "wire_text l = trim_right (\<lambda>c. c \<in> set crlf) l"

definition session_lines :: "string list \<Rightarrow> string list" where
  "session_lines ls = filter (\<lambda>l. \<not> own_line l) (map wire_text ls)"

definition watching :: "nat \<Rightarrow> string list \<Rightarrow> Hub \<Rightarrow> bool" where
  "watching i s h \<longleftrightarrow>
     (\<exists>cl. objs h i = Some cl \<and> live cl \<and> filter (\<lambda>l. \<not> own_line l) (got cl) = s) \<and>
     i \<in> set (attached h) \<and> distinct (attached h)"

lemma own_line_wire: "own_line l \<Longrightarrow> own_line (wire_text l)"
proof -
  have t: "prefix p l \<Longrightarrow> p \<noteq> [] \<Longrightarrow> last p \<notin> set crlf \<Longrightarrow> prefix p (wire_text l)" for p
  proof -
    assume p: "prefix p l" "p \<noteq> []" "last p \<notin> set crlf"
    then obtain r where "l = p @ r" by (auto simp: prefix_def)
    moreover have "trim_right (\<lambda>c. c \<in> set crlf) p = p" using p by (simp add: trim_right_id)
    ultimately show "prefix p (wire_text l)" by (simp add: wire_text_def trim_right_append)
  qed
  assume "own_line l"
  then show ?thesis unfolding own_line_def using t by (auto simp: crlf_def)
qed

lemma session_lines_own: "own_line l \<Longrightarrow> session_lines [l] = []"
  by (simp add: session_lines_def own_line_wire)

lemma live_send: "live cl \<Longrightarrow> sendLine l cl = (cl\<lparr>got := got cl @ [wire_text l]\<rparr>, False)"
  by (simp add: live_def sendLine_def wire_text_def Let_def)

text \<open>A turn for another client changes nothing for this one; its own turn adds the line.\<close>

lemma watching_other: "watching i s h \<Longrightarrow> j \<noteq> i \<Longrightarrow> watching i s (fan_one f ex j h)"
  by (auto simp: watching_def fan_one_def Let_def distinct_removeAll split: option.split prod.split)

lemma watching_others: "watching i s h \<Longrightarrow> i \<notin> set js \<Longrightarrow> watching i s (fold (fan_one f ex) js h)"
  by (induction js arbitrary: h) (simp_all add: watching_other)

lemma watching_self:
  assumes "watching i s h" "ex \<noteq> Some i" "\<And>cl. session_lines [f cl] = new"
  shows "watching i (s @ new) (fan_one f ex i h)"
proof -
  obtain cl where cl: "objs h i = Some cl" "live cl" "filter (\<lambda>l. \<not> own_line l) (got cl) = s"
    using assms(1) by (auto simp: watching_def)
  have "auth cl" using cl(2) by (simp add: live_def)
  then have "fan_one f ex i h = h\<lparr>objs := (objs h)(i \<mapsto> cl\<lparr>got := got cl @ [wire_text (f cl)]\<rparr>)\<rparr>"
    using cl assms(2) live_send [OF cl(2)] by (simp add: fan_one_def)
  moreover have "filter (\<lambda>l. \<not> own_line l) [wire_text (f cl)] = new" using assms(3) [of cl] by (simp add: session_lines_def)
  ultimately show ?thesis using cl assms(1) by (auto simp: watching_def live_def)
qed

lemma watching_fan:
  assumes w: "watching i s h" and ex: "ex \<noteq> Some i" and new: "\<And>cl. session_lines [f cl] = new"
  shows "watching i (s @ new) (fan f ex h)"
proof -
  obtain as bs where ab: "attached h = as @ i # bs" "i \<notin> set as" "i \<notin> set bs"
    using w by (auto simp: watching_def dest: split_list)
  have "watching i s (fold (fan_one f ex) as h)" using w ab(2) by (rule watching_others)
  from watching_self [OF this ex new] have "watching i (s @ new) (fan_one f ex i (fold (fan_one f ex) as h))" .
  from watching_others [OF this ab(3)] show ?thesis by (simp add: fan_def ab(1))
qed

lemma watching_own: "watching i s h \<Longrightarrow> own_line l \<Longrightarrow> watching i s (Broadcast_b l None h)"
  unfolding Broadcast_b_def using watching_fan [of i s h None "\<lambda>_. l" "[]"] by (simp add: session_lines_own)

lemma watching_send_own: "watching i s h \<Longrightarrow> own_line l \<Longrightarrow> watching i s (send_to j l h)"
proof (cases "j = i")
  case True
  assume w: "watching i s h" and l: "own_line l"
  then obtain cl where "objs h i = Some cl" "live cl" "filter (\<lambda>l. \<not> own_line l) (got cl) = s" by (auto simp: watching_def)
  then show ?thesis using w l True
    by (auto simp: watching_def send_to_def on_client_def live_send own_line_wire live_def)
next
  case False
  assume "watching i s h"
  then show ?thesis using False by (auto simp: watching_def send_to_def on_client_def split: option.split)
qed

lemma watching_service: "watching i s h \<Longrightarrow> watching i s (notifyService j body h)"
  unfolding notifyService_def notifyPolicyDenial_def Let_def
  by (auto intro!: watching_send_own simp: own_line_def serviceNick_def)

lemma watching_notice:
  assumes "watching i s h"
  shows "watching i s (broadcastChannelNotice body h)"
proof -
  have a: "watching i s g \<Longrightarrow> watching i s (broadcastServiceAudit body g)" for g
    unfolding broadcastServiceAudit_def
    by (auto intro!: fold_keeps [where P = "watching i s"] watching_service)
  have "watching i s (fold (\<lambda>name h. Broadcast_b ('':turborg-bouncer NOTICE '' @ name @ '' :'' @ body) None h) ns h)" for ns
    using assms by (rule fold_keeps [where P = "watching i s", rotated]) (rule watching_own, simp_all add: own_line_def)
  then show ?thesis unfolding broadcastChannelNotice_def using a assms by simp
qed

lemma watching_conn: "watching i s h \<Longrightarrow> watching i s (h\<lparr>conn := c\<rparr>)"
  by (simp add: watching_def)

lemma watching_quiet: "watching i s h \<Longrightarrow> quiet_call b \<Longrightarrow> watching i s (deliver b h)"
proof (cases b)
  case (NotifyJoinFailure x r)
  assume "watching i s h"
  then show ?thesis
    by (auto simp: NotifyJoinFailure deliver_def NotifyJoinFailure_b_def own_line_def Let_def intro!: watching_own)
qed (auto simp: deliver_def quiet_call_def watching_def UpdateUpstreamNick_b_def UpdateUpstreamIdentity_b_def Let_def)

section \<open>The session, live\<close>

lemma watching_upstream:
  assumes w: "watching i s h" and b: "bouncer (conn h)"
  shows "watching i (s @ session_lines (if shouldFanOutToBouncer (Command (Parse l)) then [l] else []))
      (upstream_line env l h) \<and> bouncer (conn (upstream_line env l h))"
proof -
  let ?c = "conn h" and ?d = "dispatchLine env l (conn h)"
  let ?g = "if up ?d \<noteq> up ?c \<and> running h \<and> has_machine h then onUpstreamStateChange (state_change ?c ?d) h else h"
  have n: "watching i s ?g" using w watching_notice by (simp add: onUpstreamStateChange_def Let_def)
  have g: "watching i s (?g\<lparr>conn := ?d\<rparr>)" using n by (rule watching_conn)
  obtain bs where bs: "to_bouncer ?d = to_bouncer ?c @
      (if bouncer ?c \<and> shouldFanOutToBouncer (Command (Parse l)) then [Broadcast l] else []) @ bs" "list_all quiet_call bs"
    using dispatch_calls by blast
  have q: "list_all quiet_call bs \<Longrightarrow> watching i t k \<Longrightarrow> watching i t (fold deliver bs k)" for t k
    by (induction bs arbitrary: k) (simp_all add: watching_quiet)
  have fdc: "conn (fold deliver xs k) = conn k" for xs k
    by (rule fold_keeps [where P = "\<lambda>k'. conn k' = conn k"]) (simp_all add: deliver_conn)
  have U: "upstream_line env l h =
      fold deliver (drop (length (to_bouncer ?c)) (to_bouncer ?d)) (?g\<lparr>conn := ?d\<rparr>)"
    by (simp add: upstream_line_def connector_step_def Let_def)
  have "watching i (s @ session_lines [l]) (deliver (Broadcast l) (?g\<lparr>conn := ?d\<rparr>))"
    using watching_fan [OF g, of None "\<lambda>_. l"] by (simp add: deliver_def Broadcast_b_def)
  then have "watching i (s @ session_lines (if shouldFanOutToBouncer (Command (Parse l)) then [l] else []))
      (fold deliver (drop (length (to_bouncer ?c)) (to_bouncer ?d)) (?g\<lparr>conn := ?d\<rparr>))"
    using q [OF bs(2)] g b by (simp add: bs(1) session_lines_def)
  then show ?thesis using b unfolding U fdc by simp
qed

text \<open>C2: an attached client sees the session as it is. For any lines from the server, each live client receives exactly
  those of them that concern the session, once, unchanged and in order, whatever other clients do to their own
  connections meanwhile; anything else it is sent is a notice the bouncer signs with its own name.\<close>

theorem live_client_sees_session:
  assumes "objs h i = Some cl" "live cl" "i \<in> set (attached h)" "distinct (attached h)" "bouncer (conn h)"
  shows "\<exists>cl'. objs (fold (upstream_line env) lines h) i = Some cl' \<and> live cl' \<and>
    filter (\<lambda>l. \<not> own_line l) (got cl') =
      filter (\<lambda>l. \<not> own_line l) (got cl) @
      session_lines (filter (\<lambda>l. Command (Parse l) \<notin> {[], CmdPing, CmdPong, CmdCap, CmdAuthenticate, RplSaslLoggedIn,
         RplSaslSuccess, ErrSaslFail, ErrSaslAborted, ErrSaslAlready, ErrSaslTooLong}) lines)"
proof -
  have "watching i s h \<Longrightarrow> bouncer (conn h) \<Longrightarrow>
      watching i (s @ session_lines (filter (\<lambda>l. shouldFanOutToBouncer (Command (Parse l))) lines))
        (fold (upstream_line env) lines h)" for s
  proof (induction lines arbitrary: s h)
    case (Cons l lines)
    let ?P = "\<lambda>l. shouldFanOutToBouncer (Command (Parse l))"
    have e: "session_lines (filter ?P (l # lines)) = session_lines (if ?P l then [l] else []) @ session_lines (filter ?P lines)"
      by (simp add: session_lines_def)
    note step = watching_upstream [OF Cons.prems, of l env]
    from Cons.IH [OF conjunct1 [OF step] conjunct2 [OF step]] show ?case
      unfolding e by (simp only: append.assoc fold_simps)
  qed (simp add: session_lines_def)
  from this [of "filter (\<lambda>l. \<not> own_line l) (got cl)"] assms show ?thesis
    by (auto simp: watching_def shouldFanOutToBouncer_def)
qed

text \<open>A second client whose connection fails on the first line does not disturb the first.\<close>

definition two_clients :: Hub where
  "two_clients =
     sample_hub\<lparr>objs := [0 \<mapsto> (newBouncerClient ''a'' None)\<lparr>auth := True\<rparr>, 1 \<mapsto> (newBouncerClient ''b'' (Some 0))\<lparr>auth := True\<rparr>],
                attached := [1, 0], started := 2\<rparr>"

theorem live_client_sees_session_witness:
  "\<exists>cl'. objs (fold (upstream_line sample_env) ['':n!u@h PRIVMSG #a :hi'', ''PING :x''] two_clients) 0 = Some cl' \<and> live cl' \<and>
     filter (\<lambda>l. \<not> own_line l) (got cl') = ['':n!u@h PRIVMSG #a :hi'']"
proof -
  have s: "session_lines (filter (\<lambda>l. Command (Parse l) \<notin> {[], CmdPing, CmdPong, CmdCap, CmdAuthenticate, RplSaslLoggedIn,
         RplSaslSuccess, ErrSaslFail, ErrSaslAborted, ErrSaslAlready, ErrSaslTooLong})
      ['':n!u@h PRIVMSG #a :hi'', ''PING :x'']) = ['':n!u@h PRIVMSG #a :hi'']" by code_simp
  have "bouncer (conn two_clients)"
    by (simp add: two_clients_def sample_hub_def startBouncer_def NewBouncer_def AttachState_b_def
        AttachWelcomeReplayDepth_def attachTBHandler_def NewConnector_def Let_def)
  then have "\<exists>cl'. objs (fold (upstream_line sample_env) ['':n!u@h PRIVMSG #a :hi'', ''PING :x''] two_clients) 0 = Some cl' \<and> live cl' \<and>
      filter (\<lambda>l. \<not> own_line l) (got cl') = filter (\<lambda>l. \<not> own_line l) (got ((newBouncerClient ''a'' None)\<lparr>auth := True\<rparr>)) @
        session_lines (filter (\<lambda>l. Command (Parse l) \<notin> {[], CmdPing, CmdPong, CmdCap, CmdAuthenticate, RplSaslLoggedIn,
           RplSaslSuccess, ErrSaslFail, ErrSaslAborted, ErrSaslAlready, ErrSaslTooLong})
          ['':n!u@h PRIVMSG #a :hi'', ''PING :x''])"
    by (intro live_client_sees_session) (simp_all add: two_clients_def live_def newBouncerClient_def)
  then show ?thesis unfolding s by (simp add: newBouncerClient_def)
qed

end
