(* ===== verification/Bouncer_Forward.thy ===== *)
theory Bouncer_Forward
  imports Bouncer_Flow
begin

text \<open>
  What an authenticated client can make the bouncer do upstream: exactly the forwardable, well-formed lines the policy
  allows go out while the link is up, and none while it is down, when JOIN, PART and NICK are kept for the next
  session instead.
\<close>

section \<open>What leaves the connector alone\<close>

lemma fan_fields [simp]:
  "conn (fan f ex h) = conn h" "limits (fan f ex h) = limits h" "upstreamNick (fan f ex h) = upstreamNick h"
  "has_observer (fan f ex h) = has_observer h" "has_wanted (fan f ex h) = has_wanted h"
proof -
  have "conn (fan f ex h) = conn h \<and> limits (fan f ex h) = limits h \<and> upstreamNick (fan f ex h) = upstreamNick h \<and>
      has_observer (fan f ex h) = has_observer h \<and> has_wanted (fan f ex h) = has_wanted h"
    unfolding fan_def
    by (rule fold_keeps [where P = "\<lambda>k. conn k = conn h \<and> limits k = limits h \<and> upstreamNick k = upstreamNick h \<and>
        has_observer k = has_observer h \<and> has_wanted k = has_wanted h"])
      (auto simp: fan_one_def Let_def split: option.split prod.split)
  then show "conn (fan f ex h) = conn h" "limits (fan f ex h) = limits h" "upstreamNick (fan f ex h) = upstreamNick h"
    "has_observer (fan f ex h) = has_observer h" "has_wanted (fan f ex h) = has_wanted h" by simp_all
qed

text \<open>\<open>sends i\<close>: an operation that only writes to client \<open>i\<close>.\<close>

definition sends :: "nat \<Rightarrow> Hub \<Rightarrow> Hub \<Rightarrow> bool" where
  "sends i h h' \<longleftrightarrow> (\<exists>f. h' = on_client f i h)"

lemma on_client_same: "on_client id i h = h"
  by (auto simp: on_client_def fun_upd_idem split: option.split)

lemma on_client_comp: "on_client f i (on_client g i h) = on_client (f \<circ> g) i h"
  by (simp add: on_client_def split: option.split)

lemma sends_refl: "sends i h h"
  unfolding sends_def by (rule exI [of _ id]) (rule on_client_same [symmetric])

lemma sends_trans: "sends i h g \<Longrightarrow> sends i g k \<Longrightarrow> sends i h k"
  unfolding sends_def using on_client_comp by metis

lemma sends_send: "sends i h (send_to i l h)" "sends i h (notifyPolicyDenial i t r h)" "sends i h (notifyService i b h)"
  "sends i h (notifyPolicyDenialForCommand i m r h)"
proof -
  have s: "sends i h (send_to i l h)" for l by (auto simp: sends_def send_to_def)
  then show "sends i h (send_to i l h)" .
  have n: "sends i h (notifyPolicyDenial i t r h)" for t r using s by (simp add: notifyPolicyDenial_def)
  then show "sends i h (notifyPolicyDenial i t r h)" .
  have v: "sends i h (notifyService i b h)" for b using s n by (simp add: notifyService_def Let_def)
  then show "sends i h (notifyService i b h)" .
  then show "sends i h (notifyPolicyDenialForCommand i m r h)" using v by (simp add: notifyPolicyDenialForCommand_def Let_def)
qed

lemma sends_fields:
  assumes "sends i h h'"
  shows "conn h' = conn h" "attached h' = attached h" "limits h' = limits h" "networkName h' = networkName h"
    "upstreamNick h' = upstreamNick h" "has_wanted h' = has_wanted h" "has_machine h' = has_machine h"
    "j \<noteq> i \<Longrightarrow> objs h' j = objs h j"
  using assms by (auto simp: sends_def on_client_def split: option.splits)

lemma conn_send [simp]:
  "conn (send_to i l h) = conn h" "conn (on_client f i h) = conn h" "conn (close_client i h) = conn h"
  "conn (notifyPolicyDenial i t r h) = conn h" "conn (notifyService i b h) = conn h"
  "conn (notifyPolicyDenialForCommand i m r h) = conn h" "conn (on_limiter rf ip h) = conn h" "conn (fire_hook x h) = conn h"
  "conn (surfaceStateToClient i h) = conn h" "conn (sendChathistoryFail i x y z h) = conn h"
  using sends_fields(1) [OF sends_send(1)] sends_fields(1) [OF sends_send(2)] sends_fields(1) [OF sends_send(3)]
    sends_fields(1) [OF sends_send(4)]
  by (simp_all add: on_client_def close_client_def on_limiter_def fire_hook_def surfaceStateToClient_def Let_def
      sendChathistoryFail_def split: option.split)

lemma conn_sends [simp]: "conn (send_all i ls h) = conn h" "conn (fst (send_while i ls h)) = conn h"
proof -
  show "conn (send_all i ls h) = conn h"
    unfolding send_all_def by (rule fold_keeps [where P = "\<lambda>k. conn k = conn h"]) simp_all
  show "conn (fst (send_while i ls h)) = conn h" by (induction i ls h rule: send_while.induct) simp_all
qed

lemma conn_batch [simp]:
  "conn (writeReplayBatch env i ch ms t b h) = conn h" "conn (writeChathistoryBatch env i ch ms h) = conn h"
  "conn (chathistory_reply env i ch before n h) = conn h" "conn (handleChathistory env i m h) = conn h"
proof -
  show "conn (writeReplayBatch env i ch ms t b h) = conn h"
  proof -
    obtain g bid where g: "(if b then newBatchID env h else (h, [])) = (g, bid)" by fastforce
    then have "conn g = conn h" by (auto simp: newBatchID_def split: if_splits)
    then show ?thesis unfolding writeReplayBatch_def Let_def g prod.case by (simp add: split_beta)
  qed
  have w: "conn (writeChathistoryBatch env i ch ms h) = conn h" for ch ms
    by (simp add: writeChathistoryBatch_def newBatchID_def Let_def)
  then show "conn (writeChathistoryBatch env i ch ms h) = conn h" .
  have r: "conn (chathistory_reply env i ch before n h) = conn h" for ch before n
    by (simp add: chathistory_reply_def w split: option.split sum.split)
  then show "conn (chathistory_reply env i ch before n h) = conn h" .
  show "conn (handleChathistory env i m h) = conn h"
    by (simp add: handleChathistory_def Let_def r split: option.split)
qed

lemma conn_welcome [simp]: "conn (sendWelcome env i h) = conn h"
proof -
  have c: "conn (replay_channel env i recent t b d n g) = conn g" for recent t b d n g
    by (simp add: replay_channel_def split: sum.split list.split)
  have "conn (fold (replay_channel env i recent t b d) ns g) = conn g" for recent t b d ns g
    by (rule fold_keeps [where P = "\<lambda>k. conn k = conn g"]) (simp_all add: c)
  then have l: "conn (replayChannelLogs env i g) = conn g" for g
    unfolding replayChannelLogs_def by (simp split: option.split)
  have r: "conn (replayState env i g) = conn g" for g by (simp add: replayState_def)
  show ?thesis unfolding sendWelcome_def Let_def l r by (simp only: conn_send)
qed

lemma conn_if: "conn x = c \<Longrightarrow> conn y = c \<Longrightarrow> conn (if b then x else y) = c"
  by simp

lemma conn_cap [simp]: "conn (handleCap env i m h) = conn h"
proof -
  have e: "conn (case objs h i of None \<Rightarrow> h | Some cl \<Rightarrow>
      let (cl', flush) = endCapNeg cl; h = h\<lparr>objs := (objs h)(i \<mapsto> cl')\<rparr> in if flush then sendWelcome env i h else h) = conn h"
  proof (cases "objs h i")
    case (Some cl)
    obtain a b where "endCapNeg cl = (a, b)" by fastforce
    then show ?thesis by (simp add: Some Let_def)
  qed simp
  show ?thesis
    unfolding handleCap_def Let_def
    by (intro conn_if e [unfolded Let_def]; simp only: conn_send; (intro conn_if; simp only: conn_send)?)
qed

lemma conn_pass [simp]: "conn (handlePass env i ps h) = conn h"
proof (cases "objs h i")
  case (Some cl)
  obtain g locked where g: "check_lock (bc_ip cl) h = (g, locked)" by fastforce
  then have "conn g = conn h"
    by (auto simp: check_lock_def split: option.splits prod.splits if_splits)
  then show ?thesis
    by (simp add: handlePass_def Some g Let_def split: prod.split del: append_Cons)
qed (simp add: handlePass_def)

lemma conn_tb [simp]: "conn (handleTB env i m h) = conn h"
proof -
  have s: "conn (handleTBSummarize env i args g) = conn g" for args g
    by (simp add: handleTBSummarize_def Let_def split: prod.split sum.split del: append_Cons)
  have t: "conn (handleTBTLDR env i args g) = conn g" for args g
    by (simp add: handleTBTLDR_def Let_def split: prod.split sum.split option.split del: append_Cons)
  show "conn (handleTB env i m h) = conn h" by (simp add: handleTB_def Let_def s t split: list.split del: append_Cons)
qed

section \<open>While the link is down\<close>

definition wanted_after :: "Protocol.Message \<Rightarrow> WantedChannels \<Rightarrow> WantedChannels" where
  "wanted_after msg w =
     (if Command msg = CmdJoin
      then fold (\<lambda>(ch, key) w. fst (Add ch key w)) (zip (fst (parseJoinLine (Params msg) (Trailing msg)))
             (snd (parseJoinLine (Params msg) (Trailing msg)))) w
      else if Command msg = CmdPart \<and> Params msg \<noteq> []
      then fold (\<lambda>ch w. fst (Remove ch w)) (splitAndTrim (Params msg ! 0) (CHR '','')) w
      else w)"

text \<open>The connector with what a detached command keeps for the next session.\<close>

definition queued :: "Protocol.Message \<Rightarrow> Connector \<Rightarrow> Connector" where
  "queued msg c =
     (if Command msg = CmdNick then (if requested_nick msg = [] then c else SetPreferredNick (requested_nick msg) c)
      else c\<lparr>wanted := wanted_after msg (wanted c)\<rparr>)"

definition like :: "nat \<Rightarrow> Hub \<Rightarrow> Hub \<Rightarrow> bool" where
  "like i h h' \<longleftrightarrow> (\<forall>j. j \<noteq> i \<longrightarrow> objs h' j = objs h j) \<and> attached h' = attached h \<and> has_wanted h' = has_wanted h \<and>
     submitted h' = submitted h"

lemma like_ops: "like i h (notifyService i b h)" "like i h (send_to i l h)" "like i h (h\<lparr>conn := c\<rparr>)" "like i h h"
  using sends_fields [OF sends_send(3)] sends_fields [OF sends_send(1)]
  by (auto simp: like_def notifyService_def notifyPolicyDenial_def send_to_def on_client_def Let_def split: option.split)

lemma like_trans: "like i h g \<Longrightarrow> like i g k \<Longrightarrow> like i h k"
  by (simp add: like_def)

text \<open>The loops over channels: each step changes the wanted set and tells the client.\<close>

lemma queue_loop:
  assumes "has_wanted h"
  shows "conn (fold (\<lambda>x h. notifyService i (b x h) (on_wanted (f x) h)) xs h) =
      (conn h)\<lparr>wanted := fold f xs (wanted (conn h))\<rparr> \<and>
    like i h (fold (\<lambda>x h. notifyService i (b x h) (on_wanted (f x) h)) xs h)"
  using assms
proof (induction xs arbitrary: h)
  case Nil
  then show ?case by (simp add: like_ops)
next
  case (Cons x xs)
  let ?g = "notifyService i (b x h) (on_wanted (f x) h)"
  have g: "like i h ?g"
    by (rule like_trans [of i h "on_wanted (f x) h"]) (simp_all add: on_wanted_def like_ops)
  then have "has_wanted ?g" using Cons.prems by (simp add: like_def)
  from Cons.IH [OF this] g Cons.prems like_trans show ?case by (auto simp: on_wanted_def)
qed

lemma detached_effect:
  assumes "has_wanted h" "has_nick_hook h"
  shows "conn (rejectForDetached i msg h) = queued msg (conn h) \<and> like i h (rejectForDetached i msg h)"
proof -
  have J: "conn (handleDetachedJoin i msg h) = (conn h)\<lparr>wanted := wanted_after msg (wanted (conn h))\<rparr> \<and>
      like i h (handleDetachedJoin i msg h)" if "Command msg = CmdJoin"
  proof -
    obtain chans keys where p: "parseJoinLine (Params msg) (Trailing msg) = (chans, keys)" by fastforce
    have "handleDetachedJoin i msg h = fold (\<lambda>x h. notifyService i
        (''Queued JOIN '' @ fst x @ '' '' @ em_dash @ '' channel will be available when reconnected to '' @
          network (on_wanted (\<lambda>w. fst (Add (fst x) (snd x) w)) h) @ ''.'')
        (on_wanted (\<lambda>w. fst (Add (fst x) (snd x) w)) h)) (zip chans keys) h"
      by (simp add: handleDetachedJoin_def p Let_def case_prod_unfold)
    then show ?thesis
      using queue_loop [OF assms(1), of i _ "\<lambda>x w. fst (Add (fst x) (snd x) w)" "zip chans keys"] that p
      by (simp add: wanted_after_def case_prod_unfold)
  qed
  have P: "conn (handleDetachedPart i msg h) = (conn h)\<lparr>wanted := wanted_after msg (wanted (conn h))\<rparr> \<and>
      like i h (handleDetachedPart i msg h)" if "Command msg = CmdPart"
    using queue_loop [OF assms(1), of i "\<lambda>ch _. ''Removed '' @ ch @ '' from the auto-join list. Will not rejoin on next reconnect.''"
        "\<lambda>ch w. fst (Remove ch w)" "splitAndTrim (Params msg ! 0) (CHR '','')"] that
    by (simp add: handleDetachedPart_def wanted_after_def Let_def like_ops)
  have N: "conn (handleDetachedNick i msg h) = (if requested_nick msg = [] then conn h else SetPreferredNick (requested_nick msg) (conn h)) \<and>
      like i h (handleDetachedNick i msg h)"
    using assms(2) like_trans [OF like_ops(3) like_ops(1)] by (simp add: handleDetachedNick_def Let_def like_ops)
  have R: "conn (handleDetachedRefusal i msg h) = conn h \<and> like i h (handleDetachedRefusal i msg h)"
    by (simp add: handleDetachedRefusal_def Let_def like_ops)
  have "Command msg \<noteq> CmdJoin \<Longrightarrow> Command msg \<noteq> CmdPart \<Longrightarrow> wanted_after msg w = w" for w
    by (simp add: wanted_after_def)
  then show ?thesis using J P N R by (auto simp: rejectForDetached_def queued_def)
qed

text \<open>C7: while the upstream link is down an authenticated client's command is never lost silently and never faked.
  Nothing is written upstream; JOIN and PART change exactly the list of channels the next session will join, keys
  included, NICK the nick it will ask for, and every other command changes nothing; no other client sees anything.\<close>

theorem detached_commands:
  assumes "has_wanted h" "has_nick_hook h" "upstreamState h \<noteq> Registered" "Authenticated h i"
    "forwardable (Command (Parse line))" "isWellFormed (Parse line)"
  shows "conn (handleLine env i line h) = queued (Parse line) (conn h) \<and>
    wire (conn (handleLine env i line h)) = wire (conn h) \<and>
    (\<forall>j. j \<noteq> i \<longrightarrow> objs (handleLine env i line h) j = objs h j)"
proof -
  have "handleLine env i line h = rejectForDetached i (Parse line) h"
    using assms(3-6) by (auto simp: handleLine_def forward_def forwardable_def Let_def)
  moreover have "wire (queued m c) = wire c" for m c
    by (simp add: queued_def SetPreferredNick_def run_nick_hook_def Let_def)
  ultimately show ?thesis using detached_effect [OF assms(1,2), of i "Parse line"] by (simp add: like_def)
qed

section \<open>While it is up\<close>

lemma policy_conn: "allowByPolicy i msg h = (g, ok) \<Longrightarrow> conn g = conn h \<and> has_send g = has_send h \<and> has_wanted g = has_wanted h"
proof -
  assume a: "allowByPolicy i msg h = (g, ok)"
  have s: "sends i k k' \<Longrightarrow> conn k' = conn k \<and> has_send k' = has_send k \<and> has_wanted k' = has_wanted k" for k k'
    by (auto simp: sends_def on_client_def split: option.splits)
  show ?thesis
    using a s [OF sends_send(4)] s [OF sends_send(2)]
    by (auto simp: allowByPolicy_def Let_def split: option.splits prod.splits if_splits)
qed

lemma wire_after: "wire (conn (afterForwarded i msg line h)) = wire (conn h)"
  by (simp add: afterForwarded_def fanMessage_def recordJoinedToWanted_def recordPartedFromWanted_def on_wanted_def
      BroadcastAsSelf_b_def publish_def Let_def split: prod.split)

lemma conn_wire_if: "wire (conn x) = c \<Longrightarrow> wire (conn y) = c \<Longrightarrow> wire (conn (if b then x else y)) = c"
  by simp

lemma wire_queue: "wire (conn (rejectForDetached i msg h)) = wire (conn h)"
proof -
  have w: "wire (conn (on_wanted f k)) = wire (conn k)" for f k by (simp add: on_wanted_def)
  have J: "wire (conn (handleDetachedJoin i msg h)) = wire (conn h)"
    unfolding handleDetachedJoin_def case_prod_unfold Let_def
    by (rule fold_keeps [where P = "\<lambda>k. wire (conn k) = wire (conn h)"]) (simp_all only: conn_send w)
  have P: "wire (conn (handleDetachedPart i msg h)) = wire (conn h)"
    unfolding handleDetachedPart_def Let_def
    by (rule conn_wire_if, rule refl) (rule fold_keeps [where P = "\<lambda>k. wire (conn k) = wire (conn h)"], simp_all only: conn_send w)
  have N: "wire (conn (handleDetachedNick i msg h)) = wire (conn h)"
    by (simp add: handleDetachedNick_def SetPreferredNick_def run_nick_hook_def Let_def)
  have R: "wire (conn (handleDetachedRefusal i msg h)) = wire (conn h)" by (simp add: handleDetachedRefusal_def Let_def)
  from J P N R show ?thesis by (simp add: rejectForDetached_def)
qed

text \<open>C3: what clients can send to the network is exactly what the operator allows. One line of any client writes
  nothing upstream, or that line alone and unchanged, and then the client is authenticated, the link is up, the
  command is one of the eleven that are forwarded and has its target, and the policy permits it: not a NICK while
  nicks are locked, not a JOIN at the channel limit, not a PRIVMSG beyond its target's quota.\<close>

theorem upstream_writes:
  "wire (conn (handleLine env i line h)) = wire (conn h) \<or>
   wire (conn (handleLine env i line h)) = wire (conn h) @ [line] \<and>
     Authenticated h i \<and> upstreamState h = Registered \<and> forwardable (Command (Parse line)) \<and> isWellFormed (Parse line) \<and>
     (Command (Parse line) = CmdNick \<longrightarrow> \<not> NickLocked (limits h)) \<and>
     (Command (Parse line) = CmdJoin \<and> has_state h \<and> MaxChannels (limits h) > 0 \<longrightarrow>
        int (Channel_State.Count (chan_state (conn h))) < MaxChannels (limits h)) \<and>
     (\<forall>t. Command (Parse line) = CmdPrivmsg \<and> outboundThrottle h = Some t \<longrightarrow>
        Allow (snd (AllowWithReason (clock (conn h)) (Params (Parse line) ! 0) t)))"
proof -
  let ?m = "Parse line"
  show ?thesis
  proof (cases "wire (conn (handleLine env i line h)) = wire (conn h)")
    case False
    then have fwd: "handleLine env i line h = forward i ?m line h" and auth: "Authenticated h i"
      by (auto simp: handleLine_def Let_def split: if_splits)
    obtain g ok where g: "allowByPolicy i ?m h = (g, ok)" by fastforce
    note P = policy_conn [OF g]
    obtain c e where c: "send_upstream line (conn g) = (c, e)" by fastforce
    have basic: "forwardable (Command ?m)" "isWellFormed ?m" "upstreamState h = Registered" "ok" "has_send g"
      using False P wire_queue [of i ?m h] unfolding fwd forward_def g by (auto split: if_splits bool.splits)
    have ok: "e = None"
    proof (rule ccontr)
      assume "e \<noteq> None"
      then have "wire c = wire (conn g)"
        using c by (auto simp: send_upstream_def sock_write_def split: if_splits option.splits nat.splits)
      then show False using False P c basic \<open>e \<noteq> None\<close> unfolding fwd forward_def g by (auto simp: wire_queue)
    qed
    have "wire c = wire (conn g) @ [line]"
      using c ok by (auto simp: send_upstream_def sock_write_def split: if_splits option.splits nat.splits)
    then have w: "wire (conn (handleLine env i line h)) = wire (conn h) @ [line]"
      unfolding fwd forward_def g using basic c ok P by (simp add: wire_after)
    have allow: "AllowCommand (limits h) (Command ?m)
        (int (if Command ?m = CmdJoin \<and> has_state h then Channel_State.Count (chan_state (conn h)) else 0)) = None"
      using g basic(4) by (auto simp: allowByPolicy_def Let_def split: option.splits)
    have "Command ?m = CmdPrivmsg \<Longrightarrow> length (Params ?m) > 0" using basic(2) by (simp add: isWellFormed_def requiresTarget_def)
    then have "\<forall>t. Command ?m = CmdPrivmsg \<and> outboundThrottle h = Some t \<longrightarrow>
        Allow (snd (AllowWithReason (clock (conn h)) (Params ?m ! 0) t))"
      using g basic(4) allow by (auto simp: allowByPolicy_def Let_def split: option.splits prod.splits if_splits)
    then show ?thesis using w auth basic allow by (auto simp: AllowCommand_def split: if_splits)
  qed simp
qed

theorem detached_commands_witness:
  "conn (handleLine idle_env 0 ''JOIN #x key'' two_clients) = queued (Parse ''JOIN #x key'') (conn two_clients) \<and>
   wire (conn (handleLine idle_env 0 ''JOIN #x key'' two_clients)) = wire (conn two_clients) \<and>
   objs (handleLine idle_env 0 ''JOIN #x key'' two_clients) 1 = objs two_clients 1"
proof -
  have p: "forwardable (Command (Parse ''JOIN #x key''))" "isWellFormed (Parse ''JOIN #x key'')" by code_simp+
  have h: "has_wanted two_clients" "has_nick_hook two_clients" "upstreamState two_clients \<noteq> Registered" "Authenticated two_clients 0"
    by (simp_all add: two_clients_def sample_hub_def startBouncer_def NewBouncer_def AttachState_b_def
        AttachWelcomeReplayDepth_def attachTBHandler_def upstreamState_def NewConnector_def NewUpstreamStateMachine_def
        Authenticated_def Let_def)
  from detached_commands [OF h p] show ?thesis by blast
qed

definition locked_hub :: Hub where
  "locked_hub = two_clients\<lparr>limits := no_limits\<lparr>NickLocked := True\<rparr>\<rparr>"

theorem upstream_writes_witness:
  "wire (conn (handleLine idle_env 0 ''NICK other'' locked_hub)) = wire (conn locked_hub)"
proof -
  have "Command (Parse ''NICK other'') = CmdNick" by code_simp
  then show ?thesis using upstream_writes [of idle_env 0 "''NICK other''" locked_hub] by (simp add: locked_hub_def)
qed

section \<open>A message reaches every client\<close>

lemma fan_other: "j \<notin> set js \<Longrightarrow> objs (fold (fan_one f ex) js h) j = objs h j"
proof (induction js arbitrary: h)
  case (Cons k js)
  have "objs (fan_one f ex k h) j = objs h j"
    using Cons.prems by (auto simp: fan_one_def Let_def split: option.split prod.split)
  then show ?case using Cons by simp
qed simp

lemma fan_objs:
  assumes "distinct (attached h)" "j \<in> set (attached h)" "objs h j = Some cl" "live cl"
  shows "objs (fan f ex h) j = Some (if ex = Some j then cl else cl\<lparr>got := got cl @ [wire_text (f cl)]\<rparr>)"
proof -
  obtain as bs where ab: "attached h = as @ j # bs" "j \<notin> set as" "j \<notin> set bs"
    using assms(1,2) by (auto dest: split_list)
  let ?g = "fold (fan_one f ex) as h"
  have "objs ?g j = Some cl" using fan_other [OF ab(2), of f ex h] assms(3) by simp
  then have "objs (fan_one f ex j ?g) j = Some (if ex = Some j then cl else cl\<lparr>got := got cl @ [wire_text (f cl)]\<rparr>)"
    using live_send [OF assms(4)] assms(4) by (auto simp: fan_one_def live_def)
  then show ?thesis using fan_other [OF ab(3), of f ex "fan_one f ex j ?g"] by (simp add: fan_def ab(1))
qed

lemma policy_allows_message:
  assumes "Command msg = CmdPrivmsg \<or> Command msg = CmdNotice"
    "\<And>t. Command msg = CmdPrivmsg \<Longrightarrow> outboundThrottle h = Some t \<Longrightarrow>
       Allow (snd (AllowWithReason (clock (conn h)) (Params msg ! 0) t))"
  shows "\<exists>t. allowByPolicy i msg h = (h\<lparr>outboundThrottle := t\<rparr>, True)"
proof -
  have a: "AllowCommand (limits h) (Command msg) n = None" for n using assms(1) by (auto simp: AllowCommand_def)
  have same: "h\<lparr>outboundThrottle := t\<rparr> = h" if "outboundThrottle h = t" for t using that by auto
  show ?thesis
  proof (cases "outboundThrottle h")
    case None
    then have "allowByPolicy i msg h = (h\<lparr>outboundThrottle := None\<rparr>, True)"
      unfolding same [OF None] by (simp add: allowByPolicy_def Let_def a)
    then show ?thesis by blast
  next
    case (Some t)
    show ?thesis
    proof (cases "Command msg = CmdPrivmsg \<and> length (Params msg) > 0")
      case True
      obtain t' res where r: "AllowWithReason (clock (conn h)) (Params msg ! 0) t = (t', res)" by fastforce
      have "Allow res" using assms(2) [of t] True Some r by simp
      then show ?thesis using True Some r a by (auto simp: allowByPolicy_def Let_def)
    next
      case False
      then have "allowByPolicy i msg h = (h\<lparr>outboundThrottle := Some t\<rparr>, True)"
        unfolding same [OF Some] by (simp only: allowByPolicy_def Let_def a Some option.case if_not_P [OF False] if_False)
      then show ?thesis by blast
    qed
  qed
qed

lemma send_ok:
  assumes "client c \<noteq> None" "writes_left c \<noteq> Some 0"
  shows "\<exists>d. send_upstream line c = (d, None) \<and> wire d = wire c @ [line]"
proof (cases "writes_left c")
  case None
  then have "send_upstream line c = (c\<lparr>wire := wire c @ [line]\<rparr>, None)"
    using assms(1) by (simp add: send_upstream_def sock_write_def)
  then show ?thesis by simp
next
  case (Some n)
  then obtain m where "n = Suc m" using assms(2) by (cases n) auto
  then have "send_upstream line c = (c\<lparr>wire := wire c @ [line], writes_left := Some m\<rparr>, None)"
    using assms(1) Some by (simp add: send_upstream_def sock_write_def)
  then show ?thesis by simp
qed

text \<open>C27: a message one client sends, when it may be sent, goes out once and is shown to every other live client under
  the bot's own name, tagged for those that asked for it; back to its sender only if the sender negotiated
  echo-message. So every client of the same user sees the same conversation.\<close>

theorem message_reaches_everyone:
  assumes msg: "Command (Parse line) = CmdPrivmsg \<or> Command (Parse line) = CmdNotice" "isWellFormed (Parse line)"
    and may: "Authenticated h i" "upstreamState h = Registered"
      "\<And>t. Command (Parse line) = CmdPrivmsg \<Longrightarrow> outboundThrottle h = Some t \<Longrightarrow>
         Allow (snd (AllowWithReason (clock (conn h)) (Params (Parse line) ! 0) t))"
    and up: "has_send h" "client (conn h) \<noteq> None" "writes_left (conn h) \<noteq> Some 0"
    and j: "distinct (attached h)" "j \<in> set (attached h)" "objs h j = Some cl" "live cl" "upstreamNick h \<noteq> []"
  shows "wire (conn (handleLine env i line h)) = wire (conn h) @ [line] \<and>
    objs (handleLine env i line h) j =
      Some (if j = i \<and> \<not> client_has h i ''echo-message'' then cl
            else cl\<lparr>got := got cl @ [wire_text (self_line (self_mask h @ '' '' @ line) cl)]\<rparr>)"
proof -
  obtain t where t: "allowByPolicy i (Parse line) h = (h\<lparr>outboundThrottle := t\<rparr>, True)"
    using policy_allows_message [OF msg(1) may(3)] by auto
  obtain c where c: "send_upstream line (conn h) = (c, None)" "wire c = wire (conn h) @ [line]"
    using send_ok [OF up(2,3)] by blast
  let ?g = "h\<lparr>outboundThrottle := t, conn := c\<rparr>"
  have fw: "forwardable (Command (Parse line))" using msg(1) by (auto simp: forwardable_def)
  have F: "handleLine env i line h = fanMessage i (Parse line) line ?g"
  proof -
    have "handleLine env i line h = forward i (Parse line) line h"
      using msg(1) may(1) by (elim disjE) (simp_all add: handleLine_def Let_def)
    also have "\<dots> = afterForwarded i (Parse line) line ?g"
      unfolding forward_def t prod.case bool.case using fw msg(2) may(2) up(1) c(1) by simp
    also have "\<dots> = fanMessage i (Parse line) line ?g" using msg(1) by (simp add: afterForwarded_def)
    finally show ?thesis .
  qed
  have E: "client_has ?g i x = client_has h i x" for x by (simp add: client_has_def)
  have P: "upstreamPrefix ?g = self_mask h" "self_mask h \<noteq> []" using j(5) by (simp_all add: upstreamPrefix_def self_mask_def)
  have B: "objs (BroadcastAsSelf_b line ex ?g) j =
      Some (if ex = Some j then cl else cl\<lparr>got := got cl @ [wire_text (self_line (self_mask h @ '' '' @ line) cl)]\<rparr>)" for ex
    using fan_objs [of ?g j cl "self_line (self_mask h @ '' '' @ line)" ex] j P by (simp add: BroadcastAsSelf_b_def)
  have "wire (conn (BroadcastAsSelf_b line ex ?g)) = wire c" for ex by (simp add: BroadcastAsSelf_b_def Let_def)
  then show ?thesis unfolding F fanMessage_def Let_def E using B c(2) by (auto simp: publish_def)
qed

definition live_hub :: Hub where
  "live_hub =
     two_clients\<lparr>objs := [0 \<mapsto> (newBouncerClient ''a'' None)\<lparr>auth := True\<rparr>, 1 \<mapsto> (newBouncerClient ''b'' None)\<lparr>auth := True\<rparr>],
        conn := (goto Registered [] (conn two_clients))\<lparr>client := Some 1, bouncer := True\<rparr>, upstreamNick := ''bot'', upstreamIdent := ''bot''\<rparr>"

theorem message_reaches_everyone_witness:
  "wire (conn (handleLine idle_env 0 ''PRIVMSG #a :hi'' live_hub)) = [''PRIVMSG #a :hi''] \<and>
   objs (handleLine idle_env 0 ''PRIVMSG #a :hi'' live_hub) 1 =
     Some ((newBouncerClient ''b'' None)\<lparr>auth := True, got := ['':bot!bot@turborg PRIVMSG #a :hi'']\<rparr>)"
proof -
  have p: "Command (Parse ''PRIVMSG #a :hi'') = CmdPrivmsg" "isWellFormed (Parse ''PRIVMSG #a :hi'')" by code_simp+
  have f: "wire (conn live_hub) = []" "self_mask live_hub = '':bot!bot@turborg''" "upstreamState live_hub = Registered"
    "has_send live_hub" "client (conn live_hub) \<noteq> None" "writes_left (conn live_hub) \<noteq> Some 0" "outboundThrottle live_hub = None"
    by (simp_all add: live_hub_def two_clients_def sample_hub_def startBouncer_def NewBouncer_def AttachState_b_def
        AttachWelcomeReplayDepth_def attachTBHandler_def upstreamState_def NewConnector_def NewUpstreamStateMachine_def
        goto_def Transition_def self_mask_def EffectiveUsername_def sample_settings_def Let_def)
  have w: "wire_text (self_line ('':bot!bot@turborg'' @ '' '' @ ''PRIVMSG #a :hi'') ((newBouncerClient ''b'' None)\<lparr>auth := True\<rparr>)) =
      '':bot!bot@turborg PRIVMSG #a :hi''" by code_simp
  have "wire (conn (handleLine idle_env 0 ''PRIVMSG #a :hi'' live_hub)) = wire (conn live_hub) @ [''PRIVMSG #a :hi''] \<and>
    objs (handleLine idle_env 0 ''PRIVMSG #a :hi'' live_hub) 1 =
      Some (if (1::nat) = 0 \<and> \<not> client_has live_hub 0 ''echo-message'' then (newBouncerClient ''b'' None)\<lparr>auth := True\<rparr>
            else ((newBouncerClient ''b'' None)\<lparr>auth := True\<rparr>)\<lparr>got := got ((newBouncerClient ''b'' None)\<lparr>auth := True\<rparr>) @
              [wire_text (self_line (self_mask live_hub @ '' '' @ ''PRIVMSG #a :hi'') ((newBouncerClient ''b'' None)\<lparr>auth := True\<rparr>))]\<rparr>)"
    using p f by (intro message_reaches_everyone)
      (simp_all add: Authenticated_def live_hub_def two_clients_def live_def newBouncerClient_def)
  then show ?thesis unfolding f(1,2) w by (simp add: newBouncerClient_def)
qed

end
