(* ===== verification/Bouncer_History.thy ===== *)
theory Bouncer_History
  imports Bouncer_Forward
begin

text \<open>
  What the bouncer tells one client on its own account: the answer to CHATHISTORY, the welcome and when it comes, and
  the refusal of an address that has failed too often.
\<close>

section \<open>History queries\<close>

lemma send_to_live:
  assumes "objs h i = Some cl" "live cl"
  shows "objs (send_to i l h) i = Some (cl\<lparr>got := got cl @ [wire_text l]\<rparr>)" "live (cl\<lparr>got := got cl @ [wire_text l]\<rparr>)"
  using assms live_send [OF assms(2), of l] by (simp_all add: send_to_def on_client_def live_def)

lemma send_all_live:
  "objs h i = Some cl \<Longrightarrow> live cl \<Longrightarrow>
     objs (send_all i ls h) i = Some (cl\<lparr>got := got cl @ map wire_text ls\<rparr>) \<and> live (cl\<lparr>got := got cl @ map wire_text ls\<rparr>)"
proof (induction ls arbitrary: h cl)
  case (Cons l ls)
  from Cons.IH [OF send_to_live [OF Cons.prems, of l]] show ?case by (simp add: send_all_def)
qed (simp add: send_all_def)

text \<open>The bound a subcommand and its selector ask for; \<open>None\<close> when they are refused.\<close>

definition query_bound :: "benv \<Rightarrow> string \<Rightarrow> string \<Rightarrow> instant option option" where
  "query_bound env sub selector =
     (if to_upper sub = ''BEFORE'' then map_option bound (parseChathistorySelector env selector)
      else if to_upper sub = ''LATEST''
      then (if selector = ''*'' then Some None else map_option bound (parseChathistorySelector env selector))
      else None)"

lemma chathistory_query:
  assumes "length (Params msg) \<ge> 4" "Params msg ! 1 = tgt" "startsWithChannelSigil tgt"
    "atoi (Params msg ! 3) = Some n" "n > 0" "query_bound env (Params msg ! 0) (Params msg ! 2) = Some before"
  shows "handleChathistory env i msg h = chathistory_reply env i tgt before (min n 200) h"
proof -
  have t: "tgt \<noteq> []" using assms(3) by (auto simp: startsWithChannelSigil_def)
  have m: "(if n > chathistoryMaxLimit then chathistoryMaxLimit else n) = min n 200"
    by (simp add: chathistoryMaxLimit_def min_def)
  obtain a p b l rest where ps: "Params msg = a # p # b # l # rest"
    using assms(1) by (auto simp: numeral_eq_Suc Suc_le_length_iff)
  have p: "p = tgt" "atoi l = Some n" "query_bound env a b = Some before" using assms(2,4,6) by (simp_all add: ps)
  show ?thesis
  proof (cases "to_upper a = ''BEFORE''")
    case True
    then obtain z where "parseChathistorySelector env b = Some z" "before = bound z"
      using p(3) by (auto simp: query_bound_def)
    then show ?thesis using True t assms(3,5) p(1,2) by (simp add: handleChathistory_def ps m Let_def del: append_Cons)
  next
    case False
    then have L: "to_upper a = ''LATEST''" using p(3) by (auto simp: query_bound_def split: if_splits)
    show ?thesis
    proof (cases "b = ''*''")
      case True
      then show ?thesis using L t assms(3,5) p by (simp add: handleChathistory_def ps m Let_def query_bound_def del: append_Cons)
    next
      case False
      then obtain z where "parseChathistorySelector env b = Some z" "before = bound z"
        using p(3) L by (auto simp: query_bound_def)
      then show ?thesis using False L t assms(3,5) p(1,2)
        by (simp add: handleChathistory_def ps m Let_def del: append_Cons)
    qed
  qed
qed

text \<open>C32: a history query of a client that negotiated \<^verbatim>\<open>batch\<close>, over the in-memory store, is answered with one batch
  that holds, in the order they were said, exactly the newest messages of that channel strictly older than the bound: as
  many as asked for, at most 200, and all of them when there are fewer. The whole batch goes to the client that asked
  and to no other.\<close>

theorem chathistory_answer:
  assumes "objs h i = Some cl" "live cl" "''batch'' \<in> set (caps cl)"
    "messageStore h = Some (\<lambda>ch b k. Inr (Recent s ch b k))"
    "length (Params msg) \<ge> 4" "Params msg ! 1 = tgt" "startsWithChannelSigil tgt"
    "atoi (Params msg ! 3) = Some n" "n > 0" "query_bound env (Params msg ! 0) (Params msg ! 2) = Some before"
  defines "old \<equiv> filter (older before) (ms_bucket s tgt)"
  defines "page \<equiv> drop (length old - nat (min n 200)) old"
  shows "\<exists>b.
    objs (handleChathistory env i msg h) i =
      Some (cl\<lparr>got := got cl @ map wire_text ([''BATCH +'' @ b @ '' chathistory '' @ tgt] @
                 replay_lines env h (''server-time'' \<in> set (caps cl)) b page @ [''BATCH -'' @ b])\<rparr>) \<and>
    (\<forall>j. j \<noteq> i \<longrightarrow> objs (handleChathistory env i msg h) j = objs h j)"
proof -
  let ?b = "batch_id env (batches h)" and ?page = "rev (Recent s tgt before (min n 200))"
  let ?h = "h\<lparr>batches := Suc (batches h)\<rparr>"
  have tgt: "tgt \<noteq> []" using assms(7) by (auto simp: startsWithChannelSigil_def)
  have law: "Recent s tgt before (min n 200) = take (nat (min n 200)) (rev old)"
    using memory.recent_law [OF tgt, of s before "min n 200"] assms(9) by (simp add: old_def rev_filter)
  have page: "?page = page" by (simp add: law page_def rev_take)
  have caps: "client_has h i c = (c \<in> set (caps cl))" for c using assms(1) by (simp add: client_has_def)
  have R: "handleChathistory env i msg h =
      send_all i ([''BATCH +'' @ ?b @ '' chathistory '' @ tgt] @
        replay_lines env h (''server-time'' \<in> set (caps cl)) ?b ?page @ [''BATCH -'' @ ?b]) ?h"
  proof -
    have "handleChathistory env i msg h = writeChathistoryBatch env i tgt ?page h"
      unfolding chathistory_query [OF assms(5-10)] by (simp add: chathistory_reply_def assms(4))
    moreover have "replay_lines env (send_to i l ?h) t b ms = replay_lines env h t b ms" for l t b ms
    proof -
      have "upstreamNick (send_to i l ?h) = upstreamNick h" "upstreamIdent (send_to i l ?h) = upstreamIdent h"
        "upstreamHost (send_to i l ?h) = upstreamHost h" by (simp_all add: send_to_def on_client_def split: option.split)
      then show ?thesis unfolding replay_lines_def formatMessageForReplay_def self_mask_def by (simp only:)
    qed
    ultimately show ?thesis
      using assms(3) by (simp add: writeChathistoryBatch_def newBatchID_def caps Let_def send_all_def)
  qed
  have "objs ?h i = Some cl" using assms(1) by simp
  from send_all_live [OF this assms(2)] have own: "objs (handleChathistory env i msg h) i =
      Some (cl\<lparr>got := got cl @ map wire_text ([''BATCH +'' @ ?b @ '' chathistory '' @ tgt] @
                 replay_lines env h (''server-time'' \<in> set (caps cl)) ?b ?page @ [''BATCH -'' @ ?b])\<rparr>)"
    unfolding R by blast
  have other: "objs (send_all i ls k) j = objs k j" if "j \<noteq> i" for ls k j
    unfolding send_all_def
    by (rule fold_keeps [where P = "\<lambda>g. objs g j = objs k j"]) (use that in \<open>auto simp: send_to_def on_client_def split: option.split\<close>)
  show ?thesis using own other unfolding R page by (intro exI [of _ ?b]) auto
qed

definition asking_hub :: Hub where
  "asking_hub =
     sample_hub\<lparr>objs := [0 \<mapsto> (newBouncerClient ''a'' None)\<lparr>auth := True, caps := [''batch'']\<rparr>], attached := [0],
        messageStore := Some (\<lambda>ch b k. Inr (Recent (fold Submit [note_msg ''#a'' ''x'' 1, note_msg ''#a'' ''y'' 2] (NewMemoryStore 5)) ch b k))\<rparr>"

theorem chathistory_answer_witness:
  "\<exists>b. objs (handleChathistory idle_env 0 (Parse ''CHATHISTORY BEFORE #a timestamp=2 10'') asking_hub) 0 =
      Some (((newBouncerClient ''a'' None)\<lparr>auth := True, caps := [''batch'']\<rparr>)\<lparr>got := map wire_text
        ([''BATCH +'' @ b @ '' chathistory #a''] @ replay_lines idle_env asking_hub False b [note_msg ''#a'' ''x'' 1] @ [''BATCH -'' @ b])\<rparr>)"
proof -
  let ?m = "Parse ''CHATHISTORY BEFORE #a timestamp=2 10''"
  let ?s = "fold Submit [note_msg ''#a'' ''x'' 1, note_msg ''#a'' ''y'' 2] (NewMemoryStore 5)"
  let ?cl = "(newBouncerClient ''a'' None)\<lparr>auth := True, caps := [''batch'']\<rparr>"
  have p: "length (Params ?m) \<ge> 4" "Params ?m ! 1 = ''#a''" "startsWithChannelSigil ''#a''"
    "atoi (Params ?m ! 3) = Some 10" by code_simp+
  have q: "query_bound idle_env (Params ?m ! 0) (Params ?m ! 2) = Some (Some 2)"
  proof -
    have "Params ?m ! 0 = ''BEFORE''" "Params ?m ! 2 = ''timestamp=2''" "to_upper ''BEFORE'' = ''BEFORE''"
      "prefix ''timestamp='' ''timestamp=2''" "drop 10 ''timestamp=2'' = ''2''" "atoi ''2'' = Some 2" by code_simp+
    then show ?thesis
      by (simp add: query_bound_def parseChathistorySelector_def idle_env_def bound_def zero_time_def)
  qed
  have h: "objs asking_hub 0 = Some ?cl" "live ?cl" "''batch'' \<in> set (caps ?cl)"
    "messageStore asking_hub = Some (\<lambda>ch b k. Inr (Recent ?s ch b k))" "\<not> ''server-time'' \<in> set (caps ?cl)"
    by (simp_all add: asking_hub_def live_def newBouncerClient_def)
  have "filter (older (Some 2)) (ms_bucket ?s ''#a'') = [note_msg ''#a'' ''x'' 1]" by code_simp
  then show ?thesis using chathistory_answer [OF h(1-4) p _ q] h(5) by (auto simp: newBouncerClient_def)
qed

section \<open>Locked out\<close>

named_theorems limits "operations that leave the failure limiter as it is"

lemma limits_fold: "(\<And>x g. rateLimiter (f x g) = rateLimiter g) \<Longrightarrow> rateLimiter (fold f xs h) = rateLimiter h"
  by (induction xs arbitrary: h) simp_all

lemma limits_client [limits]:
  "rateLimiter (on_client f i h) = rateLimiter h" "rateLimiter (send_to i l h) = rateLimiter h"
  "rateLimiter (close_client i h) = rateLimiter h" "rateLimiter (send_all i ls h) = rateLimiter h"
  "rateLimiter (notifyService i body h) = rateLimiter h" "rateLimiter (notifyPolicyDenialForCommand i m body h) = rateLimiter h"
  "rateLimiter (notifyPolicyDenial i tgt body h) = rateLimiter h" "rateLimiter (surfaceStateToClient i h) = rateLimiter h" "rateLimiter (disconnect i h) = rateLimiter h"
proof -
  have c: "rateLimiter (on_client f i h) = rateLimiter h" for f i h by (simp add: on_client_def split: option.split)
  then have s: "rateLimiter (send_to i l h) = rateLimiter h" for i l h by (simp add: send_to_def)
  then have n: "rateLimiter (notifyService i body h) = rateLimiter h" for i body h
    by (simp add: notifyService_def notifyPolicyDenial_def Let_def)
  from c s n show "rateLimiter (on_client f i h) = rateLimiter h" "rateLimiter (send_to i l h) = rateLimiter h"
    "rateLimiter (close_client i h) = rateLimiter h" "rateLimiter (send_all i ls h) = rateLimiter h"
    "rateLimiter (notifyService i body h) = rateLimiter h" "rateLimiter (notifyPolicyDenialForCommand i m body h) = rateLimiter h"
    "rateLimiter (notifyPolicyDenial i tgt body h) = rateLimiter h" "rateLimiter (surfaceStateToClient i h) = rateLimiter h" "rateLimiter (disconnect i h) = rateLimiter h"
    by (simp_all add: close_client_def send_all_def limits_fold notifyPolicyDenial_def notifyPolicyDenialForCommand_def surfaceStateToClient_def
        disconnect_def Let_def)
qed

lemma limits_while [limits]: "rateLimiter (fst (send_while i ls h)) = rateLimiter h"
  by (induction i ls h rule: send_while.induct) (simp_all add: limits)

lemma limits_fan [limits]:
  "rateLimiter (Broadcast_b l ex h) = rateLimiter h" "rateLimiter (BroadcastAsSelf_b l ex h) = rateLimiter h"
  "rateLimiter (broadcastChannelNotice body h) = rateLimiter h"
proof -
  have "rateLimiter (fan_one f ex i h) = rateLimiter h" for f ex i h
    by (simp add: fan_one_def Let_def split: option.split prod.split)
  then have f: "rateLimiter (fan f ex h) = rateLimiter h" for f ex h unfolding fan_def by (rule limits_fold)
  then show b: "rateLimiter (Broadcast_b l ex h) = rateLimiter h" "rateLimiter (BroadcastAsSelf_b l ex h) = rateLimiter h" for l ex h
    by (simp_all add: Broadcast_b_def BroadcastAsSelf_b_def Let_def)
  show "rateLimiter (broadcastChannelNotice body h) = rateLimiter h"
    by (simp add: broadcastChannelNotice_def broadcastServiceAudit_def limits_fold b limits)
qed

lemma limits_connector [limits]:
  "rateLimiter (onUpstreamStateChange ch h) = rateLimiter h" "rateLimiter (onUpstreamWarn r d h) = rateLimiter h"
  "rateLimiter (deliver b h) = rateLimiter h" "rateLimiter (connector_step f h) = rateLimiter h"
proof -
  have u: "rateLimiter (onUpstreamStateChange ch h) = rateLimiter h" for ch h
    by (simp add: onUpstreamStateChange_def Let_def limits)
  have d: "rateLimiter (deliver b h) = rateLimiter h" for b h
    by (cases b) (simp_all add: deliver_def UpdateUpstreamNick_b_def UpdateUpstreamIdentity_b_def AttachState_b_def
        NotifyJoinFailure_b_def Let_def limits)
  show "rateLimiter (onUpstreamStateChange ch h) = rateLimiter h" "rateLimiter (deliver b h) = rateLimiter h" by (fact u d)+
  show "rateLimiter (onUpstreamWarn r d h) = rateLimiter h" by (simp add: onUpstreamWarn_def Let_def limits)
  show "rateLimiter (connector_step f h) = rateLimiter h"
    by (simp add: connector_step_def Let_def limits_fold d u)
qed

lemma limits_detached [limits]: "rateLimiter (rejectForDetached i m h) = rateLimiter h"
proof -
  have w: "rateLimiter (on_wanted f g) = rateLimiter g" for f g by (simp add: on_wanted_def)
  show ?thesis
    by (simp add: rejectForDetached_def handleDetachedJoin_def handleDetachedPart_def handleDetachedNick_def
        handleDetachedRefusal_def Let_def limits limits_fold w case_prod_unfold)
qed

lemma limits_forward [limits]: "rateLimiter (forward i m l h) = rateLimiter h"
proof -
  have w: "rateLimiter (on_wanted f g) = rateLimiter g" for f g by (simp add: on_wanted_def)
  have a: "rateLimiter (afterForwarded i m l g) = rateLimiter g" for g
    by (simp add: afterForwarded_def fanMessage_def recordJoinedToWanted_def recordPartedFromWanted_def Let_def limits w
        split: prod.split)
  have "rateLimiter (fst (allowByPolicy i m h)) = rateLimiter h"
    by (simp add: allowByPolicy_def Let_def limits split: option.split prod.split)
  then obtain g ok where "allowByPolicy i m h = (g, ok)" "rateLimiter g = rateLimiter h" by (metis prod.collapse)
  then show ?thesis by (simp add: forward_def limits a split: prod.split option.split bool.split)
qed

lemma limits_history [limits]:
  "rateLimiter (writeReplayBatch env i ch ms t b h) = rateLimiter h" "rateLimiter (handleChathistory env i m h) = rateLimiter h"
proof -
  have "rateLimiter (fst (if b then newBatchID env h else (h, []))) = rateLimiter h" for b
    by (simp add: newBatchID_def)
  then show "rateLimiter (writeReplayBatch env i ch ms t b h) = rateLimiter h"
    unfolding writeReplayBatch_def Let_def by (simp add: limits case_prod_unfold)
  have w: "rateLimiter (writeChathistoryBatch env i tgt ms h) = rateLimiter h" for tgt ms
    by (simp add: writeChathistoryBatch_def newBatchID_def Let_def limits)
  have f: "rateLimiter (sendChathistoryFail i a b c h) = rateLimiter h" for a b c by (simp add: sendChathistoryFail_def limits)
  have "rateLimiter (chathistory_reply env i tgt before limit h) = rateLimiter h" for tgt before limit
    by (simp add: chathistory_reply_def w f split: option.split sum.split)
  then show "rateLimiter (handleChathistory env i m h) = rateLimiter h"
    by (simp add: handleChathistory_def Let_def f split: option.split)
qed

lemma limits_welcome [limits]: "rateLimiter (sendWelcome env i h) = rateLimiter h"
proof -
  have "rateLimiter (replay_channel env i recent t b d name g) = rateLimiter g" for recent t b d name g
    by (simp add: replay_channel_def limits split: sum.split list.split)
  then have "rateLimiter (replayChannelLogs env i g) = rateLimiter g" for g
    by (simp add: replayChannelLogs_def limits_fold split: option.split)
  then show ?thesis by (simp add: sendWelcome_def replayState_def Let_def limits)
qed

lemma limits_cap_tb [limits]:
  "rateLimiter (fire_hook r h) = rateLimiter h" "rateLimiter (handleCap env i m h) = rateLimiter h"
  "rateLimiter (handleTB env i m h) = rateLimiter h"
proof -
  show f: "rateLimiter (fire_hook r h) = rateLimiter h" for r h by (simp add: fire_hook_def)
  show "rateLimiter (handleCap env i m h) = rateLimiter h"
    by (simp add: handleCap_def Let_def limits split: option.split prod.split)
  have "rateLimiter (handleTBSummarize env i args g) = rateLimiter g" for args g
    by (simp add: handleTBSummarize_def Let_def limits split: prod.split sum.split)
  moreover have "rateLimiter (handleTBTLDR env i args g) = rateLimiter g" for args g
    by (simp add: handleTBTLDR_def Let_def limits split: prod.split sum.split option.split)
  ultimately show "rateLimiter (handleTB env i m h) = rateLimiter h"
    by (simp add: handleTB_def Let_def limits f split: list.split)
qed

text \<open>An address that is locked until \<open>until\<close>.\<close>

definition locked_till :: "instant \<Rightarrow> string \<Rightarrow> Hub \<Rightarrow> bool" where
  "locked_till until ip h \<longleftrightarrow> (\<exists>r. rateLimiter h = Some r \<and> lockedUntil r ip = Some until)"

lemma locked_same: "rateLimiter g = rateLimiter h \<Longrightarrow> locked_till until ip g = locked_till until ip h"
  by (simp add: locked_till_def)

lemma locked_refused:
  assumes "locked_till until ip h" "clock (conn h) < until" "ip \<noteq> []" "objs h j = Some cl" "bc_ip cl = ip"
  shows "handlePass env j ps h = close_client j (send_to j ''ERROR :Closing Link (Too many attempts)'' h)"
proof -
  obtain r where r: "rateLimiter h = Some r" "lockedUntil r ip = Some until" using assms(1) by (auto simp: locked_till_def)
  have "TimeUntilUnlock (clock (conn h)) ip r = (r, until - clock (conn h))"
    using r(2) assms(2) by (simp add: TimeUntilUnlock_def Let_def)
  then have "check_lock ip h = (h\<lparr>rateLimiter := Some r\<rparr>, True)"
    using r(1) assms(2,3) by (simp add: check_lock_def)
  moreover have "h\<lparr>rateLimiter := Some r\<rparr> = h" using r(1) by simp
  ultimately show ?thesis using assms(4,5) by (simp add: handlePass_def)
qed

lemma other_address:
  "ip' \<noteq> ip \<Longrightarrow> lockedUntil (RecordSuccess ip' r) ip = lockedUntil r ip"
  "ip' \<noteq> ip \<Longrightarrow> lockedUntil (fst (RecordFailure t ip' r)) ip = lockedUntil r ip"
  "ip' \<noteq> ip \<Longrightarrow> lockedUntil (fst (TimeUntilUnlock t ip' r)) ip = lockedUntil r ip"
  by (simp_all add: RecordSuccess_def RecordFailure_def TimeUntilUnlock_def Let_def split: option.split)

lemma locked_pass:
  assumes "locked_till until ip h" "clock (conn h) < until" "ip \<noteq> []"
  shows "locked_till until ip (handlePass env j ps h)"
proof (cases "objs h j")
  case None
  then show ?thesis using assms(1) by (simp add: handlePass_def)
next
  case (Some cl)
  show ?thesis
  proof (cases "bc_ip cl = ip")
    case True
    show ?thesis unfolding locked_refused [OF assms Some True] using assms(1) by (simp add: locked_till_def limits)
  next
    case False
    obtain g locked where g: "check_lock (bc_ip cl) h = (g, locked)" by fastforce
    obtain r where r: "rateLimiter h = Some r" "lockedUntil r ip = Some until" using assms(1) by (auto simp: locked_till_def)
    obtain r' d where r': "TimeUntilUnlock (clock (conn h)) (bc_ip cl) r = (r', d)" by fastforce
    then have "lockedUntil r' ip = Some until" using other_address(3) [OF False, of "clock (conn h)" r] r(2) by simp
    then have G: "locked_till until ip g"
      using g r r' by (auto simp: check_lock_def locked_till_def split: if_splits)
    have "locked_till until ip (on_limiter (RecordSuccess (bc_ip cl)) (bc_ip cl) k)"
      "locked_till until ip (on_limiter (\<lambda>r. fst (RecordFailure t (bc_ip cl) r)) (bc_ip cl) k)"
      if "rateLimiter k = rateLimiter g" for k t
      using that G other_address [OF False] by (auto simp: locked_till_def on_limiter_def)
    then show ?thesis using Some g G
      by (simp add: handlePass_def Let_def locked_till_def limits case_prod_unfold)
  qed
qed

lemma locked_event:
  assumes "locked_till until ip h" "clock (conn h) < until" "ip \<noteq> []"
  shows "locked_till until ip (run_event env ev h)"
proof (cases ev)
  case (Line j l)
  have "locked_till until ip (handleLine env j m h)" for m
    using assms(1) locked_pass [OF assms] by (simp add: handleLine_def Let_def locked_till_def limits)
  then show ?thesis using Line assms(1)
    by (simp add: client_line_def Let_def locked_till_def limits split: option.split)
qed (use assms(1) in \<open>simp_all add: locked_till_def ServeConn_def client_silent_def client_ping_def activityHeartbeat_def
    bouncer_Stop_def limits limits_fold Let_def split: option.split\<close>)

lemma locked_run:
  assumes "locked_till until ip h" "ip \<noteq> []" "\<forall>n\<le>length evs. clock (conn (run env (take n evs) h)) < until"
  shows "locked_till until ip (run env evs h)"
  using assms(3)
proof (induction evs rule: rev_induct)
  case (snoc ev evs)
  have "clock (conn (run env (take n evs) h)) < until" if "n \<le> length evs" for n
    using snoc.prems [rule_format, of n] that by simp
  moreover from this [of "length evs"] have "clock (conn (run env evs h)) < until" by simp
  ultimately show ?case using snoc.IH locked_event [OF _ _ assms(2)] by simp
qed (use assms(1) in simp)

text \<open>C29: too many wrong passwords lock an address out. Once a wrong password makes the failures counted in the window
  reach the limit, every PASS from that address is refused and its connection closed, the right password included, on
  whatever connection it comes and whatever happened since (connections and attempts from this and other addresses,
  commands, reconnects, timers), as long as the clock has not reached the end of the lock at any point in between.\<close>

theorem lockout:
  assumes bad: "objs h i = Some cl" "bc_ip cl = ip" "ip \<noteq> []" "rateLimiter h = Some r" "\<not> IsLocked (clock (conn h)) ip r"
      "ps = [] \<or> ps ! 0 \<noteq> password h"
    and full: "int (length (filter (not_before_cutoff (rl_Window r) (clock (conn h))) (bucket (failures r) ip))) + 1 \<ge> MaxFailures r"
    and early: "\<forall>n\<le>length evs. clock (conn (run env (take n evs) (handlePass env i ps h))) < clock (conn h) + Lockout r"
    and later: "objs (run env evs (handlePass env i ps h)) j = Some cl'" "bc_ip cl' = ip" "closed cl' = False" "accepts cl' = None"
  shows "objs (handlePass env j ps' (run env evs (handlePass env i ps h))) j =
    Some (cl'\<lparr>got := got cl' @ [''ERROR :Closing Link (Too many attempts)''], closed := True\<rparr>)"
proof -
  let ?now = "clock (conn h)" and ?k = "run env evs (handlePass env i ps h)"
  obtain r1 d where t: "TimeUntilUnlock ?now ip r = (r1, d)" by fastforce
  have r1: "failures r1 = failures r" "rl_Window r1 = rl_Window r" "MaxFailures r1 = MaxFailures r" "Lockout r1 = Lockout r"
    using t by (auto simp: TimeUntilUnlock_def Let_def split: option.splits if_splits)
  have c: "check_lock ip h = (h\<lparr>rateLimiter := Some r1\<rparr>, False)"
    using bad(3-5) t by (simp add: check_lock_def IsLocked_def)
  have "rateLimiter (handlePass env i ps h) = Some (fst (RecordFailure ?now ip r1))"
    using bad(1,2,3,6) c by (auto simp: handlePass_def limits on_limiter_def Let_def)
  moreover have "lockedUntil (fst (RecordFailure ?now ip r1)) ip = Some (?now + Lockout r)"
    using full r1 by (simp add: RecordFailure_def Let_def)
  ultimately have "locked_till (?now + Lockout r) ip (handlePass env i ps h)" by (simp add: locked_till_def)
  from locked_run [OF this bad(3) early] have l: "locked_till (?now + Lockout r) ip ?k" .
  have "clock (conn ?k) < ?now + Lockout r" using early [rule_format, of "length evs"] by simp
  note refused = locked_refused [OF l this bad(3) later(1,2), of env ps']
  have w: "trim_right (\<lambda>c. c \<in> set crlf) ''ERROR :Closing Link (Too many attempts)'' = ''ERROR :Closing Link (Too many attempts)''"
    by code_simp
  show ?thesis
    using later w by (simp add: refused close_client_def send_to_def on_client_def sendLine_def Let_def)
qed

definition strict_limiter :: RateLimiter where
  "strict_limiter = \<lparr>MaxFailures = 1, rl_Window = 60, Lockout = 100, failures = Map.empty, lockedUntil = Map.empty\<rparr>"

definition strict_hub :: Hub where
  "strict_hub = sample_hub\<lparr>objs := [0 \<mapsto> newBouncerClient ''ip'' None, 1 \<mapsto> newBouncerClient ''ip'' None],
     attached := [0, 1], started := 2, rateLimiter := Some strict_limiter\<rparr>"

text \<open>After the one failure allowed, another address fails too, and then the first one tries the right password.\<close>

theorem lockout_witness:
  "objs (handlePass idle_env 1 [''secret''] (run idle_env [Connect ''other'' None, Line 2 guess_pass] (handlePass idle_env 0 [''guess''] strict_hub))) 1 =
     Some ((newBouncerClient ''ip'' None)\<lparr>got := [''ERROR :Closing Link (Too many attempts)''], closed := True\<rparr>)"
proof -
  let ?k = "handlePass idle_env 0 [''guess''] strict_hub" and ?evs = "[Connect ''other'' None, Line 2 guess_pass]"
  have h: "objs strict_hub 0 = Some (newBouncerClient ''ip'' None)" "bc_ip (newBouncerClient ''ip'' None) = ''ip''" "''ip'' \<noteq> []"
    "rateLimiter strict_hub = Some strict_limiter" "\<not> IsLocked (clock (conn strict_hub)) ''ip'' strict_limiter"
    "[''guess''] = [] \<or> [''guess''] ! 0 \<noteq> password strict_hub"
    "int (length (filter (not_before_cutoff (rl_Window strict_limiter) (clock (conn strict_hub))) (bucket (failures strict_limiter) ''ip''))) + 1
       \<ge> MaxFailures strict_limiter"
    by (simp_all add: strict_hub_def strict_limiter_def newBouncerClient_def IsLocked_def TimeUntilUnlock_def bucket_def
        sample_hub_fields)
  have "clock (conn strict_hub) = 0" "clock (conn ?k) = 0" "clock (conn (run idle_env [Connect ''other'' None] ?k)) = 0"
    "clock (conn (run idle_env ?evs ?k)) = 0" by code_simp+
  then have e: "\<forall>n\<le>length ?evs. clock (conn (run idle_env (take n ?evs) ?k)) < clock (conn strict_hub) + Lockout strict_limiter"
    by (auto simp: le_Suc_eq strict_limiter_def simp del: fold_simps)
  have j: "objs (run idle_env ?evs ?k) 1 = Some (newBouncerClient ''ip'' None)" by code_simp
  have "objs (handlePass idle_env 1 [''secret''] (run idle_env ?evs ?k)) 1 =
    Some ((newBouncerClient ''ip'' None)\<lparr>got := got (newBouncerClient ''ip'' None) @ [''ERROR :Closing Link (Too many attempts)''], closed := True\<rparr>)"
    by (rule lockout [OF h e j]) (simp_all add: newBouncerClient_def)
  then show ?thesis by (simp add: newBouncerClient_def)
qed

end
