(* ===== verification/Llm.thy ===== *)
theory Llm
  imports Prelude
begin

text \<open>
  \<^verbatim>\<open>internal/llm\<close>: the interface to a language model (\<^verbatim>\<open>provider.go\<close>), the rolling token budget (\<^verbatim>\<open>budget.go\<close>) and
  the provider that enforces it (\<^verbatim>\<open>budgeted.go\<close>).

  A model acts on a world \<open>'w\<close> (the network, the clock). Token counts are unbounded integers here.
\<close>

section \<open>Calls\<close>

record Usage =
  InputTokens :: int
  OutputTokens :: int
  CachedTokens :: int

record CallOptions =
  co_System :: string
  co_MaxTokens :: int
  co_Model :: string

datatype CallOption = WithSystem string | WithMaxTokens int | WithModel string

fun apply_option :: "CallOption \<Rightarrow> CallOptions \<Rightarrow> CallOptions" where
  "apply_option (WithSystem s) co = co\<lparr>co_System := s\<rparr>"
| "apply_option (WithMaxTokens n) co = co\<lparr>co_MaxTokens := n\<rparr>"
| "apply_option (WithModel m) co = co\<lparr>co_Model := m\<rparr>"

definition ApplyOptions :: "CallOption list \<Rightarrow> CallOptions" where
  "ApplyOptions opts = fold apply_option opts \<lparr>co_System = [], co_MaxTokens = 0, co_Model = []\<rparr>"

datatype ask_err = ErrBudgetExhausted | ProviderErr string

type_synonym 'w Ask = "string \<Rightarrow> CallOption list \<Rightarrow> 'w \<Rightarrow> 'w \<times> (ask_err + string \<times> Usage)"

section \<open>The budget\<close>

record tokenEntry =
  te_ts :: instant
  te_input :: int
  te_output :: int

record TokenBudget =
  entries :: "tokenEntry list"
  baselineInput :: int
  baselineOutput :: int
  budgetWindow :: duration

definition defaultWindow :: duration where "defaultWindow = 24 * 3600 * 10 ^ 9"

definition NewTokenBudget :: TokenBudget where
  "NewTokenBudget = \<lparr>entries = [], baselineInput = 0, baselineOutput = 0, budgetWindow = defaultWindow\<rparr>"

definition prune :: "instant \<Rightarrow> TokenBudget \<Rightarrow> TokenBudget" where
  "prune now b = b\<lparr>entries := filter (\<lambda>e. \<not> te_ts e < now - budgetWindow b) (entries b)\<rparr>"

definition RecordTokens :: "instant \<Rightarrow> int \<Rightarrow> int \<Rightarrow> TokenBudget \<Rightarrow> TokenBudget" where
  "RecordTokens now i out b =
     (let b = prune now b
      in b\<lparr>entries := entries b @ [\<lparr>te_ts = now, te_input = i, te_output = out\<rparr>]\<rparr>)"

definition SetBaseline :: "int \<Rightarrow> int \<Rightarrow> TokenBudget \<Rightarrow> TokenBudget" where
  "SetBaseline i out b = b\<lparr>baselineInput := max 0 i, baselineOutput := max 0 out\<rparr>"

definition Totals :: "instant \<Rightarrow> TokenBudget \<Rightarrow> TokenBudget \<times> int \<times> int" where
  "Totals now b =
     (let b = prune now b
      in (b, foldl (\<lambda>(i, out) e. (i + te_input e, out + te_output e)) (baselineInput b, baselineOutput b) (entries b)))"

definition AllowTokens :: "instant \<Rightarrow> int \<Rightarrow> int \<Rightarrow> TokenBudget \<Rightarrow> TokenBudget \<times> bool" where
  "AllowTokens now inputCap outputCap b =
     (let (b, i, out) = Totals now b
      in (b, \<not> (inputCap > 0 \<and> i \<ge> inputCap) \<and> \<not> (outputCap > 0 \<and> out \<ge> outputCap)))"

section \<open>The budgeted provider\<close>

text \<open>\<open>now\<close> reads the clock of the world, \<open>onUsage\<close> is the reporting callback.\<close>

definition budgeted_Ask ::
  "('w \<Rightarrow> instant) \<Rightarrow> int \<Rightarrow> int \<Rightarrow> (Usage \<Rightarrow> TokenBudget \<times> 'w \<Rightarrow> TokenBudget \<times> 'w) \<Rightarrow> 'w Ask \<Rightarrow>
   (TokenBudget \<times> 'w) Ask" where
  "budgeted_Ask now inputCap outputCap onUsage inner prompt opts bw =
     (let (b, w) = bw; (b, ok) = AllowTokens (now w) inputCap outputCap b
      in if \<not> ok then ((b, w), Inl ErrBudgetExhausted)
         else case inner prompt opts w of
                (w, Inl e) \<Rightarrow> ((b, w), Inl e)
              | (w, Inr (t, u)) \<Rightarrow>
                  (onUsage u (RecordTokens (now w) (InputTokens u) (OutputTokens u) b, w), Inr (t, u)))"

definition estimateTokens :: "string \<Rightarrow> int" where
  "estimateTokens s = (if s = [] then 0 else (int (length s) + 3) div 4)"

text \<open>A stream is its chunks and the error it ends with; the consumer takes \<open>n\<close> chunks and stops, or all of them.\<close>

fun consume :: "nat option \<Rightarrow> string list \<Rightarrow> string list \<times> bool" where
  "consume n [] = ([], False)"
| "consume (Some 0) (c # cs) = ([c], True)"
| "consume (Some (Suc n)) (c # cs) = (let (out, stopped) = consume (Some n) cs in (c # out, stopped))"
| "consume None (c # cs) = (let (out, stopped) = consume None cs in (c # out, stopped))"

definition budgeted_Stream ::
  "('w \<Rightarrow> instant) \<Rightarrow> int \<Rightarrow> int \<Rightarrow> (Usage \<Rightarrow> TokenBudget \<times> 'w \<Rightarrow> TokenBudget \<times> 'w) \<Rightarrow> (string \<Rightarrow> 'w \<Rightarrow> 'w \<times> string list \<times> ask_err option) \<Rightarrow>
   nat option \<Rightarrow> string \<Rightarrow> TokenBudget \<times> 'w \<Rightarrow> (TokenBudget \<times> 'w) \<times> string list \<times> ask_err option" where
  "budgeted_Stream now inputCap outputCap onUsage inner stop_after prompt bw =
     (let (b, w) = bw; (b, ok) = AllowTokens (now w) inputCap outputCap b
      in if \<not> ok then ((b, w), [], Some ErrBudgetExhausted)
         else let (w, chunks, e) = inner prompt w; (out, stopped) = consume stop_after chunks
              in if e \<noteq> None \<and> \<not> stopped then ((b, w), out, e)
                 else let u = \<lparr>InputTokens = estimateTokens prompt, OutputTokens = estimateTokens (concat out), CachedTokens = 0\<rparr>
                      in (onUsage u (RecordTokens (now w) (InputTokens u) (OutputTokens u) b, w), out, None))"

section \<open>The cap holds over the whole history\<close>

text \<open>What can happen to a budget, each at its time.\<close>

datatype budget_op = Charge instant int int | Look instant | Rebase instant int int

fun op_time :: "budget_op \<Rightarrow> instant" where
  "op_time (Charge t i out) = t"
| "op_time (Look t) = t"
| "op_time (Rebase t i out) = t"

fun apply_op :: "budget_op \<Rightarrow> TokenBudget \<Rightarrow> TokenBudget" where
  "apply_op (Charge t i out) b = RecordTokens t i out b"
| "apply_op (Look t) b = fst (Totals t b)"
| "apply_op (Rebase t i out) b = SetBaseline i out b"

text \<open>The specification keeps every charge.\<close>

definition charges :: "budget_op list \<Rightarrow> tokenEntry list" where
  "charges ops = List.map_filter (\<lambda>p. case p of Charge t i out \<Rightarrow> Some \<lparr>te_ts = t, te_input = i, te_output = out\<rparr> | _ \<Rightarrow> None) ops"

definition baseline :: "budget_op list \<Rightarrow> int \<times> int" where
  "baseline ops = fold (\<lambda>p b. case p of Rebase t i out \<Rightarrow> (max 0 i, max 0 out) | _ \<Rightarrow> b) ops (0, 0)"

definition spent :: "(tokenEntry \<Rightarrow> int) \<Rightarrow> instant \<Rightarrow> budget_op list \<Rightarrow> int" where
  "spent f t ops = sum_list (map f (filter (\<lambda>e. t - defaultWindow \<le> te_ts e) (charges ops)))"

definition below_cap :: "int \<Rightarrow> int \<Rightarrow> bool" where
  "below_cap cap n \<longleftrightarrow> cap \<le> 0 \<or> n < cap"

lemma totals_sum:
  "foldl (\<lambda>(i, out) e. (i + te_input e, out + te_output e)) (a, b) es =
     (a + sum_list (map te_input es), b + sum_list (map te_output es))"
  by (induction es arbitrary: a b) auto

lemma allow_exact:
  "AllowTokens now i out b =
     (prune now b,
      below_cap i (baselineInput b + sum_list (map te_input (entries (prune now b)))) \<and>
      below_cap out (baselineOutput b + sum_list (map te_output (entries (prune now b)))))"
  by (auto simp: AllowTokens_def Totals_def Let_def totals_sum below_cap_def prune_def)

lemma totals_prune: "fst (Totals now b) = prune now b"
  by (simp add: Totals_def Let_def)

lemma baseline_snoc:
  "baseline (ops @ [p]) = (case p of Rebase t i out \<Rightarrow> (max 0 i, max 0 out) | _ \<Rightarrow> baseline ops)"
  by (simp add: baseline_def split: budget_op.split)

lemma charges_snoc:
  "charges (ops @ [p]) = charges ops @ (case p of Charge t i out \<Rightarrow> [\<lparr>te_ts = t, te_input = i, te_output = out\<rparr>] | _ \<Rightarrow> [])"
  by (simp add: charges_def List.map_filter_def split: budget_op.split)

text \<open>A budget agrees with the history when it has forgotten nothing the window can still reach.\<close>

definition agrees :: "instant \<Rightarrow> budget_op list \<Rightarrow> TokenBudget \<Rightarrow> bool" where
  "agrees now ops b \<longleftrightarrow>
     budgetWindow b = defaultWindow \<and> (baselineInput b, baselineOutput b) = baseline ops \<and>
     (\<exists>c \<le> now - defaultWindow. entries b = filter (\<lambda>e. c \<le> te_ts e) (charges ops))"

lemma agrees_later: "agrees t ops b \<Longrightarrow> t \<le> t' \<Longrightarrow> agrees t' ops b"
  unfolding agrees_def by (meson diff_right_mono order_trans)

lemma agrees_prune:
  assumes "agrees now ops b"
  shows "agrees now ops (prune now b)"
    and "entries (prune now b) = filter (\<lambda>e. now - defaultWindow \<le> te_ts e) (charges ops)"
proof -
  from assms obtain c where c: "budgetWindow b = defaultWindow" "(baselineInput b, baselineOutput b) = baseline ops"
    "c \<le> now - defaultWindow" "entries b = filter (\<lambda>e. c \<le> te_ts e) (charges ops)" unfolding agrees_def by blast
  show e: "entries (prune now b) = filter (\<lambda>e. now - defaultWindow \<le> te_ts e) (charges ops)"
    using c by (auto simp: prune_def not_less intro!: filter_cong)
  show "agrees now ops (prune now b)"
    unfolding agrees_def e using c(1,2) by (auto simp: prune_def intro!: exI [of _ "now - defaultWindow"])
qed

lemma agrees_op:
  assumes a: "agrees t ops b" and t: "op_time p = t"
  shows "agrees t (ops @ [p]) (apply_op p b)"
proof (cases p)
  case (Charge u i out)
  have w: "defaultWindow > 0" by (simp add: defaultWindow_def)
  show ?thesis using agrees_prune [OF a] t w Charge
    by (auto simp: agrees_def RecordTokens_def Let_def charges_snoc baseline_snoc intro!: exI [of _ "t - defaultWindow"])
next
  case (Look u)
  then show ?thesis using agrees_prune(1) [OF a] t
    by (simp add: totals_prune) (simp add: agrees_def charges_snoc baseline_snoc)
next
  case (Rebase u i out)
  with a show ?thesis by (simp add: agrees_def SetBaseline_def charges_snoc baseline_snoc)
qed

lemma agrees_fold:
  "sorted (map op_time ops) \<Longrightarrow> agrees (if ops = [] then 0 else op_time (last ops)) ops (fold apply_op ops NewTokenBudget)"
proof (induction ops rule: rev_induct)
  case Nil
  then show ?case by (auto simp: agrees_def NewTokenBudget_def baseline_def charges_def List.map_filter_simps intro!: exI [of _ "0 - defaultWindow"])
next
  case (snoc p ops)
  have s: "sorted (map op_time ops)" "\<forall>q\<in>set ops. op_time q \<le> op_time p"
    using snoc.prems by (auto simp: sorted_append)
  have "agrees (op_time p) ops (fold apply_op ops NewTokenBudget)"
  proof (cases "ops = []")
    case True
    then show ?thesis by (auto simp: agrees_def NewTokenBudget_def baseline_def charges_def List.map_filter_simps intro!: exI [of _ "op_time p - defaultWindow"])
  next
    case False
    then show ?thesis using agrees_later [OF snoc.IH [OF s(1)]] s(2) by simp
  qed
  then show ?case using agrees_op by simp
qed

lemma agrees_allow:
  assumes "agrees t ops b"
  shows "snd (AllowTokens t inCap outCap b) \<longleftrightarrow>
    below_cap inCap (fst (baseline ops) + spent te_input t ops) \<and> below_cap outCap (snd (baseline ops) + spent te_output t ops)"
proof -
  have "baselineInput b = fst (baseline ops)" "baselineOutput b = snd (baseline ops)"
    using assms by (metis agrees_def fst_conv, metis agrees_def snd_conv)
  then show ?thesis unfolding allow_exact agrees_prune(2) [OF assms] spent_def by simp
qed

text \<open>C12: forgetting old charges never loosens the daily cap. After any charges, looks and baselines in the order of
  their times, a call is let through exactly when the tokens charged in the last 24 hours, counted over the whole
  history, and the account's share are below each cap; when they are not, the model is not called and nothing of the
  world changes; a call that goes through is charged in full.\<close>

theorem budget_refines:
  assumes "sorted (map op_time ops @ [now w])"
  shows "budgeted_Ask now inCap outCap onUsage inner p opts (fold apply_op ops NewTokenBudget, w) =
    (let b = fold apply_op (ops @ [Look (now w)]) NewTokenBudget
     in if below_cap inCap (fst (baseline ops) + spent te_input (now w) ops) \<and>
           below_cap outCap (snd (baseline ops) + spent te_output (now w) ops)
        then case inner p opts w of
               (w', Inl e) \<Rightarrow> ((b, w'), Inl e)
             | (w', Inr (t, u)) \<Rightarrow>
                 (onUsage u (apply_op (Charge (now w') (InputTokens u) (OutputTokens u)) b, w'), Inr (t, u))
        else ((b, w), Inl ErrBudgetExhausted))"
proof -
  let ?b = "fold apply_op ops NewTokenBudget"
  have "agrees (now w) ops ?b"
  proof (cases "ops = []")
    case True
    then show ?thesis
      by (auto simp: agrees_def NewTokenBudget_def baseline_def charges_def List.map_filter_simps
          intro!: exI [of _ "now w - defaultWindow"])
  next
    case False
    then show ?thesis
      using agrees_later [of "op_time (last ops)" ops ?b "now w"] agrees_fold [of ops] assms
      by (auto simp: sorted_append)
  qed
  note A = agrees_allow [OF this, of inCap outCap]
  have F: "fst (AllowTokens (now w) inCap outCap ?b) = apply_op (Look (now w)) ?b"
    by (simp add: allow_exact totals_prune)
  have B: "AllowTokens (now w) inCap outCap ?b = (apply_op (Look (now w)) ?b,
      below_cap inCap (fst (baseline ops) + spent te_input (now w) ops) \<and>
      below_cap outCap (snd (baseline ops) + spent te_output (now w) ops))"
    using A F by (simp add: prod_eq_iff)
  show ?thesis by (simp add: budgeted_Ask_def B Let_def)
qed

text \<open>A first call of 9 tokens under a cap of 10 lets the second through, not the third.\<close>

theorem budget_refines_witness:
  "snd (budgeted_Ask (\<lambda>w. w) 10 0 (\<lambda>_ w. w) (\<lambda>p _ w. (w + 1, Inr (p, \<lparr>InputTokens = 9, OutputTokens = 1, CachedTokens = 0\<rparr>)))
     ''hi'' [] (fold apply_op [Charge 1 9 1, Charge 2 9 1] NewTokenBudget, 3)) = Inl ErrBudgetExhausted"
  by (subst budget_refines)
    (simp_all add: baseline_def spent_def charges_def List.map_filter_simps below_cap_def defaultWindow_def Let_def)

text \<open>A stream that ends with an error is not charged, whatever it had produced.\<close>

lemma broken_stream_is_free:
  assumes "snd (AllowTokens (now w) i out b)" "inner p w = (w', chunks, Some e)"
  shows "entries (fst (fst (budgeted_Stream now i out onUsage inner None p (b, w)))) = entries (prune (now w) b) \<and>
    fst (snd (budgeted_Stream now i out onUsage inner None p (b, w))) = chunks"
proof -
  have c: "consume None cs = (cs, False)" for cs by (induction cs) auto
  obtain b' where "AllowTokens (now w) i out b = (b', True)" "b' = prune (now w) b"
    using assms(1) by (simp add: allow_exact)
  then show ?thesis using assms(2) by (simp add: budgeted_Stream_def c)
qed

end
