(* ===== verification/Skill_Store.thy ===== *)
theory Skill_Store
  imports Prelude
begin

text \<open>
  \<^verbatim>\<open>internal/skill/store.go\<close>: the values and counters skills and flows keep between two fires. The clock is an
  argument; \<^verbatim>\<open>expiresAt\<close> is \<open>None\<close> where Go has the zero time.
\<close>

record memValue =
  mv_val :: string
  expiresAt :: "instant option"

record SkillStore =
  sk_values :: "string \<rightharpoonup> memValue"
  sk_counts :: "string \<rightharpoonup> instant list"

definition NewSkillStore :: SkillStore where
  "NewSkillStore = \<lparr>sk_values = Map.empty, sk_counts = Map.empty\<rparr>"

definition storeKey :: "string \<Rightarrow> string \<Rightarrow> string" where
  "storeKey skill key = skill @ [nul] @ key"

definition store_Get :: "instant \<Rightarrow> string \<Rightarrow> string \<Rightarrow> SkillStore \<Rightarrow> SkillStore \<times> string option" where
  "store_Get now skill key s =
     (case sk_values s (storeKey skill key) of
        None \<Rightarrow> (s, None)
      | Some v \<Rightarrow>
          (case expiresAt v of
             None \<Rightarrow> (s, Some (mv_val v))
           | Some e \<Rightarrow>
               (if \<not> now < e then (s\<lparr>sk_values := (sk_values s)(storeKey skill key := None)\<rparr>, None)
                else (s, Some (mv_val v)))))"

definition store_Set :: "instant \<Rightarrow> string \<Rightarrow> string \<Rightarrow> string \<Rightarrow> duration \<Rightarrow> SkillStore \<Rightarrow> SkillStore" where
  "store_Set now skill key v ttl s =
     s\<lparr>sk_values := (sk_values s)(storeKey skill key \<mapsto>
        \<lparr>mv_val = v, expiresAt = (if ttl > 0 then Some (now + ttl) else None)\<rparr>)\<rparr>"

definition store_Delete :: "string \<Rightarrow> string \<Rightarrow> SkillStore \<Rightarrow> SkillStore" where
  "store_Delete skill key s = s\<lparr>sk_values := (sk_values s)(storeKey skill key := None)\<rparr>"

definition store_Incr :: "instant \<Rightarrow> string \<Rightarrow> string \<Rightarrow> duration \<Rightarrow> SkillStore \<Rightarrow> SkillStore \<times> nat" where
  "store_Incr now skill key window s =
     (let window = (if window \<le> 0 then 60 * 10 ^ 9 else window);
          k = storeKey skill key;
          bucket = (case sk_counts s k of None \<Rightarrow> [] | Some b \<Rightarrow> b);
          pruned = filter (\<lambda>t. \<not> t < now - window) bucket @ [now]
      in (s\<lparr>sk_counts := (sk_counts s)(k \<mapsto> pruned)\<rparr>, length pruned))"

section \<open>What a skill reads is what it last wrote\<close>

text \<open>Skill names hold no NUL, so that keys of two skills never meet.\<close>

lemma storeKey_inj:
  assumes "nul \<notin> set a" "nul \<notin> set b" "storeKey a k = storeKey b l"
  shows "a = b \<and> k = l"
proof -
  have t: "takeWhile (\<lambda>c. c \<noteq> nul) (storeKey x y) = x" "dropWhile (\<lambda>c. c \<noteq> nul) (storeKey x y) = nul # y"
    if "nul \<notin> set x" for x y
    using that by (auto simp: storeKey_def takeWhile_append dropWhile_append)
  from t [OF assms(1), of k] t [OF assms(2), of l] assms(3) show ?thesis by simp
qed

datatype store_op =
    DoSet instant string string string duration
  | DoDelete instant string string
  | DoGet instant string string
  | DoIncr instant string string duration

fun so_time :: "store_op \<Rightarrow> instant" where
  "so_time (DoSet t s k v ttl) = t"
| "so_time (DoDelete t s k) = t"
| "so_time (DoGet t s k) = t"
| "so_time (DoIncr t s k w) = t"

fun so_skill :: "store_op \<Rightarrow> string" where
  "so_skill (DoSet t s k v ttl) = s"
| "so_skill (DoDelete t s k) = s"
| "so_skill (DoGet t s k) = s"
| "so_skill (DoIncr t s k w) = s"

fun do_op :: "store_op \<Rightarrow> SkillStore \<Rightarrow> SkillStore" where
  "do_op (DoSet t s k v ttl) st = store_Set t s k v ttl st"
| "do_op (DoDelete t s k) st = store_Delete s k st"
| "do_op (DoGet t s k) st = fst (store_Get t s k st)"
| "do_op (DoIncr t s k w) st = fst (store_Incr t s k w st)"

text \<open>The specification: one cell per skill and key, reads and counters do not touch it.\<close>

fun cell :: "string \<Rightarrow> string \<Rightarrow> store_op \<Rightarrow> memValue option \<Rightarrow> memValue option" where
  "cell s k (DoSet t s' k' v ttl) c =
     (if s' = s \<and> k' = k then Some \<lparr>mv_val = v, expiresAt = (if ttl > 0 then Some (t + ttl) else None)\<rparr> else c)"
| "cell s k (DoDelete t s' k') c = (if s' = s \<and> k' = k then None else c)"
| "cell s k (DoGet t s' k') c = c"
| "cell s k (DoIncr t s' k' w) c = c"

definition alive :: "instant \<Rightarrow> memValue option \<Rightarrow> string option" where
  "alive now c =
     (case c of None \<Rightarrow> None
      | Some v \<Rightarrow> (case expiresAt v of None \<Rightarrow> Some (mv_val v) | Some e \<Rightarrow> if now < e then Some (mv_val v) else None))"

lemma get_alive: "snd (store_Get now s k st) = alive now (sk_values st (storeKey s k))"
  by (auto simp: store_Get_def alive_def split: option.split)

definition holds_cell :: "instant \<Rightarrow> memValue option \<Rightarrow> memValue option \<Rightarrow> bool" where
  "holds_cell now real c \<longleftrightarrow> real = c \<or> real = None \<and> alive now c = None"

lemma alive_later: "alive t c = None \<Longrightarrow> t \<le> t' \<Longrightarrow> alive t' c = None"
  by (auto simp: alive_def split: option.splits if_splits)

lemma holds_later: "holds_cell t r c \<Longrightarrow> t \<le> t' \<Longrightarrow> holds_cell t' r c"
  by (auto simp: holds_cell_def dest: alive_later)

lemma holds_op:
  assumes h: "holds_cell (so_time p) (sk_values st (storeKey s k)) c" and n: "nul \<notin> set s" "nul \<notin> set (so_skill p)"
  shows "holds_cell (so_time p) (sk_values (do_op p st) (storeKey s k)) (cell s k p c)"
proof (cases p)
  case (DoSet t s' k' v ttl)
  then show ?thesis using h n storeKey_inj [of s s' k k'] by (auto simp: store_Set_def holds_cell_def)
next
  case (DoDelete t s' k')
  then show ?thesis using h n storeKey_inj [of s s' k k'] by (auto simp: store_Delete_def holds_cell_def)
next
  case (DoGet t s' k')
  show ?thesis
  proof (cases "s' = s \<and> k' = k")
    case True
    then show ?thesis using h DoGet
      by (auto simp: store_Get_def holds_cell_def alive_def split: option.splits if_splits)
  next
    case False
    then have "storeKey s k \<noteq> storeKey s' k'" using storeKey_inj [of s s' k k'] n DoGet by auto
    then have "sk_values (do_op p st) (storeKey s k) = sk_values st (storeKey s k)"
      using DoGet by (auto simp: store_Get_def split: option.split)
    then show ?thesis using h DoGet by simp
  qed
next
  case (DoIncr t s' k' w)
  then show ?thesis using h by (simp add: store_Incr_def Let_def)
qed

lemma holds_fold:
  "sorted (map so_time ops) \<Longrightarrow> \<forall>p\<in>set ops. nul \<notin> set (so_skill p) \<Longrightarrow> nul \<notin> set s \<Longrightarrow>
   holds_cell (if ops = [] then t0 else so_time (last ops)) (sk_values (fold do_op ops NewSkillStore) (storeKey s k))
     (fold (cell s k) ops None)"
proof (induction ops rule: rev_induct)
  case Nil
  then show ?case by (simp add: holds_cell_def NewSkillStore_def)
next
  case (snoc p ops)
  have "holds_cell (if ops = [] then so_time p else so_time (last ops)) (sk_values (fold do_op ops NewSkillStore) (storeKey s k))
      (fold (cell s k) ops None)"
    using snoc by (cases "ops = []") (simp_all add: sorted_append holds_cell_def NewSkillStore_def)
  then have "holds_cell (so_time p) (sk_values (fold do_op ops NewSkillStore) (storeKey s k)) (fold (cell s k) ops None)"
    by (rule holds_later) (use snoc.prems in \<open>auto simp: sorted_append\<close>)
  then show ?case using holds_op [of p "fold do_op ops NewSkillStore" s k] snoc.prems by simp
qed

text \<open>A skill reads what it last wrote. Whatever skills and flows did with the store before, in the order of the
  clock, a lookup yields the value the last write to that key of that skill left, if it has not expired or been
  deleted; the writes of other skills, to the same key or any other, play no part.\<close>

theorem store_last_write:
  assumes "sorted (map so_time ops @ [now])" "\<forall>p\<in>set ops. nul \<notin> set (so_skill p)" "nul \<notin> set s"
  shows "snd (store_Get now s k (fold do_op ops NewSkillStore)) =
    alive now (fold (cell s k) (filter (\<lambda>p. so_skill p = s) ops) None)"
proof -
  have "sorted (map so_time ops)" "\<forall>p\<in>set ops. so_time p \<le> now" using assms(1) by (auto simp: sorted_append)
  then have "holds_cell now (sk_values (fold do_op ops NewSkillStore) (storeKey s k)) (fold (cell s k) ops None)"
    using holds_fold [of ops s now k] assms(2,3) holds_later [of "so_time (last ops)" _ _ now]
    by (cases "ops = []") auto
  then have "snd (store_Get now s k (fold do_op ops NewSkillStore)) = alive now (fold (cell s k) ops None)"
    by (auto simp: get_alive holds_cell_def alive_def)
  moreover have "cell s k p c = c" if "so_skill p \<noteq> s" for p c using that by (cases p) auto
  then have "fold (cell s k) ops c = fold (cell s k) (filter (\<lambda>p. so_skill p = s) ops) c" for c
    by (induction ops arbitrary: c) auto
  ultimately show ?thesis by simp
qed

text \<open>The count is the number of hits in the window, this one included.\<close>

lemma incr_counts:
  assumes "window > 0" "sk_counts s (storeKey sk k) = Some ts"
  shows "snd (store_Incr now sk k window s) = length (filter (\<lambda>t. now - window \<le> t) ts) + 1"
  using assms by (simp add: store_Incr_def Let_def not_less)

end
