(* ===== verification/Template.thy ===== *)
theory Template
  imports Prelude "HOL-Library.Multiset"
begin

text \<open>
  The placeholders of commands and skills: the parts \<^verbatim>\<open>internal/commands/builder.go\<close> and
  \<^verbatim>\<open>internal/skill/render.go\<close> share, \<^verbatim>\<open>strings.NewReplacer\<close> and \<^verbatim>\<open>Regexp.ReplaceAllStringFunc\<close>.
\<close>

section \<open>Replacing matches\<close>

text \<open>A matcher looks at the start of a string and gives what it captured and the length of the match; matches are
  replaced from left to right and never rescanned. The state is what the replacing function reads or writes.\<close>

type_synonym matcher = "string \<Rightarrow> (string \<times> nat) option"

function replace_all :: "matcher \<Rightarrow> (string \<Rightarrow> 's \<Rightarrow> string \<times> 's) \<Rightarrow> string \<Rightarrow> 's \<Rightarrow> string \<times> 's" where
  "replace_all m f [] st = ([], st)"
| "replace_all m f (c # cs) st =
     (case m (c # cs) of
        Some (arg, n) \<Rightarrow>
          (let (out, st) = f arg st; (rest, st) = replace_all m f (drop (n - 1) cs) st in (out @ rest, st))
      | None \<Rightarrow> (let (rest, st) = replace_all m f cs st in (c # rest, st)))"
  by pat_completeness auto
termination by (relation "measure (\<lambda>(m, f, s, st). length s)") auto

declare replace_all.simps(2) [simp del]

text \<open>\<^verbatim>\<open>strings.NewReplacer\<close>: at each position the first pair whose key starts there.\<close>

definition match_key :: "(string \<times> string) list \<Rightarrow> matcher" where
  "match_key pairs s = map_option (\<lambda>(k, v). (v, length k)) (List.find (\<lambda>(k, v). prefix k s) pairs)"

definition replacer :: "(string \<times> string) list \<Rightarrow> string \<Rightarrow> string" where
  "replacer pairs s = fst (replace_all (match_key pairs) (\<lambda>v st. (v, st)) s ())"

text \<open>The patterns \<^verbatim>\<open>\{name:([^}]*)\}\<close>.\<close>

definition match_helper :: "string \<Rightarrow> matcher" where
  "match_helper name s =
     (let opening = ''{'' @ name @ '':''
      in if prefix opening s then
           let rest = drop (length opening) s; arg = takeWhile (\<lambda>c. c \<noteq> CHR ''}'') rest
           in if length arg < length rest then Some (arg, length opening + length arg + 1) else None
         else None)"

section \<open>Helpers\<close>

definition splitOptions :: "string \<Rightarrow> string list" where
  "splitOptions s = filter (\<lambda>p. p \<noteq> []) (map trim_space (split_byte (CHR '','') s))"

text \<open>Package \<^verbatim>\<open>math/rand\<close>: the draws still to come.\<close>

type_synonym rand = "nat \<Rightarrow> nat"

definition Intn :: "nat \<Rightarrow> rand \<Rightarrow> nat \<times> rand" where
  "Intn n r = (r 0 mod n, \<lambda>k. r (Suc k))"

definition swap :: "nat \<Rightarrow> nat \<Rightarrow> 'a list \<Rightarrow> 'a list" where
  "swap i j xs = xs[i := xs ! j, j := xs ! i]"

fun shuffle_from :: "nat \<Rightarrow> 'a list \<Rightarrow> rand \<Rightarrow> 'a list \<times> rand" where
  "shuffle_from 0 xs r = (xs, r)"
| "shuffle_from (Suc i) xs r = (let (j, r) = Intn (i + 2) r in shuffle_from i (swap (Suc i) j xs) r)"

definition Shuffle :: "'a list \<Rightarrow> rand \<Rightarrow> 'a list \<times> rand" where
  "Shuffle xs r = shuffle_from (length xs - 1) xs r"

definition choice_of :: "string \<Rightarrow> rand \<Rightarrow> string \<times> rand" where
  "choice_of arg r =
     (let opts = splitOptions arg
      in if opts = [] then ([], r) else let (i, r) = Intn (length opts) r in (opts ! i, r))"

definition shuffle_of :: "string \<Rightarrow> rand \<Rightarrow> string \<times> rand" where
  "shuffle_of arg r = (let (opts, r) = Shuffle (splitOptions arg) r in (join '','' opts, r))"

definition random_of :: "string \<Rightarrow> rand \<Rightarrow> string \<times> rand" where
  "random_of arg r =
     (case atoi (trim_space arg) of
        None \<Rightarrow> (''{random:'' @ arg @ ''}'', r)
      | Some n \<Rightarrow>
          (if n < 1 then (''{random:'' @ arg @ ''}'', r)
           else let (k, r) = Intn (nat n) r in (itoa (int k + 1), r)))"

definition expandHelpers :: "string \<Rightarrow> rand \<Rightarrow> string \<times> rand" where
  "expandHelpers tmpl r =
     (let (t, r) = replace_all (match_helper ''choice'') choice_of tmpl r;
          (t, r) = replace_all (match_helper ''shuffle'') shuffle_of t r
      in replace_all (match_helper ''random'') random_of t r)"

section \<open>What the helpers give\<close>

lemma mset_swap_list: "i < length xs \<Longrightarrow> j < length xs \<Longrightarrow> mset (swap i j xs) = mset xs"
  by (simp add: swap_def mset_swap)

lemma length_swap [simp]: "length (swap i j xs) = length xs"
  by (simp add: swap_def)

lemma shuffle_from_perm: "i < length xs \<Longrightarrow> mset (fst (shuffle_from i xs r)) = mset xs"
proof (induction i arbitrary: xs r)
  case 0
  then show ?case by simp
next
  case (Suc i)
  have "r 0 mod (i + 2) < i + 2" by (rule mod_less_divisor) simp
  then have "r 0 mod (i + 2) < length xs" using Suc.prems by linarith
  with Suc show ?case by (simp add: Intn_def Let_def mset_swap_list)
qed

lemma Shuffle_perm: "mset (fst (Shuffle xs r)) = mset xs"
  by (cases xs) (simp_all add: Shuffle_def shuffle_from_perm)

lemma choice_in: "splitOptions arg \<noteq> [] \<Longrightarrow> fst (choice_of arg r) \<in> set (splitOptions arg)"
  by (simp add: choice_of_def Intn_def Let_def)

lemma random_in_range:
  "atoi (trim_space arg) = Some n \<Longrightarrow> n \<ge> 1 \<Longrightarrow> \<exists>k. 1 \<le> k \<and> k \<le> n \<and> fst (random_of arg r) = itoa k"
proof -
  assume "atoi (trim_space arg) = Some n" "n \<ge> 1"
  then have "fst (random_of arg r) = itoa (int (r 0 mod nat n) + 1)" by (simp add: random_of_def Intn_def)
  moreover have "r 0 mod nat n < nat n" using \<open>n \<ge> 1\<close> by simp
  ultimately show ?thesis by (intro exI [of _ "int (r 0 mod nat n) + 1"]) auto
qed

section \<open>Values are inert\<close>

text \<open>A template falls into literal characters and keys in one way that no value has a part in.\<close>

datatype piece = Literal char | Key nat

function pieces :: "string list \<Rightarrow> string \<Rightarrow> piece list" where
  "pieces keys [] = []"
| "pieces keys (c # cs) =
     (case List.find (\<lambda>i. prefix (keys ! i) (c # cs)) [0 ..< length keys] of
        Some i \<Rightarrow> Key i # pieces keys (drop (length (keys ! i) - 1) cs)
      | None \<Rightarrow> Literal c # pieces keys cs)"
  by pat_completeness auto
termination by (relation "measure (\<lambda>(keys, s). length s)") auto

declare pieces.simps(2) [simp del]

definition fill :: "string list \<Rightarrow> piece list \<Rightarrow> string" where
  "fill vals ps = concat (map (\<lambda>p. case p of Literal c \<Rightarrow> [c] | Key i \<Rightarrow> vals ! i) ps)"

lemma find_zip:
  "length vs = length ks \<Longrightarrow>
   List.find (\<lambda>(k, v). P k) (zip ks vs) = map_option (\<lambda>i. (ks ! i, vs ! i)) (List.find (\<lambda>i. P (ks ! i)) [0 ..< length ks])"
proof (induction ks vs rule: list_induct2')
  case (4 k ks v vs)
  have "List.find (\<lambda>i. P ((k # ks) ! i)) [0 ..< length (k # ks)] =
      (if P k then Some 0 else map_option Suc (List.find (\<lambda>i. P (ks ! i)) [0 ..< length ks]))"
  proof -
    have m: "List.find Q (map Suc xs) = map_option Suc (List.find (\<lambda>i. Q (Suc i)) xs)" for Q xs
      by (induction xs) auto
    show ?thesis by (simp add: upt_conv_Cons m flip: map_Suc_upt del: upt_Suc)
  qed
  with 4 show ?case by (simp add: option.map_comp o_def)
qed simp_all

lemma replacer_fill:
  assumes "length vals = length keys"
  shows "replacer (zip keys vals) s = fill vals (pieces keys s)"
proof -
  have "fst (replace_all (match_key (zip keys vals)) (\<lambda>v st. (v, st)) s ()) = fill vals (pieces keys s)"
    using assms
  proof (induction keys s rule: pieces.induct)
    case (1 keys)
    then show ?case by (simp add: fill_def)
  next
    case (2 keys c cs)
    note some = "2.IH"(2) and none = "2.IH"(1) and len = "2.prems"
    define found where "found = List.find (\<lambda>i. prefix (keys ! i) (c # cs)) [0 ..< length keys]"
    have m: "match_key (zip keys vals) (c # cs) = map_option (\<lambda>i. (vals ! i, length (keys ! i))) found"
      unfolding match_key_def found_def using find_zip [of vals keys "\<lambda>k. prefix k (c # cs)"] len
      by (simp add: option.map_comp o_def)
    show ?case
    proof (cases found)
      case None
      then show ?thesis using none [OF None [unfolded found_def] len] m
        by (auto simp: replace_all.simps(2) pieces.simps(2) found_def fill_def Let_def split: prod.split)
    next
      case (Some i)
      then show ?thesis using some [OF Some [unfolded found_def] len] m
        by (auto simp: replace_all.simps(2) pieces.simps(2) found_def fill_def Let_def split: prod.split)
    qed
  qed
  then show ?thesis by (simp add: replacer_def)
qed

end
