(* ===== verification/World.thy ===== *)
theory World
  imports Connector Llm Skill_Store Template Actor Messages
begin

text \<open>
  What the handlers of a bot reach, as one record: the IRC connector, the random source and the clock of a template,
  the language model with the budget around it, the throttle of the command guard, the store of skills and flows, the
  pending lifts of timed effects and the outbound webhooks.

  The model is a function of the number of the call, the prompt and the options (\<open>None\<close>: no provider configured); it
  is logged what it was asked. A webhook is a function of the number of the request. Regular expressions (\<open>None\<close>: does
  not compile), the JSON texts of pending lifts, verdicts and flow bags and the order of two decimal numbers (\<open>None\<close>:
  one is no number) are functions of the world too, and so is whether the context is cancelled while a retry waits. The
  message store (\<open>None\<close>: not configured) is there with the sightings its writer keeps.
\<close>

record pendingLift =
  pl_Channel :: string
  pl_Modes :: string
  pl_Arg :: string
  pl_Due :: int

record verdict =
  vd_Severity :: int
  vd_Action :: string
  vd_Reason :: string

datatype post_err = HttpStatus int | Transport string

record request =
  rq_method :: string
  rq_url :: string
  rq_headers :: "(string \<times> string) list"
  rq_fields :: "(string \<times> string) list"
  rq_body :: "string option"

record World =
  irc :: Connector
  rnd :: rand
  fmt :: "instant \<Rightarrow> string \<Rightarrow> string"
  model :: "(nat \<Rightarrow> string \<Rightarrow> CallOption list \<Rightarrow> ask_err + string \<times> Usage) option"
  model_name :: string
  asked :: "(string \<times> CallOption list) list"
  budget :: TokenBudget
  llm_caps :: "int \<times> int"
  cmd_throttle :: "Throttle option"
  sk_store :: SkillStore
  lifts :: "pendingLift list"
  liftsLoaded :: bool
  re_compile :: "string \<Rightarrow> (string \<Rightarrow> bool) option"
  lifts_json :: "pendingLift list \<Rightarrow> string"
  json_lifts :: "string \<Rightarrow> pendingLift list option"
  bag_json :: "(string \<rightharpoonup> string) \<Rightarrow> string"
  float_less :: "string \<Rightarrow> string \<Rightarrow> bool option"
  ctx_done :: "nat \<Rightarrow> bool"
  json_verdict :: "string \<Rightarrow> verdict option"
  post_result :: "nat \<Rightarrow> post_err + string"
  posted :: "request list"
  w_store :: "MemoryStore option"
  w_seen :: "(string \<times> instant) list"

abbreviation now_w :: "World \<Rightarrow> instant" where "now_w w \<equiv> clock (irc w)"

definition on_irc :: "(Connector \<Rightarrow> Connector) \<Rightarrow> World \<Rightarrow> World" where
  "on_irc f w = w\<lparr>irc := f (irc w)\<rparr>"

definition publish_w :: "Event \<Rightarrow> World \<Rightarrow> World" where
  "publish_w ev w = on_irc (publish (ev_Type ev) (Fields ev)) w"

section \<open>The model\<close>

definition model_Ask :: "World Ask" where
  "model_Ask p opts w =
     (let r = (case model w of None \<Rightarrow> Inl (ProviderErr ''no provider'') | Some f \<Rightarrow> f (length (asked w)) p opts)
      in (w\<lparr>asked := asked w @ [(p, opts)]\<rparr>, r))"

text \<open>\<^verbatim>\<open>BuildBudgetedProvider\<close>: no enforcement without a cap; else each call is reported with the totals.\<close>

definition report_usage :: "Usage \<Rightarrow> TokenBudget \<times> World \<Rightarrow> TokenBudget \<times> World" where
  "report_usage u bw =
     (let (b, w) = bw; (b, inTotal, outTotal) = Totals (now_w w) b
      in (b, publish_w \<lparr>ev_Type = EventLLMUsage, Fields =
            [(''input_tokens'', VInt (InputTokens u)), (''output_tokens'', VInt (OutputTokens u)),
             (''cached_tokens'', VInt (CachedTokens u)), (''model'', VStr (model_name w)),
             (''input_total'', VInt inTotal), (''output_total'', VInt outTotal),
             (''input_cap'', VInt (fst (llm_caps w))), (''output_cap'', VInt (snd (llm_caps w)))]\<rparr> w))"

definition build_provider :: "int \<Rightarrow> int \<Rightarrow> int \<Rightarrow> int \<Rightarrow> World \<Rightarrow> World" where
  "build_provider inputCap outputCap usedInput usedOutput w =
     (if inputCap \<le> 0 \<and> outputCap \<le> 0 then w\<lparr>llm_caps := (inputCap, outputCap)\<rparr>
      else w\<lparr>llm_caps := (inputCap, outputCap), budget := SetBaseline usedInput usedOutput NewTokenBudget\<rparr>)"

definition provider_Ask :: "World Ask" where
  "provider_Ask p opts w =
     (let (inputCap, outputCap) = llm_caps w
      in if inputCap \<le> 0 \<and> outputCap \<le> 0 then model_Ask p opts w
         else let ((b, w), r) = budgeted_Ask now_w inputCap outputCap report_usage model_Ask p opts (budget w, w)
              in (w\<lparr>budget := b\<rparr>, r))"

section \<open>The actor\<close>

text \<open>\<^verbatim>\<open>internal/connector/irc/actor.go\<close> on the live connector: the lines of an action go out one by one until a write
  fails.\<close>

fun send_raw_all :: "string list \<Rightarrow> Connector \<Rightarrow> Connector \<times> err option" where
  "send_raw_all [] c = (c, None)"
| "send_raw_all (l # ls) c =
     (case SendRaw l c of (c, Some e) \<Rightarrow> (c, Some e) | (c, None) \<Rightarrow> send_raw_all ls c)"

definition act :: "((string \<Rightarrow> string option) \<Rightarrow> string list \<times> string option) \<Rightarrow> World \<Rightarrow> World \<times> err option" where
  "act action w = (let (c, e) = send_raw_all (fst (action (\<lambda>_. None))) (irc w) in (w\<lparr>irc := c\<rparr>, e))"

section \<open>A world to try things in\<close>

definition sample_world :: "Connector \<Rightarrow> World" where
  "sample_world c =
     \<lparr>irc = c, rnd = (\<lambda>_. 0), fmt = (\<lambda>_ layout. layout), model = None, model_name = [], asked = [], budget = NewTokenBudget,
      llm_caps = (0, 0), cmd_throttle = None, sk_store = NewSkillStore, lifts = [], liftsLoaded = False,
      re_compile = (\<lambda>_. None), lifts_json = (\<lambda>_. []), json_lifts = (\<lambda>_. None),
      bag_json = (\<lambda>_. []), float_less = (\<lambda>_ _. None), ctx_done = (\<lambda>_. False), json_verdict = (\<lambda>_. None),
      post_result = (\<lambda>_. Inr []), posted = [], w_store = None, w_seen = []\<rparr>"

end
