(* ===== verification/Commands.thy ===== *)
theory Commands
  imports Connector
begin

text \<open>
  \<^verbatim>\<open>internal/agent/commands.go\<close> and \<^verbatim>\<open>agent.go\<close>: the registry that turns a message into a call of a handler, and
  the loop that feeds it.

  Handlers and guards act on a world \<open>'w\<close>, whatever they reach: the model provider's budget, a throttle, the
  connector. A result \<open>None\<close> is the panic of an index out of range.
\<close>

section \<open>The registry\<close>

type_synonym 'w CommandHandler =
  "InboundEnvelope \<Rightarrow> string list \<Rightarrow> 'w \<Rightarrow> 'w \<times> (err + OutboundEnvelope option)"

type_synonym 'w CommandGuard = "InboundEnvelope \<Rightarrow> 'w \<Rightarrow> 'w \<times> bool"

record 'w commandEntry =
  ce_handler :: "'w CommandHandler"
  ce_guard :: "'w CommandGuard option"
  ce_dynamic :: bool

record 'w DynamicCommand =
  dc_Name :: string
  dc_Handler :: "'w CommandHandler"
  dc_Guard :: "'w CommandGuard option"

record 'w CommandRegistry =
  cr_prefix :: string
  commands :: "string \<rightharpoonup> 'w commandEntry"
  cr_guard :: "'w CommandGuard option"
  maxDynamic :: int
  dynamicCount :: int

definition NewCommandRegistry :: "string \<Rightarrow> 'w CommandRegistry" where
  "NewCommandRegistry p =
     \<lparr>cr_prefix = (if p = [] then ''!'' else p), commands = Map.empty, cr_guard = None, maxDynamic = 0,
      dynamicCount = 0\<rparr>"

definition SetGuard :: "'w CommandGuard option \<Rightarrow> 'w CommandRegistry \<Rightarrow> 'w CommandRegistry" where
  "SetGuard g r = r\<lparr>cr_guard := g\<rparr>"

definition SetMaxDynamic :: "int \<Rightarrow> 'w CommandRegistry \<Rightarrow> 'w CommandRegistry" where
  "SetMaxDynamic n r = r\<lparr>maxDynamic := n\<rparr>"

definition Register ::
  "string \<Rightarrow> 'w CommandHandler \<Rightarrow> 'w CommandGuard option \<Rightarrow> 'w CommandRegistry \<Rightarrow> 'w CommandRegistry" where
  "Register name handler g r =
     r\<lparr>commands := (commands r)(to_lower name \<mapsto> \<lparr>ce_handler = handler, ce_guard = g, ce_dynamic = False\<rparr>)\<rparr>"

text \<open>The flag is \<^verbatim>\<open>ErrDynamicCommandLimit\<close>.\<close>

definition RegisterDynamic ::
  "string \<Rightarrow> 'w CommandHandler \<Rightarrow> 'w CommandGuard option \<Rightarrow> 'w CommandRegistry \<Rightarrow> 'w CommandRegistry \<times> bool" where
  "RegisterDynamic name handler g r =
     (let key = to_lower name; alreadyExists = (commands r key \<noteq> None)
      in if \<not> alreadyExists \<and> maxDynamic r \<noteq> -1 \<and> dynamicCount r \<ge> maxDynamic r then (r, True)
         else (r\<lparr>commands := (commands r)(key \<mapsto> \<lparr>ce_handler = handler, ce_guard = g, ce_dynamic = True\<rparr>),
                 dynamicCount := (if alreadyExists then dynamicCount r else dynamicCount r + 1)\<rparr>, False))"

definition drop_dynamic :: "(string \<rightharpoonup> 'w commandEntry) \<Rightarrow> (string \<rightharpoonup> 'w commandEntry)" where
  "drop_dynamic m = (\<lambda>k. case m k of None \<Rightarrow> None | Some e \<Rightarrow> if ce_dynamic e then None else Some e)"

definition dynamic_entry :: "'w DynamicCommand \<Rightarrow> 'w commandEntry" where
  "dynamic_entry c = \<lparr>ce_handler = dc_Handler c, ce_guard = dc_Guard c, ce_dynamic = True\<rparr>"

definition install_dynamic :: "'w DynamicCommand \<Rightarrow> 'w CommandRegistry \<Rightarrow> 'w CommandRegistry" where
  "install_dynamic c r =
     (let key = to_lower (dc_Name c)
      in case commands r key of
           Some existing \<Rightarrow>
             (if \<not> ce_dynamic existing then r else r\<lparr>commands := (commands r)(key \<mapsto> dynamic_entry c)\<rparr>)
         | None \<Rightarrow>
             (if maxDynamic r \<noteq> -1 \<and> dynamicCount r \<ge> maxDynamic r then r
              else r\<lparr>commands := (commands r)(key \<mapsto> dynamic_entry c), dynamicCount := dynamicCount r + 1\<rparr>))"

definition ReplaceDynamic :: "'w DynamicCommand list \<Rightarrow> 'w CommandRegistry \<Rightarrow> 'w CommandRegistry" where
  "ReplaceDynamic cmds r =
     fold install_dynamic cmds (r\<lparr>commands := drop_dynamic (commands r), dynamicCount := 0\<rparr>)"

text \<open>Go ranges over the map in any order.\<close>

definition Names :: "'w CommandRegistry \<Rightarrow> string set" where
  "Names r = dom (commands r)"

text \<open>\<^verbatim>\<open>Parse\<close>: the inner \<open>None\<close> is \<^verbatim>\<open>ok = false\<close>.\<close>

definition parse_command :: "'w CommandRegistry \<Rightarrow> string \<Rightarrow> (string \<times> string list) option option" where
  "parse_command r text =
     (if \<not> prefix (cr_prefix r) text then Some None
      else let rest = trim_left (\<lambda>c. c = sp \<or> c = CHR 0x09) (drop (length (cr_prefix r)) text)
           in if rest = [] then Some None
              else case go_fields rest of
                     [] \<Rightarrow> None
                   | part # parts \<Rightarrow> Some (Some (to_lower part, parts)))"

definition run_guard :: "'w CommandGuard option \<Rightarrow> InboundEnvelope \<Rightarrow> 'w \<Rightarrow> 'w \<times> bool" where
  "run_guard g env w = (case g of None \<Rightarrow> (w, True) | Some g \<Rightarrow> g env w)"

text \<open>The envelope is the caller's, which \<^verbatim>\<open>Dispatch\<close> fills in.\<close>

definition Dispatch ::
  "'w CommandRegistry \<Rightarrow> InboundEnvelope \<Rightarrow> 'w \<Rightarrow> ('w \<times> InboundEnvelope \<times> (err + OutboundEnvelope option)) option" where
  "Dispatch r env w =
     (case parse_command r (env_Text env) of
        None \<Rightarrow> None
      | Some None \<Rightarrow> Some (w, env, Inr None)
      | Some (Some (name, args)) \<Rightarrow>
          (case commands r name of
             None \<Rightarrow> Some (w, env, Inr None)
           | Some entry \<Rightarrow>
               (let env = env\<lparr>env_Command := name, Args := args\<rparr>;
                    (w, ok) = run_guard (cr_guard r) env w
                in if \<not> ok then Some (w, env, Inr None)
                   else let (w, ok) = run_guard (ce_guard entry) env w
                        in if \<not> ok then Some (w, env, Inr None)
                           else let (w, res) = ce_handler entry env args w in Some (w, env, res))))"

section \<open>The agent\<close>

text \<open>\<open>pub\<close> is the event bus, \<open>send\<close> the connector the message came from.\<close>

definition agent_handle ::
  "(Event \<Rightarrow> 'w \<Rightarrow> 'w) \<Rightarrow> (OutboundEnvelope \<Rightarrow> 'w \<Rightarrow> 'w \<times> err option) \<Rightarrow> 'w CommandRegistry \<Rightarrow> InboundEnvelope \<Rightarrow>
   'w \<Rightarrow> 'w option" where
  "agent_handle pub send r env w =
     (let w = pub \<lparr>ev_Type = EventMessage, Fields = [(''envelope'', VInbound env)]\<rparr> w
      in case Dispatch r env w of
           None \<Rightarrow> None
         | Some (w, env, Inl e) \<Rightarrow> Some w
         | Some (w, env, Inr None) \<Rightarrow> Some w
         | Some (w, env, Inr (Some out)) \<Rightarrow>
             (let w = pub \<lparr>ev_Type = EventCommand, Fields = [(''envelope'', VInbound env), (''command'', VStr (env_Command env))]\<rparr> w;
                  (w, e) = send out w
              in Some (if e \<noteq> None then w
                       else pub \<lparr>ev_Type = EventMessageSent, Fields = [(''envelope'', VOutbound out)]\<rparr> w)))"

text \<open>\<^verbatim>\<open>drain\<close> on what is queued; a panic ends the goroutine, and with it the process.\<close>

fun drain ::
  "(Event \<Rightarrow> 'w \<Rightarrow> 'w) \<Rightarrow> (OutboundEnvelope \<Rightarrow> 'w \<Rightarrow> 'w \<times> err option) \<Rightarrow> 'w CommandRegistry \<Rightarrow> InboundEnvelope list \<Rightarrow>
   'w \<Rightarrow> 'w option" where
  "drain pub send r [] w = Some w"
| "drain pub send r (env # envs) w =
     (case agent_handle pub send r env w of None \<Rightarrow> None | Some w \<Rightarrow> drain pub send r envs w)"

fun start_all :: "('w \<Rightarrow> 'w \<times> err option) list \<Rightarrow> 'w \<Rightarrow> 'w \<times> err option" where
  "start_all [] w = (w, None)"
| "start_all (f # fs) w = (case f w of (w, Some e) \<Rightarrow> (w, Some e) | (w, None) \<Rightarrow> start_all fs w)"

text \<open>\<^verbatim>\<open>Run\<close>: each connector is its \<^verbatim>\<open>Start\<close> and its \<^verbatim>\<open>Stop\<close>; \<open>serve\<close> is what the supervised loops and the drains do
  until the group is done, with the error of the group.\<close>

definition agent_Run ::
  "(Event \<Rightarrow> 'w \<Rightarrow> 'w) \<Rightarrow> (('w \<Rightarrow> 'w \<times> err option) \<times> ('w \<Rightarrow> 'w \<times> err option)) list \<Rightarrow> ('w \<Rightarrow> 'w \<times> err option) \<Rightarrow>
   'w \<Rightarrow> 'w \<times> err option" where
  "agent_Run pub connectors serve w =
     (let w = pub \<lparr>ev_Type = EventBoot, Fields = []\<rparr> w
      in case start_all (map fst connectors) w of
           (w, Some e) \<Rightarrow> (w, Some e)
         | (w, None) \<Rightarrow>
             (let w = pub \<lparr>ev_Type = EventReady, Fields = []\<rparr> w;
                  (w, runErr) = serve w;
                  w = fold (\<lambda>c w. fst (snd c w)) connectors w;
                  w = pub \<lparr>ev_Type = EventShutdown, Fields = []\<rparr> w
              in (w, case runErr of None \<Rightarrow> None | Some e \<Rightarrow> if fst e = CtxCanceled then None else Some e)))"

definition MarkStoreWired :: "bool \<Rightarrow> bool \<times> bool" where
  "MarkStoreWired storeWired = (if storeWired then (storeWired, False) else (True, True))"

section \<open>Swapping the user's commands\<close>

definition builtin :: "'w CommandRegistry \<Rightarrow> string \<Rightarrow> bool" where
  "builtin r k \<longleftrightarrow> (case commands r k of None \<Rightarrow> False | Some e \<Rightarrow> \<not> ce_dynamic e)"

definition firsts :: "'a list \<Rightarrow> 'a list" where
  "firsts xs = rev (remdups (rev xs))"

definition key_of :: "'w DynamicCommand \<Rightarrow> string" where
  "key_of c = to_lower (dc_Name c)"

definition slots :: "'w CommandRegistry \<Rightarrow> 'w DynamicCommand list \<Rightarrow> string list" where
  "slots r cmds =
     (let ks = firsts (filter (\<lambda>k. \<not> builtin r k) (map key_of cmds))
      in if maxDynamic r = -1 then ks else take (nat (maxDynamic r)) ks)"

lemma firsts_snoc: "firsts (xs @ [x]) = (if x \<in> set xs then firsts xs else firsts xs @ [x])"
  by (simp add: firsts_def)

lemma set_firsts [simp]: "set (firsts xs) = set xs" "firsts [] = []"
  by (simp_all add: firsts_def)

lemma slots_snoc:
  "slots r (cs @ [c]) =
     (if builtin r (key_of c) \<or> key_of c \<in> set (map key_of cs) then slots r cs
      else if maxDynamic r \<noteq> -1 \<and> int (length (slots r cs)) \<ge> maxDynamic r then slots r cs
      else slots r cs @ [key_of c])"
proof (cases "builtin r (key_of c) \<or> key_of c \<in> set (map key_of cs)")
  case True
  then show ?thesis by (auto simp: slots_def Let_def firsts_snoc)
next
  case False
  let ?fs = "filter (\<lambda>k. \<not> builtin r k) (map key_of cs)"
  have "firsts (filter (\<lambda>k. \<not> builtin r k) (map key_of (cs @ [c]))) = firsts ?fs @ [key_of c]"
    using False by (auto simp: firsts_snoc)
  then show ?thesis using False
    by (cases "nat (maxDynamic r) \<le> length (firsts ?fs)") (auto simp: slots_def Let_def simp del: map_append)
qed

lemma slots_keys: "set (slots r cs) \<subseteq> set (map key_of cs) - {k. builtin r k}"
  by (auto simp: slots_def Let_def dest: in_set_takeD)

definition chosen :: "'w DynamicCommand list \<Rightarrow> string \<Rightarrow> 'w commandEntry" where
  "chosen cs k = dynamic_entry (last (filter (\<lambda>c. key_of c = k) cs))"

lemma chosen_snoc: "chosen (cs @ [c]) k = (if key_of c = k then dynamic_entry c else chosen cs k)"
  by (simp add: chosen_def)

definition swapped :: "'w CommandRegistry \<Rightarrow> 'w DynamicCommand list \<Rightarrow> string \<rightharpoonup> 'w commandEntry" where
  "swapped r cs = (\<lambda>k. if builtin r k then commands r k else if k \<in> set (slots r cs) then Some (chosen cs k) else None)"

lemma swap_invariant:
  "commands (ReplaceDynamic cs r) = swapped r cs \<and> maxDynamic (ReplaceDynamic cs r) = maxDynamic r \<and>
   dynamicCount (ReplaceDynamic cs r) = int (length (slots r cs))"
proof (induction cs rule: rev_induct)
  case Nil
  show ?case
    by (auto simp: ReplaceDynamic_def swapped_def slots_def drop_dynamic_def builtin_def firsts_def split: option.split)
next
  case (snoc c cs)
  define s where "s = ReplaceDynamic cs r"
  have s: "commands s = swapped r cs" "maxDynamic s = maxDynamic r" "dynamicCount s = int (length (slots r cs))"
    using snoc by (simp_all add: s_def)
  have step: "ReplaceDynamic (cs @ [c]) r = install_dynamic c s" by (simp add: ReplaceDynamic_def s_def)
  let ?k = "key_of c"
  consider (built) "builtin r ?k" | (dup) "\<not> builtin r ?k" "?k \<in> set (slots r cs)"
    | (new) "\<not> builtin r ?k" "?k \<notin> set (slots r cs)" by blast
  then show ?case
  proof cases
    case built
    then obtain e where "commands s ?k = Some e" "\<not> ce_dynamic e"
      by (auto simp: s swapped_def builtin_def split: option.splits)
    then have "install_dynamic c s = s" by (simp add: install_dynamic_def key_of_def)
    moreover have "swapped r (cs @ [c]) = swapped r cs"
      using built by (auto simp: swapped_def slots_snoc chosen_snoc)
    ultimately show ?thesis using s built by (simp add: step slots_snoc)
  next
    case dup
    then have "commands s ?k = Some (chosen cs ?k)" by (simp add: s swapped_def)
    moreover have "ce_dynamic (chosen cs ?k)" by (simp add: chosen_def dynamic_entry_def)
    ultimately have "install_dynamic c s = s\<lparr>commands := (commands s)(?k \<mapsto> dynamic_entry c)\<rparr>"
      by (simp add: install_dynamic_def key_of_def)
    moreover have "slots r (cs @ [c]) = slots r cs" using dup slots_keys [of r cs] by (auto simp: slots_snoc)
    ultimately show ?thesis using s dup by (auto simp: step swapped_def chosen_snoc)
  next
    case new
    then have none: "commands s ?k = None" by (simp add: s swapped_def)
    show ?thesis
    proof (cases "maxDynamic r \<noteq> -1 \<and> int (length (slots r cs)) \<ge> maxDynamic r")
      case True
      then have "install_dynamic c s = s" using none s by (simp add: install_dynamic_def key_of_def)
      moreover have "slots r (cs @ [c]) = slots r cs" using True by (simp add: slots_snoc)
      ultimately show ?thesis using s new by (auto simp: step swapped_def chosen_snoc)
    next
      case False
      have fresh: "?k \<notin> set (map key_of cs)"
      proof
        assume "?k \<in> set (map key_of cs)"
        then have "?k \<in> set (firsts (filter (\<lambda>k. \<not> builtin r k) (map key_of cs)))" using new(1) by auto
        then have "maxDynamic r \<noteq> -1 \<and> slots r cs \<noteq> firsts (filter (\<lambda>k. \<not> builtin r k) (map key_of cs))"
          using new(2) by (auto simp: slots_def Let_def)
        then have "length (slots r cs) = nat (maxDynamic r)"
          by (auto simp: slots_def Let_def not_le split: if_splits)
        then show False using False \<open>maxDynamic r \<noteq> -1 \<and> _\<close> by (auto split: if_splits)
      qed
      then have "slots r (cs @ [c]) = slots r cs @ [?k]" using False new(1) by (simp add: slots_snoc del: set_map)
      moreover have "install_dynamic c s =
          s\<lparr>commands := (commands s)(?k \<mapsto> dynamic_entry c), dynamicCount := dynamicCount s + 1\<rparr>"
        using none s False by (auto simp: install_dynamic_def key_of_def)
      ultimately show ?thesis using s new by (auto simp: step swapped_def chosen_snoc)
    qed
  qed
qed

text \<open>C13: a hot reload of the user's commands is exact whatever the registry held before. Built-in commands are
  untouched and never shadowed; the names installed are the first ones of the batch, each once in any case, up to
  the cap; each runs the last definition the batch gives for it; nothing of the old set is left, and the count
  the cap is checked against is the true one again.\<close>

theorem swap_exact:
  "commands (ReplaceDynamic cs r) k =
     (if builtin r k then commands r k
      else if k \<in> set (slots r cs) then Some (dynamic_entry (last (filter (\<lambda>c. to_lower (dc_Name c) = k) cs)))
      else None) \<and>
   dynamicCount (ReplaceDynamic cs r) = int (card {k. \<exists>e. commands (ReplaceDynamic cs r) k = Some e \<and> ce_dynamic e}) \<and>
   (maxDynamic r \<ge> 0 \<longrightarrow> dynamicCount (ReplaceDynamic cs r) \<le> maxDynamic r)"
proof (intro conjI impI)
  note I = swap_invariant [of cs r]
  show "commands (ReplaceDynamic cs r) k =
     (if builtin r k then commands r k
      else if k \<in> set (slots r cs) then Some (dynamic_entry (last (filter (\<lambda>c. to_lower (dc_Name c) = k) cs)))
      else None)"
    using I by (simp add: swapped_def chosen_def key_of_def)
  have "{k. \<exists>e. commands (ReplaceDynamic cs r) k = Some e \<and> ce_dynamic e} = set (slots r cs)"
    using I slots_keys [of r cs]
    by (auto simp: swapped_def chosen_def dynamic_entry_def builtin_def split: if_splits option.splits)
  moreover have "distinct (slots r cs)" by (simp add: slots_def Let_def firsts_def)
  ultimately show "dynamicCount (ReplaceDynamic cs r) =
      int (card {k. \<exists>e. commands (ReplaceDynamic cs r) k = Some e \<and> ce_dynamic e})"
    using I by (simp add: distinct_card)
  show "dynamicCount (ReplaceDynamic cs r) \<le> maxDynamic r" if "maxDynamic r \<ge> 0"
    using I that by (simp add: slots_def Let_def)
qed

definition noop_command :: "string \<Rightarrow> unit DynamicCommand" where
  "noop_command n = \<lparr>dc_Name = n, dc_Handler = (\<lambda>env args w. (w, Inr None)), dc_Guard = None\<rparr>"

theorem swap_exact_witness:
  "commands (ReplaceDynamic [noop_command ''A'', noop_command ''b'', noop_command ''a''] (SetMaxDynamic 1 (NewCommandRegistry []))) ''b'' = None
   \<and> dynamicCount (ReplaceDynamic [noop_command ''A'', noop_command ''b'', noop_command ''a''] (SetMaxDynamic 1 (NewCommandRegistry []))) \<le> 1"
proof -
  have low: "to_lower ''A'' = ''a''" "to_lower ''b'' = ''b''" "to_lower ''a'' = ''a''" by code_simp+
  have s: "slots (SetMaxDynamic 1 (NewCommandRegistry [])) [noop_command ''A'', noop_command ''b'', noop_command ''a''] = [''a'']"
    by (simp add: slots_def firsts_def SetMaxDynamic_def NewCommandRegistry_def builtin_def key_of_def noop_command_def low)
  show ?thesis
    using swap_exact [of "[noop_command ''A'', noop_command ''b'', noop_command ''a'']" "SetMaxDynamic 1 (NewCommandRegistry [])" "''b''"]
    unfolding s by (simp add: SetMaxDynamic_def NewCommandRegistry_def builtin_def)
qed

text \<open>The cap is kept by the swap only. \<^const>\<open>RegisterDynamic\<close> on a built-in name turns it into a user command without
  counting it, and the next swap then deletes the built-in.\<close>

lemma built_in_lost:
  "commands (ReplaceDynamic [] (fst (RegisterDynamic n h g (Register n h' g' r)))) (to_lower n) = None"
  by (simp add: ReplaceDynamic_def drop_dynamic_def RegisterDynamic_def Register_def Let_def)

section \<open>A message that stops the agent\<close>

lemma go_fields_empty: "go_fields s = [] \<longleftrightarrow> list_all is_space s"
proof (induction s)
  case Nil
  then show ?case by (simp add: go_fields_def)
next
  case (Cons c s)
  have "split_on is_space s \<noteq> []" by (cases s) (auto split: list.splits)
  then obtain w ws where "split_on is_space s = w # ws" by (cases "split_on is_space s") auto
  with Cons show ?case by (simp add: go_fields_def)
qed


end
