(* ===== verification/Guards.thy ===== *)
theory Guards
  imports Events Windows Gotime
begin

text \<open>
  Who may use a command: the guards of \<^verbatim>\<open>internal/runtime/runtime.go\<close> and \<^verbatim>\<open>wire.go\<close>. The throttle a guard closes
  over is passed in and out.
\<close>

record GuardParams =
  OwnerMode :: string
  gp_OwnerNick :: string
  OwnerAccount :: string
  OwnerHostmask :: string
  IgnoredNicks :: "string list"
  BotNick :: string
  CommandMaxPerWindow :: int
  CommandWindowSeconds :: int

definition AccessEveryone :: string where "AccessEveryone = ''everyone''"
definition AccessOwner :: string where "AccessOwner = ''owner''"
definition AccessAllowlist :: string where "AccessAllowlist = ''allowlist''"

text \<open>\<open>None\<close> is the nil set.\<close>

definition buildIgnoredSet :: "string list \<Rightarrow> string list option" where
  "buildIgnoredSet raw =
     (let out = filter (\<lambda>n. n \<noteq> []) (map (\<lambda>n. to_lower (trim_space n)) raw)
      in if out = [] then None else Some out)"

definition isIgnoredSender :: "string list option \<Rightarrow> InboundEnvelope \<Rightarrow> bool" where
  "isIgnoredSender ignored env =
     (case ignored of
        None \<Rightarrow> False
      | Some names \<Rightarrow> (let sender = to_lower (trim_space (Sender env)) in sender \<noteq> [] \<and> sender \<in> set names))"

fun match_middle :: "string list \<Rightarrow> string \<Rightarrow> string \<Rightarrow> bool" where
  "match_middle [] final s = suffix final s"
| "match_middle (part # parts) final s =
     (case index_str part s of
        None \<Rightarrow> False
      | Some idx \<Rightarrow> match_middle parts final (drop (idx + length part) s))"

definition hostmaskMatches :: "string \<Rightarrow> string \<Rightarrow> bool" where
  "hostmaskMatches who pattern =
     (if pattern = [] then False
      else let who = (if prefix '':'' who then tl who else who); parts = split_byte (CHR ''*'') pattern
           in if length parts = 1 then who = pattern
              else if \<not> prefix (hd parts) who then False
              else match_middle (butlast (tl parts)) (last parts) (drop (length (hd parts)) who))"

definition metadata :: "InboundEnvelope \<Rightarrow> string \<Rightarrow> string" where
  "metadata env k = (case Metadata env k of None \<Rightarrow> [] | Some v \<Rightarrow> v)"

definition verifyExternalOwner :: "InboundEnvelope \<Rightarrow> string \<Rightarrow> string \<Rightarrow> bool" where
  "verifyExternalOwner env ownerAccount ownerHostmask =
     (let account = metadata env ''account''
      in if account \<noteq> [] then to_lower account = ownerAccount
         else if ownerHostmask = [] then False
         else hostmaskMatches (to_lower (metadata env ''prefix'')) ownerHostmask)"

definition ownerCheck :: "InboundEnvelope \<Rightarrow> string \<Rightarrow> string \<Rightarrow> string \<Rightarrow> string \<Rightarrow> string \<Rightarrow> bool" where
  "ownerCheck env mode botNick ownerNick ownerAccount ownerHostmask =
     (if mode = ''self'' then botNick \<noteq> [] \<and> to_lower (Sender env) = botNick
      else if mode = ''external'' then
        (if ownerNick = [] \<or> to_lower (Sender env) \<noteq> ownerNick then False
         else verifyExternalOwner env ownerAccount ownerHostmask)
      else False)"

definition matchesAllowlist :: "string list option \<Rightarrow> InboundEnvelope \<Rightarrow> bool" where
  "matchesAllowlist allow env =
     (case allow of
        None \<Rightarrow> False
      | Some names \<Rightarrow>
          (let acct = metadata env ''account'' in
           if acct \<noteq> [] \<and> to_lower (trim_space acct) \<in> set names then True
           else let sender = to_lower (trim_space (Sender env)) in sender \<noteq> [] \<and> sender \<in> set names))"

definition owner_params :: "GuardParams \<Rightarrow> string \<times> string \<times> string \<times> string \<times> string" where
  "owner_params p =
     (let fold_case = (\<lambda>s. to_lower (trim_space s));
          mode = (let m = fold_case (OwnerMode p) in if m = [] then ''none'' else m);
          ownerNick = fold_case (gp_OwnerNick p);
          ownerAccount = (let a = fold_case (OwnerAccount p) in if a = [] then ownerNick else a)
      in (mode, fold_case (BotNick p), ownerNick, ownerAccount, fold_case (OwnerHostmask p)))"

definition is_owner :: "GuardParams \<Rightarrow> InboundEnvelope \<Rightarrow> bool" where
  "is_owner p env =
     (let (mode, botNick, ownerNick, ownerAccount, ownerHostmask) = owner_params p
      in ownerCheck env mode botNick ownerNick ownerAccount ownerHostmask)"

text \<open>\<open>None\<close>: no guard.\<close>

definition PerCommandGuard :: "string \<Rightarrow> string list \<Rightarrow> GuardParams \<Rightarrow> (InboundEnvelope \<Rightarrow> bool) option" where
  "PerCommandGuard access allow p =
     (let a = to_lower (trim_space access)
      in if a = AccessEveryone then None
         else if a = AccessAllowlist then
           (let names = buildIgnoredSet allow in Some (\<lambda>env. is_owner p env \<or> matchesAllowlist names env))
         else Some (is_owner p))"

definition throttleScope :: "InboundEnvelope \<Rightarrow> string" where
  "throttleScope env =
     (let scope = metadata env ''account''
      in if scope \<noteq> [] then scope
         else let sender = to_lower (Sender env) in if sender \<noteq> [] then sender else ''anon'')"

definition registry_throttle :: "GuardParams \<Rightarrow> Throttle option" where
  "registry_throttle p =
     (if CommandMaxPerWindow p > 0 \<and> CommandWindowSeconds p > 0
      then case NewThrottle (CommandMaxPerWindow p) (CommandWindowSeconds p * second) of
             Inr t \<Rightarrow> Some t | Inl _ \<Rightarrow> None
      else None)"

definition registryGuard :: "GuardParams \<Rightarrow> instant \<Rightarrow> InboundEnvelope \<Rightarrow> Throttle option \<Rightarrow> Throttle option \<times> bool" where
  "registryGuard p now env throttle =
     (if isIgnoredSender (buildIgnoredSet (IgnoredNicks p)) env then (throttle, False)
      else case throttle of
             None \<Rightarrow> (throttle, True)
           | Some t \<Rightarrow> (let (t, res) = AllowWithReason now (throttleScope env) t in (Some t, Allow res)))"

definition BuildCommandGuardFromParams ::
  "GuardParams \<Rightarrow> instant \<Rightarrow> InboundEnvelope \<Rightarrow> Throttle option \<Rightarrow> Throttle option \<times> bool" where
  "BuildCommandGuardFromParams p now env throttle =
     (let (throttle, ok) = registryGuard p now env throttle
      in (throttle, ok \<and> (case PerCommandGuard AccessOwner [] p of None \<Rightarrow> True | Some g \<Rightarrow> g env)))"

section \<open>The hostmask is a glob\<close>

text \<open>The meaning of a pattern: a star stands for any text, every other character for itself.\<close>

fun glob :: "string \<Rightarrow> string \<Rightarrow> bool" where
  "glob [] s = (s = [])"
| "glob (p # ps) [] = (p = CHR ''*'' \<and> glob ps [])"
| "glob (p # ps) (c # s) =
     (if p = CHR ''*'' then glob ps (c # s) \<or> glob (p # ps) s else p = c \<and> glob ps s)"

lemma glob_star: "glob (CHR ''*'' # ps) s \<longleftrightarrow> (\<exists>x y. s = x @ y \<and> glob ps y)"
proof (induction s)
  case Nil
  then show ?case by simp
next
  case (Cons c s)
  have "(\<exists>x y. c # s = x @ y \<and> glob ps y) \<longleftrightarrow> glob ps (c # s) \<or> (\<exists>x y. s = x @ y \<and> glob ps y)"
    by (metis append_Cons append_Nil list.inject neq_Nil_conv)
  with Cons show ?case by simp
qed

fun some_match :: "string list \<Rightarrow> string \<Rightarrow> string \<Rightarrow> bool" where
  "some_match [] final s = (\<exists>x. s = x @ final)"
| "some_match (part # parts) final s = (\<exists>x y. s = x @ part @ y \<and> some_match parts final y)"

lemma some_match_longer: "some_match parts final y \<Longrightarrow> some_match parts final (z @ y)"
proof (cases parts)
  case Nil
  assume "some_match parts final y"
  then show ?thesis using Nil by (metis append_assoc some_match.simps(1))
next
  case (Cons p ps)
  assume "some_match parts final y"
  then obtain x y' where "y = x @ p @ y'" "some_match ps final y'" using Cons by auto
  then have "z @ y = (z @ x) @ p @ y' \<and> some_match ps final y'" by simp
  then show ?thesis unfolding Cons some_match.simps by blast
qed

lemma index_str_here: "prefix sub s \<Longrightarrow> index_str sub s = Some 0"
  by (cases s) auto

lemma index_str_least: "index_str sub (x @ sub @ y) = Some i \<Longrightarrow> i \<le> length x"
proof (induction x arbitrary: i)
  case Nil
  then show ?case by (simp add: index_str_here)
next
  case (Cons c x)
  then show ?case by (auto split: if_splits)
qed

lemma index_str_found: "index_str sub (x @ sub @ y) \<noteq> None"
  by (induction x) (simp_all add: index_str_here)

text \<open>Taking the first occurrence of each part loses no match.\<close>

lemma match_middle_exact: "match_middle parts final s \<longleftrightarrow> some_match parts final s"
proof (induction parts arbitrary: s)
  case Nil
  then show ?case by (simp add: suffix_def)
next
  case (Cons part parts)
  show ?case
  proof
    assume "match_middle (part # parts) final s"
    then obtain i where i: "index_str part s = Some i" "match_middle parts final (drop (i + length part) s)"
      by (auto split: option.splits)
    then have "s = take i s @ part @ drop (i + length part) s" using index_str_Some [OF i(1)] by simp
    then show "some_match (part # parts) final s" using i(2) Cons by (metis some_match.simps(2))
  next
    assume "some_match (part # parts) final s"
    then obtain x y where s: "s = x @ part @ y" "some_match parts final y" by auto
    obtain i where i: "index_str part s = Some i" using index_str_found s(1) by (metis option.exhaust)
    have "i \<le> length x" using index_str_least i s(1) by metis
    then have d: "drop (i + length part) s = drop (i + length part) (x @ part) @ y" using s(1) by simp
    have "some_match parts final (drop (i + length part) s)" unfolding d by (rule some_match_longer [OF s(2)])
    then show "match_middle (part # parts) final s" using i Cons by simp
  qed
qed

definition parts_match :: "string list \<Rightarrow> string \<Rightarrow> bool" where
  "parts_match parts s \<longleftrightarrow>
     (if tl parts = [] then s = hd parts
      else \<exists>y. s = hd parts @ y \<and> some_match (butlast (tl parts)) (last parts) y)"

lemma split_on_whole: "split_on p s = [q] \<Longrightarrow> q = s"
  by (induction s arbitrary: q) (auto split: if_splits list.splits)

lemma glob_parts: "glob pat s \<longleftrightarrow> parts_match (split_byte (CHR ''*'') pat) s"
proof (induction pat arbitrary: s)
  case Nil
  then show ?case by (simp add: parts_match_def split_byte_def)
next
  case (Cons p pat)
  obtain q qs where q: "split_byte (CHR ''*'') pat = q # qs"
    by (cases "split_byte (CHR ''*'') pat") (simp_all add: split_byte_def)
  show ?case
  proof (cases "p = CHR ''*''")
    case True
    then have sp: "split_byte (CHR ''*'') (p # pat) = [] # q # qs" using q by (simp add: split_byte_def)
    show ?thesis
    proof (cases "qs = []")
      case one: True
      then show ?thesis using True sp q Cons by (simp add: glob_star parts_match_def)
    next
      case False
      then have "parts_match ([] # q # qs) s \<longleftrightarrow> (\<exists>x y. s = x @ q @ y \<and> some_match (butlast qs) (last qs) y)"
        by (simp add: parts_match_def)
      moreover have "glob pat y \<longleftrightarrow> (\<exists>z. y = q @ z \<and> some_match (butlast qs) (last qs) z)" for y
        using Cons.IH [of y] False q by (simp add: parts_match_def)
      ultimately show ?thesis unfolding True glob_star using sp True by auto
    qed
  next
    case False
    then have sp: "split_byte (CHR ''*'') (p # pat) = (p # q) # qs" using q by (simp add: split_byte_def)
    show ?thesis
    proof (cases s)
      case Nil
      then show ?thesis using False sp by (simp add: parts_match_def)
    next
      case s: (Cons c s')
      then show ?thesis using False sp q Cons.IH [of s'] by (auto simp: parts_match_def)
    qed
  qed
qed

text \<open>C25: a hostmask matches exactly as a glob. The code splits the pattern at the stars and takes the first occurrence
  of each part; for every pattern and every prefix this decides the same as trying every way the stars can be filled.\<close>

theorem hostmask_glob:
  "hostmaskMatches who pat \<longleftrightarrow> pat \<noteq> [] \<and> glob pat (if prefix '':'' who then tl who else who)"
proof -
  obtain q qs where q: "split_byte (CHR ''*'') pat = q # qs"
    by (cases "split_byte (CHR ''*'') pat") (simp_all add: split_byte_def)
  have one: "qs = [] \<Longrightarrow> q = pat" using q split_on_whole by (simp add: split_byte_def)
  define w where "w = (if prefix '':'' who then tl who else who)"
  have "hostmaskMatches who pat \<longleftrightarrow> pat \<noteq> [] \<and>
      (if qs = [] then w = pat else prefix q w \<and> match_middle (butlast qs) (last qs) (drop (length q) w))"
    unfolding hostmaskMatches_def w_def [symmetric] q by (auto simp: Let_def)
  also have "\<dots> \<longleftrightarrow> pat \<noteq> [] \<and> parts_match (q # qs) w"
    using one by (auto simp: parts_match_def match_middle_exact prefix_def)
  finally show ?thesis by (simp add: glob_parts q w_def)
qed

end
