(* ===== verification/Builder.thy ===== *)
theory Builder
  imports World Commands Guards
begin

text \<open>
  \<^verbatim>\<open>internal/commands/builder.go\<close>: command definitions turned into handlers, and the wiring of
  \<^verbatim>\<open>internal/runtime/wire.go\<close> that puts guards in front of them and the IRC connector behind them.
\<close>

section \<open>Definitions\<close>

record Definition =
  def_Name :: string
  def_Type :: string
  def_Template :: string
  def_Instructions :: string
  def_Model :: string
  def_Access :: string
  def_Allowlist :: "string list"

definition TypeStatic :: string where "TypeStatic = ''static''"
definition TypeLLM :: string where "TypeLLM = ''llm''"

definition llmSystemPrompt :: string where
  "llmSystemPrompt =
     ''You are turborg, an IRC chatbot. Keep replies short and conversational '' @ em_dash @
     '' most IRC clients show one line at a time. Avoid markdown.''"

definition llmMaxTokens :: int where "llmMaxTokens = 512"

record renderCtx =
  rc_platform :: string
  rc_owner :: string

section \<open>Rendering\<close>

definition match_arg :: matcher where
  "match_arg s =
     (if prefix ''{arg'' s then
        let ds = takeWhile is_digit (drop 4 s)
        in if ds \<noteq> [] \<and> prefix ''}'' (drop (4 + length ds) s) then Some (ds, 5 + length ds) else None
      else None)"

definition arg_value :: "string list \<Rightarrow> string \<Rightarrow> unit \<Rightarrow> string \<times> unit" where
  "arg_value args ds st =
     (case atoi ds of
        None \<Rightarrow> []
      | Some n \<Rightarrow> if n < 1 \<or> n > int (length args) then [] else args ! (nat n - 1), st)"

definition cmd_keys :: "string list" where
  "cmd_keys = [''{user}'', ''{nick}'', ''{args}'', ''{room}'', ''{channel}'', ''{platform}'', ''{network}'', ''{owner}'',
               ''{date}'', ''{time}'', ''{datetime}'']"

definition cmd_values :: "InboundEnvelope \<Rightarrow> string list \<Rightarrow> renderCtx \<Rightarrow> (string \<Rightarrow> string) \<Rightarrow> string list" where
  "cmd_values env args ctx clock_text =
     [Sender env, Sender env, trim_space (join '' '' args), env_Channel env, env_Channel env, rc_platform ctx,
      rc_platform ctx, rc_owner ctx, clock_text ''2006-01-02'', clock_text ''15:04:05'',
      clock_text ''2006-01-02 15:04:05 UTC'']"

definition cmd_render :: "string \<Rightarrow> InboundEnvelope \<Rightarrow> string list \<Rightarrow> renderCtx \<Rightarrow> World \<Rightarrow> string \<times> World" where
  "cmd_render tmpl env args ctx w =
     (let (tmpl, r) = expandHelpers tmpl (rnd w);
          tmpl = replacer (zip cmd_keys (cmd_values env args ctx (fmt w (now_w w)))) tmpl
      in (fst (replace_all match_arg (arg_value args) tmpl ()), w\<lparr>rnd := r\<rparr>))"

definition collapse_blanks :: "string \<Rightarrow> string" where
  "collapse_blanks s = join '' '' (go_fields s)"

section \<open>Handlers\<close>

definition reply :: "InboundEnvelope \<Rightarrow> string \<Rightarrow> World \<Rightarrow> World \<times> (err + OutboundEnvelope option)" where
  "reply env t w =
     (on_irc (\<lambda>c. c\<lparr>next_uid := Suc (next_uid c)\<rparr>) w, Inr (Some (ReplyTo (next_uid (irc w)) env t)))"

definition staticHandler :: "Definition \<Rightarrow> renderCtx \<Rightarrow> World CommandHandler" where
  "staticHandler d ctx env args w = (let (t, w) = cmd_render (def_Template d) env args ctx w in reply env t w)"

definition llmHandler :: "World Ask \<Rightarrow> Definition \<Rightarrow> renderCtx \<Rightarrow> World CommandHandler" where
  "llmHandler ask d ctx env args w =
     (let system = (let s = trim_space (def_Instructions d) in if s = [] then llmSystemPrompt else s);
          (prompt, w) = cmd_render (def_Template d) env args ctx w;
          opts = [WithSystem system, WithMaxTokens llmMaxTokens] @
                 (if def_Model d \<noteq> [] then [WithModel (def_Model d)] else []);
          (w, r) = ask prompt opts w
      in case r of
           Inl ErrBudgetExhausted \<Rightarrow> reply env ''Daily AI token budget spent. Resets on a rolling 24h window.'' w
         | Inl (ProviderErr e) \<Rightarrow> reply env (''sorry, that broke: '' @ e) w
         | Inr (answer, _) \<Rightarrow> reply env (collapse_blanks answer) w)"

definition build_one ::
  "World Ask option \<Rightarrow> (Definition \<Rightarrow> (InboundEnvelope \<Rightarrow> bool) option) \<Rightarrow> renderCtx \<Rightarrow> Definition \<Rightarrow> World DynamicCommand option" where
  "build_one provider guardFor ctx d =
     (let guard = map_option (\<lambda>g env w. (w, g env)) (guardFor d)
      in if def_Type d = TypeStatic
         then Some \<lparr>dc_Name = def_Name d, dc_Handler = staticHandler d ctx, dc_Guard = guard\<rparr>
         else if def_Type d = TypeLLM then
           map_option (\<lambda>ask. \<lparr>dc_Name = def_Name d, dc_Handler = llmHandler ask d ctx, dc_Guard = guard\<rparr>) provider
         else None)"

definition Build_commands ::
  "Definition list \<Rightarrow> World Ask option \<Rightarrow> (Definition \<Rightarrow> (InboundEnvelope \<Rightarrow> bool) option) \<Rightarrow> string \<Rightarrow> string \<Rightarrow>
   World DynamicCommand list" where
  "Build_commands defs provider guardFor platform owner =
     List.map_filter (build_one provider guardFor \<lparr>rc_platform = platform, rc_owner = owner\<rparr>) defs"

section \<open>The wiring\<close>

definition bot_guard :: "GuardParams \<Rightarrow> World CommandGuard" where
  "bot_guard p env w =
     (let (t, ok) = registryGuard p (now_w w) env (cmd_throttle w) in (w\<lparr>cmd_throttle := t\<rparr>, ok))"

definition ApplyRegistryGuard :: "GuardParams \<Rightarrow> World CommandRegistry \<times> World \<Rightarrow> World CommandRegistry \<times> World" where
  "ApplyRegistryGuard p rw =
     (SetGuard (Some (bot_guard p)) (fst rw), (snd rw)\<lparr>cmd_throttle := registry_throttle p\<rparr>)"

text \<open>The command part of \<^verbatim>\<open>ApplySkills\<close>. The provider, if any, is how it is asked: through the budget or not.\<close>

definition apply_commands ::
  "GuardParams \<Rightarrow> string \<Rightarrow> World Ask option \<Rightarrow> Definition list \<Rightarrow> World CommandRegistry \<Rightarrow> World CommandRegistry" where
  "apply_commands p platform provider defs r =
     ReplaceDynamic
       (Build_commands defs provider (\<lambda>d. PerCommandGuard (def_Access d) (def_Allowlist d) p) platform (gp_OwnerNick p)) r"

text \<open>\<open>day\<close> is the date the owner nudge prints.\<close>

definition bot_send :: "string \<Rightarrow> OutboundEnvelope \<Rightarrow> World \<Rightarrow> World \<times> err option" where
  "bot_send day out w = (let (c, e) = Send day out (irc w) in (w\<lparr>irc := c\<rparr>, e))"

text \<open>\<open>pub\<close> is the bus with all its subscribers.\<close>

definition serve_inbox ::
  "(Event \<Rightarrow> World \<Rightarrow> World) \<Rightarrow> string \<Rightarrow> World CommandRegistry \<Rightarrow> World \<Rightarrow> World option" where
  "serve_inbox pub day r w =
     drain pub (bot_send day) r (inbox (irc w)) (on_irc (\<lambda>c. c\<lparr>inbox := []\<rparr>) w)"

section \<open>Values and placeholders\<close>

text \<open>The first pass is inert (\<^verbatim>\<open>replacer_fill\<close>): where a value goes is decided by the template alone.\<close>

lemma length_cmd_values [simp]: "length (cmd_values env args ctx f) = length cmd_keys"
  by (simp add: cmd_values_def cmd_keys_def)

lemma cmd_values_inert:
  "replacer (zip cmd_keys (cmd_values env args ctx f)) t = fill (cmd_values env args ctx f) (pieces cmd_keys t)"
  by (simp add: replacer_fill)

text \<open>The second is not: an argument that spells a numbered placeholder is expanded in its turn.\<close>

lemma arguments_reexpanded:
  "fst (cmd_render ''{args}'' env [''{arg2}'', ''x''] ctx w) = ''x x''"
proof -
  have "expandHelpers ''{args}'' (rnd w) = (''{args}'', rnd w)"
    by (simp add: expandHelpers_def replace_all.simps(2) match_helper_def)
  moreover have "pieces cmd_keys ''{args}'' = [Key 2]" by code_simp
  moreover have "trim_space (join '' '' [''{arg2}'', ''x'']) = ''{arg2} x''" by code_simp
  moreover have "fst (replace_all match_arg (arg_value [''{arg2}'', ''x'']) ''{arg2} x'' ()) = ''x x''" by code_simp
  moreover have "cmd_values env [''{arg2}'', ''x''] ctx f ! 2 = trim_space (join '' '' [''{arg2}'', ''x''])" for f
    by (simp add: cmd_values_def)
  ultimately show ?thesis by (simp add: cmd_render_def cmd_values_inert fill_def del: join.simps)
qed

section \<open>Strangers\<close>

text \<open>An envelope no command of the set is open to.\<close>

definition stranger :: "GuardParams \<Rightarrow> Definition list \<Rightarrow> InboundEnvelope \<Rightarrow> bool" where
  "stranger p defs env \<longleftrightarrow>
     (\<forall>d\<in>set defs. case PerCommandGuard (def_Access d) (def_Allowlist d) p of None \<Rightarrow> False | Some g \<Rightarrow> \<not> g env)"


lemma guard_effect: "bot_guard p env w = (w', ok) \<Longrightarrow> \<exists>t. w' = w\<lparr>cmd_throttle := t\<rparr>"
  by (auto simp: bot_guard_def split: prod.splits)

lemma owner_ignores_command:
  "is_owner p (env\<lparr>env_Command := n, Args := as\<rparr>) = is_owner p env"
  "matchesAllowlist names (env\<lparr>env_Command := n, Args := as\<rparr>) = matchesAllowlist names env"
  by (simp_all add: is_owner_def ownerCheck_def verifyExternalOwner_def metadata_def matchesAllowlist_def Let_def
      cong: option.case_cong)

lemma guard_ignores_command:
  "PerCommandGuard a l p = Some g \<Longrightarrow> g (env\<lparr>env_Command := n, Args := as\<rparr>) = g env"
  unfolding PerCommandGuard_def Let_def by (auto simp: owner_ignores_command split: if_splits)

lemma build_one_guard:
  "build_one provider guardFor ctx d = Some c \<Longrightarrow> dc_Guard c = map_option (\<lambda>g env w. (w, g env)) (guardFor d)"
  by (auto simp: build_one_def Let_def split: if_splits)

lemma built_from:
  assumes "commands (apply_commands p platform provider defs r) k = Some e" "\<not> builtin r k"
  shows "\<exists>d\<in>set defs. ce_guard e = map_option (\<lambda>g env w. (w, g env)) (PerCommandGuard (def_Access d) (def_Allowlist d) p)"
proof -
  define cs where "cs = Build_commands defs provider (\<lambda>d. PerCommandGuard (def_Access d) (def_Allowlist d) p) platform (gp_OwnerNick p)"
  have "commands (apply_commands p platform provider defs r) = swapped r cs"
    by (simp add: apply_commands_def swap_invariant cs_def)
  then have e: "k \<in> set (slots r cs)" "e = chosen cs k" using assms by (simp_all add: swapped_def split: if_splits)
  then have "k \<in> set (map key_of cs)" using slots_keys [of r cs] by blast
  then have "filter (\<lambda>c. key_of c = k) cs \<noteq> []" unfolding filter_empty_conv by auto
  then have "last (filter (\<lambda>c. key_of c = k) cs) \<in> set cs" by (metis filter_is_subset last_in_set subsetD)
  then obtain d where d: "d \<in> set defs"
    "build_one provider (\<lambda>d. PerCommandGuard (def_Access d) (def_Allowlist d) p)
       \<lparr>rc_platform = platform, rc_owner = gp_OwnerNick p\<rparr> d = Some (last (filter (\<lambda>c. key_of c = k) cs))"
    unfolding cs_def Build_commands_def set_map_filter by blast
  show ?thesis using d(1) e(2) build_one_guard [OF d(2)]
    by (intro bexI [of _ d]) (simp_all add: chosen_def dynamic_entry_def)
qed

text \<open>One message on the bus, after which the throttle of the command guard is \<open>t\<close>.\<close>

definition heard :: "(Event \<Rightarrow> World \<Rightarrow> World) \<Rightarrow> InboundEnvelope \<times> Throttle option \<Rightarrow> World \<Rightarrow> World" where
  "heard pub et w =
     (pub \<lparr>ev_Type = EventMessage, Fields = [(''envelope'', VInbound (fst et))]\<rparr> w)\<lparr>cmd_throttle := snd et\<rparr>"

lemma stranger_step:
  assumes s: "stranger p defs env" and b: "\<And>k. \<not> builtin r k"
    and R: "R = (apply_commands p platform provider defs r)\<lparr>cr_guard := Some (bot_guard p)\<rparr>"
    and ok: "parse_command R (env_Text env) \<noteq> None"
  shows "\<exists>t. agent_handle pub send R env w = Some (heard pub (env, t) w)"
proof -
  define v where "v = pub \<lparr>ev_Type = EventMessage, Fields = [(''envelope'', VInbound env)]\<rparr> w"
  have same: "v = v\<lparr>cmd_throttle := cmd_throttle v\<rparr>" by simp
  have "\<exists>t env'. Dispatch R env v = Some (v\<lparr>cmd_throttle := t\<rparr>, env', Inr None)"
  proof (cases "parse_command R (env_Text env)")
    case None
    with ok show ?thesis by simp
  next
    case (Some res)
    show ?thesis
    proof (cases res)
      case None
      with Some same show ?thesis unfolding Dispatch_def by (intro exI [of _ "cmd_throttle v"]) simp
    next
      case c: (Some na)
      obtain n as where na: "na = (n, as)" by fastforce
      show ?thesis
      proof (cases "commands R n")
        case None
        with Some c na same show ?thesis unfolding Dispatch_def by (intro exI [of _ "cmd_throttle v"]) simp
      next
        case e: (Some e)
        then obtain d where d: "d \<in> set defs"
          "ce_guard e = map_option (\<lambda>g env w. (w, g env)) (PerCommandGuard (def_Access d) (def_Allowlist d) p)"
          using built_from [OF _ b] R by fastforce
        then obtain g where g: "PerCommandGuard (def_Access d) (def_Allowlist d) p = Some g" "\<not> g env"
          using s by (auto simp: stranger_def split: option.splits)
        let ?env = "env\<lparr>env_Command := n, Args := as\<rparr>"
        obtain v' gok where v': "bot_guard p ?env v = (v', gok)" by fastforce
        have "\<not> g ?env" using g guard_ignores_command by metis
        then have "Dispatch R env v = Some (v', ?env, Inr None)"
          using Some c na e v' d g R by (simp add: Dispatch_def run_guard_def Let_def)
        then show ?thesis using guard_effect [OF v'] by blast
      qed
    qed
  qed
  then obtain t env' where "Dispatch R env v = Some (v\<lparr>cmd_throttle := t\<rparr>, env', Inr None)" by blast
  then have "agent_handle pub send R env w = Some (heard pub (env, t) w)"
    unfolding agent_handle_def v_def heard_def by simp
  then show ?thesis by blast
qed

text \<open>C11: the commands of a bot do nothing for those they are not open to. Take a registry without built-in commands,
  whose commands all are for the owner or an allowlist, and messages of senders no command is open to (none of them of
  the kind that stops the agent, \<open>dispatch_panics\<close>). Whatever listens on the bus, the store, skills and flows of the
  wired bot included, draining them leaves exactly the world the bus alone would have left, up to the throttle of the
  command guard: nothing is written, asked, spent, drawn or stored on account of a command.\<close>

theorem strangers_get_nothing:
  assumes "\<And>k. \<not> builtin r k" "list_all (stranger p defs) (inbox (irc w))"
    and "R = (apply_commands p platform provider defs r)\<lparr>cr_guard := Some (bot_guard p)\<rparr>"
    and "list_all (\<lambda>e. parse_command R (env_Text e) \<noteq> None) (inbox (irc w))"
  shows "\<exists>ts. length ts = length (inbox (irc w)) \<and>
    serve_inbox pub day R w = Some (fold (heard pub) (zip (inbox (irc w)) ts) (on_irc (\<lambda>c. c\<lparr>inbox := []\<rparr>) w))"
proof -
  have "\<exists>ts. length ts = length envs \<and> drain pub (bot_send day) R envs v = Some (fold (heard pub) (zip envs ts) v)"
    if "list_all (stranger p defs) envs" "list_all (\<lambda>e. parse_command R (env_Text e) \<noteq> None) envs" for envs v
    using that
  proof (induction envs arbitrary: v)
    case Nil
    then show ?case by simp
  next
    case (Cons e es)
    then obtain t where t: "agent_handle pub (bot_send day) R e v = Some (heard pub (e, t) v)"
      using stranger_step [OF _ assms(1,3), of e pub "bot_send day" v] by auto
    from Cons obtain ts where "length ts = length es"
      "drain pub (bot_send day) R es (heard pub (e, t) v) = Some (fold (heard pub) (zip es ts) (heard pub (e, t) v))" by auto
    with t show ?case by (intro exI [of _ "t # ts"]) simp
  qed
  from this [OF assms(2,4)] show ?thesis unfolding serve_inbox_def .
qed

text \<open>The owner of the same bot is answered.\<close>

definition sample_owner :: GuardParams where
  "sample_owner =
     \<lparr>OwnerMode = ''external'', gp_OwnerNick = ''Alice'', OwnerAccount = [], OwnerHostmask = ''*!*@home.*'',
      IgnoredNicks = [], BotNick = ''bot'', CommandMaxPerWindow = 0, CommandWindowSeconds = 0\<rparr>"

definition sample_defs :: "Definition list" where
  "sample_defs =
     [\<lparr>def_Name = ''op'', def_Type = ''static'', def_Template = ''hi {user}'', def_Instructions = [], def_Model = [],
       def_Access = ''owner'', def_Allowlist = []\<rparr>]"

definition sample_registry :: "World CommandRegistry" where
  "sample_registry =
     (apply_commands sample_owner ''net'' None sample_defs (SetMaxDynamic 5 (NewCommandRegistry [])))
       \<lparr>cr_guard := Some (bot_guard sample_owner)\<rparr>"

definition asked_by :: "string \<Rightarrow> string \<Rightarrow> World" where
  "asked_by nick from =
     sample_world ((setClient (Some 40000) (NewConnector sample_settings True 0))
       \<lparr>inbox := [(NewInbound 0 0 ''irc'' ''#a'' nick ''!op'')\<lparr>Metadata := [''prefix'' \<mapsto> from]\<rparr>]\<rparr>)"

lemma owner_is_answered:
  "map_option (\<lambda>w. wire (irc w)) (serve_inbox publish_w [] sample_registry (asked_by ''alice'' ''alice!a@home.example'')) =
     Some [''PRIVMSG #a :hi alice'']"
  by code_simp

theorem strangers_get_nothing_witness:
  "\<exists>w'. serve_inbox publish_w [] sample_registry (asked_by ''alice'' ''alice!a@elsewhere'') = Some w' \<and> wire (irc w') = []"
proof -
  let ?w = "asked_by ''alice'' ''alice!a@elsewhere''"
  have "list_all (\<lambda>e. \<not> is_owner sample_owner e \<and> parse_command sample_registry (env_Text e) \<noteq> None) (inbox (irc ?w))"
    by code_simp
  then have i: "list_all (stranger sample_owner sample_defs) (inbox (irc ?w))"
    "list_all (\<lambda>e. parse_command sample_registry (env_Text e) \<noteq> None) (inbox (irc ?w))"
    by (auto simp: list_all_iff stranger_def sample_defs_def PerCommandGuard_def AccessEveryone_def AccessAllowlist_def
        trim_space_def trim_left_def trim_right_def is_space_def to_lower_def lower_char_def)
  have "\<not> builtin (SetMaxDynamic 5 (NewCommandRegistry [])) k" for k
    by (simp add: builtin_def SetMaxDynamic_def NewCommandRegistry_def)
  from strangers_get_nothing [OF this i(1) sample_registry_def i(2), of publish_w "[]"] obtain ts where
    "serve_inbox publish_w [] sample_registry ?w =
       Some (fold (heard publish_w) (zip (inbox (irc ?w)) ts) (on_irc (\<lambda>c. c\<lparr>inbox := []\<rparr>) ?w))" by blast
  moreover have "wire (irc (fold (heard publish_w) ets v)) = wire (irc v)" for ets v
    by (induction ets arbitrary: v) (simp_all add: heard_def publish_w_def on_irc_def publish_def)
  moreover have "wire (irc ?w) = []" by (simp add: asked_by_def sample_world_def NewConnector_def setClient_def reportIdentPort_def)
  ultimately show ?thesis by (simp add: on_irc_def)
qed

end
