(* ===== verification/Cron.thy ===== *)
theory Cron
  imports Prelude
begin

text \<open>
  \<^verbatim>\<open>internal/skill/cron.go\<close>: cron expressions and the next time they match, with the part of Go's calendar they
  need. Times are UTC instants (nanoseconds since 1970), the values of a field a list.
\<close>

section \<open>The calendar\<close>

definition leap :: "int \<Rightarrow> bool" where
  "leap y \<longleftrightarrow> (y mod 4 = 0 \<and> y mod 100 \<noteq> 0) \<or> y mod 400 = 0"

text \<open>Days from the first of January to the first of month \<open>m\<close> (1 to 12).\<close>

definition month_start :: "bool \<Rightarrow> nat \<Rightarrow> int" where
  "month_start lp m =
     [0, 31, 59, 90, 120, 151, 181, 212, 243, 273, 304, 334] ! (m - 1) + (if lp \<and> m > 2 then 1 else 0)"

text \<open>Days from 1 January of year 1; \<open>d\<close> may run past the end of the month, as in \<^verbatim>\<open>time.Date\<close>.\<close>

definition days_of :: "int \<Rightarrow> nat \<Rightarrow> int \<Rightarrow> int" where
  "days_of y m d =
     365 * (y - 1) + (y - 1) div 4 - (y - 1) div 100 + (y - 1) div 400 + month_start (leap y) m + d - 1"

text \<open>The year, month and day of the day \<open>n\<close>: the cycle of 400 years, the last year of it and the last month of that
  which have begun.\<close>

definition year_start :: "nat \<Rightarrow> int" where
  "year_start b = 365 * int b + int b div 4 - int b div 100"

definition civil :: "int \<Rightarrow> int \<times> nat \<times> int" where
  "civil n =
     (let r = n mod 146097;
          b = length (filter (\<lambda>b. year_start b \<le> r) [1 ..< 400]);
          y = 400 * (n div 146097) + int b + 1;
          doy = r - year_start b;
          m = length (filter (\<lambda>m. month_start (leap y) m \<le> doy) [1 ..< 13])
      in (y, m, doy - month_start (leap y) m + 1))"

definition unix_day :: int where "unix_day = 719162"
definition minute_ns :: int where "minute_ns = 60 * 10 ^ 9"
definition day_ns :: int where "day_ns = 24 * 3600 * 10 ^ 9"

definition t_day :: "instant \<Rightarrow> int" where "t_day t = t div day_ns + unix_day"
definition t_Minute :: "instant \<Rightarrow> int" where "t_Minute t = (t div minute_ns) mod 60"
definition t_Hour :: "instant \<Rightarrow> int" where "t_Hour t = (t div (60 * minute_ns)) mod 24"
definition t_Month :: "instant \<Rightarrow> int" where "t_Month t = int (fst (snd (civil (t_day t))))"
definition t_Day :: "instant \<Rightarrow> int" where "t_Day t = snd (snd (civil (t_day t)))"
definition t_Weekday :: "instant \<Rightarrow> int" where "t_Weekday t = (t_day t + 1) mod 7"

text \<open>\<^verbatim>\<open>AddDate(1, 0, 1)\<close>.\<close>

definition next_year_and_day :: "instant \<Rightarrow> instant" where
  "next_year_and_day t =
     (let (y, m, d) = civil (t_day t) in (days_of (y + 1) m (d + 1) - unix_day) * day_ns + t mod day_ns)"

section \<open>Fields\<close>

text \<open>\<^verbatim>\<open>v += step\<close> wraps at 64 bits; the loop is partial because of it.\<close>

definition wrap64 :: "int \<Rightarrow> int" where
  "wrap64 x = (x + 2 ^ 63) mod 2 ^ 64 - 2 ^ 63"

partial_function (option) field_loop :: "int \<Rightarrow> int \<Rightarrow> int \<Rightarrow> int list \<Rightarrow> int list option" where
  "field_loop v end step out = (if v \<le> end then field_loop (wrap64 (v + step)) end step (v # out) else Some out)"

definition part_range :: "string \<Rightarrow> int \<Rightarrow> int \<Rightarrow> (string + int \<times> int \<times> int)" where
  "part_range part lo hi =
     (let (rng, step) =
            (case index_byte (CHR ''/'') part of
               None \<Rightarrow> (part, Some 1)
             | Some slash \<Rightarrow> (take slash part, atoi (drop (Suc slash) part)))
      in case step of
           None \<Rightarrow> Inl (''bad step '' @ go_quote part)
         | Some step \<Rightarrow>
             (if step < 1 then Inl (''bad step '' @ go_quote part)
              else if rng = ''*'' then Inr (lo, hi, step)
              else case index_byte (CHR ''-'') rng of
                     Some i \<Rightarrow>
                       (case (atoi (take i rng), atoi (drop (Suc i) rng)) of
                          (Some a, Some b) \<Rightarrow> Inr (a, b, step)
                        | _ \<Rightarrow> Inl (''bad range '' @ go_quote part))
                   | None \<Rightarrow>
                       (case atoi rng of
                          Some v \<Rightarrow> Inr (v, v, step)
                        | None \<Rightarrow> Inl (''bad value '' @ go_quote part))))"

text \<open>The outer option is a loop that does not end.\<close>

fun parse_parts :: "string list \<Rightarrow> int \<Rightarrow> int \<Rightarrow> int list \<Rightarrow> (string + int list) option" where
  "parse_parts [] lo hi out = Some (if out = [] then Inl ''empty field'' else Inr out)"
| "parse_parts (part # parts) lo hi out =
     (case part_range part lo hi of
        Inl e \<Rightarrow> Some (Inl e)
      | Inr (start, end, step) \<Rightarrow>
          (if start < lo \<or> end > hi \<or> start > end
           then Some (Inl (''field '' @ go_quote part @ '' out of range ['' @ itoa lo @ '','' @ itoa hi @ '']''))
           else case field_loop start end step out of
                  None \<Rightarrow> None
                | Some out \<Rightarrow> parse_parts parts lo hi out))"

definition parseField :: "string \<Rightarrow> int \<Rightarrow> int \<Rightarrow> (string + int list) option" where
  "parseField field lo hi = parse_parts (split_byte (CHR '','') field) lo hi []"

section \<open>Expressions\<close>

record cronSpec =
  cs_minute :: "int list"
  cs_hour :: "int list"
  cs_dom :: "int list"
  cs_month :: "int list"
  cs_dow :: "int list"
  domStar :: bool
  dowStar :: bool

definition named_field :: "string \<Rightarrow> string \<Rightarrow> int \<Rightarrow> int \<Rightarrow> (int list \<Rightarrow> (string + 'a) option) \<Rightarrow> (string + 'a) option" where
  "named_field name field lo hi k =
     (case parseField field lo hi of
        None \<Rightarrow> None
      | Some (Inl e) \<Rightarrow> Some (Inl (''cron '' @ name @ '': '' @ e))
      | Some (Inr vs) \<Rightarrow> k vs)"

definition parseCron :: "string \<Rightarrow> (string + cronSpec) option" where
  "parseCron spec =
     (let f = go_fields spec
      in if length f \<noteq> 5 then Some (Inl (''cron: want 5 fields, got '' @ nat_str (length f)))
         else named_field ''minute'' (f ! 0) 0 59 (\<lambda>mi.
              named_field ''hour'' (f ! 1) 0 23 (\<lambda>h.
              named_field ''day-of-month'' (f ! 2) 1 31 (\<lambda>dom.
              named_field ''month'' (f ! 3) 1 12 (\<lambda>mo.
              named_field ''day-of-week'' (f ! 4) 0 6 (\<lambda>dow.
                Some (Inr \<lparr>cs_minute = mi, cs_hour = h, cs_dom = dom, cs_month = mo, cs_dow = dow,
                           domStar = (f ! 2 = ''*''), dowStar = (f ! 4 = ''*'')\<rparr>)))))))"

definition cron_matches :: "cronSpec \<Rightarrow> instant \<Rightarrow> bool" where
  "cron_matches c t =
     (if t_Minute t \<notin> set (cs_minute c) \<or> t_Hour t \<notin> set (cs_hour c) \<or> t_Month t \<notin> set (cs_month c) then False
      else let domOK = (t_Day t \<in> set (cs_dom c)); dowOK = (t_Weekday t \<in> set (cs_dow c))
           in if \<not> domStar c \<and> \<not> dowStar c then domOK \<or> dowOK else domOK \<and> dowOK)"

function scan :: "cronSpec \<Rightarrow> instant \<Rightarrow> instant \<Rightarrow> instant" where
  "scan c t limit = (if t < limit then (if cron_matches c t then t else scan c (t + minute_ns) limit) else limit)"
  by auto
termination by (relation "measure (\<lambda>(c, t, limit). nat (limit - t))") (auto simp: minute_ns_def)

declare scan.simps [simp del]

definition cron_next :: "cronSpec \<Rightarrow> instant \<Rightarrow> instant" where
  "cron_next c from =
     (let t = (from div minute_ns) * minute_ns + minute_ns in scan c t (next_year_and_day t))"

section \<open>The calendar is right\<close>

text \<open>Counting how many of an increasing sequence have begun finds the last one that has.\<close>

lemma filter_initial:
  assumes "\<And>i j. 1 \<le> i \<Longrightarrow> i \<le> j \<Longrightarrow> j < N \<Longrightarrow> P j \<Longrightarrow> P i"
  shows "filter P [1 ..< N] = [1 ..< Suc (length (filter P [1 ..< N]))]"
  using assms
proof (induction N)
  case 0
  then show ?case by simp
next
  case (Suc N)
  then have IH: "filter P [1 ..< N] = [1 ..< Suc (length (filter P [1 ..< N]))]" by (meson less_SucI)
  show ?case
  proof (cases "N \<ge> 1 \<and> P N")
    case True
    then have "filter P [1 ..< Suc N] = [1 ..< Suc N]"
      using Suc.prems by (intro filter_True) (metis atLeastLessThan_iff less_Suc_eq_le lessI set_upt)
    then show ?thesis using True by simp
  next
    case False
    then show ?thesis using IH by (cases N) auto
  qed
qed

lemma last_begun:
  fixes f :: "nat \<Rightarrow> int" and r :: int
  assumes "mono_on {1 ..< N} f"
  defines "c \<equiv> length (filter (\<lambda>i. f i \<le> r) [1 ..< N])"
  shows "c < N \<or> N = 0" "c \<ge> 1 \<Longrightarrow> f c \<le> r" "Suc c < N \<Longrightarrow> r < f (Suc c)"
proof -
  have "f i \<le> r" if "1 \<le> i" "i \<le> j" "j < N" "f j \<le> r" for i j
    using mono_onD [OF assms(1), of i j] that by simp
  then have F: "filter (\<lambda>i. f i \<le> r) [1 ..< N] = [1 ..< Suc c]"
    unfolding c_def by (intro filter_initial) blast
  have "c \<le> length [1 ..< N]" unfolding c_def by (rule length_filter_le)
  then show "c < N \<or> N = 0" by auto
  show "f c \<le> r" if "c \<ge> 1"
  proof -
    have "c \<in> set (filter (\<lambda>i. f i \<le> r) [1 ..< N])" unfolding F using that by simp
    then show ?thesis by simp
  qed
  show "r < f (Suc c)" if "Suc c < N"
  proof (rule ccontr)
    assume "\<not> r < f (Suc c)"
    then have "Suc c \<in> set (filter (\<lambda>i. f i \<le> r) [1 ..< N])" using that by simp
    then show False unfolding F by simp
  qed
qed

lemma div_step: "int (Suc b) div int k = int b div int k + (if Suc b mod k = 0 then 1 else 0)"
proof -
  have "int (Suc b div k) = int (b div k) + (if Suc b mod k = 0 then 1 else 0)" by (simp add: div_Suc)
  then show ?thesis by (simp only: of_nat_div)
qed

lemma year_start_mono: "a \<le> b \<Longrightarrow> year_start a \<le> year_start b"
proof -
  have "year_start b \<le> year_start (Suc b)" for b
    using div_step [of b 4] div_step [of b 100] by (simp add: year_start_def)
  then show "a \<le> b \<Longrightarrow> year_start a \<le> year_start b" using lift_Suc_mono_le by blast
qed

lemma month_start_mono: "mono_on {1 ..< 13} (month_start lp)"
proof -
  have "list_all (\<lambda>i. list_all (\<lambda>j. i \<le> j \<longrightarrow> month_start True i \<le> month_start True j) [1 ..< 13]) [1 ..< 13]"
    "list_all (\<lambda>i. list_all (\<lambda>j. i \<le> j \<longrightarrow> month_start False i \<le> month_start False j) [1 ..< 13]) [1 ..< 13]"
    by code_simp+
  then show ?thesis by (cases lp) (auto simp: mono_on_def list_all_iff)
qed

definition year_length :: "int \<Rightarrow> int" where
  "year_length y = (if leap y then 366 else 365)"

lemma mod_cycle: "(400 * q + x) mod 4 = x mod 4" "(400 * q + x) mod 100 = x mod 100" "(400 * q + x) mod 400 = x mod (400 :: int)"
proof -
  have e: "400 * q + x = x + 4 * (100 * q)" "400 * q + x = x + 100 * (4 * q)" "400 * q + x = x + 400 * q" by simp_all
  show "(400 * q + x) mod 4 = x mod 4" unfolding e(1) by (rule mod_mult_self2)
  show "(400 * q + x) mod 100 = x mod 100" unfolding e(2) by (rule mod_mult_self2)
  show "(400 * q + x) mod 400 = x mod 400" unfolding e(3) by (rule mod_mult_self2)
qed

lemma leap_cycle: "leap (400 * q + int b + 1) \<longleftrightarrow> (Suc b mod 4 = 0 \<and> Suc b mod 100 \<noteq> 0) \<or> Suc b mod 400 = 0"
proof -
  have e: "400 * q + int b + 1 = 400 * q + int (Suc b)" by simp
  have i: "int (Suc b) mod 4 = int (Suc b mod 4)" "int (Suc b) mod 100 = int (Suc b mod 100)"
    "int (Suc b) mod 400 = int (Suc b mod 400)" by (simp_all only: of_nat_mod of_nat_numeral)
  show ?thesis unfolding leap_def e mod_cycle i of_nat_eq_0_iff ..
qed

lemma year_start_Suc: "b < 399 \<Longrightarrow> year_start (Suc b) = year_start b + year_length (400 * q + int b + 1)"
proof -
  assume b: "b < 399"
  have "int (Suc b) div 4 = int b div 4 + (if Suc b mod 4 = 0 then 1 else 0)"
    "int (Suc b) div 100 = int b div 100 + (if Suc b mod 100 = 0 then 1 else 0)"
    using div_step [of b 4] div_step [of b 100] by simp_all
  moreover have "Suc b mod 400 \<noteq> 0" "Suc b mod 100 = 0 \<Longrightarrow> Suc b mod 4 = 0" using b by presburger+
  ultimately show ?thesis by (auto simp: year_start_def year_length_def leap_cycle)
qed

definition month_length :: "bool \<Rightarrow> nat \<Rightarrow> int" where
  "month_length lp m = (if m = 12 then 31 else month_start lp (Suc m) - month_start lp m)"

text \<open>Every day has one valid date, and the date leads back to it.\<close>

lemma civil_exact:
  assumes "civil n = (y, m, d)"
  shows "days_of y m d = n" "1 \<le> m" "m \<le> 12" "1 \<le> d" "d \<le> month_length (leap y) m"
proof -
  define q r where "q = n div 146097" and "r = n mod 146097"
  define b where "b = length (filter (\<lambda>b. year_start b \<le> r) [1 ..< 400])"
  have r: "0 \<le> r" "r < 146097" "n = 146097 * q + r" by (simp_all add: q_def r_def)
  have B: "b < 400" "b \<ge> 1 \<Longrightarrow> year_start b \<le> r" "Suc b < 400 \<Longrightarrow> r < year_start (Suc b)"
    using last_begun [of 400 year_start r] year_start_mono by (auto simp: b_def mono_on_def)
  note C = assms [unfolded civil_def Let_def, folded q_def r_def, folded b_def]
  have y: "y = 400 * q + int b + 1" using C by simp
  have lo: "year_start b \<le> r" using B(2) r(1) by (cases "b = 0") (auto simp: year_start_def)
  have hi: "r < year_start b + year_length y"
  proof (cases "b = 399")
    case True
    have "leap y" unfolding y leap_cycle using True by simp
    then have "year_length y = 366" by (simp add: year_length_def)
    then show ?thesis using True r(2) by (simp add: year_start_def)
  next
    case False
    then show ?thesis using B(1,3) year_start_Suc [of b q] by (simp add: y)
  qed
  define doy where "doy = r - year_start b"
  have doy: "0 \<le> doy" "doy < year_length y" using lo hi by (simp_all add: doy_def)
  have m: "m = length (filter (\<lambda>m. month_start (leap y) m \<le> doy) [1 ..< 13])" and d: "d = doy - month_start (leap y) m + 1"
    using C unfolding doy_def y by (simp_all only: prod.inject) blast+
  have M: "m < 13" "m \<ge> 1 \<Longrightarrow> month_start (leap y) m \<le> doy" "Suc m < 13 \<Longrightarrow> doy < month_start (leap y) (Suc m)"
    using last_begun [OF month_start_mono [of "leap y"], of doy] by (auto simp: m)
  have "month_start (leap y) 1 \<le> doy" using doy(1) by (simp add: month_start_def)
  then have m1: "m \<ge> 1" using M(3) by (cases m) (simp_all add: not_less [symmetric])
  show "1 \<le> m" "m \<le> 12" using m1 M(1) by simp_all
  show "1 \<le> d" using M(2) m1 d by simp
  show "d \<le> month_length (leap y) m"
    using M(1,3) d doy(2) by (cases "m = 12") (auto simp: month_length_def month_start_def year_length_def split: if_splits)
  have "(y - 1) div 4 = 100 * q + int b div 4" "(y - 1) div 100 = 4 * q + int b div 100" "(y - 1) div 400 = q"
    using B(1) by (simp_all add: y)
  then have "365 * (y - 1) + (y - 1) div 4 - (y - 1) div 100 + (y - 1) div 400 = 146097 * q + year_start b"
    by (simp add: y year_start_def)
  then show "days_of y m d = n" by (simp add: days_of_def d doy_def r(3))
qed

section \<open>Fields always parse\<close>

lemma wrap64_id: "- (2 ^ 63) \<le> x \<Longrightarrow> x < 2 ^ 63 \<Longrightarrow> wrap64 x = x"
  by (simp add: wrap64_def)

lemma wrap64_over: "2 ^ 63 \<le> x \<Longrightarrow> x < 2 ^ 64 \<Longrightarrow> wrap64 x = x - 2 ^ 64"
proof -
  assume x: "2 ^ 63 \<le> x" "x < 2 ^ 64"
  have e: "x + 2 ^ 63 = x - 2 ^ 63 + 2 ^ 64" by simp
  have "(x - 2 ^ 63) mod 2 ^ 64 = x - 2 ^ 63" using x by (intro mod_pos_pos_trivial) auto
  then show ?thesis unfolding wrap64_def e mod_add_self2 by simp
qed

lemma field_loop_stop: "\<not> v \<le> end \<Longrightarrow> field_loop v end step out = Some out"
  by (subst field_loop.simps) simp

lemma field_loop_go: "v \<le> end \<Longrightarrow> field_loop v end step out = field_loop (wrap64 (v + step)) end step (v # out)"
  by (subst field_loop.simps) simp

text \<open>With a step that cannot overflow the loop collects the progression.\<close>

lemma field_loop_exact:
  assumes "0 \<le> v" "end < 2 ^ 61" "1 \<le> step" "step \<le> 2 ^ 62"
  shows "\<exists>vs. field_loop v end step out = Some vs \<and> set vs = set out \<union> {x. x \<le> end \<and> (\<exists>k. x = v + int k * step)}"
  using assms(1)
proof (induction "nat (end + 1 - v)" arbitrary: v out rule: less_induct)
  case less
  show ?case
  proof (cases "v \<le> end")
    case False
    have "\<not> v + int k * step \<le> end" for k
    proof -
      have "int k * step \<ge> 0" using assms(3) by simp
      then show ?thesis using False by linarith
    qed
    then show ?thesis using False by (auto simp: field_loop_stop)
  next
    case True
    have w: "wrap64 (v + step) = v + step" using True less.prems assms by (intro wrap64_id) auto
    have "nat (end + 1 - (v + step)) < nat (end + 1 - v)" using True assms(3) by auto
    from less.hyps [OF this, of "v # out"] less.prems assms(3) obtain vs where
      vs: "field_loop (v + step) end step (v # out) = Some vs"
      "set vs = set (v # out) \<union> {x. x \<le> end \<and> (\<exists>k. x = v + step + int k * step)}" by auto
    have "(\<exists>k. x = v + int k * step) \<longleftrightarrow> x = v \<or> (\<exists>k. x = v + step + int k * step)" for x
    proof
      assume "\<exists>k. x = v + int k * step"
      then obtain k where "x = v + int k * step" by blast
      then show "x = v \<or> (\<exists>k. x = v + step + int k * step)"
        by (cases k) (auto simp: algebra_simps)
    next
      assume "x = v \<or> (\<exists>k. x = v + step + int k * step)"
      then show "\<exists>k. x = v + int k * step"
      proof
        assume "x = v"
        then show ?thesis by (intro exI [of _ 0]) simp
      next
        assume "\<exists>k. x = v + step + int k * step"
        then obtain k where "x = v + step + int k * step" by blast
        then show ?thesis by (intro exI [of _ "Suc k"]) (simp add: algebra_simps)
      qed
    qed
    then show ?thesis using vs True by (auto simp: field_loop_go w)
  qed
qed

text \<open>With a larger one it wraps, but still ends.\<close>

lemma field_loop_wraps:
  assumes "0 \<le> v" "v \<le> end" "end < 2 ^ 60" "2 ^ 62 < step" "step < 2 ^ 63"
  shows "\<exists>vs. field_loop v end step out = Some vs"
  using assms(1,2)
proof (induction "nat v" arbitrary: v out rule: less_induct)
  case less
  show ?case
  proof (cases "v + step < 2 ^ 63")
    case True
    then have "wrap64 (v + step) = v + step" using less.prems assms by (intro wrap64_id) auto
    moreover have "\<not> v + step \<le> end" using less.prems assms by auto
    ultimately show ?thesis using less.prems by (simp add: field_loop_go field_loop_stop)
  next
    case False
    let ?u = "v + step - 2 ^ 64"
    have u: "wrap64 (v + step) = ?u" using False less.prems assms by (intro wrap64_over) auto
    have w: "wrap64 (?u + step) = ?u + step" using less.prems assms False by (intro wrap64_id) auto
    have lt: "?u \<le> end" "?u + step < v" using less.prems assms by auto
    have go: "field_loop v end step out = field_loop (?u + step) end step (?u # v # out)"
      unfolding field_loop_go [OF less.prems(2), of step out, unfolded u] field_loop_go [OF lt(1), of step "v # out", unfolded w] ..
    show ?thesis
    proof (cases "0 \<le> ?u + step")
      case True
      then have "\<exists>vs. field_loop (?u + step) end step (?u # v # out) = Some vs"
        using less.hyps [of "?u + step" "?u # v # out"] lt less.prems by auto
      then show ?thesis unfolding go .
    next
      case neg: False
      have w2: "wrap64 (?u + step + step) = ?u + step + step" using less.prems assms neg False by (intro wrap64_id) auto
      have stop: "\<not> ?u + step + step \<le> end" using less.prems assms False by auto
      have "?u + step \<le> end" using neg less.prems by auto
      note go2 = field_loop_go [OF this, of step "?u # v # out", unfolded w2 field_loop_stop [OF stop]]
      show ?thesis unfolding go go2 by blast
    qed
  qed
qed

lemma parse_parts_returns: "0 \<le> lo \<Longrightarrow> hi < 2 ^ 60 \<Longrightarrow> \<exists>r. parse_parts parts lo hi out = Some r"
proof (induction parts arbitrary: out)
  case Nil
  then show ?case by simp
next
  case (Cons part parts)
  show ?case
  proof (cases "part_range part lo hi")
    case (Inl e)
    then show ?thesis by simp
  next
    case (Inr ses)
    obtain start fin step where ses: "ses = (start, fin, step)" by (cases ses)
    have a: "atoi s = Some n \<Longrightarrow> n < 2 ^ 63" for s n by (auto simp: atoi_def Let_def split: if_splits)
    have step: "1 \<le> step" "step < 2 ^ 63" using Inr ses a
      by (auto simp: part_range_def Let_def split: option.splits if_splits prod.splits)
    show ?thesis
    proof (cases "start < lo \<or> fin > hi \<or> start > fin")
      case True
      then show ?thesis using Inr ses by simp
    next
      case False
      then have "\<exists>vs. field_loop start fin step out = Some vs"
        using field_loop_exact [of start fin step out] field_loop_wraps [of start fin step out] step Cons.prems
        by (cases "step \<le> 2 ^ 62") auto
      then show ?thesis using Inr ses False Cons by auto
    qed
  qed
qed

lemma parseField_returns: "0 \<le> lo \<Longrightarrow> hi < 2 ^ 60 \<Longrightarrow> \<exists>r. parseField f lo hi = Some r"
  by (simp add: parseField_def parse_parts_returns)

lemma named_field_returns: "0 \<le> lo \<Longrightarrow> hi < 2 ^ 60 \<Longrightarrow> (\<And>vs. \<exists>r. k vs = Some r) \<Longrightarrow> \<exists>r. named_field n f lo hi k = Some r"
  using parseField_returns [of lo hi f] by (auto simp: named_field_def split: sum.split)

text \<open>The overflow shows: the values of "5/9223372036854775807" also hold 3 and 1.\<close>

lemma step_overflow:
  "parseField ''5/9223372036854775807'' 0 59 = Some (Inr [- 1, - (2 ^ 63), 1, 2 - 2 ^ 63, 3, 4 - 2 ^ 63, 5])"
proof -
  have p: "split_byte (CHR '','') ''5/9223372036854775807'' = [''5/9223372036854775807'']"
    "index_byte (CHR ''/'') ''5/9223372036854775807'' = Some 1" "index_byte (CHR ''-'') ''5'' = None" "atoi ''5'' = Some 5"
    by code_simp+
  have "atoi ''9223372036854775807'' = Some 9223372036854775807"
    by (simp add: atoi_def digits_value_def digit_value_def is_digit_def)
  then have r: "part_range ''5/9223372036854775807'' 0 59 = Inr (5, 5, 9223372036854775807)"
    using p by (simp add: part_range_def)
  have "field_loop 5 5 9223372036854775807 [] = Some [- 1, - (2 ^ 63), 1, 2 - 2 ^ 63, 3, 4 - 2 ^ 63, 5]"
    by (simp add: field_loop_go field_loop_stop wrap64_def)
  then show ?thesis by (simp add: parseField_def p r)
qed


section \<open>The next time\<close>

lemma div_pred: "0 < k \<Longrightarrow> y div k = (y - 1) div k + (if y mod k = 0 then 1 else (0 :: int))"
proof -
  assume k: "0 < k"
  define q r where "q = y div k" and "r = y mod k"
  have y: "y = k * q + r" "0 \<le> r" "r < k" using k by (simp_all add: q_def r_def)
  have "(y - 1) div k = (if r = 0 then q - 1 else q)"
  proof (cases "r = 0")
    case True
    have "y - 1 = k * (q - 1) + (k - 1)" using y True by (simp add: algebra_simps)
    then have "(y - 1) div k = q - 1" by (rule int_div_pos_eq) (use k in simp_all)
    then show ?thesis using True by simp
  next
    case False
    have "y - 1 = k * q + (r - 1)" using y by simp
    then have "(y - 1) div k = q" by (rule int_div_pos_eq) (use y False in simp_all)
    then show ?thesis using False by simp
  qed
  then show ?thesis by (auto simp flip: q_def r_def)
qed

lemma leap_count:
  fixes a b c :: int
  assumes "a = a' + (if p then 1 else 0)" "b = b' + (if q then 1 else 0)" "c = c' + (if r then 1 else 0)" "q \<Longrightarrow> p" "r \<Longrightarrow> q"
  shows "a - b + c = a' - b' + c' + (if p \<and> \<not> q \<or> r then 1 else 0)"
  using assms by (cases p; cases q; cases r) simp_all

lemma leap_days: "y div 4 - y div 100 + y div 400 = (y - 1) div 4 - (y - 1) div 100 + (y - 1) div 400 + (if leap y then 1 else 0)"
  unfolding leap_def
proof (rule leap_count)
  show "y div 4 = (y - 1) div 4 + (if y mod 4 = 0 then 1 else 0)" "y div 100 = (y - 1) div 100 + (if y mod 100 = 0 then 1 else 0)"
    "y div 400 = (y - 1) div 400 + (if y mod 400 = 0 then 1 else 0)" by (rule div_pred, simp)+
  show "y mod 100 = 0 \<Longrightarrow> y mod 4 = 0" "y mod 400 = 0 \<Longrightarrow> y mod 100 = 0"
    using dvd_trans [of 4 100 y] dvd_trans [of 100 400 y] by (simp_all flip: dvd_eq_mod_eq_0)
qed

lemma days_next_year:
  "days_of (y + 1) m (d + 1) - days_of y m d = 366 + (if leap (if m > 2 then y + 1 else y) then 1 else 0)"
proof -
  have m: "month_start lp m = month_start False m + (if lp \<and> m > 2 then 1 else 0)" for lp by (simp add: month_start_def)
  define P Q where "P = y div 4 - y div 100 + y div 400" and "Q = (y - 1) div 4 - (y - 1) div 100 + (y - 1) div 400"
  have sums: "x + a - b + c + n + (d + 1) - 1 = x + (a - b + c) + n + d" "x + a - b + c + n + d - 1 = x + (a - b + c) + n + d - 1"
    for x a b c n :: int by simp_all
  have yy: "y + 1 - 1 = y" by simp
  have "days_of (y + 1) m (d + 1) = 365 * y + P + month_start (leap (y + 1)) m + d"
    unfolding days_of_def yy P_def by (rule sums(1))
  moreover have "days_of y m d = 365 * (y - 1) + Q + month_start (leap y) m + d - 1"
    unfolding days_of_def Q_def by (rule sums(2))
  moreover have "P = Q + (if leap y then 1 else 0)" unfolding P_def Q_def by (rule leap_days)
  ultimately show ?thesis unfolding m [of "leap y"] m [of "leap (y + 1)"] by simp
qed

lemma next_year_and_day_bounds:
  obtains k where "next_year_and_day t = t + k * day_ns" "366 \<le> k" "k \<le> 367"
proof -
  obtain y m d where c: "civil (t_day t) = (y, m, d)" by (cases "civil (t_day t)")
  define k where "k = days_of (y + 1) m (d + 1) - days_of y m d"
  have k: "366 \<le> k" "k \<le> 367" by (simp_all add: k_def days_next_year)
  have "next_year_and_day t = (t_day t + k - unix_day) * day_ns + t mod day_ns"
    using civil_exact(1) [OF c] by (simp add: next_year_and_day_def c k_def)
  also have "\<dots> = t div day_ns * day_ns + t mod day_ns + k * day_ns" by (simp add: t_day_def algebra_simps)
  finally have "next_year_and_day t = t + k * day_ns" by simp
  then show ?thesis using k that by blast
qed

lemma scan_result:
  assumes "t \<le> limit" "minute_ns dvd limit - t"
  fixes c defines "r \<equiv> scan c t limit"
  shows "t \<le> r" "r \<le> limit" "minute_ns dvd r - t" "r = limit \<or> cron_matches c r"
    "t \<le> m \<Longrightarrow> m < r \<Longrightarrow> minute_ns dvd m - t \<Longrightarrow> \<not> cron_matches c m"
proof -
  have step: "t + minute_ns \<le> u" if "t < u" "minute_ns dvd u - t" for t u
    using zdvd_imp_le [OF that(2)] that(1) by simp
  have pos: "0 < minute_ns" by (simp add: minute_ns_def)
  have fwd: "minute_ns dvd u - (t + minute_ns)" if "minute_ns dvd u - t" for t u
    using dvd_diff [OF that dvd_refl] by (simp add: algebra_simps)
  have bwd: "minute_ns dvd u - t" if "minute_ns dvd u - (t + minute_ns)" for t u
    using dvd_add [OF that dvd_refl] by (simp add: algebra_simps)
  have "t \<le> limit \<longrightarrow> minute_ns dvd limit - t \<longrightarrow> t \<le> scan c t limit \<and> scan c t limit \<le> limit
    \<and> minute_ns dvd scan c t limit - t \<and> (scan c t limit = limit \<or> cron_matches c (scan c t limit))
    \<and> (\<forall>m. t \<le> m \<longrightarrow> m < scan c t limit \<longrightarrow> minute_ns dvd m - t \<longrightarrow> \<not> cron_matches c m)" for t
  proof (induction c t limit rule: scan.induct)
    case (1 c t limit)
    show ?case
    proof (cases "t < limit \<and> \<not> cron_matches c t")
      case False
      then have "scan c t limit = (if t < limit then t else limit)" "t < limit \<longrightarrow> cron_matches c t"
        by (subst scan.simps, auto)
      then show ?thesis by auto
    next
      case True
      then have e: "scan c t limit = scan c (t + minute_ns) limit" by (subst scan.simps) auto
      show ?thesis
      proof (intro impI)
        assume "t \<le> limit" "minute_ns dvd limit - t"
        then have IH: "t + minute_ns \<le> scan c (t + minute_ns) limit" "scan c (t + minute_ns) limit \<le> limit"
          "minute_ns dvd scan c (t + minute_ns) limit - (t + minute_ns)"
          "scan c (t + minute_ns) limit = limit \<or> cron_matches c (scan c (t + minute_ns) limit)"
          "\<And>m. t + minute_ns \<le> m \<Longrightarrow> m < scan c (t + minute_ns) limit \<Longrightarrow> minute_ns dvd m - (t + minute_ns)
            \<Longrightarrow> \<not> cron_matches c m"
          using 1 True step [of t limit] fwd by auto
        have "\<not> cron_matches c m" if m: "t \<le> m" "m < scan c (t + minute_ns) limit" "minute_ns dvd m - t" for m
          using IH(5) [of m] m True step [of t m] fwd by (cases "m = t") auto
        then show "t \<le> scan c t limit \<and> scan c t limit \<le> limit \<and> minute_ns dvd scan c t limit - t
          \<and> (scan c t limit = limit \<or> cron_matches c (scan c t limit))
          \<and> (\<forall>m. t \<le> m \<longrightarrow> m < scan c t limit \<longrightarrow> minute_ns dvd m - t \<longrightarrow> \<not> cron_matches c m)"
          unfolding e using IH(1,2,4) pos bwd [OF IH(3)] by auto
      qed
    qed
  qed
  from this [of t] assms show "t \<le> r" "r \<le> limit" "minute_ns dvd r - t" "r = limit \<or> cron_matches c r"
    "t \<le> m \<Longrightarrow> m < r \<Longrightarrow> minute_ns dvd m - t \<Longrightarrow> \<not> cron_matches c m"
    by auto
qed


lemma next_facts:
  "from < cron_next c from \<and> cron_next c from \<le> from + 367 * day_ns + minute_ns \<and> cron_next c from mod minute_ns = 0
   \<and> (cron_matches c (cron_next c from)
      \<or> cron_next c from = next_year_and_day (from - from mod minute_ns + minute_ns))
   \<and> \<not> (from < m \<and> m < cron_next c from \<and> m mod minute_ns = 0 \<and> cron_matches c m)"
proof -
  define t where "t = from div minute_ns * minute_ns + minute_ns"
  obtain k where k: "next_year_and_day t = t + k * day_ns" "366 \<le> k" "k \<le> 367" by (rule next_year_and_day_bounds)
  have day: "day_ns = 1440 * minute_ns" "0 < minute_ns" by (simp_all add: day_ns_def minute_ns_def)
  have t: "from < t" "t \<le> from + minute_ns" "minute_ns dvd t" "t = from - from mod minute_ns + minute_ns"
    unfolding t_def minus_mod_eq_div_mult using day(2) pos_mod_bound [of minute_ns "from"] pos_mod_sign [of minute_ns "from"]
      div_mult_mod_eq [of "from" minute_ns] by (simp_all, linarith+)
  have "t \<le> next_year_and_day t" "minute_ns dvd next_year_and_day t - t" unfolding k(1) day(1) using k(2) day(2) by simp_all
  note r = scan_result [OF this, where c = c]
  have n: "cron_next c from = scan c t (next_year_and_day t)" by (simp add: cron_next_def t_def Let_def)
  have bound: "k * day_ns \<le> 367 * day_ns" using k(3) day by simp
  have whole: "minute_ns dvd cron_next c from" using dvd_add [OF r(3) t(3)] unfolding n by simp
  have between: "\<not> cron_matches c m" if "from < m" "m < cron_next c from" "m mod minute_ns = 0" for m
  proof -
    have dv: "minute_ns dvd m" using that(3) by (simp add: mod_eq_0_iff_dvd)
    have "minute_ns dvd m - (t - minute_ns)" by (intro dvd_diff dv t(3) dvd_refl)
    moreover have "t - minute_ns < m" using t that day(2) pos_mod_sign [of minute_ns "from"] by linarith
    ultimately have "t \<le> m" using zdvd_imp_le [of minute_ns "m - (t - minute_ns)"] by simp
    then show ?thesis using r(5) [of m] that(2) dvd_diff [OF dv t(3)] unfolding n by blast
  qed
  have n2: "cron_next c from \<le> from + 367 * day_ns + minute_ns" using r(2) k(1) bound t(2) unfolding n by linarith
  have n1: "from < cron_next c from" using r(1) t(1) unfolding n by linarith
  have n3: "cron_next c from mod minute_ns = 0" using whole by (rule dvd_imp_mod_0)
  have n4: "cron_matches c (cron_next c from) \<or> cron_next c from = next_year_and_day (from - from mod minute_ns + minute_ns)"
    using r(4) unfolding n t(4) [symmetric] by blast
  have n5: "\<not> (from < m \<and> m < cron_next c from \<and> m mod minute_ns = 0 \<and> cron_matches c m)"
  proof (intro notI, elim conjE)
    assume "from < m" "m < cron_next c from" "m mod minute_ns = 0" "cron_matches c m"
    from between [OF this(1-3)] this(4) show False by (rule notE)
  qed
  show ?thesis by (intro conjI) (fact n1 n2 n3 n4 n5)+
qed

text \<open>C26: \<^verbatim>\<open>next\<close> is the earliest match: a whole minute after the one given, no whole minute between them
  matches, and it matches itself or is the end of the horizon, at most 367 days and a minute away. So it always returns.\<close>

theorem next_earliest:
  "from < cron_next c from \<and> cron_next c from \<le> from + 367 * day_ns + minute_ns \<and> cron_next c from mod minute_ns = 0
   \<and> (cron_matches c (cron_next c from)
      \<or> cron_next c from = next_year_and_day (from - from mod minute_ns + minute_ns))
   \<and> \<not> (from < m \<and> m < cron_next c from \<and> m mod minute_ns = 0 \<and> cron_matches c m)"
  by (rule next_facts)

text \<open>31 February matches no minute, yet the schedule has a next time, at the end of the horizon.\<close>

definition thirty_first_of_february :: cronSpec where
  "thirty_first_of_february =
     \<lparr>cs_minute = [0], cs_hour = [0], cs_dom = [31], cs_month = [2], cs_dow = [6, 5, 4, 3, 2, 1, 0],
      domStar = False, dowStar = True\<rparr>"

lemma field_of:
  "split_byte (CHR '','') f = [f] \<Longrightarrow> part_range f lo hi = Inr (a, b, k) \<Longrightarrow> lo \<le> a \<Longrightarrow> b \<le> hi \<Longrightarrow> a \<le> b
   \<Longrightarrow> field_loop a b k [] = Some (v # vs) \<Longrightarrow> parseField f lo hi = Some (Inr (v # vs))"
  by (simp add: parseField_def)

lemma february_parses: "parseCron ''0 0 31 2 *'' = Some (Inr thirty_first_of_february)"
proof -
  have f: "go_fields ''0 0 31 2 *'' = [''0'', ''0'', ''31'', ''2'', ''*'']" by code_simp
  have "parseField ''0'' 0 59 = Some (Inr [0])" "parseField ''0'' 0 23 = Some (Inr [0])" "parseField ''31'' 1 31 = Some (Inr [31])"
    "parseField ''2'' 1 12 = Some (Inr [2])" "parseField ''*'' 0 6 = Some (Inr [6, 5, 4, 3, 2, 1, 0])"
    by (rule field_of, code_simp, code_simp, code_simp, code_simp, code_simp, simp add: field_loop_go field_loop_stop wrap64_def)+
  then show ?thesis by (simp add: parseCron_def f named_field_def thirty_first_of_february_def)
qed

lemma never_matches_fires:
  "\<not> cron_matches thirty_first_of_february t"
  "cron_next thirty_first_of_february from = next_year_and_day (from - from mod minute_ns + minute_ns)"
proof -
  show no: "\<not> cron_matches thirty_first_of_february t" for t
  proof
    assume "cron_matches thirty_first_of_february t"
    moreover obtain y m d where c: "civil (t_day t) = (y, m, d)" by (cases "civil (t_day t)")
    ultimately have "m = 2" "d = 31"
      by (auto simp: cron_matches_def thirty_first_of_february_def t_Month_def t_Day_def split: if_splits)
    then show False using civil_exact(5) [OF c] by (auto simp: month_length_def month_start_def split: if_splits)
  qed
  show "cron_next thirty_first_of_february from = next_year_and_day (from - from mod minute_ns + minute_ns)"
    using next_facts [of "from" thirty_first_of_february] no by blast
qed

end
