(* ===== verification/Skills.thy ===== *)
theory Skills
  imports Builder
begin

text \<open>
  \<^verbatim>\<open>internal/skill/skill.go\<close> and \<^verbatim>\<open>build.go\<close>: skills, their flat wire form, and the command-kind ones turned into
  commands of the registry. JSON is a function between texts and the wire record.
\<close>

section \<open>Data\<close>

record Thresholds =
  Warn :: int
  Mute :: int
  KickAt :: int
  BanAt :: int

record Effect =
  eff_Action :: string
  eff_Modes :: string
  eff_Reason :: string
  eff_Thresholds :: "Thresholds option"
  DurationSeconds :: int

record Trigger =
  tr_Kind :: string
  tr_Command :: string
  tr_Event :: string
  tr_Match :: string
  tr_Schedule :: string
  tr_Channels :: "string list"

record Action =
  ac_Type :: string
  ac_Template :: string
  ac_Instructions :: string
  ac_Model :: string
  ac_Effect :: "Effect option"
  ac_Webhook :: string

record Skill =
  sk_Name :: string
  sk_Access :: string
  sk_Allowlist :: "string list"
  sk_Trigger :: Trigger
  sk_Action :: Action

record skill_wire =
  w_Name :: string
  w_Type :: string
  w_Template :: string
  w_Instructions :: string
  w_Model :: string
  w_Access :: string
  w_Allowlist :: "string list"
  w_TriggerKind :: string
  w_Event :: string
  w_Match :: string
  w_Schedule :: string
  w_Channels :: "string list"
  w_Effect :: "Effect option"
  w_Webhook :: string

definition TypeLLMClassify :: string where "TypeLLMClassify = ''llm_classify''"
definition TypeEffect :: string where "TypeEffect = ''effect''"
definition TypeWebhook :: string where "TypeWebhook = ''webhook''"

definition KindCommand :: string where "KindCommand = ''command''"
definition KindEvent :: string where "KindEvent = ''event''"
definition KindMatch :: string where "KindMatch = ''match''"
definition KindSchedule :: string where "KindSchedule = ''schedule''"
definition KindWebhook :: string where "KindWebhook = ''webhook''"

definition EffectKick :: string where "EffectKick = ''kick''"
definition EffectBan :: string where "EffectBan = ''ban''"
definition EffectMute :: string where "EffectMute = ''mute''"
definition EffectOp :: string where "EffectOp = ''op''"
definition EffectVoice :: string where "EffectVoice = ''voice''"
definition EffectMode :: string where "EffectMode = ''mode''"
definition EffectNotice :: string where "EffectNotice = ''notice''"
definition EffectTopic :: string where "EffectTopic = ''topic''"

lemmas effect_names = EffectKick_def EffectBan_def EffectMute_def EffectOp_def EffectVoice_def EffectMode_def
  EffectNotice_def EffectTopic_def

lemmas skill_types = TypeStatic_def TypeLLM_def TypeLLMClassify_def TypeEffect_def TypeWebhook_def

section \<open>The wire\<close>

definition UnmarshalSkill :: "skill_wire \<Rightarrow> Skill" where
  "UnmarshalSkill w =
     (let kind = (if w_TriggerKind w = [] then KindCommand else w_TriggerKind w)
      in \<lparr>sk_Name = w_Name w, sk_Access = w_Access w, sk_Allowlist = w_Allowlist w,
          sk_Trigger = \<lparr>tr_Kind = kind, tr_Command = [], tr_Event = w_Event w, tr_Match = w_Match w,
                       tr_Schedule = w_Schedule w, tr_Channels = w_Channels w\<rparr>,
          sk_Action = \<lparr>ac_Type = w_Type w, ac_Template = w_Template w, ac_Instructions = w_Instructions w,
                      ac_Model = w_Model w, ac_Effect = w_Effect w, ac_Webhook = w_Webhook w\<rparr>\<rparr>)"

definition MarshalSkill :: "Skill \<Rightarrow> skill_wire" where
  "MarshalSkill s =
     (let t = sk_Trigger s; a = sk_Action s
      in \<lparr>w_Name = sk_Name s, w_Type = ac_Type a, w_Template = ac_Template a, w_Instructions = ac_Instructions a,
          w_Model = ac_Model a, w_Access = sk_Access s, w_Allowlist = sk_Allowlist s,
          w_TriggerKind = (if tr_Kind t \<noteq> [] \<and> tr_Kind t \<noteq> KindCommand then tr_Kind t else []),
          w_Event = tr_Event t, w_Match = tr_Match t, w_Schedule = tr_Schedule t, w_Channels = tr_Channels t,
          w_Effect = ac_Effect a, w_Webhook = ac_Webhook a\<rparr>)"

definition IsCommand :: "Skill \<Rightarrow> bool" where
  "IsCommand s \<longleftrightarrow> tr_Kind (sk_Trigger s) = [] \<or> tr_Kind (sk_Trigger s) = KindCommand"

definition ToDefinition :: "Skill \<Rightarrow> Definition" where
  "ToDefinition s =
     \<lparr>def_Name = sk_Name s, def_Type = ac_Type (sk_Action s), def_Template = ac_Template (sk_Action s),
      def_Instructions = ac_Instructions (sk_Action s), def_Model = ac_Model (sk_Action s), def_Access = sk_Access s,
      def_Allowlist = sk_Allowlist s\<rparr>"

definition Command :: "string \<Rightarrow> string \<Rightarrow> string \<Rightarrow> string \<Rightarrow> string list \<Rightarrow> Skill" where
  "Command name typ template access allow =
     \<lparr>sk_Name = name, sk_Access = access, sk_Allowlist = allow,
      sk_Trigger = \<lparr>tr_Kind = KindCommand, tr_Command = [], tr_Event = [], tr_Match = [], tr_Schedule = [], tr_Channels = []\<rparr>,
      sk_Action = \<lparr>ac_Type = typ, ac_Template = template, ac_Instructions = [], ac_Model = [], ac_Effect = None,
                  ac_Webhook = []\<rparr>\<rparr>"

definition Split :: "Skill list \<Rightarrow> Definition list \<times> Skill list" where
  "Split ss = (map ToDefinition (filter IsCommand ss), filter (\<lambda>s. \<not> IsCommand s) ss)"

section \<open>Commands\<close>

text \<open>\<^verbatim>\<open>skill.Build\<close> hands each command skill to the command builder on its own.\<close>

definition build_skill ::
  "World Ask option \<Rightarrow> (Skill \<Rightarrow> (InboundEnvelope \<Rightarrow> bool) option) \<Rightarrow> string \<Rightarrow> string \<Rightarrow> Skill \<Rightarrow> World DynamicCommand list" where
  "build_skill provider guardFor platform owner s =
     (if \<not> IsCommand s then [] else Build_commands [ToDefinition s] provider (\<lambda>_. guardFor s) platform owner)"

definition Build_skills ::
  "Skill list \<Rightarrow> World Ask option \<Rightarrow> (Skill \<Rightarrow> (InboundEnvelope \<Rightarrow> bool) option) \<Rightarrow> string \<Rightarrow> string \<Rightarrow> World DynamicCommand list" where
  "Build_skills ss provider guardFor platform owner = concat (map (build_skill provider guardFor platform owner) ss)"

lemma build_skills_split:
  assumes "\<And>s. guardFor s = guard (ToDefinition s)"
  shows "Build_skills ss provider guardFor platform owner = Build_commands (fst (Split ss)) provider guard platform owner"
proof (induction ss)
  case Nil
  then show ?case by (simp add: Build_skills_def Build_commands_def Split_def)
next
  case (Cons s ss)
  have one: "build_one provider (\<lambda>_. guardFor s) ctx (ToDefinition s) = build_one provider guard ctx (ToDefinition s)" for ctx
    using assms [of s] by (simp add: build_one_def)
  have "Build_skills (s # ss) provider guardFor platform owner =
      build_skill provider guardFor platform owner s @ Build_commands (fst (Split ss)) provider guard platform owner"
    using Cons by (simp add: Build_skills_def)
  then show ?case
    by (auto simp: build_skill_def Build_commands_def Split_def List.map_filter_simps one split: option.split)
qed

text \<open>The command set a feed of skills installs is the one its command definitions do.\<close>

lemma commands_of_skills:
  "Build_skills ss provider (\<lambda>s. PerCommandGuard (sk_Access s) (sk_Allowlist s) p) platform (gp_OwnerNick p) =
   Build_commands (fst (Split ss)) provider (\<lambda>d. PerCommandGuard (def_Access d) (def_Allowlist d) p) platform (gp_OwnerNick p)"
  by (rule build_skills_split) (simp add: ToDefinition_def)

text \<open>A legacy command definition decodes to a command skill; a skill survives the wire, but for the command word that only
  flows use.\<close>

lemma skill_roundtrip:
  "UnmarshalSkill (MarshalSkill s) =
     s\<lparr>sk_Trigger := (sk_Trigger s)\<lparr>tr_Command := [], tr_Kind := (if IsCommand s then KindCommand else tr_Kind (sk_Trigger s))\<rparr>\<rparr>"
  by (cases s; cases "sk_Trigger s"; cases "sk_Action s") (simp add: UnmarshalSkill_def MarshalSkill_def IsCommand_def Let_def)

lemma legacy_wire: "w_TriggerKind w = [] \<Longrightarrow> IsCommand (UnmarshalSkill w) \<and> MarshalSkill (UnmarshalSkill w) = w"
  by (cases w) (simp add: UnmarshalSkill_def MarshalSkill_def IsCommand_def Let_def)

end
