(* ===== verification/Skill_Engine.thy ===== *)
theory Skill_Engine
  imports Skills Cron
begin

text \<open>
  \<^verbatim>\<open>internal/skill/engine.go\<close> and \<^verbatim>\<open>render.go\<close>: the skills that fire on messages, events and webhooks, their actions,
  and the timed effects that are lifted later. The store, the pending lifts, the model and the connector are the world.
\<close>

section \<open>The engine\<close>

definition floodWindow :: duration where "floodWindow = 10 * 10 ^ 9"
definition classifyMaxTokens :: int where "classifyMaxTokens = 128"

definition classifySystemPrompt :: string where
  "classifySystemPrompt =
     ''You are a chat moderation classifier. Reply with ONLY a compact JSON object and nothing else: '' @
     ''{\"severity\":N,\"action\":\"...\",\"reason\":\"...\"} where severity is an integer 0-3 (0 harmless, 3 severe), '' @
     ''and action is one of none|warn|mute|kick|ban. No prose.''"

record compiled =
  co_skill :: Skill
  co_re :: "(string \<Rightarrow> bool) option"
  co_channels :: "string list option"

record SkillEngine =
  se_actor :: bool
  se_provider :: bool
  se_platform :: string
  se_owner :: string
  maxSkills :: int
  se_events :: "compiled list"
  se_matches :: "compiled list"
  se_webhooks :: "string \<rightharpoonup> compiled"
  se_bus :: bool

definition NewSkillEngine :: "bool \<Rightarrow> bool \<Rightarrow> string \<Rightarrow> string \<Rightarrow> int \<Rightarrow> SkillEngine" where
  "NewSkillEngine actor provider platform owner n =
     \<lparr>se_actor = actor, se_provider = provider, se_platform = platform, se_owner = owner, maxSkills = n, se_events = [],
      se_matches = [], se_webhooks = Map.empty, se_bus = False\<rparr>"

definition SetMaxSkills :: "int \<Rightarrow> SkillEngine \<Rightarrow> SkillEngine" where
  "SetMaxSkills n e = e\<lparr>maxSkills := n\<rparr>"

definition validEvent :: "string \<Rightarrow> bool" where
  "validEvent name \<longleftrightarrow> name \<in> {EventUserJoin, EventUserLeave, EventUserKicked, EventUserNickChange, EventTopicChanged,
     EventModeChanged}"

definition channelSet :: "string list \<Rightarrow> string list option" where
  "channelSet scope =
     (let out = filter (\<lambda>c. c \<noteq> []) (map (\<lambda>c. to_lower (trim_space c)) scope) in if out = [] then None else Some out)"

definition channelAllowed :: "string list option \<Rightarrow> string \<Rightarrow> bool" where
  "channelAllowed scope channel = (case scope of None \<Rightarrow> True | Some cs \<Rightarrow> to_lower channel \<in> set cs)"

text \<open>The sets being built: events, matches, webhooks and how many are installed.\<close>

type_synonym skill_sets = "compiled list \<times> compiled list \<times> (string \<rightharpoonup> compiled) \<times> int"

definition install_skill :: "(string \<Rightarrow> (string \<Rightarrow> bool) option) \<Rightarrow> Skill \<Rightarrow> skill_sets \<Rightarrow> skill_sets" where
  "install_skill compile s acc =
     (let (evs, ms, ws, n) = acc; t = sk_Trigger s;
          c = (\<lambda>re. \<lparr>co_skill = s, co_re = re, co_channels = channelSet (tr_Channels t)\<rparr>)
      in if tr_Kind t = KindMatch then
           (case compile (tr_Match t) of None \<Rightarrow> acc | Some re \<Rightarrow> (evs, ms @ [c (Some re)], ws, n + 1))
         else if tr_Kind t = KindEvent then
           (if \<not> validEvent (tr_Event t) then acc else (evs @ [c None], ms, ws, n + 1))
         else if tr_Kind t = KindWebhook then
           (let key = to_lower (trim_space (sk_Name s))
            in if key = [] then acc else (evs, ms, ws(key \<mapsto> c None), n + 1))
         else acc)"

fun install_skills :: "(string \<Rightarrow> (string \<Rightarrow> bool) option) \<Rightarrow> int \<Rightarrow> Skill list \<Rightarrow> skill_sets \<Rightarrow> skill_sets" where
  "install_skills compile limit [] acc = acc"
| "install_skills compile limit (s # ss) acc =
     (if limit \<noteq> -1 \<and> snd (snd (snd acc)) \<ge> limit then acc
      else install_skills compile limit ss (install_skill compile s acc))"

definition ReplaceSkills :: "(string \<Rightarrow> (string \<Rightarrow> bool) option) \<Rightarrow> Skill list \<Rightarrow> SkillEngine \<Rightarrow> SkillEngine" where
  "ReplaceSkills compile ss e =
     (let (evs, ms, ws, n) = install_skills compile (maxSkills e) ss ([], [], Map.empty, 0)
      in e\<lparr>se_events := evs, se_matches := ms, se_webhooks := ws\<rparr>)"

section \<open>Rendering\<close>

record renderFields =
  f_user :: string
  f_channel :: string
  f_text :: string
  f_target :: string
  f_reason :: string
  f_topic :: string
  f_modes :: string
  oldNick :: string
  newNick :: string
  f_platform :: string
  f_owner :: string
  f_count :: int

definition no_fields :: renderFields where
  "no_fields = \<lparr>f_user = [], f_channel = [], f_text = [], f_target = [], f_reason = [], f_topic = [], f_modes = [],
     oldNick = [], newNick = [], f_platform = [], f_owner = [], f_count = 0\<rparr>"

definition skill_keys :: "string list" where
  "skill_keys = [''{user}'', ''{nick}'', ''{channel}'', ''{room}'', ''{text}'', ''{message}'', ''{target}'', ''{reason}'',
     ''{topic}'', ''{modes}'', ''{old}'', ''{new}'', ''{platform}'', ''{network}'', ''{owner}'', ''{count}'', ''{date}'',
     ''{time}'', ''{datetime}'']"

definition skill_values :: "renderFields \<Rightarrow> (string \<Rightarrow> string) \<Rightarrow> string list" where
  "skill_values f clock_text =
     [f_user f, f_user f, f_channel f, f_channel f, f_text f, f_text f, f_target f, f_reason f, f_topic f, f_modes f,
      oldNick f, newNick f, f_platform f, f_platform f, f_owner f, itoa (f_count f), clock_text ''2006-01-02'',
      clock_text ''15:04:05'', clock_text ''2006-01-02 15:04:05 UTC'']"

definition skill_render :: "string \<Rightarrow> renderFields \<Rightarrow> World \<Rightarrow> string \<times> World" where
  "skill_render tmpl f w =
     (let (tmpl, r) = expandHelpers tmpl (rnd w)
      in (replacer (zip skill_keys (skill_values f (fmt w (now_w w)))) tmpl, w\<lparr>rnd := r\<rparr>))"

text \<open>\<^verbatim>\<open>\{setvar:([^},]*),([^}]*)\}\<close> captures key and value around the first comma; \<^verbatim>\<open>\{getvar:([^},]*)\}\<close>.\<close>

definition match_setvar :: matcher where
  "match_setvar s =
     (case match_helper ''setvar'' s of
        None \<Rightarrow> None | Some (arg, n) \<Rightarrow> if CHR '','' \<in> set arg then Some (arg, n) else None)"

definition match_getvar :: matcher where
  "match_getvar s =
     (case match_helper ''getvar'' s of
        None \<Rightarrow> None | Some (arg, n) \<Rightarrow> if CHR '','' \<in> set arg then None else Some (arg, n))"

definition run_setvar :: "string \<Rightarrow> instant \<Rightarrow> string \<Rightarrow> SkillStore \<Rightarrow> string \<times> SkillStore" where
  "run_setvar skill now arg st =
     (let key = takeWhile (\<lambda>c. c \<noteq> CHR '','') arg
      in ([], store_Set now skill (trim_space key) (trim_space (drop (Suc (length key)) arg)) 0 st))"

definition run_getvar :: "string \<Rightarrow> instant \<Rightarrow> string \<Rightarrow> SkillStore \<Rightarrow> string \<times> SkillStore" where
  "run_getvar skill now arg st =
     (let (st, v) = store_Get now skill (trim_space arg) st in (case v of None \<Rightarrow> [] | Some v \<Rightarrow> v, st))"

definition renderTmpl :: "string \<Rightarrow> string \<Rightarrow> renderFields \<Rightarrow> World \<Rightarrow> string \<times> World" where
  "renderTmpl skill tmpl f w =
     (let (tmpl, st) = replace_all match_setvar (run_setvar skill (now_w w)) tmpl (sk_store w);
          (tmpl, st) = replace_all match_getvar (run_getvar skill (now_w w)) tmpl st
      in skill_render tmpl f (w\<lparr>sk_store := st\<rparr>))"

section \<open>Timed effects\<close>

definition liftNS :: string where "liftNS = ''__lifts''"
definition liftKey :: string where "liftKey = ''pending''"

definition flipModeSign :: "string \<Rightarrow> string" where
  "flipModeSign m =
     (case m of [] \<Rightarrow> m | c # cs \<Rightarrow> if c = CHR ''+'' then ''-'' @ cs else if c = CHR ''-'' then ''+'' @ cs else ''-'' @ m)"

definition reverseEffect :: "string \<Rightarrow> string \<Rightarrow> string \<Rightarrow> (string \<times> string) option" where
  "reverseEffect act_name offender modes =
     (if act_name = EffectMute then Some (''-q'', offender)
      else if act_name = EffectBan then Some (''-b'', offender)
      else if act_name = EffectOp then Some (''-o'', offender)
      else if act_name = EffectVoice then Some (''-v'', offender)
      else if act_name = EffectMode then (if modes \<noteq> [] then Some (flipModeSign modes, []) else None)
      else None)"

definition ensureLiftsLoaded :: "World \<Rightarrow> World" where
  "ensureLiftsLoaded w =
     (if liftsLoaded w then w
      else let (st, v) = store_Get (now_w w) liftNS liftKey (sk_store w); w = w\<lparr>liftsLoaded := True, sk_store := st\<rparr>
           in case v of
                None \<Rightarrow> w
              | Some raw \<Rightarrow>
                  (if raw = [] then w else case json_lifts w raw of None \<Rightarrow> w | Some ls \<Rightarrow> w\<lparr>lifts := ls\<rparr>))"

definition persistLifts :: "World \<Rightarrow> World" where
  "persistLifts w = w\<lparr>sk_store := store_Set (now_w w) liftNS liftKey (lifts_json w (lifts w)) 0 (sk_store w)\<rparr>"

definition unix :: "instant \<Rightarrow> int" where
  "unix t = t div 10 ^ 9"

definition scheduleLift :: "string \<Rightarrow> string \<Rightarrow> string \<Rightarrow> int \<Rightarrow> World \<Rightarrow> World" where
  "scheduleLift channel modes arg secs w =
     (let w = ensureLiftsLoaded w
      in persistLifts (w\<lparr>lifts := lifts w @
           [\<lparr>pl_Channel = channel, pl_Modes = modes, pl_Arg = arg, pl_Due = unix (now_w w + wrap64 (secs * 10 ^ 9))\<rparr>]\<rparr>))"

definition issue_lift :: "pendingLift \<Rightarrow> World \<Rightarrow> World" where
  "issue_lift l w =
     fst (act (\<lambda>send. SetMode send (pl_Channel l) (pl_Modes l) (if pl_Arg l \<noteq> [] then [pl_Arg l] else [])) w)"

definition SweepLifts :: "SkillEngine \<Rightarrow> instant \<Rightarrow> World \<Rightarrow> World" where
  "SweepLifts e now w =
     (let w = ensureLiftsLoaded w; due = filter (\<lambda>l. pl_Due l \<le> unix now) (lifts w)
      in if due = [] then w
         else let w = persistLifts (w\<lparr>lifts := filter (\<lambda>l. \<not> pl_Due l \<le> unix now) (lifts w)\<rparr>)
              in if \<not> se_actor e then w else fold issue_lift due w)"

section \<open>Actions\<close>

definition publishModeration :: "SkillEngine \<Rightarrow> string \<Rightarrow> string \<Rightarrow> string \<Rightarrow> string \<Rightarrow> string \<Rightarrow> World \<Rightarrow> World" where
  "publishModeration e skill action ch who reason w =
     (if \<not> se_bus e then w
      else publish_w \<lparr>ev_Type = EventModeration, Fields =
             [(''skill'', VStr skill), (''action'', VStr action), (''channel'', VStr ch), (''target'', VStr who),
              (''reason'', VStr reason)]\<rparr> w)"

text \<open>The actor's action of an effect, \<open>None\<close> for an unknown one; a notice and a topic render the template.\<close>

definition effect_action :: "SkillEngine \<Rightarrow> Skill \<Rightarrow> renderFields \<Rightarrow> Effect \<Rightarrow> string \<Rightarrow> string \<Rightarrow> string \<Rightarrow> World \<Rightarrow>
  (World \<times> err option) option" where
  "effect_action e s f eff a offender reason w =
     (let ch = f_channel f in
      if a = EffectKick then Some (act (\<lambda>send. Kick send ch offender reason) w)
      else if a = EffectBan then Some (act (\<lambda>send. Ban send ch offender) w)
      else if a = EffectMute then Some (act (\<lambda>send. SetMode send ch ''+q'' [offender]) w)
      else if a = EffectOp then Some (act (\<lambda>send. Op send ch offender) w)
      else if a = EffectVoice then Some (act (\<lambda>send. Voice send ch offender) w)
      else if a = EffectMode then Some (act (\<lambda>send. SetMode send ch (eff_Modes eff) []) w)
      else if a = EffectNotice then
        (let (t, w) = (if reason = [] then renderTmpl (sk_Name s) (ac_Template (sk_Action s)) f w else (reason, w))
         in Some (act (\<lambda>send. Notice send ch t) w))
      else if a = EffectTopic then
        (let (t, w) = renderTmpl (sk_Name s) (ac_Template (sk_Action s)) f w in Some (act (\<lambda>send. set_topic send ch t) w))
      else None)"

definition applyEffect :: "SkillEngine \<Rightarrow> Skill \<Rightarrow> renderFields \<Rightarrow> Effect \<Rightarrow> string \<Rightarrow> World \<Rightarrow> World" where
  "applyEffect e s f eff a w =
     (if \<not> se_actor e \<or> f_channel f = [] then w
      else let offender = (if f_target f \<noteq> [] then f_target f else f_user f);
               (reason, w) = (if eff_Reason eff \<noteq> [] then renderTmpl (sk_Name s) (eff_Reason eff) f w else ([], w))
           in case effect_action e s f eff a offender reason w of
                None \<Rightarrow> w
              | Some (w, er) \<Rightarrow>
                  (let w = (if er = None \<and> DurationSeconds eff > 0
                            then case reverseEffect a offender (eff_Modes eff) of
                                   None \<Rightarrow> w
                                 | Some (modes, arg) \<Rightarrow> scheduleLift (f_channel f) modes arg (DurationSeconds eff) w
                            else w)
                   in publishModeration e (sk_Name s) a (f_channel f) offender reason w))"

definition actionForSeverity :: "int \<Rightarrow> Thresholds \<Rightarrow> string" where
  "actionForSeverity n th =
     (if BanAt th > 0 \<and> n \<ge> BanAt th then EffectBan
      else if KickAt th > 0 \<and> n \<ge> KickAt th then EffectKick
      else if Mute th > 0 \<and> n \<ge> Mute th then EffectMute
      else if Warn th > 0 \<and> n \<ge> Warn th then EffectNotice
      else [])"

definition doReply :: "SkillEngine \<Rightarrow> Skill \<Rightarrow> renderFields \<Rightarrow> World \<Rightarrow> World" where
  "doReply e s f w =
     (if \<not> se_actor e \<or> f_channel f = [] then w
      else let (t, w) = renderTmpl (sk_Name s) (ac_Template (sk_Action s)) f w; t = trim_space t
           in if t = [] then w else fst (act (\<lambda>send. Say send (f_channel f) t) w))"

definition model_opts :: "string \<Rightarrow> CallOption list" where
  "model_opts m = (if m \<noteq> [] then [WithModel m] else [])"

definition doLLM :: "SkillEngine \<Rightarrow> Skill \<Rightarrow> renderFields \<Rightarrow> World \<Rightarrow> World" where
  "doLLM e s f w =
     (if \<not> se_provider e \<or> \<not> se_actor e \<or> f_channel f = [] then w
      else let (prompt, w) = renderTmpl (sk_Name s) (ac_Template (sk_Action s)) f w;
               prompt = (if trim_space prompt = [] then f_text f else prompt);
               system = trim_space (ac_Instructions (sk_Action s));
               opts = [WithMaxTokens (classifyMaxTokens * 4)] @ (if system \<noteq> [] then [WithSystem system] else []) @
                      model_opts (ac_Model (sk_Action s));
               (w, r) = provider_Ask prompt opts w
           in case r of
                Inl _ \<Rightarrow> w
              | Inr (answer, _) \<Rightarrow>
                  (let answer = collapse_blanks answer
                   in if answer = [] then w else fst (act (\<lambda>send. Say send (f_channel f) answer) w)))"

definition doEffect :: "SkillEngine \<Rightarrow> Skill \<Rightarrow> renderFields \<Rightarrow> World \<Rightarrow> World" where
  "doEffect e s f w =
     (case ac_Effect (sk_Action s) of
        None \<Rightarrow> w
      | Some eff \<Rightarrow>
          (case eff_Thresholds eff of
             None \<Rightarrow> applyEffect e s f eff (eff_Action eff) w
           | Some th \<Rightarrow>
               (let (st, count) = store_Incr (now_w w) (sk_Name s) (to_lower (f_user f)) floodWindow (sk_store w);
                    w = w\<lparr>sk_store := st\<rparr>; f = f\<lparr>f_count := int count\<rparr>; a = actionForSeverity (int count) th
                in if a = [] then w else applyEffect e s f eff a w)))"

definition parseVerdict :: "(string \<Rightarrow> verdict option) \<Rightarrow> string \<Rightarrow> verdict option" where
  "parseVerdict parse answer =
     (case (index_byte (CHR ''{'') answer, last_index_byte (CHR ''}'') answer) of
        (Some i, Some j) \<Rightarrow>
          (if j \<le> i then None
           else case parse (drop i (take (j + 1) answer)) of
                  None \<Rightarrow> None
                | Some v \<Rightarrow> Some (if vd_Severity v < 0 then v\<lparr>vd_Severity := 0\<rparr> else v))
      | _ \<Rightarrow> None)"

definition doClassify :: "SkillEngine \<Rightarrow> Skill \<Rightarrow> renderFields \<Rightarrow> World \<Rightarrow> World" where
  "doClassify e s f w =
     (case ac_Effect (sk_Action s) of
        None \<Rightarrow> w
      | Some eff \<Rightarrow>
          (case eff_Thresholds eff of
             None \<Rightarrow> w
           | Some th \<Rightarrow>
               (if \<not> se_provider e then w
                else let instr = trim_space (ac_Instructions (sk_Action s));
                         system = (if instr \<noteq> [] then instr @ [lf] @ classifySystemPrompt else classifySystemPrompt);
                         opts = [WithSystem system, WithMaxTokens classifyMaxTokens] @ model_opts (ac_Model (sk_Action s));
                         (w, r) = provider_Ask (f_text f) opts w
                     in case r of
                          Inl _ \<Rightarrow> w
                        | Inr (answer, _) \<Rightarrow>
                            (case parseVerdict (json_verdict w) answer of
                               None \<Rightarrow> w
                             | Some v \<Rightarrow>
                                 (let f = f\<lparr>f_reason := vd_Reason v\<rparr>; a = actionForSeverity (vd_Severity v) th
                                  in if a = [] then w else applyEffect e s f eff a w)))))"

definition do_post :: "string \<Rightarrow> string \<Rightarrow> (string \<times> string) list \<Rightarrow> (string \<times> string) list \<Rightarrow> string option \<Rightarrow> World \<Rightarrow>
  World \<times> (post_err + string)" where
  "do_post meth url hs fs body w =
     (w\<lparr>posted := posted w @ [\<lparr>rq_method = meth, rq_url = url, rq_headers = hs, rq_fields = fs, rq_body = body\<rparr>]\<rparr>,
      post_result w (length (posted w)))"

definition doWebhook :: "Skill \<Rightarrow> renderFields \<Rightarrow> World \<Rightarrow> World" where
  "doWebhook s f w =
     (if ac_Webhook (sk_Action s) = [] then w
      else let (t, w) = renderTmpl (sk_Name s) (ac_Template (sk_Action s)) f w;
               payload = [(''skill'', sk_Name s), (''trigger'', tr_Kind (sk_Trigger s)), (''event'', tr_Event (sk_Trigger s)),
                          (''channel'', f_channel f), (''user'', f_user f), (''text'', f_text f), (''target'', f_target f),
                          (''reason'', f_reason f), (''topic'', f_topic f), (''modes'', f_modes f), (''old'', oldNick f),
                          (''new'', newNick f), (''platform'', f_platform f), (''message'', t)]
           in fst (do_post ''POST'' (ac_Webhook (sk_Action s)) [] payload None w))"

definition fire :: "SkillEngine \<Rightarrow> Skill \<Rightarrow> renderFields \<Rightarrow> World \<Rightarrow> World" where
  "fire e s f w =
     (let t = ac_Type (sk_Action s) in
      if t = TypeStatic then doReply e s f w
      else if t = TypeLLM then doLLM e s f w
      else if t = TypeEffect then doEffect e s f w
      else if t = TypeLLMClassify then doClassify e s f w
      else if t = TypeWebhook then doWebhook s f w
      else w)"

section \<open>Triggers\<close>

definition onMessage :: "SkillEngine \<Rightarrow> InboundEnvelope \<Rightarrow> World \<Rightarrow> World" where
  "onMessage e env w =
     (let f = no_fields\<lparr>f_user := Sender env, f_channel := env_Channel env, f_text := env_Text env,
                f_platform := se_platform e, f_owner := se_owner e\<rparr>
      in fold (\<lambda>m w. if \<not> channelAllowed (co_channels m) (env_Channel env) then w
                     else if (case co_re m of None \<Rightarrow> False | Some re \<Rightarrow> \<not> re (env_Text env)) then w
                     else fire e (co_skill m) f w) (se_matches e) w)"

definition str_field :: "(string \<times> val) list \<Rightarrow> string \<Rightarrow> string" where
  "str_field fs k = (case map_of fs k of Some (VStr v) \<Rightarrow> v | _ \<Rightarrow> [])"

definition fieldsFromEvent :: "Event \<Rightarrow> renderFields" where
  "fieldsFromEvent ev =
     (let get = str_field (Fields ev); t = ev_Type ev;
          f = no_fields\<lparr>f_channel := get ''channel'', f_reason := get ''reason'', f_topic := get ''topic'', f_modes := get ''modes''\<rparr>
      in if t = EventUserKicked then f\<lparr>f_user := get ''by'', f_target := get ''nick''\<rparr>
         else if t = EventUserNickChange
         then f\<lparr>oldNick := get ''old'', newNick := get ''new'', f_user := get ''old'', f_target := get ''new''\<rparr>
         else if t = EventTopicChanged \<or> t = EventModeChanged then f\<lparr>f_user := get ''by''\<rparr>
         else f\<lparr>f_user := get ''nick''\<rparr>)"

definition onUserEvent :: "SkillEngine \<Rightarrow> Event \<Rightarrow> World \<Rightarrow> World" where
  "onUserEvent e ev w =
     (let f = (fieldsFromEvent ev)\<lparr>f_platform := se_platform e, f_owner := se_owner e\<rparr>
      in fold (\<lambda>m w. if tr_Event (sk_Trigger (co_skill m)) \<noteq> ev_Type ev then w
                     else if \<not> channelAllowed (co_channels m) (f_channel f) then w
                     else fire e (co_skill m) f w) (se_events e) w)"

text \<open>A bag from the ingress; an absent key is empty.\<close>

definition fieldsFromBag :: "(string \<rightharpoonup> string) \<Rightarrow> renderFields" where
  "fieldsFromBag bag =
     (let get = (\<lambda>k. case bag k of None \<Rightarrow> [] | Some v \<Rightarrow> v)
      in no_fields\<lparr>f_user := get ''user'', f_channel := get ''channel'', f_text := get ''text'', f_target := get ''target'',
           f_reason := get ''reason'', f_topic := get ''topic'', f_modes := get ''modes'', oldNick := get ''old'',
           newNick := get ''new''\<rparr>)"

definition FireWebhook :: "SkillEngine \<Rightarrow> string \<Rightarrow> (string \<rightharpoonup> string) \<Rightarrow> World \<Rightarrow> World \<times> bool" where
  "FireWebhook e name bag w =
     (case se_webhooks e (to_lower (trim_space name)) of
        None \<Rightarrow> (w, False)
      | Some c \<Rightarrow>
          (let f = fieldsFromBag bag;
               f = (case tr_Channels (sk_Trigger (co_skill c)) of [] \<Rightarrow> f | ch # _ \<Rightarrow> f\<lparr>f_channel := ch\<rparr>)
           in (fire e (co_skill c) (f\<lparr>f_platform := se_platform e, f_owner := se_owner e\<rparr>) w, True)))"

text \<open>\<^verbatim>\<open>Subscribe\<close>: the bus handles an event by its type.\<close>

definition engine_event :: "SkillEngine \<Rightarrow> Event \<Rightarrow> World \<Rightarrow> World" where
  "engine_event e ev w =
     (if ev_Type ev = EventMessage then
        (case map_of (Fields ev) ''envelope'' of Some (VInbound env) \<Rightarrow> onMessage e env w | _ \<Rightarrow> w)
      else if validEvent (ev_Type ev) then onUserEvent e ev w else w)"


section \<open>What the actions leave alone\<close>

abbreviation hits_of :: "World \<Rightarrow> string \<rightharpoonup> instant list" where
  "hits_of w \<equiv> sk_counts (sk_store w)"

lemma act_fields: "act a w = (w', r) \<Longrightarrow> \<exists>c. w' = w\<lparr>irc := c\<rparr>"
  by (auto simp: act_def split: prod.splits)

lemma act_irc [simp]: "\<exists>c. fst (act a w) = w\<lparr>irc := c\<rparr>"
  by (metis act_fields prod.collapse)

lemma act_keeps [simp]:
  "sk_store (fst (act a w)) = sk_store w" "lifts (fst (act a w)) = lifts w" "liftsLoaded (fst (act a w)) = liftsLoaded w"
  "lifts_json (fst (act a w)) = lifts_json w" "json_lifts (fst (act a w)) = json_lifts w"
  by (auto simp: act_def split: prod.split)

lemma publish_keeps [simp]:
  "sk_store (publishModeration e s a ch who r w) = sk_store w" "lifts (publishModeration e s a ch who r w) = lifts w"
  "liftsLoaded (publishModeration e s a ch who r w) = liftsLoaded w"
  by (simp_all add: publishModeration_def publish_w_def on_irc_def)

lemma replace_all_keeps:
  assumes "\<And>arg st. P (snd (f arg st)) = P st"
  shows "P (snd (replace_all m f s st)) = P st"
  using assms
proof (induction m f s st rule: replace_all.induct)
  case (1 m f st)
  then show ?case by simp
next
  case (2 m f c cs st)
  note none = "2.IH"(1) and some = "2.IH"(2)
  show ?case
  proof (cases "m (c # cs)")
    case None
    then show ?thesis using none [OF None "2.prems"] by (simp add: replace_all.simps(2) case_prod_beta)
  next
    case (Some an)
    obtain arg n where an: "an = (arg, n)" by (cases an)
    obtain out st' where f: "f arg st = (out, st')" by (cases "f arg st")
    have "P (snd (replace_all m f (drop (n - 1) cs) st')) = P st'"
      using some [OF Some an [symmetric] refl f [symmetric] "2.prems"] by simp
    moreover have "P st' = P st" using "2.prems" [of arg st] by (simp add: f)
    ultimately show ?thesis using Some an f by (simp add: replace_all.simps(2) case_prod_beta)
  qed
qed

lemma store_ops_counts [simp]:
  "sk_counts (store_Set now s k v ttl st) = sk_counts st" "sk_counts (fst (store_Get now s k st)) = sk_counts st"
  by (auto simp: store_Set_def store_Get_def split: option.split)

lemma vars_counts [simp]:
  "sk_counts (snd (run_setvar s now arg st)) = sk_counts st" "sk_counts (snd (run_getvar s now arg st)) = sk_counts st"
  using store_ops_counts(2) [of now s "trim_space arg" st]
  by (auto simp: run_setvar_def run_getvar_def Let_def simp del: store_ops_counts(2) split: prod.split)

lemma renderTmpl_counts [simp]: "hits_of (snd (renderTmpl s t f w)) = hits_of w"
  using replace_all_keeps [of sk_counts "run_setvar s (now_w w)" match_setvar t "sk_store w"]
    replace_all_keeps [of sk_counts "run_getvar s (now_w w)" match_getvar]
  by (auto simp: renderTmpl_def skill_render_def Let_def split: prod.split) (metis snd_conv)

lemma scheduleLift_counts [simp]: "hits_of (scheduleLift ch m a secs w) = hits_of w"
  using store_ops_counts(2) [of "now_w w" liftNS liftKey "sk_store w"]
  by (auto simp: scheduleLift_def persistLifts_def ensureLiftsLoaded_def Let_def simp del: store_ops_counts(2)
      split: prod.split option.split)

lemma effect_action_counts: "effect_action e s f eff a who r w = Some (w', er) \<Longrightarrow> hits_of w' = hits_of w"
  using renderTmpl_counts [of "sk_Name s" "ac_Template (sk_Action s)" f w]
  by (auto simp: effect_action_def Let_def dest!: act_fields simp del: renderTmpl_counts split: if_splits prod.splits)

lemma applyEffect_counts [simp]: "hits_of (applyEffect e s f eff a w) = hits_of w"
proof -
  obtain r w1 where R: "(if eff_Reason eff \<noteq> [] then renderTmpl (sk_Name s) (eff_Reason eff) f w else ([], w)) = (r, w1)"
    by (metis prod.collapse)
  have w1: "hits_of w1 = hits_of w"
    using R renderTmpl_counts [of "sk_Name s" "eff_Reason eff" f w] by (auto simp del: renderTmpl_counts split: if_splits)
  define who where "who = (if f_target f \<noteq> [] then f_target f else f_user f)"
  show ?thesis
  proof (cases "effect_action e s f eff a who r w1")
    case None
    then show ?thesis using R w1 by (simp add: applyEffect_def who_def)
  next
    case (Some p)
    obtain w2 er where p: "p = (w2, er)" by (cases p)
    then have "hits_of w2 = hits_of w" using Some effect_action_counts w1 by metis
    then show ?thesis using R Some p by (simp add: applyEffect_def who_def [symmetric] Let_def split: option.split)
  qed
qed

section \<open>The flood gate\<close>

text \<open>An effect skill with thresholds, hit by messages at given times.\<close>

definition at_time :: "instant \<Rightarrow> World \<Rightarrow> World" where
  "at_time t w = on_irc (\<lambda>c. c\<lparr>clock := t\<rparr>) w"

definition flood_hit :: "SkillEngine \<Rightarrow> Skill \<Rightarrow> instant \<times> renderFields \<Rightarrow> World \<Rightarrow> World" where
  "flood_hit e s tf w = doEffect e s (snd tf) (at_time (fst tf) w)"

definition same_sender :: "renderFields \<Rightarrow> instant \<times> renderFields \<Rightarrow> bool" where
  "same_sender f tf \<longleftrightarrow> to_lower (f_user (snd tf)) = to_lower (f_user f)"

definition recent_hits :: "instant \<Rightarrow> renderFields \<Rightarrow> (instant \<times> renderFields) list \<Rightarrow> nat" where
  "recent_hits now f hits = length (filter (\<lambda>tf. same_sender f tf \<and> now - floodWindow \<le> fst tf) hits)"

abbreviation bucket_of :: "World \<Rightarrow> Skill \<Rightarrow> string \<Rightarrow> instant list" where
  "bucket_of w s u \<equiv> (case hits_of w (storeKey (sk_Name s) u) of None \<Rightarrow> [] | Some b \<Rightarrow> b)"

lemma storeKey_same [simp]: "storeKey s a = storeKey s b \<longleftrightarrow> a = b"
  by (simp add: storeKey_def)

lemma at_time_fields [simp]:
  "now_w (at_time t w) = t" "sk_store (at_time t w) = sk_store w" "lifts (at_time t w) = lifts w"
  "liftsLoaded (at_time t w) = liftsLoaded w"
  by (simp_all add: at_time_def on_irc_def)

lemma doEffect_counted:
  assumes "ac_Effect (sk_Action s) = Some eff" "eff_Thresholds eff = Some th"
    "store_Incr (now_w w) (sk_Name s) (to_lower (f_user f)) floodWindow (sk_store w) = (st, n)"
  shows "doEffect e s f w =
    (if actionForSeverity (int n) th = [] then w\<lparr>sk_store := st\<rparr>
     else applyEffect e s (f\<lparr>f_count := int n\<rparr>) eff (actionForSeverity (int n) th) (w\<lparr>sk_store := st\<rparr>))"
  using assms by (simp add: doEffect_def)

lemma flood_bucket:
  assumes "ac_Effect (sk_Action s) = Some eff" "eff_Thresholds eff = Some th"
  shows "bucket_of (flood_hit e s (t, f) w) s u =
    (if to_lower (f_user f) = u then filter (\<lambda>x. \<not> x < t - floodWindow) (bucket_of w s u) @ [t] else bucket_of w s u)"
proof -
  obtain st n where I: "store_Incr t (sk_Name s) (to_lower (f_user f)) floodWindow (sk_store w) = (st, n)" by fastforce
  then have "hits_of (doEffect e s f (at_time t w)) = sk_counts st"
    using doEffect_counted [OF assms, of "at_time t w" f st n e] by simp
  moreover have "sk_counts st = (hits_of w)(storeKey (sk_Name s) (to_lower (f_user f)) \<mapsto>
      filter (\<lambda>x. \<not> x < t - floodWindow) (bucket_of w s (to_lower (f_user f))) @ [t])"
    using I by (auto simp: store_Incr_def Let_def floodWindow_def)
  ultimately show ?thesis by (simp add: flood_hit_def)
qed

lemma flood_history:
  assumes "ac_Effect (sk_Action s) = Some eff" "eff_Thresholds eff = Some th" "\<And>u. hits_of w (storeKey (sk_Name s) u) = None"
    "sorted (map fst hits @ [now])"
  shows "length (filter (\<lambda>x. \<not> x < now - floodWindow) (bucket_of (fold (flood_hit e s) hits w) s (to_lower (f_user f)))) =
    recent_hits now f hits"
  using assms(4)
proof (induction hits arbitrary: now rule: rev_induct)
  case Nil
  then show ?case by (simp add: recent_hits_def assms(3))
next
  case (snoc tf hits)
  obtain t g where tf: "tf = (t, g)" by (cases tf)
  have t: "t \<le> now" "sorted (map fst hits @ [now])" using snoc.prems tf by (auto simp: sorted_append)
  note IH = snoc.IH [OF t(2)]
  have twice: "filter (\<lambda>x. t - floodWindow \<le> x \<and> now - floodWindow \<le> x) b = filter ((\<le>) (now - floodWindow)) b" for b
    using t(1) by (intro filter_cong) auto
  show ?case
    using IH t(1) by (auto simp: tf flood_bucket [OF assms(1,2)] filter_append twice recent_hits_def same_sender_def not_less)
qed

text \<open>The tiers in rising order, and the actions of those a count reaches; a limit of zero switches a tier off.\<close>

definition reached :: "nat \<Rightarrow> Thresholds \<Rightarrow> string list" where
  "reached n th =
     map snd (filter (\<lambda>(limit, action). 0 < limit \<and> limit \<le> int n)
       [(Warn th, ''notice''), (Mute th, ''mute''), (KickAt th, ''kick''), (BanAt th, ''ban'')])"

lemma actionForSeverity_reached:
  "actionForSeverity (int n) th = (if reached n th = [] then [] else last (reached n th))" "actionForSeverity (int n) th = [] \<longleftrightarrow> reached n th = []"
  by (auto simp: actionForSeverity_def reached_def EffectBan_def EffectKick_def EffectMute_def EffectNotice_def)

text \<open>C15: a flood gate acts on exactly what a sender did in the last ten seconds. Whatever messages the gate saw before, of
  whatever senders, the next one counts the sender's own messages in the window (in any case of the nick), itself
  included; when the count reaches no tier nothing happens but the counting, and else the action is that of the last
  tier, in the order notice, mute, kick, ban, whose limit is positive and at most the count.\<close>

theorem flood_gate_exact:
  fixes e :: SkillEngine and f :: renderFields
  assumes "ac_Effect (sk_Action s) = Some eff" "eff_Thresholds eff = Some th" "\<forall>u. hits_of w (storeKey (sk_Name s) u) = None"
    "sorted (map fst hits @ [now])"
  defines "n \<equiv> recent_hits now f hits + 1" and "w' \<equiv> at_time now (fold (flood_hit e s) hits w)"
    and "tiers \<equiv> filter (\<lambda>(limit, action). 0 < limit \<and> limit \<le> int (recent_hits now f hits + 1))
           [(Warn th, ''notice''), (Mute th, ''mute''), (KickAt th, ''kick''), (BanAt th, ''ban'')]"
  shows "\<exists>st. sk_values st = sk_values (sk_store w') \<and>
    flood_hit e s (now, f) (fold (flood_hit e s) hits w) =
      (if tiers = [] then w'\<lparr>sk_store := st\<rparr>
       else applyEffect e s (f\<lparr>f_count := int n\<rparr>) eff (snd (last tiers)) (w'\<lparr>sk_store := st\<rparr>))"
proof -
  obtain st k where I: "store_Incr now (sk_Name s) (to_lower (f_user f)) floodWindow (sk_store w') = (st, k)" by fastforce
  have h: "length (filter (\<lambda>x. \<not> x < now - floodWindow) (bucket_of w' s (to_lower (f_user f)))) = recent_hits now f hits"
    using flood_history [OF assms(1,2) _ assms(4), of w e f] assms(3) by (simp add: w'_def)
  have "k = n" "sk_values st = sk_values (sk_store w')"
    using I h by (auto simp: store_Incr_def Let_def n_def floodWindow_def)
  moreover have "flood_hit e s (now, f) (fold (flood_hit e s) hits w) = doEffect e s f w'"
    by (simp add: flood_hit_def w'_def)
  moreover have "now_w w' = now" by (simp add: w'_def)
  moreover have "reached n th = map snd tiers" unfolding reached_def tiers_def n_def by (rule refl)
  then have "actionForSeverity (int n) th = [] \<longleftrightarrow> tiers = []"
    "tiers \<noteq> [] \<Longrightarrow> actionForSeverity (int n) th = snd (last tiers)"
    by (simp_all only: actionForSeverity_reached(2) list.map_disc_iff) (simp add: actionForSeverity_reached(1) last_map)
  ultimately show ?thesis
    using doEffect_counted [OF assms(1,2), of w' f st k e] I by (intro exI [of _ st]) simp
qed

definition gate_skill :: Skill where
  "gate_skill =
     (let s = Command ''gate'' TypeEffect [] [] []
      in s\<lparr>sk_Action := (sk_Action s)\<lparr>ac_Effect := Some \<lparr>eff_Action = [], eff_Modes = [], eff_Reason = [],
           eff_Thresholds = Some \<lparr>Warn = 0, Mute = 0, KickAt = 3, BanAt = 0\<rparr>, DurationSeconds = 0\<rparr>\<rparr>\<rparr>)"

text \<open>The second message in ten seconds is free, an older one does not count.\<close>

theorem flood_gate_exact_witness:
  "wire (irc (flood_hit (NewSkillEngine True False [] [] 1) gate_skill (12 * 10 ^ 9, no_fields)
     (fold (flood_hit (NewSkillEngine True False [] [] 1) gate_skill) [(0, no_fields), (11 * 10 ^ 9, no_fields)] (sample_world (NewConnector sample_settings True 0))))) =
   wire (irc (fold (flood_hit (NewSkillEngine True False [] [] 1) gate_skill) [(0, no_fields), (11 * 10 ^ 9, no_fields)] (sample_world (NewConnector sample_settings True 0))))"
proof -
  let ?e = "NewSkillEngine True False [] [] 1" and ?hits = "[(0, no_fields), (11 * 10 ^ 9, no_fields)]"
  have eff: "ac_Effect (sk_Action gate_skill) = Some \<lparr>eff_Action = [], eff_Modes = [], eff_Reason = [],
      eff_Thresholds = Some \<lparr>Warn = 0, Mute = 0, KickAt = 3, BanAt = 0\<rparr>, DurationSeconds = 0\<rparr>"
    by (simp add: gate_skill_def Command_def Let_def)
  have n: "recent_hits (12 * 10 ^ 9) no_fields ?hits = 1"
    by (simp add: recent_hits_def same_sender_def floodWindow_def)
  show ?thesis
    using flood_gate_exact [OF eff, simplified, OF refl, of "sample_world (NewConnector sample_settings True 0)" ?hits "12 * 10 ^ 9" ?e no_fields] n
    by (auto simp: sample_world_def NewSkillStore_def at_time_def on_irc_def)
qed

section \<open>Timed effects survive restarts\<close>

text \<open>\<open>Restart\<close> says whether the store outlives the process.\<close>

datatype lift_op =
    Plan string string string int
  | Sweep instant
  | Restart bool
  | Clock instant
  | Store store_op

text \<open>A restart loses what the process held in memory: the pending lifts, the counters, and the whole store when it is the
  one \<^verbatim>\<open>WireCore\<close> falls back to.\<close>

fun lift_step :: "SkillEngine \<Rightarrow> lift_op \<Rightarrow> World \<Rightarrow> World" where
  "lift_step e (Plan ch m a secs) w = scheduleLift ch m a secs w"
| "lift_step e (Sweep now) w = SweepLifts e now w"
| "lift_step e (Restart durable) w =
     w\<lparr>lifts := [], liftsLoaded := False, sk_store := (if durable then (sk_store w)\<lparr>sk_counts := Map.empty\<rparr> else NewSkillStore)\<rparr>"
| "lift_step e (Clock t) w = at_time t w"
| "lift_step e (Store op) w = w\<lparr>sk_store := do_op op (sk_store w)\<rparr>"

definition due_now :: "instant \<Rightarrow> pendingLift \<Rightarrow> bool" where
  "due_now now l \<longleftrightarrow> pl_Due l \<le> unix now"

text \<open>What is owed: the clock and the lifts not yet due at a sweep. The store of others plays no part, nor does a restart
  on a store that lasts; one on the in-process store forgets everything.\<close>

fun owe :: "lift_op \<Rightarrow> instant \<times> pendingLift list \<Rightarrow> instant \<times> pendingLift list" where
  "owe (Plan ch m a secs) (t, ls) =
     (t, ls @ [\<lparr>pl_Channel = ch, pl_Modes = m, pl_Arg = a, pl_Due = unix (t + wrap64 (secs * 10 ^ 9))\<rparr>])"
| "owe (Sweep now) (t, ls) = (t, filter (\<lambda>l. \<not> due_now now l) ls)"
| "owe (Restart durable) (t, ls) = (t, if durable then ls else [])"
| "owe (Clock t') (t, ls) = (t', ls)"
| "owe (Store op) (t, ls) = (t, ls)"

text \<open>Texts and times \<^verbatim>\<open>encoding/json\<close> keeps as they are: ASCII, and what an \<^verbatim>\<open>int64\<close> holds.\<close>

definition plain :: "string \<Rightarrow> bool" where
  "plain s \<longleftrightarrow> (\<forall>c\<in>set s. (of_char c :: nat) < 128)"

definition plain_lift :: "pendingLift \<Rightarrow> bool" where
  "plain_lift l \<longleftrightarrow> plain (pl_Channel l) \<and> plain (pl_Modes l) \<and> plain (pl_Arg l) \<and> - (2 ^ 63) \<le> pl_Due l \<and> pl_Due l < 2 ^ 63"

definition sane :: "instant \<Rightarrow> bool" where
  "sane t \<longleftrightarrow> - (2 ^ 63) \<le> t \<and> t < 2 ^ 63"

text \<open>The clock stays in the range of nanoseconds, and no other skill writes under the name the lifts are kept under.\<close>

fun orderly :: "lift_op \<Rightarrow> bool" where
  "orderly (Plan ch m a secs) = (plain ch \<and> plain m \<and> plain a)"
| "orderly (Clock t) = sane t"
| "orderly (Store op) = (so_skill op \<noteq> liftNS \<and> nul \<notin> set (so_skill op))"
| "orderly _ = True"

lemma due_in_range: "sane t \<Longrightarrow> - (2 ^ 63) \<le> unix (t + wrap64 x) \<and> unix (t + wrap64 x) < 2 ^ 63"
proof -
  assume t: "sane t"
  have "- (2 ^ 63) \<le> wrap64 x" "wrap64 x < 2 ^ 63"
    using pos_mod_bound [of "2 ^ 64" "x + 2 ^ 63"] pos_mod_sign [of "2 ^ 64" "x + 2 ^ 63"] by (simp_all add: wrap64_def)
  with t have r: "- (2 ^ 64) \<le> t + wrap64 x" "t + wrap64 x < 2 ^ 64" by (simp_all add: sane_def)
  show ?thesis
  proof
    show "unix (t + wrap64 x) < 2 ^ 63"
      using r(2) zdiv_mono1 [of "t + wrap64 x" "2 ^ 64" "10 ^ 9"] by (simp add: unix_def)
    show "- (2 ^ 63) \<le> unix (t + wrap64 x)"
      using zdiv_mono1 [OF r(1), of "10 ^ 9"] by (simp add: unix_def)
  qed
qed

abbreviation lift_cell :: "World \<Rightarrow> memValue option" where
  "lift_cell w \<equiv> sk_values (sk_store w) (storeKey liftNS liftKey)"

definition lifts_held :: "World \<Rightarrow> pendingLift list \<Rightarrow> bool" where
  "lifts_held w ls \<longleftrightarrow> list_all plain_lift ls \<and> (lifts w = (if liftsLoaded w then ls else [])) \<and>
     (lift_cell w = Some \<lparr>mv_val = lifts_json w ls, expiresAt = None\<rparr> \<or> (lift_cell w = None \<and> ls = []))"

definition json_ok :: "World \<Rightarrow> bool" where
  "json_ok w \<longleftrightarrow> (\<forall>ls. list_all plain_lift ls \<longrightarrow> json_lifts w (lifts_json w ls) = Some ls \<and> lifts_json w ls \<noteq> [])"

lemma loaded_held:
  assumes "lifts_held w ls" "json_ok w"
  shows "ensureLiftsLoaded w = w\<lparr>liftsLoaded := True, lifts := ls\<rparr>"
  using assms
  by (auto simp: lifts_held_def ensureLiftsLoaded_def json_ok_def store_Get_def Let_def)

lemma held_persist: "list_all plain_lift ls \<Longrightarrow> lifts_held (persistLifts (w\<lparr>liftsLoaded := True, lifts := ls\<rparr>)) ls"
  by (simp add: lifts_held_def persistLifts_def store_Set_def)

lemma persist_keeps [simp]:
  "irc (persistLifts w) = irc w" "lifts (persistLifts w) = lifts w" "liftsLoaded (persistLifts w) = liftsLoaded w"
  "json_lifts (persistLifts w) = json_lifts w" "lifts_json (persistLifts w) = lifts_json w"
  by (simp_all add: persistLifts_def)

lemma held_irc [simp]: "lifts_held (w\<lparr>irc := c\<rparr>) ls = lifts_held w ls"
  by (simp add: lifts_held_def)

lemma SendRaw_clock: "clock (fst (SendRaw l c)) = clock c"
  by (simp add: SendRaw_def sock_write_def registerWebQuery_def markWhoRequested_def markWhoisRequested_def
      Let_def split: option.split nat.split)

lemma issue_irc: "\<exists>c. issue_lift l w = w\<lparr>irc := c\<rparr> \<and> clock c = clock (irc w)"
proof -
  have c: "clock (fst (send_raw_all ls c)) = clock c" for ls c
  proof (induction ls arbitrary: c)
    case (Cons l ls)
    then show ?case using SendRaw_clock [of l c] by (auto split: prod.split option.split)
  qed simp
  obtain d r where d: "send_raw_all (fst (SetMode (\<lambda>_. None) (pl_Channel l) (pl_Modes l) (if pl_Arg l \<noteq> [] then [pl_Arg l] else [])))
      (irc w) = (d, r)" by fastforce
  then have "issue_lift l w = w\<lparr>irc := d\<rparr>" by (simp add: issue_lift_def act_def)
  moreover have "clock d = clock (irc w)" using c [of _ "irc w"] d by (metis fst_conv)
  ultimately show ?thesis by blast
qed

lemma issue_all_irc: "\<exists>c. fold issue_lift ls w = w\<lparr>irc := c\<rparr> \<and> clock c = clock (irc w)"
proof (induction ls arbitrary: w)
  case Nil
  then show ?case by (intro exI [of _ "irc w"]) simp
next
  case (Cons l ls)
  obtain c where c: "issue_lift l w = w\<lparr>irc := c\<rparr>" "clock c = clock (irc w)" using issue_irc by blast
  then show ?case using Cons [of "w\<lparr>irc := c\<rparr>"] by auto
qed

lemma issue_cong: "irc w = irc v \<Longrightarrow> irc (fold issue_lift ls w) = irc (fold issue_lift ls v)"
proof (induction ls arbitrary: w v)
  case (Cons l ls)
  have "irc (issue_lift l w) = irc (issue_lift l v)" using Cons.prems by (simp add: issue_lift_def act_def case_prod_beta)
  then have "irc (fold issue_lift ls (issue_lift l w)) = irc (fold issue_lift ls (issue_lift l v))" by (rule Cons.IH)
  then show ?case by simp
qed simp

lemma sweep_held:
  assumes "lifts_held w ls" "json_ok w"
  shows "lifts_held (SweepLifts e now w) (filter (\<lambda>l. \<not> due_now now l) ls)"
    "irc (SweepLifts e now w) = irc (fold issue_lift (if se_actor e then filter (due_now now) ls else []) w)"
    "json_ok (SweepLifts e now w)" "now_w (SweepLifts e now w) = now_w w"
    "lifts (SweepLifts e now w) = filter (\<lambda>l. \<not> due_now now l) ls"
proof -
  let ?keep = "filter (\<lambda>l. \<not> due_now now l) ls" and ?due = "filter (due_now now) ls"
  have load: "ensureLiftsLoaded w = w\<lparr>liftsLoaded := True, lifts := ls\<rparr>" using loaded_held [OF assms] .
  define w1 where "w1 = (if ?due = [] then w\<lparr>liftsLoaded := True, lifts := ls\<rparr>
    else persistLifts (w\<lparr>liftsLoaded := True, lifts := ?keep\<rparr>))"
  have S: "SweepLifts e now w = fold issue_lift (if se_actor e then ?due else []) w1"
    by (simp add: SweepLifts_def load Let_def w1_def due_now_def [abs_def])
  have none: "?due = [] \<Longrightarrow> ?keep = ls" by (simp add: filter_empty_conv)
  have w1: "lifts_held w1 ?keep" "json_ok w1" "irc w1 = irc w" "lifts w1 = ?keep"
    using assms none held_persist [where w = w and ls = ?keep]
    by (auto simp: w1_def lifts_held_def json_ok_def list_all_iff)
  obtain c where c: "fold issue_lift (if se_actor e then ?due else []) w1 = w1\<lparr>irc := c\<rparr>" "clock c = clock (irc w1)"
    using issue_all_irc by blast
  show "lifts_held (SweepLifts e now w) ?keep" "json_ok (SweepLifts e now w)" "now_w (SweepLifts e now w) = now_w w"
    "lifts (SweepLifts e now w) = ?keep"
    using w1 c by (simp_all add: S json_ok_def)
  show "irc (SweepLifts e now w) = irc (fold issue_lift (if se_actor e then ?due else []) w)"
    unfolding S by (rule issue_cong) (rule w1(3))
qed

lemma schedule_held:
  assumes "lifts_held w ls" "json_ok w" "plain ch" "plain m" "plain a" "sane (now_w w)"
  shows "lifts_held (scheduleLift ch m a secs w)
     (ls @ [\<lparr>pl_Channel = ch, pl_Modes = m, pl_Arg = a, pl_Due = unix (now_w w + wrap64 (secs * 10 ^ 9))\<rparr>])"
    "json_ok (scheduleLift ch m a secs w)" "now_w (scheduleLift ch m a secs w) = now_w w"
  using loaded_held [OF assms(1,2)] assms due_in_range [of "now_w w"]
  by (simp_all add: plain_lift_def scheduleLift_def Let_def json_ok_def lifts_held_def persistLifts_def store_Set_def)

lemma other_cell:
  assumes "storeKey s k \<noteq> key"
  shows "sk_values (do_op (DoSet t s k v ttl) st) key = sk_values st key" "sk_values (do_op (DoDelete t s k) st) key = sk_values st key"
    "sk_values (do_op (DoGet t s k) st) key = sk_values st key" "sk_values (do_op (DoIncr t s k win) st) key = sk_values st key"
  using assms by (auto simp: store_Set_def store_Delete_def store_Get_def store_Incr_def Let_def split: option.split)

lemma store_op_cell:
  assumes "so_skill op \<noteq> liftNS" "nul \<notin> set (so_skill op)"
  shows "sk_values (do_op op st) (storeKey liftNS liftKey) = sk_values st (storeKey liftNS liftKey)"
proof -
  have "storeKey (so_skill op) k \<noteq> storeKey liftNS liftKey" for k
    using storeKey_inj [of "so_skill op" liftNS k liftKey] assms by (auto simp: liftNS_def)
  then show ?thesis
    by (cases op) (metis do_op.simps so_skill.simps other_cell)+
qed

lemma lift_step_held:
  assumes "lifts_held w (snd p0)" "json_ok w" "now_w w = fst p0" "sane (fst p0)" "orderly op"
  shows "lifts_held (lift_step e op w) (snd (owe op p0)) \<and> json_ok (lift_step e op w) \<and>
    now_w (lift_step e op w) = fst (owe op p0) \<and> sane (fst (owe op p0))"
proof -
  obtain t ls where p0: "p0 = (t, ls)" by (cases p0)
  show ?thesis
  proof (cases op)
    case (Plan ch m a secs)
    then show ?thesis using schedule_held [where w = w and ls = ls] assms by (simp add: p0)
  next
    case (Sweep now)
    then show ?thesis using sweep_held [where w = w and ls = ls] assms by (simp add: p0 due_now_def)
  next
    case (Restart durable)
    then show ?thesis using assms by (auto simp: p0 lifts_held_def json_ok_def NewSkillStore_def)
  next
    case (Clock t')
    then show ?thesis using assms by (simp add: p0 lifts_held_def json_ok_def at_time_def on_irc_def)
  next
    case (Store p)
    then show ?thesis using assms store_op_cell [of p "sk_store w"] by (simp add: p0 lifts_held_def json_ok_def)
  qed
qed

lemma lift_steps_held:
  "lifts_held w (snd p0) \<Longrightarrow> json_ok w \<Longrightarrow> now_w w = fst p0 \<Longrightarrow> sane (fst p0) \<Longrightarrow> list_all orderly ops \<Longrightarrow>
   lifts_held (fold (lift_step e) ops w) (snd (fold owe ops p0)) \<and> json_ok (fold (lift_step e) ops w)"
proof (induction ops arbitrary: w p0)
  case (Cons op ops)
  then have "orderly op" "list_all orderly ops" by simp_all
  with Cons.prems lift_step_held [of w p0 op e] show ?case
    using Cons.IH [of "lift_step e op w" "owe op p0"] by simp
qed simp

text \<open>C14: timed effects are lifted whatever happens to a process whose store lasts. Over any run of scheduling, sweeps,
  restarts, clock changes and writes of other skills, a sweep tries to lift exactly the effects that are owed and whose
  time has come, in the order they were scheduled, and keeps the rest; owed is what was scheduled and no earlier sweep
  tried, since the last restart on the in-process store, which forgets all of it. The texts are ASCII and the clock is
  in the range of nanoseconds; of JSON it is assumed that such lists read back from their text, and of the store that
  it takes every write, so the lost writes of a remote one are not covered.\<close>

theorem timed_effects_survive:
  assumes "\<forall>ls. list_all plain_lift ls \<longrightarrow> json_lifts w (lifts_json w ls) = Some ls \<and> lifts_json w ls \<noteq> []"
    "lifts w = []" "sk_values (sk_store w) (storeKey liftNS liftKey) = None" "sane (now_w w)" "list_all orderly ops"
  shows "lifts (SweepLifts e now (fold (lift_step e) ops w)) = filter (\<lambda>l. \<not> due_now now l) (snd (fold owe ops (now_w w, []))) \<and>
    irc (SweepLifts e now (fold (lift_step e) ops w)) =
      irc (fold issue_lift (if se_actor e then filter (due_now now) (snd (fold owe ops (now_w w, []))) else [])
             (fold (lift_step e) ops w))"
proof -
  have "lifts_held w (snd (now_w w, []))" "json_ok w" using assms(1-3) by (simp_all add: lifts_held_def json_ok_def)
  from lift_steps_held [OF this _ _ assms(5), of e] assms(4) show ?thesis using sweep_held(2,5) by simp
qed

text \<open>A text for lifts, in the place of JSON: lengths in unary before their strings.\<close>

definition put_nat :: "nat \<Rightarrow> string" where
  "put_nat n = replicate n (CHR ''1'') @ ''0''"

fun get_nat :: "string \<Rightarrow> nat \<times> string" where
  "get_nat [] = (0, [])"
| "get_nat (c # cs) = (if c = CHR ''1'' then (let (n, r) = get_nat cs in (Suc n, r)) else (0, cs))"

definition put_str :: "string \<Rightarrow> string" where
  "put_str s = put_nat (length s) @ s"

definition get_str :: "string \<Rightarrow> string \<times> string" where
  "get_str s = (let (n, r) = get_nat s in (take n r, drop n r))"

definition put_lift :: "pendingLift \<Rightarrow> string" where
  "put_lift l = put_str (pl_Channel l) @ put_str (pl_Modes l) @ put_str (pl_Arg l) @
     (if pl_Due l < 0 then ''-'' else ''+'') @ put_nat (nat \<bar>pl_Due l\<bar>)"

definition get_lift :: "string \<Rightarrow> pendingLift \<times> string" where
  "get_lift s =
     (let (c, s) = get_str s; (m, s) = get_str s; (a, s) = get_str s; (n, r) = get_nat (tl s)
      in (\<lparr>pl_Channel = c, pl_Modes = m, pl_Arg = a, pl_Due = (if hd s = CHR ''-'' then - int n else int n)\<rparr>, r))"

fun get_lifts :: "nat \<Rightarrow> string \<Rightarrow> pendingLift list" where
  "get_lifts 0 s = []"
| "get_lifts (Suc n) s = (let (l, s) = get_lift s in l # get_lifts n s)"

definition put_lifts :: "pendingLift list \<Rightarrow> string" where
  "put_lifts ls = put_nat (length ls) @ concat (map put_lift ls)"

definition read_lifts :: "string \<Rightarrow> pendingLift list option" where
  "read_lifts s = (let (n, s) = get_nat s in Some (get_lifts n s))"

lemma get_put_nat [simp]: "get_nat (put_nat n @ r) = (n, r)" "put_nat n \<noteq> []" "get_nat (put_nat n) = (n, [])"
proof -
  show *: "get_nat (put_nat n @ r) = (n, r)" for r by (induction n) (simp_all add: put_nat_def)
  show "get_nat (put_nat n) = (n, [])" using * [of "[]"] by simp
  show "put_nat n \<noteq> []" by (simp add: put_nat_def)
qed

lemma get_put_str [simp]: "get_str (put_str s @ r) = (s, r)"
  by (simp add: get_str_def put_str_def)

lemma get_put_lift [simp]: "get_lift (put_lift l @ r) = (l, r)"
  by (cases l) (simp add: get_lift_def put_lift_def Let_def)

lemma read_put_lifts: "read_lifts (put_lifts ls) = Some ls" "put_lifts ls \<noteq> []"
proof -
  have "get_lifts (length ls) (concat (map put_lift ls)) = ls" by (induction ls) simp_all
  then show "read_lifts (put_lifts ls) = Some ls" by (simp add: read_lifts_def put_lifts_def)
  show "put_lifts ls \<noteq> []" by (simp add: put_lifts_def)
qed

definition durable_world :: World where
  "durable_world = (sample_world (NewConnector sample_settings True 0))\<lparr>lifts_json := put_lifts, json_lifts := read_lifts\<rparr>"

text \<open>A mute of a minute, a restart, and a sweep 61 seconds later: it is lifted then, not in a sweep before. On the
  in-process store it is forgotten.\<close>

theorem timed_effects_survive_witness:
  "length (lifts (SweepLifts (NewSkillEngine True False [] [] 1) (59 * 10 ^ 9)
     (fold (lift_step (NewSkillEngine True False [] [] 1)) [Plan ''#c'' ''-q'' ''bob'' 60, Restart True] durable_world))) = 1 \<and>
   lifts (SweepLifts (NewSkillEngine True False [] [] 1) (61 * 10 ^ 9)
     (fold (lift_step (NewSkillEngine True False [] [] 1)) [Plan ''#c'' ''-q'' ''bob'' 60, Restart True] durable_world)) = [] \<and>
   lifts (SweepLifts (NewSkillEngine True False [] [] 1) (59 * 10 ^ 9)
     (fold (lift_step (NewSkillEngine True False [] [] 1)) [Plan ''#c'' ''-q'' ''bob'' 60, Restart False] durable_world)) = []"
proof -
  let ?ops = "\<lambda>durable. [Plan ''#c'' ''-q'' ''bob'' 60, Restart durable]"
  have j: "\<forall>ls. list_all plain_lift ls \<longrightarrow>
      json_lifts durable_world (lifts_json durable_world ls) = Some ls \<and> lifts_json durable_world ls \<noteq> []"
    by (simp add: durable_world_def read_put_lifts)
  have w: "lifts durable_world = []" "sk_values (sk_store durable_world) (storeKey liftNS liftKey) = None" "now_w durable_world = 0"
    by (simp_all add: durable_world_def sample_world_def NewSkillStore_def NewConnector_def)
  have s: "sane (now_w durable_world)" by (simp add: w(3) sane_def)
  have o: "list_all orderly (?ops durable)" for durable by (simp add: plain_def)
  have P: "snd (fold owe (?ops True) (0, [])) = [\<lparr>pl_Channel = ''#c'', pl_Modes = ''-q'', pl_Arg = ''bob'', pl_Due = 60\<rparr>]"
    "snd (fold owe (?ops False) (0, [])) = []"
    by (simp_all add: unix_def wrap64_def)
  show ?thesis
    using timed_effects_survive [OF j w(1,2) s o [of True], of "NewSkillEngine True False [] [] 1" "59 * 10 ^ 9"]
      timed_effects_survive [OF j w(1,2) s o [of True], of "NewSkillEngine True False [] [] 1" "61 * 10 ^ 9"]
      timed_effects_survive [OF j w(1,2) s o [of False], of "NewSkillEngine True False [] [] 1" "59 * 10 ^ 9"]
    unfolding w(3) P by (simp add: due_now_def unix_def)
qed

text \<open>A lift that is due while the link is down is tried, fails, and is forgotten.\<close>

lemma lift_lost_offline:
  assumes "lifts_held w ls" "json_ok w" "client (irc w) = None"
  shows "wire (irc (SweepLifts e now w)) = wire (irc w) \<and> lifts (SweepLifts e now w) = filter (\<lambda>l. \<not> due_now now l) ls"
proof -
  have one: "irc (issue_lift l v) = irc v" if "client (irc v) = None" for l v
    using that by (simp add: issue_lift_def act_def SetMode_def SendRaw_def Let_def)
  have "irc (fold issue_lift us v) = irc v" if "client (irc v) = None" for us v
    using that by (induction us arbitrary: v) (simp_all add: one)
  then show ?thesis using sweep_held(2,5) [OF assms(1,2), of e now] assms(3) by simp
qed

end
