(* ===== verification/Scheduler.thy ===== *)
theory Scheduler
  imports Skill_Engine
begin

text \<open>
  \<^verbatim>\<open>internal/skill/scheduler.go\<close>: the skills that fire on a cadence, with \<^verbatim>\<open>time.ParseDuration\<close>. The nanoseconds of a
  decimal fraction are a float product in Go; they are the argument \<open>flt\<close>, applied to the digits read, their number and
  the unit.
\<close>

section \<open>Durations\<close>

type_synonym flt = "nat \<Rightarrow> nat \<Rightarrow> nat \<Rightarrow> nat"

definition unit_ns :: "string \<Rightarrow> nat option" where
  "unit_ns u =
     map_of [(''ns'', 1), (''us'', 1000), ([CHR 0xC2, CHR 0xB5] @ ''s'', 1000), ([CHR 0xCE, CHR 0xBC] @ ''s'', 1000),
             (''ms'', 10 ^ 6), (''s'', 10 ^ 9), (''m'', 60 * 10 ^ 9), (''h'', 3600 * 10 ^ 9)] u"

text \<open>The digits of a fraction up to the first that would overflow, and how many were used.\<close>

fun leadingFraction :: "string \<Rightarrow> nat \<Rightarrow> nat \<Rightarrow> bool \<Rightarrow> nat \<times> nat" where
  "leadingFraction [] f k overflow = (f, k)"
| "leadingFraction (d # ds) f k overflow =
     (if overflow \<or> f > (2 ^ 63 - 1) div 10 \<or> f * 10 + digit_value d > 2 ^ 63 then leadingFraction ds f k True
      else leadingFraction ds (f * 10 + digit_value d) (k + 1) False)"

function duration_loop :: "flt \<Rightarrow> string \<Rightarrow> nat \<Rightarrow> nat option" where
  "duration_loop flt s d =
     (if s = [] then Some d
      else let ds = takeWhile is_digit s; r = drop (length ds) s;
               fs = (if prefix ''.'' r then takeWhile is_digit (tl r) else []);
               r = (if prefix ''.'' r then drop (length fs) (tl r) else r);
               u = takeWhile (\<lambda>c. c \<noteq> CHR ''.'' \<and> \<not> is_digit c) r;
               v = digits_value ds; (f, k) = leadingFraction fs 0 0 False
           in if v > 2 ^ 63 \<or> (ds = [] \<and> fs = []) \<or> u = [] then None
              else case unit_ns u of
                     None \<Rightarrow> None
                   | Some n \<Rightarrow>
                       (if v > 2 ^ 63 div n then None
                        else let v = (if f > 0 then (v * n + flt f k n) mod 2 ^ 64 else v * n)
                             in if v > 2 ^ 63 then None
                                else let d = (d + v) mod 2 ^ 64
                                     in if d > 2 ^ 63 then None else duration_loop flt (drop (length u) r) d))"
  by auto
termination
proof (relation "measure (\<lambda>(flt, s, d). length s)", goal_cases)
  case 1
  show ?case by simp
next
  case (2 flt s d ds r fs r' u)
  then have "length r' \<le> length s" "u \<noteq> []" by (auto split: if_splits)
  moreover have "length u \<le> length r'" unfolding 2 by (rule length_takeWhile_le)
  moreover have "0 < length u" using \<open>u \<noteq> []\<close> by simp
  ultimately have "length r' - length u < length s" by linarith
  then show ?case by simp
qed

declare duration_loop.simps [simp del]

definition ParseDuration :: "flt \<Rightarrow> string \<Rightarrow> duration option" where
  "ParseDuration flt s =
     (let neg = prefix ''-'' s; s = (if prefix ''-'' s \<or> prefix ''+'' s then tl s else s)
      in if s = ''0'' then Some 0
         else if s = [] then None
         else case duration_loop flt s 0 of
                None \<Rightarrow> None
              | Some d \<Rightarrow> if neg then Some (- int d) else if d > 2 ^ 63 - 1 then None else Some (int d))"

section \<open>Schedules\<close>

definition schedTick :: duration where "schedTick = 30 * 10 ^ 9"

record scheduled =
  it_skill :: Skill
  it_interval :: duration
  it_cron :: "cronSpec option"
  nextDue :: instant

definition advance :: "scheduled \<Rightarrow> instant \<Rightarrow> instant" where
  "advance it now = (case it_cron it of Some c \<Rightarrow> cron_next c now | None \<Rightarrow> now + it_interval it)"

definition parseInterval :: "flt \<Rightarrow> string \<Rightarrow> duration option" where
  "parseInterval flt spec =
     (case ParseDuration flt spec of None \<Rightarrow> None | Some d \<Rightarrow> if d < minute_ns then None else Some d)"

text \<open>The outer option is the loop of \<^const>\<open>parseField\<close>.\<close>

definition parseSchedule :: "flt \<Rightarrow> Skill \<Rightarrow> instant \<Rightarrow> (string + scheduled) option" where
  "parseSchedule flt sk now =
     (let spec = trim_space (tr_Schedule (sk_Trigger sk))
      in if spec = [] then Some (Inl ''empty schedule'')
         else case parseInterval flt spec of
                Some d \<Rightarrow> Some (Inr \<lparr>it_skill = sk, it_interval = d, it_cron = None, nextDue = now + d\<rparr>)
              | None \<Rightarrow>
                  (case parseCron spec of
                     None \<Rightarrow> None
                   | Some (Inl e) \<Rightarrow> Some (Inl e)
                   | Some (Inr c) \<Rightarrow> Some (Inr \<lparr>it_skill = sk, it_interval = 0, it_cron = Some c, nextDue = cron_next c now\<rparr>)))"

text \<open>\<^verbatim>\<open>ReplaceSkills\<close> of the scheduler.\<close>

fun load_schedules :: "flt \<Rightarrow> instant \<Rightarrow> Skill list \<Rightarrow> scheduled list option" where
  "load_schedules flt now [] = Some []"
| "load_schedules flt now (sk # ss) =
     (if tr_Kind (sk_Trigger sk) \<noteq> KindSchedule then load_schedules flt now ss
      else case parseSchedule flt sk now of
             None \<Rightarrow> None
           | Some (Inl e) \<Rightarrow> load_schedules flt now ss
           | Some (Inr it) \<Rightarrow> map_option ((#) it) (load_schedules flt now ss))"

section \<open>Ticks\<close>

definition tick_item :: "instant \<Rightarrow> scheduled \<Rightarrow> scheduled" where
  "tick_item now it = (if now < nextDue it then it else it\<lparr>nextDue := advance it now\<rparr>)"

definition fire_scheduled :: "SkillEngine \<Rightarrow> Skill \<Rightarrow> World \<Rightarrow> World" where
  "fire_scheduled e sk w =
     (let f = no_fields\<lparr>f_platform := se_platform e, f_owner := se_owner e\<rparr>;
          f = (case tr_Channels (sk_Trigger sk) of [] \<Rightarrow> f | ch # _ \<Rightarrow> f\<lparr>f_channel := ch\<rparr>)
      in fire e sk f w)"

definition tick :: "SkillEngine \<Rightarrow> instant \<Rightarrow> scheduled list \<times> World \<Rightarrow> scheduled list \<times> World" where
  "tick e now sw =
     (let (its, w) = sw; due = filter (\<lambda>it. \<not> now < nextDue it) its
      in (map (tick_item now) its, SweepLifts e now (fold (fire_scheduled e) (map it_skill due) w)))"

text \<open>\<^verbatim>\<open>Run\<close> at the times the ticker delivered.\<close>

definition run_ticks :: "SkillEngine \<Rightarrow> instant list \<Rightarrow> scheduled list \<times> World \<Rightarrow> scheduled list \<times> World" where
  "run_ticks e ts sw = fold (tick e) ts sw"

section \<open>When a skill fires\<close>

text \<open>Loading always returns: the step loop of a cron field may wrap around, but it ends.\<close>

lemma parseCron_returns: "\<exists>r. parseCron spec = Some r"
  unfolding parseCron_def Let_def
  by (auto intro!: named_field_returns)

lemma parseSchedule_returns: "\<exists>r. parseSchedule flt sk now = Some r"
  using parseCron_returns [of "trim_space (tr_Schedule (sk_Trigger sk))"]
  by (auto simp: parseSchedule_def Let_def split: option.split sum.split)

lemma load_returns: "\<exists>its. load_schedules flt now ss = Some its"
proof (induction ss)
  case (Cons sk ss)
  obtain r where "parseSchedule flt sk now = Some r" using parseSchedule_returns by blast
  with Cons show ?case by (cases r) auto
qed simp

text \<open>The ticks at which an item fires, by the very test and update \<^const>\<open>tick\<close> applies to it.\<close>

fun fire_times :: "scheduled \<Rightarrow> instant list \<Rightarrow> instant list" where
  "fire_times it [] = []"
| "fire_times it (t # ts) = (if t < nextDue it then [] else [t]) @ fire_times (tick_item t it) ts"

definition paced :: "scheduled \<Rightarrow> bool" where
  "paced it \<longleftrightarrow> (case it_cron it of None \<Rightarrow> minute_ns \<le> it_interval it | Some c \<Rightarrow> True)"

lemma parsed_paced: "parseSchedule flt sk now = Some (Inr it) \<Longrightarrow> paced it \<and> nextDue it = advance it now \<and> it_skill it = sk"
  by (auto simp: parseSchedule_def parseInterval_def paced_def advance_def Let_def split: if_splits option.splits sum.splits)

lemma paced_item [simp]: "paced (tick_item t it) = paced it" "it_skill (tick_item t it) = it_skill it"
  by (simp_all add: tick_item_def paced_def split: option.split)

lemma minute_pos: "0 < minute_ns"
  by (simp add: minute_ns_def)

text \<open>The next time lies in a later minute.\<close>

lemma next_minute: "paced it \<Longrightarrow> now div minute_ns < advance it now div minute_ns"
proof (cases "it_cron it")
  case None
  assume "paced it"
  then have "now + minute_ns \<le> advance it now" using None by (simp add: paced_def advance_def)
  then have "(now + minute_ns) div minute_ns \<le> advance it now div minute_ns" by (rule zdiv_mono1) (rule minute_pos)
  moreover have "(now + minute_ns) div minute_ns = now div minute_ns + 1" using minute_pos by simp
  ultimately show ?thesis by simp
next
  case (Some c)
  have n: "now < cron_next c now" "cron_next c now mod minute_ns = 0" using next_facts [of now c] by blast+
  have "now div minute_ns \<noteq> cron_next c now div minute_ns"
  proof
    assume "now div minute_ns = cron_next c now div minute_ns"
    then have "cron_next c now = now div minute_ns * minute_ns" using n(2) div_mult_mod_eq [of "cron_next c now" minute_ns] by simp
    also have "\<dots> \<le> now" using div_mult_mod_eq [of now minute_ns] pos_mod_sign [OF minute_pos, of now] by linarith
    finally show False using n(1) by simp
  qed
  moreover have "now div minute_ns \<le> cron_next c now div minute_ns" using n(1) minute_pos by (intro zdiv_mono1) auto
  ultimately show ?thesis using Some by (simp add: advance_def)
qed

lemma fire_after_due: "t \<in> set (fire_times it ts) \<Longrightarrow> paced it \<Longrightarrow> sorted ts \<Longrightarrow> nextDue it \<le> t"
proof (induction it ts rule: fire_times.induct)
  case (2 it t' ts)
  show ?case
  proof (cases "t' < nextDue it")
    case True
    then show ?thesis using 2 by (simp add: tick_item_def)
  next
    case False
    have "t = t' \<or> t \<in> set (fire_times (tick_item t' it) ts)" using 2(2) by (auto split: if_splits)
    then show ?thesis
    proof
      assume "t \<in> set (fire_times (tick_item t' it) ts)"
      then have "t \<in> set ts" by (induction "tick_item t' it" ts arbitrary: it t' rule: fire_times.induct) (auto split: if_splits)
      then show ?thesis using False 2(4) by auto
    qed (use False in simp)
  qed
qed simp

lemma fires_spaced: "paced it \<Longrightarrow> sorted ts \<Longrightarrow> sorted_wrt (<) (map (\<lambda>t. t div minute_ns) (fire_times it ts))"
proof (induction it ts rule: fire_times.induct)
  case (2 it t ts)
  have IH: "sorted_wrt (<) (map (\<lambda>t. t div minute_ns) (fire_times (tick_item t it) ts))" using 2 by simp
  show ?case
  proof (cases "t < nextDue it")
    case False
    have "t div minute_ns < t' div minute_ns" if "t' \<in> set (fire_times (tick_item t it) ts)" for t'
    proof -
      have "advance it t \<le> t'" using fire_after_due [OF that] 2(2,3) False paced_item(1) [of t it] by (simp add: tick_item_def del: paced_item)
      then have "advance it t div minute_ns \<le> t' div minute_ns" by (rule zdiv_mono1) (rule minute_pos)
      with next_minute [OF 2(2), of t] show ?thesis by simp
    qed
    with IH show ?thesis by auto
  qed (use IH in simp)
qed simp

text \<open>What \<^const>\<open>run_ticks\<close> does to the items does not depend on what the skills do.\<close>

lemma run_ticks_items: "fst (run_ticks e ts (its, w)) = map (\<lambda>it. fold tick_item ts it) its"
proof (induction ts arbitrary: its w)
  case (Cons t ts)
  obtain its' w' where "tick e t (its, w) = (its', w')" "its' = map (tick_item t) its" by (auto simp: tick_def Let_def)
  then show ?case using Cons [of its' w'] by (simp add: run_ticks_def)
qed (simp add: run_ticks_def)

text \<open>C16: a scheduled skill fires at most once in a minute of the clock, whatever its interval or cron expression says and
  however often the ticker runs, also after a run was slow: the minutes of its fires increase strictly. Every tick at
  or after the due time does fire it, and leaves it due in a later minute. The items \<^const>\<open>tick\<close> keeps are these.\<close>

theorem at_most_once_a_minute:
  assumes "parseSchedule flt sk now = Some (Inr it)" "sorted ts"
  shows "sorted_wrt (<) (map (\<lambda>t. t div minute_ns) (fire_times it ts)) \<and>
    (\<forall>t\<in>set (fire_times it ts). nextDue it \<le> t \<and> now div minute_ns < t div minute_ns) \<and>
    fst (run_ticks e ts ([it], w)) = [fold tick_item ts it] \<and>
    snd (tick e t (fst (run_ticks e ts ([it], w)), w')) =
      SweepLifts e t (if t < nextDue (fold tick_item ts it) then w' else fire_scheduled e sk w')"
proof (intro conjI ballI)
  note p = parsed_paced [OF assms(1)]
  then have p1: "paced it" "nextDue it = advance it now" "it_skill it = sk" by simp_all
  show "sorted_wrt (<) (map (\<lambda>t. t div minute_ns) (fire_times it ts))" using fires_spaced p1(1) assms(2) .
  show due: "nextDue it \<le> t" if "t \<in> set (fire_times it ts)" for t using fire_after_due [OF that p1(1) assms(2)] .
  show "now div minute_ns < t div minute_ns" if "t \<in> set (fire_times it ts)" for t
  proof -
    have "advance it now div minute_ns \<le> t div minute_ns"
      using due [OF that] p1(2) minute_pos by (intro zdiv_mono1) simp_all
    with next_minute [OF p1(1), of now] show ?thesis by simp
  qed
  show items: "fst (run_ticks e ts ([it], w)) = [fold tick_item ts it]" by (simp add: run_ticks_items)
  have "it_skill (fold tick_item ts it) = sk" using p1(3) by (induction ts arbitrary: it) simp_all
  then show "snd (tick e t (fst (run_ticks e ts ([it], w)), w')) =
      SweepLifts e t (if t < nextDue (fold tick_item ts it) then w' else fire_scheduled e sk w')"
    unfolding items by (simp add: tick_def)
qed

definition hourly :: Skill where
  "hourly =
     (let s = Command ''tip'' TypeStatic ''hello'' [] []
      in s\<lparr>sk_Trigger := (sk_Trigger s)\<lparr>tr_Kind := KindSchedule, tr_Schedule := ''1h''\<rparr>\<rparr>)"

lemma one_hour: "ParseDuration flt ''1h'' = Some (3600 * 10 ^ 9)"
proof -
  have "digits_value ''1'' = 1" "takeWhile is_digit ''1h'' = ''1''" "unit_ns ''h'' = Some (3600 * 10 ^ 9)"
    "takeWhile (\<lambda>c. c \<noteq> CHR ''.'' \<and> \<not> is_digit c) ''h'' = ''h''"
    by (simp_all add: digits_value_def digit_value_def is_digit_def unit_ns_def)
  then have "duration_loop flt ''1h'' 0 = duration_loop flt [] (3600 * 10 ^ 9)"
    by (subst duration_loop.simps) (simp add: Let_def)
  also have "\<dots> = Some (3600 * 10 ^ 9)" by (subst duration_loop.simps) simp
  finally show ?thesis by (simp add: ParseDuration_def)
qed

text \<open>Two ticks in the minute after the hour.\<close>

theorem at_most_once_a_minute_witness:
  "sorted_wrt (<) (map (\<lambda>t. t div minute_ns)
     (fire_times \<lparr>it_skill = hourly, it_interval = 3600 * 10 ^ 9, it_cron = None, nextDue = 3600 * 10 ^ 9\<rparr>
        [3600 * 10 ^ 9, 3630 * 10 ^ 9]))"
proof -
  have "trim_space ''1h'' = ''1h''" by code_simp
  then have "parseSchedule (\<lambda>_ _ _. 0) hourly 0 =
      Some (Inr \<lparr>it_skill = hourly, it_interval = 3600 * 10 ^ 9, it_cron = None, nextDue = 3600 * 10 ^ 9\<rparr>)"
    by (simp add: parseSchedule_def hourly_def Command_def Let_def parseInterval_def one_hour [simplified] minute_ns_def)
  from at_most_once_a_minute [OF this, of "[3600 * 10 ^ 9, 3630 * 10 ^ 9]"] show ?thesis by simp
qed

end
