(* ===== verification/Flow.thy ===== *)
theory Flow
  imports Scheduler
begin

text \<open>
  \<^verbatim>\<open>internal/flow\<close>: node graphs run on a trigger. \<^verbatim>\<open>flow.go\<close> is the graph, \<^verbatim>\<open>nodes.go\<close> the activities, \<^verbatim>\<open>engine.go\<close>
  the triggers and the walk. Every value the engine itself puts in the bag is a string.
\<close>

section \<open>The graph\<close>

text \<open>The configuration is decoded JSON: a string, a number (as \<^verbatim>\<open>int(v)\<close>), a list of strings, an object of strings in the
  order Go ranges over it.\<close>

datatype cfg_val = CStr string | CNum int | CList "string list" | CMap "(string \<times> string) list"

record Node =
  nd_ID :: string
  nd_Type :: string
  Config :: "string \<rightharpoonup> cfg_val"

record Edge =
  ed_From :: string
  ed_To :: string
  ed_Port :: string

record Flow =
  fl_Name :: string
  fl_Trigger :: Trigger
  Nodes :: "Node list"
  Edges :: "Edge list"
  Category :: string

definition triggerKind :: "Flow \<Rightarrow> string" where
  "triggerKind f = (if tr_Kind (fl_Trigger f) = [] then KindCommand else tr_Kind (fl_Trigger f))"

definition isEntryFrom :: "string \<Rightarrow> bool" where
  "isEntryFrom s \<longleftrightarrow> s \<in> {[], ''start'', ''trigger''}"

text \<open>First occurrences, without the empty id.\<close>

fun add_ids :: "string list \<Rightarrow> string list \<Rightarrow> string list" where
  "add_ids out [] = out"
| "add_ids out (x # xs) = add_ids (if x = [] \<or> x \<in> set out then out else out @ [x]) xs"

definition entryNodes :: "Flow \<Rightarrow> string list" where
  "entryNodes f =
     (let explicit = map ed_To (filter (\<lambda>e. isEntryFrom (ed_From e)) (Edges f));
          hasIncoming = map ed_To (filter (\<lambda>e. \<not> isEntryFrom (ed_From e)) (Edges f))
      in add_ids [] (explicit @ filter (\<lambda>x. x \<notin> set hasIncoming) (map nd_ID (Nodes f))))"

definition successors :: "Flow \<Rightarrow> string \<Rightarrow> string \<Rightarrow> string list" where
  "successors f n port = map ed_To (filter (\<lambda>e. ed_From e = n \<and> ed_Port e = port) (Edges f))"

section \<open>The bag\<close>

type_synonym Bag = "string \<rightharpoonup> string"

definition bag_str :: "Bag \<Rightarrow> string \<Rightarrow> string" where
  "bag_str b k = (case b k of None \<Rightarrow> [] | Some v \<Rightarrow> v)"

text \<open>\<^verbatim>\<open>\{([a-zA-Z0-9_]+)\}\<close>.\<close>

definition is_word_char :: "char \<Rightarrow> bool" where
  "is_word_char c \<longleftrightarrow> is_digit c \<or> c = CHR ''_'' \<or> (of_char c :: nat) \<in> {65..90} \<union> {97..122}"

definition match_token :: matcher where
  "match_token s =
     (case s of
        [] \<Rightarrow> None
      | c # r \<Rightarrow>
          (let k = takeWhile is_word_char r
           in if c = CHR ''{'' \<and> k \<noteq> [] \<and> prefix ''}'' (drop (length k) r) then Some (k, length k + 2) else None))"

definition renderBag :: "string \<Rightarrow> Bag \<Rightarrow> string" where
  "renderBag tmpl bag = fst (replace_all match_token (\<lambda>k st. (bag_str bag k, st)) tmpl ())"

definition rawCfg :: "Node \<Rightarrow> string \<Rightarrow> string" where
  "rawCfg n k = (case Config n k of Some (CStr v) \<Rightarrow> v | _ \<Rightarrow> [])"

definition cfg :: "Node \<Rightarrow> string \<Rightarrow> Bag \<Rightarrow> string" where
  "cfg n k bag = renderBag (rawCfg n k) bag"

definition cfgInt :: "Node \<Rightarrow> string \<Rightarrow> int \<Rightarrow> int" where
  "cfgInt n k def =
     (case Config n k of
        Some (CNum v) \<Rightarrow> v
      | Some (CStr s) \<Rightarrow> (case atoi (trim_space s) of Some i \<Rightarrow> i | None \<Rightarrow> def)
      | _ \<Rightarrow> def)"

definition clamp :: "int \<Rightarrow> int \<Rightarrow> int \<Rightarrow> int" where
  "clamp v lo hi = (if v < lo then lo else if v > hi then hi else v)"

text \<open>What is left of an ignored \<^verbatim>\<open>strconv.Atoi\<close> error: the nearest integer for a number out of range, else 0.\<close>

definition atoi_value :: "string \<Rightarrow> int" where
  "atoi_value s =
     (case atoi s of
        Some v \<Rightarrow> v
      | None \<Rightarrow>
          (let ds = (if prefix ''-'' s \<or> prefix ''+'' s then tl s else s)
           in if ds = [] \<or> \<not> list_all is_digit ds then 0 else if prefix ''-'' s then - (2 ^ 63) else 2 ^ 63 - 1))"

section \<open>Activities\<close>

record flow_ctx =
  fc_actor :: bool
  fc_provider :: bool
  flowName :: string

text \<open>An activity works on the bag and the world and gives the port to follow or an error.\<close>

type_synonym handler = "flow_ctx \<Rightarrow> Node \<Rightarrow> Bag \<times> World \<Rightarrow> (Bag \<times> World) \<times> (string + string)"

abbreviation go_on :: "Bag \<times> World \<Rightarrow> (Bag \<times> World) \<times> (string + string)" where
  "go_on st \<equiv> (st, Inr [])"

definition acted :: "Bag \<Rightarrow> World \<times> err option \<Rightarrow> (Bag \<times> World) \<times> (string + string)" where
  "acted bag r = ((bag, fst r), case snd r of None \<Rightarrow> Inr [] | Some e \<Rightarrow> Inl ''actor'')"

definition nodeSet :: handler where
  "nodeSet nc n st =
     (let (bag, w) = st; fields = (case Config n ''fields'' of Some (CMap m) \<Rightarrow> m | _ \<Rightarrow> [])
      in go_on (fold (\<lambda>(k, tmpl) bag. bag(k \<mapsto> renderBag tmpl bag)) fields bag, w))"

definition evalCond :: "World \<Rightarrow> string \<Rightarrow> string \<Rightarrow> string \<Rightarrow> bool" where
  "evalCond w op l r =
     (if op = ''eq'' then l = r
      else if op = ''ne'' then l \<noteq> r
      else if op = ''contains'' then index_str r l \<noteq> None
      else if op = ''matches'' then (case re_compile w r of None \<Rightarrow> False | Some re \<Rightarrow> re l)
      else if op = ''gt'' then float_less w (trim_space r) (trim_space l) = Some True
      else if op = ''lt'' then float_less w (trim_space l) (trim_space r) = Some True
      else False)"

definition nodeIf :: handler where
  "nodeIf nc n st =
     (let (bag, w) = st
      in (st, Inr (if evalCond w (rawCfg n ''op'') (cfg n ''left'' bag) (cfg n ''right'' bag) then ''true'' else ''false'')))"

definition nodeSwitch :: handler where
  "nodeSwitch nc n st =
     (let val = cfg n ''value'' (fst st); cases = (case Config n ''cases'' of Some (CList cs) \<Rightarrow> cs | _ \<Rightarrow> [])
      in (st, Inr (if val \<in> set cases then val else ''default'')))"

definition stop_port :: string where "stop_port = nul # ''stop''"

definition nodeStop :: handler where
  "nodeStop nc n st = (st, Inr stop_port)"

definition or_else :: "string \<Rightarrow> string \<Rightarrow> string" where
  "or_else s d = (if s = [] then d else s)"

definition nodeSay :: handler where
  "nodeSay nc n st =
     (if \<not> fc_actor nc then go_on st
      else let (bag, w) = st; channel = or_else (cfg n ''channel'' bag) (bag_str bag ''channel''); t = cfg n ''text'' bag
           in if channel = [] \<or> t = [] then go_on st else acted bag (act (\<lambda>send. Say send channel t) w))"

definition nodeNotice :: handler where
  "nodeNotice nc n st =
     (if \<not> fc_actor nc then go_on st
      else let (bag, w) = st; tgt = or_else (cfg n ''target'' bag) (bag_str bag ''channel''); t = cfg n ''text'' bag
           in if tgt = [] \<or> t = [] then go_on st else acted bag (act (\<lambda>send. Notice send tgt t) w))"

definition nodeEffect :: handler where
  "nodeEffect nc n st =
     (if \<not> fc_actor nc then go_on st
      else let (bag, w) = st; channel = or_else (cfg n ''channel'' bag) (bag_str bag ''channel'');
               tgt = or_else (cfg n ''target'' bag) (bag_str bag ''user''); reason = cfg n ''reason'' bag; a = rawCfg n ''action''
           in if channel = [] then go_on st
              else if a = EffectKick then acted bag (act (\<lambda>send. Kick send channel tgt reason) w)
              else if a = EffectBan then acted bag (act (\<lambda>send. Ban send channel tgt) w)
              else if a = EffectMute then acted bag (act (\<lambda>send. SetMode send channel ''+q'' [tgt]) w)
              else if a = EffectOp then acted bag (act (\<lambda>send. Op send channel tgt) w)
              else if a = EffectVoice then acted bag (act (\<lambda>send. Voice send channel tgt) w)
              else if a = EffectMode then acted bag (act (\<lambda>send. SetMode send channel (cfg n ''modes'' bag) []) w)
              else if a = EffectTopic then acted bag (act (\<lambda>send. set_topic send channel (cfg n ''reason'' bag)) w)
              else go_on st)"

definition nodeLLM :: handler where
  "nodeLLM nc n st =
     (if \<not> fc_provider nc then go_on st
      else let (bag, w) = st; sys = cfg n ''system'' bag;
               opts = [WithMaxTokens 512] @ (if sys \<noteq> [] then [WithSystem sys] else []) @ model_opts (rawCfg n ''model'');
               (w, r) = provider_Ask (cfg n ''prompt'' bag) opts w
           in case r of
                Inl _ \<Rightarrow> ((bag, w), Inl ''llm'')
              | Inr (answer, _) \<Rightarrow>
                  go_on (bag(or_else (rawCfg n ''into'') ''llm'' \<mapsto> collapse_blanks answer), w))"

definition maxWebhookRetries :: int where "maxWebhookRetries = 5"
definition defaultBackoffSec :: int where "defaultBackoffSec = 3"
definition minBackoffSec :: int where "minBackoffSec = 1"
definition maxBackoffSec :: int where "maxBackoffSec = 30"
definition maxWebhookBackoff :: duration where "maxWebhookBackoff = maxBackoffSec * 10 ^ 9"
definition maxWebhookBody :: nat where "maxWebhookBody = 64 * 1024"

definition retryable :: "post_err \<Rightarrow> bool" where
  "retryable e = (case e of HttpStatus s \<Rightarrow> s = 429 \<or> s \<ge> 500 | Transport _ \<Rightarrow> True)"

definition cancelled :: post_err where "cancelled = Transport ''context canceled''"

text \<open>The attempts left are the fuel: the loop ends when \<open>attempt\<close> reaches \<open>retries\<close>. The list is the waits.\<close>

function post_attempts ::
  "(World \<Rightarrow> World \<times> (post_err + string)) \<Rightarrow> int \<Rightarrow> int \<Rightarrow> int \<Rightarrow> World \<Rightarrow> World \<times> duration list \<times> (post_err + string)" where
  "post_attempts post retries backoffSec attempt w =
     (case post w of
        (w, Inr resp) \<Rightarrow> (w, [], Inr resp)
      | (w, Inl e) \<Rightarrow>
          (if attempt \<ge> retries \<or> \<not> retryable e then (w, [], Inl e)
           else let wait = min (backoffSec * (attempt + 1) * 10 ^ 9) maxWebhookBackoff
                in if ctx_done w (length (posted w)) then (w, [wait], Inl cancelled)
                   else let (w, waits, r) = post_attempts post retries backoffSec (attempt + 1) w in (w, wait # waits, r)))"
  by pat_completeness auto
termination by (relation "measure (\<lambda>(post, retries, b, attempt, w). nat (retries - attempt))") auto

declare post_attempts.simps [simp del]

definition postWithRetry ::
  "string \<Rightarrow> string \<Rightarrow> (string \<times> string) list \<Rightarrow> string option \<Rightarrow> int \<Rightarrow> int \<Rightarrow> World \<Rightarrow>
   World \<times> duration list \<times> (post_err + string)" where
  "postWithRetry meth url hs body retries backoffSec w =
     post_attempts (do_post meth url hs [] body) retries backoffSec 0 w"

definition webhookMethod :: "string \<Rightarrow> string" where
  "webhookMethod m =
     (let u = to_upper (trim_space m) in if u \<in> {''GET'', ''PUT'', ''PATCH'', ''DELETE''} then u else ''POST'')"

definition webhookHeaders :: "Node \<Rightarrow> Bag \<Rightarrow> (string \<times> string) list" where
  "webhookHeaders n bag =
     (case Config n ''headers'' of Some (CMap m) \<Rightarrow> map (\<lambda>(k, v). (k, renderBag v bag)) m | _ \<Rightarrow> [])"

definition nodeWebhook :: handler where
  "nodeWebhook nc n st =
     (let (bag, w) = st; url = cfg n ''url'' bag
      in if url = [] then go_on st
         else let body = (let b = trim_space (cfg n ''body'' bag) in if b \<noteq> [] then b else bag_json w bag);
                  retries = clamp (cfgInt n ''retries'' 0) 0 maxWebhookRetries;
                  backoff = clamp (cfgInt n ''retry_backoff'' defaultBackoffSec) minBackoffSec maxBackoffSec;
                  (w, waits, r) = postWithRetry (webhookMethod (cfg n ''method'' bag)) url (webhookHeaders n bag) (Some body)
                                    retries backoff w
              in case r of
                   Inl _ \<Rightarrow> go_on (bag, w)
                 | Inr resp \<Rightarrow>
                     (let into = rawCfg n ''into''
                      in go_on (if into \<noteq> [] then bag(into \<mapsto> take maxWebhookBody resp) else bag, w)))"

definition nodeSetvar :: handler where
  "nodeSetvar nc n st =
     (let (bag, w) = st
      in go_on (bag, w\<lparr>sk_store := store_Set (now_w w) (flowName nc) (cfg n ''key'' bag) (cfg n ''value'' bag) 0 (sk_store w)\<rparr>))"

definition nodeGetvar :: handler where
  "nodeGetvar nc n st =
     (let (bag, w) = st; (s, v) = store_Get (now_w w) (flowName nc) (cfg n ''key'' bag) (sk_store w)
      in go_on (bag(or_else (rawCfg n ''into'') ''var'' \<mapsto> (case v of None \<Rightarrow> [] | Some v \<Rightarrow> v)), w\<lparr>sk_store := s\<rparr>))"

definition nodeIncr :: handler where
  "nodeIncr nc n st =
     (let (bag, w) = st; key = cfg n ''key'' bag
      in if key = [] then go_on st
         else let (s, cur) = store_Get (now_w w) (flowName nc) key (sk_store w);
                  base = atoi_value (trim_space (case cur of None \<Rightarrow> [] | Some v \<Rightarrow> v));
                  by_str = trim_space (cfg n ''by'' bag);
                  step = (case atoi by_str of Some v \<Rightarrow> v | None \<Rightarrow> 1);
                  next_str = itoa (wrap64 (base + step));
                  s = store_Set (now_w w) (flowName nc) key next_str 0 s
              in go_on (bag(or_else (cfg n ''into'' bag) key \<mapsto> next_str), w\<lparr>sk_store := s\<rparr>))"

definition lookup_node :: "string \<Rightarrow> handler option" where
  "lookup_node name =
     map_of [(''set'', nodeSet), (''if'', nodeIf), (''switch'', nodeSwitch), (''stop'', nodeStop), (''say'', nodeSay),
             (''notice'', nodeNotice), (''effect'', nodeEffect), (''llm'', nodeLLM), (''webhook'', nodeWebhook),
             (''setvar'', nodeSetvar), (''getvar'', nodeGetvar), (''incr'', nodeIncr)] name"

section \<open>The walk\<close>

definition maxSteps :: nat where "maxSteps = 256"

definition node_at :: "Flow \<Rightarrow> string \<Rightarrow> Node option" where
  "node_at f i = map_of (rev (map (\<lambda>n. (nd_ID n, n)) (Nodes f))) i"

text \<open>The steps left are the fuel: the ceiling stops the walk.\<close>

fun flow_walk :: "nat \<Rightarrow> flow_ctx \<Rightarrow> Flow \<Rightarrow> string list \<Rightarrow> Bag \<times> World \<Rightarrow> Bag \<times> World" where
  "flow_walk k nc f [] st = st"
| "flow_walk 0 nc f (i # q) st = st"
| "flow_walk (Suc k) nc f (i # q) st =
     (case node_at f i of
        None \<Rightarrow> flow_walk k nc f q st
      | Some n \<Rightarrow>
          (case lookup_node (nd_Type n) of
             None \<Rightarrow> flow_walk k nc f q st
           | Some h \<Rightarrow>
               (case h nc n st of
                  (st, Inl e) \<Rightarrow> flow_walk k nc f q st
                | (st, Inr port) \<Rightarrow>
                    flow_walk k nc f (if port = stop_port then q else q @ successors f i port) st)))"

section \<open>The engine\<close>

record compiled_flow =
  cf_flow :: Flow
  cf_re :: "(string \<Rightarrow> bool) option"
  cf_channels :: "string list option"

record FlowEngine =
  fe_actor :: bool
  fe_provider :: bool
  fe_platform :: string
  fe_owner :: string
  fe_prefix :: string
  maxFlows :: int
  fe_events :: "compiled_flow list"
  fe_matches :: "compiled_flow list"
  fe_commands :: "compiled_flow list"
  fe_webhooks :: "string \<rightharpoonup> compiled_flow"

definition NewFlowEngine :: "bool \<Rightarrow> bool \<Rightarrow> string \<Rightarrow> string \<Rightarrow> string \<Rightarrow> int \<Rightarrow> FlowEngine" where
  "NewFlowEngine actor provider platform owner pre n =
     \<lparr>fe_actor = actor, fe_provider = provider, fe_platform = platform, fe_owner = owner,
      fe_prefix = (if pre = [] then ''!'' else pre), maxFlows = n, fe_events = [], fe_matches = [], fe_commands = [],
      fe_webhooks = Map.empty\<rparr>"

definition SetMaxFlows :: "int \<Rightarrow> FlowEngine \<Rightarrow> FlowEngine" where
  "SetMaxFlows n e = e\<lparr>maxFlows := n\<rparr>"

definition validate_flow :: "Flow \<Rightarrow> bool" where
  "validate_flow f = list_all (\<lambda>n. lookup_node (nd_Type n) \<noteq> None) (Nodes f)"

type_synonym flow_sets =
  "compiled_flow list \<times> compiled_flow list \<times> compiled_flow list \<times> (string \<rightharpoonup> compiled_flow) \<times> int"

definition install_flow :: "(string \<Rightarrow> (string \<Rightarrow> bool) option) \<Rightarrow> Flow \<Rightarrow> flow_sets \<Rightarrow> flow_sets" where
  "install_flow compile f acc =
     (let (evs, ms, cs, ws, n) = acc; kind = triggerKind f;
          c = (\<lambda>re. \<lparr>cf_flow = f, cf_re = re, cf_channels = channelSet (tr_Channels (fl_Trigger f))\<rparr>)
      in if \<not> validate_flow f then acc
         else if kind = KindCommand then
           (if trim_space (tr_Command (fl_Trigger f)) = [] then acc else (evs, ms, cs @ [c None], ws, n + 1))
         else if kind = KindMatch then
           (case compile (tr_Match (fl_Trigger f)) of None \<Rightarrow> acc | Some re \<Rightarrow> (evs, ms @ [c (Some re)], cs, ws, n + 1))
         else if kind = KindEvent then (evs @ [c None], ms, cs, ws, n + 1)
         else if kind = KindWebhook then
           (let key = to_lower (trim_space (fl_Name f))
            in if key = [] then acc else (evs, ms, cs, ws(key \<mapsto> c None), n + 1))
         else acc)"

fun install_flows :: "(string \<Rightarrow> (string \<Rightarrow> bool) option) \<Rightarrow> int \<Rightarrow> Flow list \<Rightarrow> flow_sets \<Rightarrow> flow_sets" where
  "install_flows compile limit [] acc = acc"
| "install_flows compile limit (f # fs) acc =
     (if limit \<noteq> -1 \<and> snd (snd (snd (snd acc))) \<ge> limit then acc
      else install_flows compile limit fs (install_flow compile f acc))"

definition ReplaceFlows :: "(string \<Rightarrow> (string \<Rightarrow> bool) option) \<Rightarrow> Flow list \<Rightarrow> FlowEngine \<Rightarrow> FlowEngine" where
  "ReplaceFlows compile fs e =
     (let (evs, ms, cs, ws, n) = install_flows compile (maxFlows e) fs ([], [], [], Map.empty, 0)
      in e\<lparr>fe_events := evs, fe_matches := ms, fe_commands := cs, fe_webhooks := ws\<rparr>)"

definition run_flow :: "FlowEngine \<Rightarrow> Flow \<Rightarrow> Bag \<Rightarrow> World \<Rightarrow> World" where
  "run_flow e f bag w =
     snd (flow_walk maxSteps \<lparr>fc_actor = fe_actor e, fc_provider = fe_provider e, flowName = fl_Name f\<rparr> f (entryNodes f) (bag, w))"

definition RunOnce :: "FlowEngine \<Rightarrow> Flow \<Rightarrow> Bag \<Rightarrow> World \<Rightarrow> World" where
  "RunOnce e f bag w =
     (let bag = (if bag ''platform'' = None then bag(''platform'' \<mapsto> fe_platform e) else bag);
          bag = (if bag ''owner'' = None then bag(''owner'' \<mapsto> fe_owner e) else bag)
      in run_flow e f bag w)"

definition FireFlowWebhook :: "FlowEngine \<Rightarrow> string \<Rightarrow> Bag \<Rightarrow> World \<Rightarrow> World \<times> bool" where
  "FireFlowWebhook e name bag w =
     (case fe_webhooks e (to_lower (trim_space name)) of
        None \<Rightarrow> (w, False)
      | Some c \<Rightarrow>
          (let bag = (case tr_Channels (fl_Trigger (cf_flow c)) of [] \<Rightarrow> bag | ch # _ \<Rightarrow> bag(''channel'' \<mapsto> ch))
           in (run_flow e (cf_flow c) (bag(''platform'' \<mapsto> fe_platform e, ''owner'' \<mapsto> fe_owner e)) w, True)))"

text \<open>\<^verbatim>\<open>parseCommand\<close>: unlike the registry's, the word ends at a blank only.\<close>

definition flow_command :: "string \<Rightarrow> string \<Rightarrow> (string \<times> string) option" where
  "flow_command t pre =
     (if pre = [] \<or> \<not> prefix pre t then None
      else let rest = trim_left (\<lambda>c. c = sp \<or> c = CHR 0x09) (drop (length pre) t)
           in if rest = [] then None
              else let word = takeWhile (\<lambda>c. c \<noteq> sp) rest
                   in Some (to_lower word, trim_space (drop (Suc (length word)) rest)))"

definition flow_onMessage :: "FlowEngine \<Rightarrow> InboundEnvelope \<Rightarrow> World \<Rightarrow> World" where
  "flow_onMessage e env w =
     (let bag = [''user'' \<mapsto> Sender env, ''channel'' \<mapsto> env_Channel env, ''text'' \<mapsto> env_Text env, ''platform'' \<mapsto> fe_platform e,
                 ''owner'' \<mapsto> fe_owner e];
          w = fold (\<lambda>m w. if \<not> channelAllowed (cf_channels m) (env_Channel env) then w
                          else if (case cf_re m of None \<Rightarrow> False | Some re \<Rightarrow> \<not> re (env_Text env)) then w
                          else run_flow e (cf_flow m) bag w) (fe_matches e) w
      in if fe_commands e = [] then w
         else case flow_command (env_Text env) (fe_prefix e) of
                None \<Rightarrow> w
              | Some (name, args) \<Rightarrow>
                  fold (\<lambda>c w. if \<not> equal_fold (trim_space (tr_Command (fl_Trigger (cf_flow c)))) name then w
                              else if \<not> channelAllowed (cf_channels c) (env_Channel env) then w
                              else run_flow e (cf_flow c) (bag(''args'' \<mapsto> args)) w) (fe_commands e) w)"

definition bagFromEvent :: "Event \<Rightarrow> Bag" where
  "bagFromEvent ev =
     (let get = str_field (Fields ev); t = ev_Type ev;
          bag = [''channel'' \<mapsto> get ''channel'', ''reason'' \<mapsto> get ''reason'', ''topic'' \<mapsto> get ''topic'', ''modes'' \<mapsto> get ''modes'']
      in if t = EventUserKicked then bag(''user'' \<mapsto> get ''by'', ''target'' \<mapsto> get ''nick'')
         else if t = EventUserNickChange
         then bag(''old'' \<mapsto> get ''old'', ''new'' \<mapsto> get ''new'', ''user'' \<mapsto> get ''old'')
         else if t = EventTopicChanged \<or> t = EventModeChanged then bag(''user'' \<mapsto> get ''by'')
         else bag(''user'' \<mapsto> get ''nick''))"

definition flow_onUserEvent :: "FlowEngine \<Rightarrow> Event \<Rightarrow> World \<Rightarrow> World" where
  "flow_onUserEvent e ev w =
     (let bag = (bagFromEvent ev)(''platform'' \<mapsto> fe_platform e, ''owner'' \<mapsto> fe_owner e)
      in fold (\<lambda>m w. if tr_Event (fl_Trigger (cf_flow m)) \<noteq> ev_Type ev then w
                     else if \<not> channelAllowed (cf_channels m) (bag_str bag ''channel'') then w
                     else run_flow e (cf_flow m) bag w) (fe_events e) w)"

definition flow_event :: "FlowEngine \<Rightarrow> Event \<Rightarrow> World \<Rightarrow> World" where
  "flow_event e ev w =
     (if ev_Type ev = EventMessage then
        (case map_of (Fields ev) ''envelope'' of Some (VInbound env) \<Rightarrow> flow_onMessage e env w | _ \<Rightarrow> w)
      else if validEvent (ev_Type ev) then flow_onUserEvent e ev w else w)"

section \<open>Webhooks are bounded\<close>

definition the_request :: "string \<Rightarrow> string \<Rightarrow> (string \<times> string) list \<Rightarrow> string option \<Rightarrow> request" where
  "the_request meth url hs body = \<lparr>rq_method = meth, rq_url = url, rq_headers = hs, rq_fields = [], rq_body = body\<rparr>"

text \<open>The answer after \<open>k\<close> repetitions and \<open>n\<close> requests in all.\<close>

definition answered :: "World \<Rightarrow> nat \<Rightarrow> nat \<Rightarrow> post_err + string \<Rightarrow> bool" where
  "answered w k n r \<longleftrightarrow> r = post_result w (length (posted w) + k) \<or> ctx_done w n \<and> r = Inl cancelled"

lemma post_attempts_shape:
  assumes "post_attempts (do_post meth url hs [] body) retries b a w = (w', waits, r)" "0 \<le> a" "1 \<le> b"
  shows "\<exists>k. w' = w\<lparr>posted := posted w @ replicate (Suc k) (the_request meth url hs body)\<rparr> \<and> k \<le> length waits \<and>
    length waits \<le> nat (retries - a) \<and> answered w k (length (posted w')) r \<and>
    list_all (\<lambda>t. 10 ^ 9 \<le> t \<and> t \<le> maxWebhookBackoff) waits \<and>
    (\<forall>i<k. \<exists>e. post_result w (length (posted w) + i) = Inl e \<and> retryable e)"
  using assms
proof (induction "nat (retries - a)" arbitrary: a w w' waits r rule: less_induct)
  case less
  let ?rq = "the_request meth url hs body" and ?post = "do_post meth url hs [] body"
  define w1 where "w1 = w\<lparr>posted := posted w @ [?rq]\<rparr>"
  have P: "?post w = (w1, post_result w (length (posted w)))" by (simp add: do_post_def w1_def the_request_def)
  note E = less.prems(1) [unfolded post_attempts.simps [of ?post retries b a w] P]
  show ?case
  proof (cases "post_result w (length (posted w))")
    case (Inr resp)
    then show ?thesis using E by (intro exI [of _ 0]) (auto simp: w1_def answered_def)
  next
    case (Inl e)
    show ?thesis
    proof (cases "a \<ge> retries \<or> \<not> retryable e")
      case True
      then show ?thesis using E Inl by (intro exI [of _ 0]) (auto simp: w1_def answered_def)
    next
      case False
      define wait where "wait = min (b * (a + 1) * 10 ^ 9) maxWebhookBackoff"
      have "1 \<le> b * (a + 1)" using less.prems(2,3) mult_mono [of 1 b 1 "a + 1"] by simp
      then have wait: "10 ^ 9 \<le> wait" "wait \<le> maxWebhookBackoff"
        by (simp_all add: wait_def maxWebhookBackoff_def maxBackoffSec_def)
      show ?thesis
      proof (cases "ctx_done w1 (length (posted w1))")
        case True
        then show ?thesis using E Inl False wait by (intro exI [of _ 0]) (auto simp: w1_def wait_def answered_def)
      next
        case cont: False
        obtain w2 ws where R: "post_attempts ?post retries b (a + 1) w1 = (w2, ws, r)" "waits = wait # ws" "w' = w2"
          using E Inl False cont by (auto simp: wait_def split: prod.splits)
        have "nat (retries - (a + 1)) < nat (retries - a)" using False by auto
        moreover have "0 \<le> a + 1" using less.prems(2) by simp
        ultimately obtain k where
          k: "w2 = w1\<lparr>posted := posted w1 @ replicate (Suc k) ?rq\<rparr>" "k \<le> length ws" "length ws \<le> nat (retries - (a + 1))"
            "answered w1 k (length (posted w2)) r" "list_all (\<lambda>t. 10 ^ 9 \<le> t \<and> t \<le> maxWebhookBackoff) ws"
            "\<forall>i<k. \<exists>e. post_result w1 (length (posted w1) + i) = Inl e \<and> retryable e"
          using less.hyps [OF _ R(1) _ less.prems(3)] by blast
        have "\<exists>e. post_result w (length (posted w) + i) = Inl e \<and> retryable e" if "i < Suc k" for i
          using k(6) Inl False that by (cases i) (auto simp: w1_def)
        moreover have "Suc (length ws) \<le> nat (retries - a)" using k(3) False by auto
        moreover have "answered w (Suc k) (length (posted w2)) r" using k(4) by (simp add: answered_def w1_def)
        moreover have "w' = w\<lparr>posted := posted w @ replicate (Suc (Suc k)) ?rq\<rparr>" using k(1) R(3) by (simp add: w1_def)
        ultimately show ?thesis using k(2,5) R(2,3) wait by (intro exI [of _ "Suc k"] conjI) simp_all
      qed
    qed
  qed
qed

text \<open>A webhook is posted once, and again only while the answers are worth a retry: a transport error, 429 or a server
  error. All requests are the same; there are at most as many repetitions as configured; every wait is between one and
  thirty seconds; the answer taken is that of the last request sent, unless the run was cancelled during a wait.\<close>

theorem webhook_retries:
  assumes "postWithRetry meth url hs body retries backoffSec w = (w', waits, r)" "0 \<le> retries" "1 \<le> backoffSec"
  shows "\<exists>k. w' = w\<lparr>posted := posted w @ replicate (Suc k) (the_request meth url hs body)\<rparr> \<and>
    int k \<le> retries \<and> int (length waits) \<le> retries \<and> list_all (\<lambda>t. 10 ^ 9 \<le> t \<and> t \<le> 30 * 10 ^ 9) waits \<and>
    (r = post_result w (length (posted w) + k) \<or> ctx_done w (length (posted w')) \<and> r = Inl cancelled) \<and>
    list_all (\<lambda>i. case post_result w (length (posted w) + i) of
        Inr _ \<Rightarrow> False | Inl (Transport _) \<Rightarrow> True | Inl (HttpStatus s) \<Rightarrow> s = 429 \<or> s \<ge> 500) [0 ..< k]"
proof -
  obtain k where
    k: "w' = w\<lparr>posted := posted w @ replicate (Suc k) (the_request meth url hs body)\<rparr>" "k \<le> length waits"
      "length waits \<le> nat (retries - 0)" "answered w k (length (posted w')) r"
      "list_all (\<lambda>t. 10 ^ 9 \<le> t \<and> t \<le> maxWebhookBackoff) waits"
      "\<forall>i<k. \<exists>e. post_result w (length (posted w) + i) = Inl e \<and> retryable e"
    using post_attempts_shape [OF assms(1) [unfolded postWithRetry_def] order_refl assms(3)] by blast
  have "case post_result w (length (posted w) + i) of
      Inr _ \<Rightarrow> False | Inl (Transport _) \<Rightarrow> True | Inl (HttpStatus s) \<Rightarrow> s = 429 \<or> s \<ge> 500" if i: "i < k" for i
  proof -
    obtain e where "post_result w (length (posted w) + i) = Inl e" "retryable e" using k(6) i by blast
    then show ?thesis by (cases e) (simp_all add: retryable_def)
  qed
  moreover have "int k \<le> retries" "int (length waits) \<le> retries" using k(2,3) assms(2) by linarith+
  moreover have "list_all (\<lambda>t. 10 ^ 9 \<le> t \<and> t \<le> 30 * 10 ^ 9) waits" using k(5) by (simp add: maxWebhookBackoff_def maxBackoffSec_def)
  ultimately show ?thesis using k(1) k(4) [unfolded answered_def]
    by (intro exI [of _ k] conjI) (simp_all add: list_all_iff)
qed

text \<open>An endpoint that is down twice and then answers.\<close>

definition shaky_world :: World where
  "shaky_world = (sample_world (NewConnector sample_settings True 0))\<lparr>post_result :=
     (\<lambda>i. if i < 2 then Inl (HttpStatus 503) else Inr ''ok'')\<rparr>"

section \<open>A run is bounded\<close>

definition within_cost :: "nat \<Rightarrow> World \<Rightarrow> World \<Rightarrow> bool" where
  "within_cost n w w' \<longleftrightarrow> length (asked w') \<le> length (asked w) + n \<and> length (posted w') \<le> length (posted w) + 6 * n"

lemma within_cost_refl [simp]: "within_cost n w w"
  by (simp add: within_cost_def)

lemma within_cost_trans: "within_cost 1 u v \<Longrightarrow> within_cost k v w \<Longrightarrow> within_cost (Suc k) u w"
  by (auto simp: within_cost_def)

lemma act_cost: "within_cost 1 w (fst (act a w))"
proof -
  obtain c where "fst (act a w) = w\<lparr>irc := c\<rparr>" using act_irc by blast
  then show ?thesis by (simp add: within_cost_def)
qed

lemma acted_cost: "acted bag (act a w) = (st, r) \<Longrightarrow> within_cost 1 w (snd st)"
  using act_cost [of w a] by (auto simp: acted_def)

lemma provider_cost: "provider_Ask p opts w = (w', r) \<Longrightarrow> within_cost 1 w w'"
  by (auto simp: provider_Ask_def model_Ask_def budgeted_Ask_def report_usage_def publish_w_def on_irc_def Let_def
      within_cost_def split: prod.splits if_splits sum.splits)

lemma webhook_cost: "nodeWebhook nc n (bag, w) = (st, r) \<Longrightarrow> within_cost 1 w (snd st)"
proof -
  assume a: "nodeWebhook nc n (bag, w) = (st, r)"
  define retries backoff where "retries = clamp (cfgInt n ''retries'' 0) 0 maxWebhookRetries"
    and "backoff = clamp (cfgInt n ''retry_backoff'' defaultBackoffSec) minBackoffSec maxBackoffSec"
  have R: "0 \<le> retries" "retries \<le> 5" "1 \<le> backoff"
    by (simp_all add: retries_def backoff_def clamp_def maxWebhookRetries_def minBackoffSec_def maxBackoffSec_def)
  have "within_cost 1 w (fst (postWithRetry m u h b retries backoff w))" for m u h b
  proof -
    obtain w' waits q where p: "postWithRetry m u h b retries backoff w = (w', waits, q)" by (rule prod_cases3)
    from post_attempts_shape [OF p [unfolded postWithRetry_def] _ R(3)] R(2) show ?thesis
      by (auto simp: p within_cost_def)
  qed
  then show ?thesis
    using a unfolding nodeWebhook_def retries_def [symmetric] backoff_def [symmetric] Let_def
    by (auto split: if_splits prod.splits sum.splits) (metis fst_conv)+
qed

lemma go_cost: "(go_on (bag, w)) = (st, r) \<Longrightarrow> within_cost 1 w (snd st)"
  by auto

lemma handler_cost:
  assumes "lookup_node t = Some h" "h nc n (bag, w) = (st, r)"
  shows "within_cost 1 w (snd st)"
proof -
  consider "h \<in> {nodeSet, nodeIf, nodeSwitch, nodeStop, nodeSetvar, nodeGetvar, nodeIncr}" | "h = nodeSay" | "h = nodeNotice"
    | "h = nodeEffect" | "h = nodeLLM" | "h = nodeWebhook"
    using assms(1) by (auto simp: lookup_node_def split: if_splits)
  then show ?thesis
  proof cases
    case 1
    then have "asked (snd st) = asked w \<and> posted (snd st) = posted w"
      using assms(2) by (auto simp: nodeSet_def nodeIf_def nodeSwitch_def nodeStop_def nodeSetvar_def nodeGetvar_def nodeIncr_def
          Let_def split: prod.splits if_splits)
    then show ?thesis by (simp add: within_cost_def)
  next
    case 2
    with assms(2) show ?thesis by (auto simp: nodeSay_def Let_def dest: acted_cost split: if_splits)
  next
    case 3
    with assms(2) show ?thesis by (auto simp: nodeNotice_def Let_def dest: acted_cost split: if_splits)
  next
    case 4
    with assms(2) show ?thesis by (auto simp: nodeEffect_def Let_def dest: acted_cost split: if_splits)
  next
    case 5
    with assms(2) show ?thesis
      by (auto simp: nodeLLM_def Let_def dest: provider_cost split: if_splits prod.splits sum.splits)
  next
    case 6
    with assms(2) webhook_cost show ?thesis by metis
  qed
qed

lemma walk_cost: "within_cost k (snd st) (snd (flow_walk k nc f q st))"
proof (induction k nc f q st rule: flow_walk.induct)
  case (3 k nc f i q st)
  have weaker: "within_cost k u v \<Longrightarrow> within_cost (Suc k) u v" for u v by (auto simp: within_cost_def)
  show ?case
  proof (cases "node_at f i")
    case None
    then show ?thesis using 3(1) weaker by simp
  next
    case (Some n)
    show ?thesis
    proof (cases "lookup_node (nd_Type n)")
      case None
      then show ?thesis using 3(2) Some weaker by simp
    next
      case h: (Some h)
      obtain st' r where s: "h nc n st = (st', r)" by fastforce
      have one: "within_cost 1 (snd st) (snd st')" using handler_cost [OF h, of nc n "fst st" "snd st"] s by simp
      show ?thesis
      proof (cases r)
        case (Inl e)
        then have "within_cost k (snd st') (snd (flow_walk k nc f q st'))" using 3(3) Some h s by metis
        then show ?thesis using within_cost_trans [OF one] Some h s Inl by simp
      next
        case (Inr port)
        then have "within_cost k (snd st') (snd (flow_walk k nc f (if port = stop_port then q else q @ successors f i port) st'))"
          using 3(4) Some h s by metis
        then show ?thesis using within_cost_trans [OF one] Some h s Inr by simp
      qed
    qed
  qed
qed simp_all

text \<open>C17: whatever graph an operator writes, cyclic or not, whatever the bag holds and however the endpoints answer, one run
  asks the model at most 256 times and sends at most 1536 webhook requests, and returns.\<close>

theorem run_bounded:
  "length (asked (run_flow e f bag w)) \<le> length (asked w) + 256 \<and>
   length (posted (run_flow e f bag w)) \<le> length (posted w) + 1536"
  using walk_cost [of maxSteps "(bag, w)"] unfolding run_flow_def within_cost_def maxSteps_def by simp

end
