(* ===== verification/Persist.thy ===== *)
theory Persist
  imports World "HOL-Library.AList"
begin

text \<open>
  The writer of the message history: \<^verbatim>\<open>storeDedupe\<close> and \<^verbatim>\<open>makeStoreSubmitter\<close> of \<^verbatim>\<open>internal/runtime/runtime.go\<close>,
  subscribed to \<^verbatim>\<open>MESSAGE\<close> and \<^verbatim>\<open>MESSAGE_SENT\<close>. A message the bot sends is seen twice, as sent and as the echo of the
  server; it is stored once. The map of the sightings is an association list with distinct keys.
\<close>

section \<open>Sightings\<close>

definition storeDedupeWindow :: duration where "storeDedupeWindow = 3 * 10 ^ 9"

definition seen_limit :: nat where "seen_limit = 512"

definition firstSight :: "string \<Rightarrow> instant \<Rightarrow> (string \<times> instant) list \<Rightarrow> (string \<times> instant) list \<times> bool" where
  "firstSight key now seen =
     (case map_of seen key of
        Some t \<Rightarrow>
          (if now - t < storeDedupeWindow then (AList.update key now seen, False)
           else let seen = AList.update key now seen
                in (if length seen > seen_limit then filter (\<lambda>(k, t). \<not> now - t \<ge> storeDedupeWindow) seen else seen, True))
      | None \<Rightarrow>
          (let seen = AList.update key now seen
           in (if length seen > seen_limit then filter (\<lambda>(k, t). \<not> now - t \<ge> storeDedupeWindow) seen else seen, True)))"

section \<open>Rows\<close>

text \<open>The fields a row takes from an event, the explicit ones before those of its envelope.\<close>

definition text_field :: "(string \<times> val) list \<Rightarrow> string \<Rightarrow> string" where
  "text_field fs k = (case map_of fs k of Some (VStr s) \<Rightarrow> s | _ \<Rightarrow> [])"

definition or_field :: "string \<Rightarrow> string \<Rightarrow> string" where
  "or_field a b = (if a = [] then b else a)"

definition event_row :: "string \<Rightarrow> Event \<Rightarrow> string \<times> string \<times> string" where
  "event_row botNick ev =
     (let ch = text_field (Fields ev) ''channel''; nick = text_field (Fields ev) ''sender''; t = text_field (Fields ev) ''text''
      in case map_of (Fields ev) ''envelope'' of
           Some (VOutbound env) \<Rightarrow> (or_field ch (out_Channel env), or_field nick botNick, or_field t (out_Text env))
         | Some (VInbound env) \<Rightarrow> (or_field ch (env_Channel env), or_field nick (Sender env), or_field t (env_Text env))
         | _ \<Rightarrow> (ch, nick, t))"

definition row_key :: "string \<times> string \<times> string \<Rightarrow> string" where
  "row_key r = (case r of (ch, nick, t) \<Rightarrow> ch @ [nul] @ nick @ [nul] @ t)"

definition row_message :: "instant \<Rightarrow> string \<times> string \<times> string \<Rightarrow> Message" where
  "row_message now r =
     (case r of (ch, nick, t) \<Rightarrow> \<lparr>m_ID = [], m_Channel = ch, m_Nick = nick, m_Text = t, m_TS = now\<rparr>)"

definition complete_row :: "string \<times> string \<times> string \<Rightarrow> bool" where
  "complete_row r \<longleftrightarrow> (case r of (ch, nick, t) \<Rightarrow> ch \<noteq> [] \<and> nick \<noteq> [] \<and> t \<noteq> [])"

definition submit_event :: "Event \<Rightarrow> World \<Rightarrow> World" where
  "submit_event ev w =
     (let r = event_row (currentNick (irc w)) ev
      in if \<not> complete_row r then w
         else let (seen, first) = firstSight (row_key r) (now_w w) (w_seen w); w = w\<lparr>w_seen := seen\<rparr>
              in if \<not> first then w
                 else w\<lparr>w_store := map_option (Submit (row_message (now_w w) r)) (w_store w)\<rparr>)"

definition clampReplayDepth :: "int \<Rightarrow> int" where
  "clampReplayDepth n = (if n < 1 then 200 else if n > 2000 then 2000 else n)"

section \<open>The sightings kept decide like all of them\<close>

text \<open>A key is fresh when it was not sighted, whatever the verdict then was, within the window.\<close>

definition fresh :: "(string \<times> instant) list \<Rightarrow> string \<Rightarrow> instant \<Rightarrow> bool" where
  "fresh hist key now \<longleftrightarrow> list_all (\<lambda>(k, t). k = key \<longrightarrow> now - t \<ge> storeDedupeWindow) hist"

definition last_of :: "(string \<times> instant) list \<Rightarrow> string \<Rightarrow> instant option" where
  "last_of hist key = map_of (rev hist) key"

definition tracks :: "(string \<times> instant) list \<Rightarrow> instant \<Rightarrow> (string \<times> instant) list \<Rightarrow> bool" where
  "tracks hist now seen \<longleftrightarrow> distinct (map fst seen) \<and>
     (\<forall>k. map_of seen k = last_of hist k \<or> map_of seen k = None \<and> fresh hist k now)"

lemma fresh_last:
  assumes "sorted (map snd hist)"
  shows "fresh hist k now \<longleftrightarrow> (case last_of hist k of None \<Rightarrow> True | Some t \<Rightarrow> now - t \<ge> storeDedupeWindow)"
  using assms
proof (induction hist rule: rev_induct)
  case (snoc x hist)
  obtain a t where x: "x = (a, t)" by (cases x)
  have S: "sorted (map snd hist)" "\<And>b u. (b, u) \<in> set hist \<Longrightarrow> u \<le> t" using snoc.prems by (fastforce simp: x sorted_append)+
  show ?case
  proof (cases "a = k")
    case True
    have "fresh hist k now" if "now - t \<ge> storeDedupeWindow" using that S(2) by (fastforce simp: fresh_def list_all_iff)
    then show ?thesis using True by (auto simp: x fresh_def last_of_def)
  next
    case False
    then show ?thesis using snoc.IH [OF S(1)] by (simp add: x fresh_def last_of_def)
  qed
qed (simp add: fresh_def last_of_def)

lemma fresh_later: "fresh hist k now \<Longrightarrow> now \<le> now' \<Longrightarrow> fresh hist k now'"
  by (auto simp: fresh_def list_all_iff)

lemma tracks_later: "tracks hist now seen \<Longrightarrow> now \<le> now' \<Longrightarrow> tracks hist now' seen"
  using fresh_later by (auto simp: tracks_def)

lemma map_of_filter_keys:
  "distinct (map fst xs) \<Longrightarrow>
   map_of (filter (\<lambda>(k, t). P t) xs) k = (case map_of xs k of Some t \<Rightarrow> if P t then Some t else None | None \<Rightarrow> None)"
proof (induction xs)
  case (Cons x xs)
  have "map_of xs k = None" if "k = fst x" using that Cons.prems by (simp add: map_of_eq_None_iff)
  with Cons show ?case by (cases x) (auto split: option.splits)
qed simp

lemma firstSight_tracks:
  assumes T: "tracks hist now seen" and S: "sorted (map snd hist @ [now])" and F: "firstSight key now seen = (seen', ok)"
  shows "ok = fresh hist key now \<and> tracks (hist @ [(key, now)]) now seen'"
proof
  have sh: "sorted (map snd hist)" using S by (simp add: sorted_append)
  note fl = fresh_last [OF sh]
  have d: "distinct (map fst seen)" using T by (simp add: tracks_def)
  have k: "map_of seen key = last_of hist key \<or> map_of seen key = None \<and> fresh hist key now" using T by (simp add: tracks_def)
  have ok: "ok = (case map_of seen key of Some t \<Rightarrow> now - t \<ge> storeDedupeWindow | None \<Rightarrow> True)"
    using F by (auto simp: firstSight_def Let_def split: option.splits if_splits)
  show "ok = fresh hist key now" using k ok fl [of key now] by (auto split: option.splits)
  define s1 where "s1 = AList.update key now seen"
  have d1: "distinct (map fst s1)" unfolding s1_def using d by (rule distinct_update)
  have m1: "map_of s1 = (map_of seen)(key \<mapsto> now)" by (simp add: s1_def update_conv')
  have L: "last_of (hist @ [(key, now)]) k = (if k = key then Some now else last_of hist k)" for k
    by (auto simp: last_of_def)
  have fr: "fresh (hist @ [(key, now)]) k t = fresh hist k t" if "k \<noteq> key" for k t
    using that by (simp add: fresh_def)
  have t1: "tracks (hist @ [(key, now)]) now s1"
    using T d1 unfolding tracks_def m1 by (auto simp: L fr)
  have s2: "sorted (map snd (hist @ [(key, now)]))" using S by simp
  have t2: "tracks (hist @ [(key, now)]) now (filter (\<lambda>(k, t). \<not> now - t \<ge> storeDedupeWindow) s1)"
    unfolding tracks_def
  proof (intro conjI allI)
    show "distinct (map fst (filter (\<lambda>(k, t). \<not> now - t \<ge> storeDedupeWindow) s1))" using d1 by (rule distinct_map_filter)
    fix k
    have "map_of s1 k = last_of (hist @ [(key, now)]) k \<or> map_of s1 k = None \<and> fresh (hist @ [(key, now)]) k now"
      using t1 by (simp add: tracks_def)
    then show "map_of (filter (\<lambda>(k, t). \<not> now - t \<ge> storeDedupeWindow) s1) k = last_of (hist @ [(key, now)]) k \<or>
        map_of (filter (\<lambda>(k, t). \<not> now - t \<ge> storeDedupeWindow) s1) k = None \<and> fresh (hist @ [(key, now)]) k now"
      using fresh_last [OF s2, of k now] unfolding map_of_filter_keys [OF d1] by (auto split: option.splits)
  qed
  have "seen' = s1 \<or> seen' = filter (\<lambda>(k, t). \<not> now - t \<ge> storeDedupeWindow) s1"
    using F by (auto simp: firstSight_def Let_def s1_def split: option.splits if_splits)
  with t1 t2 show "tracks (hist @ [(key, now)]) now seen'" by auto
qed

section \<open>Once\<close>

definition event_at :: "instant \<times> Event \<Rightarrow> World \<Rightarrow> World" where
  "event_at tev w = submit_event (snd tev) (on_irc (\<lambda>c. c\<lparr>clock := fst tev\<rparr>) w)"

definition rows_of :: "string \<Rightarrow> (instant \<times> Event) list \<Rightarrow> (instant \<times> string \<times> string \<times> string) list" where
  "rows_of nick evs = filter (complete_row \<circ> snd) (map (\<lambda>(t, ev). (t, event_row nick ev)) evs)"

text \<open>What is to be stored: a row unless the same was sighted in the window before it, stored or not.\<close>

fun once :: "(string \<times> instant) list \<Rightarrow> (instant \<times> string \<times> string \<times> string) list \<Rightarrow> Message list" where
  "once hist [] = []"
| "once hist ((t, r) # rs) =
     (if fresh hist (row_key r) t then [row_message t r] else []) @ once (hist @ [(row_key r, t)]) rs"

lemma once_run:
  assumes "tracks hist now (w_seen w)" "sorted (map snd hist @ now # map fst evs)" "w_store w = Some s"
  shows "w_store (fold event_at evs w) = Some (fold Submit (once hist (rows_of (currentNick (irc w)) evs)) s)"
  using assms
proof (induction evs arbitrary: hist now w s)
  case Nil
  then show ?case by (simp add: rows_of_def)
next
  case (Cons tev evs)
  obtain t ev where tev: "tev = (t, ev)" by (cases tev)
  define w1 r where "w1 = on_irc (\<lambda>c. c\<lparr>clock := t\<rparr>) w" and "r = event_row (currentNick (irc w)) ev"
  have w1: "now_w w1 = t" "w_seen w1 = w_seen w" "w_store w1 = w_store w" "currentNick (irc w1) = currentNick (irc w)"
    by (simp_all add: w1_def on_irc_def)
  have le: "now \<le> t" using Cons.prems(2) by (simp add: tev sorted_append)
  have step: "fold event_at (tev # evs) w = fold event_at evs (submit_event ev w1)"
    by (simp add: event_at_def tev w1_def)
  show ?case
  proof (cases "complete_row r")
    case False
    have "submit_event ev w1 = w1" using False by (simp add: submit_event_def w1(4) r_def)
    moreover have "sorted (map snd hist @ t # map fst evs)" using Cons.prems(2) by (auto simp: tev sorted_append)
    moreover have "rows_of (currentNick (irc w)) (tev # evs) = rows_of (currentNick (irc w)) evs"
      using False by (simp add: rows_of_def tev r_def)
    ultimately show ?thesis
      using Cons.IH [of hist t w1 s] tracks_later [OF Cons.prems(1) le] Cons.prems(3) unfolding step by (simp add: w1)
  next
    case True
    obtain seen' ok where F: "firstSight (row_key r) t (w_seen w) = (seen', ok)" by fastforce
    have "sorted (map snd hist @ [t])" using Cons.prems(2) by (auto simp: tev sorted_append)
    then have ok: "ok = fresh hist (row_key r) t" and T: "tracks (hist @ [(row_key r, t)]) t seen'"
      using firstSight_tracks [OF tracks_later [OF Cons.prems(1) le] _ F] by simp_all
    define m where "m = (if ok then [row_message t r] else [])"
    define w2 where "w2 = submit_event ev w1"
    have w2: "w_seen w2 = seen'" "w_store w2 = Some (fold Submit m s)" "irc w2 = irc w1"
      using True F Cons.prems(3) by (simp_all add: w2_def submit_event_def r_def [symmetric] w1 Let_def m_def)
    have S: "sorted (map snd (hist @ [(row_key r, t)]) @ t # map fst evs)" using Cons.prems(2) by (auto simp: tev sorted_append)
    have "rows_of (currentNick (irc w)) (tev # evs) = (t, r) # rows_of (currentNick (irc w)) evs"
      using True by (simp add: rows_of_def tev r_def)
    moreover have "w_store (fold event_at evs w2) =
        Some (fold Submit (once (hist @ [(row_key r, t)]) (rows_of (currentNick (irc w)) evs)) (fold Submit m s))"
      using Cons.IH [OF _ S w2(2)] T w2(1,3) w1(4) by simp
    ultimately show ?thesis unfolding step w2_def [symmetric] by (simp add: m_def ok)
  qed
qed

text \<open>C23: the history keeps each message once. Over any run of messages received and sent, at times that do not go back,
  the rows stored are exactly those that name a channel, a nick and a text and were not sighted, stored or not, in the
  three seconds before, in order, however often old sightings were thrown away.\<close>

theorem stored_once:
  assumes "w_seen w = []" "w_store w = Some s" "sorted (map fst evs)"
  shows "w_store (fold event_at evs w) = Some (fold Submit (once [] (rows_of (currentNick (irc w)) evs)) s)"
proof (cases evs)
  case Nil
  then show ?thesis using assms by (simp add: rows_of_def)
next
  case (Cons tev es)
  have "tracks [] (fst tev) (w_seen w)" using assms(1) by (simp add: tracks_def fresh_def last_of_def)
  moreover have "sorted (map snd [] @ fst tev # map fst evs)" using assms(3) Cons by simp
  ultimately show ?thesis using once_run [OF _ _ assms(2)] by blast
qed

text \<open>A reply and its echo.\<close>

definition said :: "string \<Rightarrow> Event" where
  "said t = \<lparr>ev_Type = EventMessageSent, Fields = [(''envelope'', VOutbound
     \<lparr>out_ID = 0, out_Connector = ''irc'', out_Instance = [], out_Channel = ''#c'', out_Text = t, out_ReplyTo = None\<rparr>)]\<rparr>"

definition echoed :: "string \<Rightarrow> string \<Rightarrow> Event" where
  "echoed nick t = \<lparr>ev_Type = EventMessage, Fields = [(''envelope'', VInbound (NewInbound 0 0 ''irc'' ''#c'' nick t))]\<rparr>"

theorem stored_once_witness:
  "map_option (\<lambda>s. map m_Text (ms_bucket s ''#c''))
     (w_store (fold event_at [(0, said ''hi''), (10 ^ 9, echoed (st_Nick sample_settings) ''hi''), (2 * 10 ^ 9, said ''ho'')]
        ((sample_world (NewConnector sample_settings True 0))\<lparr>w_store := Some (NewMemoryStore 0)\<rparr>))) =
   Some [''hi'', ''ho'']"
proof -
  let ?w = "(sample_world (NewConnector sample_settings True 0))\<lparr>w_store := Some (NewMemoryStore 0)\<rparr>"
  let ?evs = "[(0, said ''hi''), (10 ^ 9, echoed (st_Nick sample_settings) ''hi''), (2 * 10 ^ 9, said ''ho'')]"
  have n: "currentNick (irc ?w) = st_Nick sample_settings" by (simp add: sample_world_def NewConnector_def)
  have "st_Nick sample_settings \<noteq> []" by (simp add: sample_settings_def ApplyDefaults_def Let_def)
  then have "rows_of (st_Nick sample_settings) ?evs =
      [(0, ''#c'', st_Nick sample_settings, ''hi''), (10 ^ 9, ''#c'', st_Nick sample_settings, ''hi''),
       (2 * 10 ^ 9, ''#c'', st_Nick sample_settings, ''ho'')]"
    by (simp add: rows_of_def event_row_def said_def echoed_def NewInbound_def text_field_def or_field_def complete_row_def)
  moreover have "once [] \<dots> = [row_message 0 (''#c'', st_Nick sample_settings, ''hi''),
      row_message (2 * 10 ^ 9) (''#c'', st_Nick sample_settings, ''ho'')]"
    by (simp add: fresh_def row_key_def storeDedupeWindow_def)
  ultimately show ?thesis
    using stored_once [of ?w "NewMemoryStore 0" ?evs] unfolding n
    by (simp add: sample_world_def row_message_def NewMemoryStore_def Submit_def ms_bucket_def PerChannelCap_def)
qed

end
