(* ===== verification/Wiring.thy ===== *)
theory Wiring
  imports Flow Persist Policy
begin

text \<open>
  \<^verbatim>\<open>internal/runtime/wire.go\<close>: how a bot is put together from its parameters, and how its skills and flows are
  swapped while it runs. A bot is an agent with one IRC connector: the world with the connector, the command registry,
  the live wiring and what the setters of the connector keep for its bouncer. The skills and the flows share one store,
  as they do when a \<^verbatim>\<open>SkillStore\<close> is configured.

  The bus runs the handlers of an event concurrently and waits for them; here they run in the order of their
  subscription: the message store, the skills, the flows.
\<close>

section \<open>Bots\<close>

record Wiring =
  wr_Engine :: SkillEngine
  wr_Scheduler :: "scheduled list"
  wr_Flows :: FlowEngine

record CommonParams =
  CustomCommandsMax :: int
  cp_Limits :: ClientLimits
  cp_Owner :: GuardParams
  OutboundMaxPerWindow :: int
  OutboundWindowSeconds :: int
  cp_OwnerNick :: string
  OwnerDMNudgeEvery :: int
  cp_ReplayDepth :: int
  cp_Commands :: "Skill list"
  cp_Flows :: "Flow list"
  cp_Platform :: string
  cp_LLM :: bool
  LLMInputCap :: int
  LLMOutputCap :: int
  LLMInputUsed :: int
  LLMOutputUsed :: int
  ActivityHook :: bool
  cp_Store :: "MemoryStore option"

record irc_setup =
  su_limits :: ClientLimits
  su_throttle :: "Throttle option"
  su_attachHook :: bool
  su_replayDepth :: int

record Bot =
  bt_world :: World
  bt_reg :: "World CommandRegistry"
  bt_wiring :: "Wiring option"
  bt_setup :: irc_setup
  storeWired :: bool

definition NewBot :: "string \<Rightarrow> World \<Rightarrow> Bot" where
  "NewBot pre w =
     \<lparr>bt_world = w, bt_reg = NewCommandRegistry pre, bt_wiring = None,
      bt_setup = \<lparr>su_limits = \<lparr>NickLocked = False, RealnameLocked = False, MaxChannels = 0, TBSummarizeMaxMessages = 0,
                    AIStrict = False, AIStrictMessage = []\<rparr>, su_throttle = None, su_attachHook = False, su_replayDepth = 0\<rparr>,
      storeWired = False\<rparr>"

section \<open>Swapping skills and flows\<close>

text \<open>The result is \<open>None\<close> where the loop of a cron field would not end, which \<^verbatim>\<open>load_returns\<close> excludes.\<close>

definition ApplySkills :: "flt \<Rightarrow> Skill list \<Rightarrow> World Ask option \<Rightarrow> GuardParams \<Rightarrow> string \<Rightarrow> Bot \<Rightarrow> Bot option" where
  "ApplySkills flt ss provider owner platform b =
     (let built = Build_skills ss provider (\<lambda>s. PerCommandGuard (sk_Access s) (sk_Allowlist s) owner) platform (gp_OwnerNick owner);
          b = b\<lparr>bt_reg := ReplaceDynamic built (bt_reg b)\<rparr>
      in case bt_wiring b of
           None \<Rightarrow> Some b
         | Some wr \<Rightarrow>
             map_option (\<lambda>its. b\<lparr>bt_wiring := Some (wr\<lparr>wr_Engine := ReplaceSkills (re_compile (bt_world b)) ss (wr_Engine wr),
                 wr_Scheduler := its\<rparr>)\<rparr>)
               (load_schedules flt (now_w (bt_world b)) ss))"

definition ApplyFlows :: "Flow list \<Rightarrow> Bot \<Rightarrow> Bot" where
  "ApplyFlows fs b =
     b\<lparr>bt_wiring := map_option (\<lambda>wr. wr\<lparr>wr_Flows := ReplaceFlows (re_compile (bt_world b)) fs (wr_Flows wr)\<rparr>) (bt_wiring b)\<rparr>"

definition apply_guard :: "GuardParams \<Rightarrow> Bot \<Rightarrow> Bot" where
  "apply_guard p b = (let (r, w) = ApplyRegistryGuard p (bt_reg b, bt_world b) in b\<lparr>bt_reg := r, bt_world := w\<rparr>)"

section \<open>Wiring\<close>

definition wire_store :: "MemoryStore option \<Rightarrow> Bot \<Rightarrow> Bot" where
  "wire_store store b =
     (if store = None then b
      else let (wired, first) = MarkStoreWired (storeWired b); b = b\<lparr>storeWired := wired\<rparr>
           in if first then b\<lparr>bt_world := (bt_world b)\<lparr>w_store := store, w_seen := []\<rparr>\<rparr> else b)"

definition WireCore :: "flt \<Rightarrow> World Ask option \<Rightarrow> CommonParams \<Rightarrow> Bot \<Rightarrow> Bot option" where
  "WireCore flt provider p b =
     (let b = b\<lparr>bt_reg := SetMaxDynamic (CustomCommandsMax p) (bt_reg b)\<rparr>;
          b = apply_guard (cp_Owner p) (wire_store (cp_Store p) b);
          owner = gp_OwnerNick (cp_Owner p);
          wr = \<lparr>wr_Engine = NewSkillEngine True (provider \<noteq> None) (cp_Platform p) owner (CustomCommandsMax p),
                wr_Scheduler = [],
                wr_Flows = NewFlowEngine True (provider \<noteq> None) (cp_Platform p) owner (cr_prefix (bt_reg b)) (CustomCommandsMax p)\<rparr>
      in map_option (ApplyFlows (cp_Flows p))
           (ApplySkills flt (cp_Commands p) provider (cp_Owner p) (cp_Platform p) (b\<lparr>bt_wiring := Some wr\<rparr>)))"

text \<open>The setters that come before the connector-agnostic part. \<^verbatim>\<open>NewThrottle\<close> fails on no positive limits.\<close>

definition outbound_throttle :: "CommonParams \<Rightarrow> string + Throttle option" where
  "outbound_throttle p =
     (if OutboundMaxPerWindow p > 0 \<and> OutboundWindowSeconds p > 0 then
        (case NewThrottle (OutboundMaxPerWindow p) (OutboundWindowSeconds p * 10 ^ 9) of
           Inl e \<Rightarrow> Inl e
         | Inr t \<Rightarrow> Inr (Some t))
      else Inr None)"

definition provider_of :: "CommonParams \<Rightarrow> World Ask option" where
  "provider_of p = (if cp_LLM p then Some provider_Ask else None)"

definition set_up :: "CommonParams \<Rightarrow> Throttle option \<Rightarrow> Bot \<Rightarrow> Bot" where
  "set_up p t b =
     (let s = (bt_setup b)\<lparr>su_limits := cp_Limits p, su_attachHook := (ActivityHook p \<or> su_attachHook (bt_setup b)),
                su_replayDepth := clampReplayDepth (cp_ReplayDepth p)\<rparr>;
          s = (if t = None then s else s\<lparr>su_throttle := t\<rparr>);
          w = bt_world b;
          w = (case NewOwnerNudge (cp_OwnerNick p) (OwnerDMNudgeEvery p) of
                 None \<Rightarrow> w
               | Some n \<Rightarrow> on_irc (\<lambda>c. c\<lparr>ownerNudge := Some n\<rparr>) w);
          w = (if cp_LLM p then build_provider (LLMInputCap p) (LLMOutputCap p) (LLMInputUsed p) (LLMOutputUsed p) w else w)
      in b\<lparr>bt_setup := s, bt_world := w\<rparr>)"

definition WireCommon :: "flt \<Rightarrow> CommonParams \<Rightarrow> Bot \<Rightarrow> string + Bot option" where
  "WireCommon flt p b =
     (case outbound_throttle p of
        Inl e \<Rightarrow> Inl (''runtime: outbound throttle: '' @ e)
      | Inr t \<Rightarrow> Inr (WireCore flt (provider_of p) p (set_up p t b)))"

section \<open>What reaches a bot\<close>

text \<open>The bus of a wired bot.\<close>

definition bot_publish :: "Wiring \<Rightarrow> Event \<Rightarrow> World \<Rightarrow> World" where
  "bot_publish wr ev w =
     (let w = publish_w ev w;
          w = (if ev_Type ev \<in> {EventMessage, EventMessageSent} \<and> w_store w \<noteq> None then submit_event ev w else w)
      in flow_event (wr_Flows wr) ev (engine_event (wr_Engine wr) ev w))"

text \<open>One inbound message: the bus first, then the command, and the answer over the wire.\<close>

definition bot_handle :: "string \<Rightarrow> InboundEnvelope \<Rightarrow> Bot \<Rightarrow> Bot option" where
  "bot_handle day env b =
     (let pub = (case bt_wiring b of None \<Rightarrow> publish_w | Some wr \<Rightarrow> bot_publish wr)
      in map_option (\<lambda>w. b\<lparr>bt_world := w\<rparr>) (agent_handle pub (bot_send day) (bt_reg b) env (bt_world b)))"

definition bot_tick :: "instant \<Rightarrow> Bot \<Rightarrow> Bot" where
  "bot_tick now b =
     (case bt_wiring b of
        None \<Rightarrow> b
      | Some wr \<Rightarrow>
          (let (its, w) = tick (wr_Engine wr) now (wr_Scheduler wr, bt_world b)
           in b\<lparr>bt_wiring := Some (wr\<lparr>wr_Scheduler := its\<rparr>), bt_world := w\<rparr>))"

text \<open>Both engines are asked.\<close>

definition FireWebhook_both :: "string \<Rightarrow> (string \<rightharpoonup> string) \<Rightarrow> Bot \<Rightarrow> Bot \<times> bool" where
  "FireWebhook_both name bag b =
     (case bt_wiring b of
        None \<Rightarrow> (b, False)
      | Some wr \<Rightarrow>
          (let (w, flowFired) = FireFlowWebhook (wr_Flows wr) name bag (bt_world b);
               (w, skillFired) = FireWebhook (wr_Engine wr) name bag w
           in (b\<lparr>bt_world := w\<rparr>, flowFired \<or> skillFired)))"

section \<open>A hot reload is a fresh start\<close>

lemma ReplaceDynamic_record:
  "ReplaceDynamic cs r = r\<lparr>commands := swapped r cs, dynamicCount := int (length (slots r cs))\<rparr>"
proof -
  have keep: "cr_prefix (fold install_dynamic cs s) = cr_prefix s \<and> cr_guard (fold install_dynamic cs s) = cr_guard s" for s
    by (induction cs arbitrary: s) (auto simp: install_dynamic_def Let_def split: option.split)
  show ?thesis
    using swap_invariant [of cs r] keep [of "r\<lparr>commands := drop_dynamic (commands r), dynamicCount := 0\<rparr>"]
    by (intro CommandRegistry.equality) (simp_all add: ReplaceDynamic_def)
qed

lemma slots_cong: "builtin s = builtin r \<Longrightarrow> maxDynamic s = maxDynamic r \<Longrightarrow> slots s ds = slots r ds"
  by (simp only: slots_def)

text \<open>Nothing of an earlier set is left.\<close>

lemma ReplaceDynamic_twice: "ReplaceDynamic ds (ReplaceDynamic cs r) = ReplaceDynamic ds r"
proof -
  define S where "S = ReplaceDynamic cs r"
  note R = ReplaceDynamic_record [of cs r, folded S_def]
  have c: "commands S = swapped r cs" and m: "maxDynamic S = maxDynamic r" by (simp_all add: R)
  have b: "builtin S = builtin r"
    by (rule ext) (auto simp: builtin_def c swapped_def chosen_def dynamic_entry_def split: option.split)
  have sl: "slots S ds = slots r ds" using b m by (rule slots_cong)
  have "swapped S ds = swapped r ds"
  proof
    fix k
    show "swapped S ds k = swapped r ds k"
      unfolding swapped_def [of S ds] swapped_def [of r ds] b sl c by (simp add: swapped_def)
  qed
  then show ?thesis unfolding S_def [symmetric] ReplaceDynamic_record [of ds] sl by (simp add: R)
qed

lemma ReplaceSkills_twice [simp]: "ReplaceSkills c ss (ReplaceSkills c ss' e) = ReplaceSkills c ss e"
  by (simp add: ReplaceSkills_def split: prod.split)

lemma ReplaceFlows_twice [simp]: "ReplaceFlows c fs (ReplaceFlows c fs' e) = ReplaceFlows c fs e"
  by (simp add: ReplaceFlows_def split: prod.split)

text \<open>What may happen to a bot: it works, in any way that leaves the regular expressions what they are, or is given
  new skills or flows.\<close>

datatype live_op = Works "World \<Rightarrow> World" "scheduled list \<Rightarrow> scheduled list" | NewSkills "Skill list" | NewFlows "Flow list"

fun live_step :: "flt \<Rightarrow> CommonParams \<Rightarrow> live_op \<Rightarrow> Bot \<Rightarrow> Bot option" where
  "live_step flt p (Works f g) b =
     Some (b\<lparr>bt_world := f (bt_world b),
             bt_wiring := map_option (\<lambda>wr. wr\<lparr>wr_Scheduler := g (wr_Scheduler wr)\<rparr>) (bt_wiring b)\<rparr>)"
| "live_step flt p (NewSkills ss) b = ApplySkills flt ss (provider_of p) (cp_Owner p) (cp_Platform p) b"
| "live_step flt p (NewFlows fs) b = Some (ApplyFlows fs b)"

fun live_run :: "flt \<Rightarrow> CommonParams \<Rightarrow> live_op list \<Rightarrow> Bot \<Rightarrow> Bot option" where
  "live_run flt p [] b = Some b"
| "live_run flt p (r # rs) b = Option.bind (live_step flt p r b) (live_run flt p rs)"

fun steady :: "live_op \<Rightarrow> bool" where
  "steady (Works f g) \<longleftrightarrow> (\<forall>w. re_compile (f w) = re_compile w)"
| "steady _ \<longleftrightarrow> True"

fun params_after :: "live_op list \<Rightarrow> CommonParams \<Rightarrow> CommonParams" where
  "params_after [] p = p"
| "params_after (Works f g # rs) p = params_after rs p"
| "params_after (NewSkills ss # rs) p = params_after rs (p\<lparr>cp_Commands := ss\<rparr>)"
| "params_after (NewFlows fs # rs) p = params_after rs (p\<lparr>cp_Flows := fs\<rparr>)"

text \<open>What decides how a bot reacts: its commands with their guards, and its engines. The schedule moves on with time; it
  is compared apart.\<close>

definition behaviour :: "Bot \<Rightarrow> World CommandRegistry \<times> (SkillEngine \<times> FlowEngine) option" where
  "behaviour b = (bt_reg b, map_option (\<lambda>wr. (wr_Engine wr, wr_Flows wr)) (bt_wiring b))"

definition built_for :: "CommonParams \<Rightarrow> Skill list \<Rightarrow> World DynamicCommand list" where
  "built_for p ss =
     Build_skills ss (provider_of p) (\<lambda>s. PerCommandGuard (sk_Access s) (sk_Allowlist s) (cp_Owner p)) (cp_Platform p)
       (gp_OwnerNick (cp_Owner p))"

definition holds_set :: "CommonParams \<Rightarrow> Bot \<Rightarrow> Skill list \<Rightarrow> Flow list \<Rightarrow> Bot \<Rightarrow> bool" where
  "holds_set p b0 ss fs b \<longleftrightarrow>
     (\<exists>wr0. bt_wiring b0 = Some wr0 \<and>
        behaviour b = (ReplaceDynamic (built_for p ss) (bt_reg b0),
          Some (ReplaceSkills (re_compile (bt_world b0)) ss (wr_Engine wr0), ReplaceFlows (re_compile (bt_world b0)) fs (wr_Flows wr0))) \<and>
        re_compile (bt_world b) = re_compile (bt_world b0))"

lemma ApplySkills_returns:
  "\<exists>b'. ApplySkills flt ss provider owner platform b = Some b' \<and> bt_world b' = bt_world b"
  using load_returns [of flt "now_w (bt_world b)" ss] by (cases "bt_wiring b") (auto simp: ApplySkills_def Let_def)

lemma WireCore_returns: "\<exists>b'. WireCore flt provider p b = Some b'"
proof -
  have "\<exists>b'. map_option f (ApplySkills flt ss provider owner platform c) = Some b'" for f :: "Bot \<Rightarrow> Bot" and ss owner platform c
    using ApplySkills_returns [of flt ss provider owner platform c] by auto
  then show ?thesis unfolding WireCore_def Let_def .
qed

lemma skills_set:
  assumes "holds_set p b0 ss' fs b" "ApplySkills flt ss (provider_of p) (cp_Owner p) (cp_Platform p) b = Some b'"
  shows "holds_set p b0 ss fs b'"
  using assms unfolding holds_set_def built_for_def behaviour_def
  by (auto simp: ApplySkills_def Let_def ReplaceDynamic_twice)

lemma flows_set: "holds_set p b0 ss fs' b \<Longrightarrow> holds_set p b0 ss fs (ApplyFlows fs b)"
  unfolding holds_set_def behaviour_def by (auto simp: ApplyFlows_def)

lemma first_set:
  assumes "bt_wiring b0 = Some wr0" "ApplySkills flt ss (provider_of p) (cp_Owner p) (cp_Platform p) b0 = Some b"
  shows "holds_set p b0 ss fs (ApplyFlows fs b)"
  using assms unfolding holds_set_def built_for_def behaviour_def
  by (auto simp: ApplySkills_def ApplyFlows_def Let_def)

lemma works_set:
  assumes "holds_set p b0 ss fs b" "\<And>w. re_compile (f w) = re_compile w"
  shows "holds_set p b0 ss fs
    (b\<lparr>bt_world := f (bt_world b), bt_wiring := map_option (\<lambda>wr. wr\<lparr>wr_Scheduler := g (wr_Scheduler wr)\<rparr>) (bt_wiring b)\<rparr>)"
  using assms unfolding holds_set_def behaviour_def by (auto simp: option.map_comp comp_def)

lemma run_set:
  assumes "holds_set p b0 (cp_Commands q) (cp_Flows q) b" "list_all steady rs"
  shows "\<exists>b'. live_run flt p rs b = Some b' \<and>
    holds_set p b0 (cp_Commands (params_after rs q)) (cp_Flows (params_after rs q)) b'"
  using assms
proof (induction rs arbitrary: b q)
  case (Cons r rs)
  show ?case
  proof (cases r)
    case (Works f g)
    then show ?thesis using Cons works_set by simp
  next
    case (NewSkills ss)
    obtain b1 where b1: "ApplySkills flt ss (provider_of p) (cp_Owner p) (cp_Platform p) b = Some b1"
      using ApplySkills_returns by blast
    have "holds_set p b0 ss (cp_Flows q) b1" using skills_set [OF Cons.prems(1) b1] .
    then show ?thesis using Cons.IH [of "q\<lparr>cp_Commands := ss\<rparr>" b1] Cons.prems(2) NewSkills b1 by simp
  next
    case (NewFlows fs)
    then show ?thesis using Cons.IH [of "q\<lparr>cp_Flows := fs\<rparr>"] Cons.prems flows_set by simp
  qed
qed simp

text \<open>The bot just before its first skills.\<close>

definition bare_bot :: "CommonParams \<Rightarrow> Bot \<Rightarrow> Bot" where
  "bare_bot p b =
     (let b = b\<lparr>bt_reg := SetMaxDynamic (CustomCommandsMax p) (bt_reg b)\<rparr>;
          b = apply_guard (cp_Owner p) (wire_store (cp_Store p) b);
          owner = gp_OwnerNick (cp_Owner p)
      in b\<lparr>bt_wiring := Some
            \<lparr>wr_Engine = NewSkillEngine True (provider_of p \<noteq> None) (cp_Platform p) owner (CustomCommandsMax p),
             wr_Scheduler = [],
             wr_Flows = NewFlowEngine True (provider_of p \<noteq> None) (cp_Platform p) owner (cr_prefix (bt_reg b)) (CustomCommandsMax p)\<rparr>\<rparr>)"

lemma WireCore_bare:
  "WireCore flt (provider_of p) p b =
     map_option (ApplyFlows (cp_Flows p)) (ApplySkills flt (cp_Commands p) (provider_of p) (cp_Owner p) (cp_Platform p) (bare_bot p b))"
  by (simp add: WireCore_def bare_bot_def Let_def)

lemma params_other:
  "provider_of (params_after rs p) = provider_of p" "cp_Owner (params_after rs p) = cp_Owner p"
  "cp_Platform (params_after rs p) = cp_Platform p" "bare_bot (params_after rs p) = bare_bot p"
  "set_up (params_after rs p) = set_up p" "outbound_throttle (params_after rs p) = outbound_throttle p"
  by (induction rs p rule: params_after.induct)
    (auto simp: provider_of_def bare_bot_def set_up_def outbound_throttle_def fun_eq_iff Let_def)

lemma WireCore_set:
  assumes "WireCore flt (provider_of p) p b = Some b'"
  shows "holds_set p (bare_bot p b) (cp_Commands p) (cp_Flows p) b'"
proof -
  have "\<exists>wr. bt_wiring (bare_bot p b) = Some wr" by (simp add: bare_bot_def Let_def)
  with assms first_set show ?thesis unfolding WireCore_bare by blast
qed

text \<open>The same bot, put together at another time.\<close>

definition started_at :: "instant \<Rightarrow> Bot \<Rightarrow> Bot" where
  "started_at t b = b\<lparr>bt_world := at_time t (bt_world b)\<rparr>"

lemma bare_started_at:
  "bt_reg (bare_bot p (set_up p th (started_at t b))) = bt_reg (bare_bot p (set_up p th b))"
  "bt_wiring (bare_bot p (set_up p th (started_at t b))) = bt_wiring (bare_bot p (set_up p th b))"
  "re_compile (bt_world (bare_bot p (set_up p th (started_at t b)))) = re_compile (bt_world (bare_bot p (set_up p th b)))"
  "now_w (bt_world (bare_bot p (set_up p th (started_at t b)))) = t"
  by (simp_all add: bare_bot_def set_up_def started_at_def at_time_def on_irc_def wire_store_def apply_guard_def MarkStoreWired_def
      ApplyRegistryGuard_def SetGuard_def SetMaxDynamic_def build_provider_def Let_def split: option.split prod.split)

lemma holds_started_at:
  "holds_set p (bare_bot p (set_up p th (started_at t b))) ss fs c = holds_set p (bare_bot p (set_up p th b)) ss fs c"
  unfolding holds_set_def bare_started_at by (rule refl)

lemma ApplySkills_schedule:
  assumes "ApplySkills flt ss provider owner platform b = Some b'" "bt_wiring b \<noteq> None"
  shows "map_option wr_Scheduler (bt_wiring b') = load_schedules flt (now_w (bt_world b)) ss" "bt_world b' = bt_world b"
  using assms by (auto simp: ApplySkills_def Let_def)

lemma ApplyFlows_schedule: "map_option wr_Scheduler (bt_wiring (ApplyFlows fs b)) = map_option wr_Scheduler (bt_wiring b)"
  by (cases "bt_wiring b") (simp_all add: ApplyFlows_def)

lemma same_wiring:
  assumes "behaviour b = behaviour c" "map_option wr_Scheduler (bt_wiring b) = map_option wr_Scheduler (bt_wiring c)"
  shows "bt_wiring b = bt_wiring c"
  using assms by (cases "bt_wiring b"; cases "bt_wiring c") (auto simp: behaviour_def)

lemma live_run_snoc: "live_run flt p (rs @ [r]) b = Option.bind (live_run flt p rs b) (live_step flt p r)"
proof (induction rs arbitrary: b)
  case Nil
  then show ?case by (cases "live_step flt p r b") simp_all
next
  case (Cons q rs)
  then show ?case by (cases "live_step flt p q b") simp_all
qed

text \<open>C22: a bot that was given new skills and flows while it ran, any number of times, reacts exactly as one started
  afresh with the last of them: the same commands with the same handlers and guards up to the same cap, the same event,
  match and webhook skills, the same flows; and right after a reload of the skills also the same schedule, as if the bot
  had been started at that moment. Nothing of an earlier set is left, and the reload always returns. The reload is handed
  the provider the bot was started with.\<close>

theorem hot_reload_exact:
  assumes "WireCommon flt p b0 = Inr (Some b)" "list_all steady rs"
  shows "\<exists>b' b''. live_run flt p rs b = Some b' \<and>
    WireCommon flt (params_after rs p) (started_at (now_w (bt_world b')) b0) = Inr (Some b'') \<and>
    behaviour b' = behaviour b'' \<and> (\<forall>rs0 ss. rs = rs0 @ [NewSkills ss] \<longrightarrow> bt_wiring b' = bt_wiring b'')"
proof -
  obtain th where th: "outbound_throttle p = Inr th" and b: "WireCore flt (provider_of p) p (set_up p th b0) = Some b"
    using assms(1) by (auto simp: WireCommon_def split: sum.splits)
  define q where "q = params_after rs p"
  have q: "provider_of q = provider_of p" "cp_Owner q = cp_Owner p" "cp_Platform q = cp_Platform p"
    "bare_bot q = bare_bot p" "set_up q = set_up p" "outbound_throttle q = outbound_throttle p"
    unfolding q_def by (rule params_other)+
  let ?b0 = "bare_bot p (set_up p th b0)"
  note start = WireCore_set [OF b]
  obtain b' where b': "live_run flt p rs b = Some b'" "holds_set p ?b0 (cp_Commands q) (cp_Flows q) b'"
    using run_set [OF start assms(2)] unfolding q_def by blast
  let ?c0 = "set_up q th (started_at (now_w (bt_world b')) b0)"
  obtain b1 where b1: "ApplySkills flt (cp_Commands q) (provider_of q) (cp_Owner q) (cp_Platform q) (bare_bot q ?c0) = Some b1"
    using ApplySkills_returns by blast
  define b'' where "b'' = ApplyFlows (cp_Flows q) b1"
  have W: "WireCore flt (provider_of q) q ?c0 = Some b''" unfolding WireCore_bare b1 by (simp add: b''_def)
  have "holds_set q (bare_bot q ?c0) (cp_Commands q) (cp_Flows q) b''" by (rule WireCore_set [OF W])
  then have "holds_set p (bare_bot p (set_up p th (started_at (now_w (bt_world b')) b0))) (cp_Commands q) (cp_Flows q) b''"
    by (simp add: q holds_set_def built_for_def)
  then have same: "behaviour b' = behaviour b''" using b'(2) unfolding holds_started_at by (auto simp: holds_set_def)
  have "bt_wiring b' = bt_wiring b''" if rs: "rs = rs0 @ [NewSkills ss]" for rs0 ss
  proof (rule same_wiring [OF same])
    obtain c where c: "live_run flt p rs0 b = Some c" "live_step flt p (NewSkills ss) c = Some b'"
      using b'(1) unfolding rs live_run_snoc by (cases "live_run flt p rs0 b") auto
    have ss: "cp_Commands q = ss" unfolding q_def rs by (induction rs0 p rule: params_after.induct) simp_all
    have "list_all steady rs0" using assms(2) rs by simp
    then have "bt_wiring c \<noteq> None"
      using run_set [where rs = rs0 and flt = flt, OF start] c(1) by (auto simp: holds_set_def behaviour_def)
    moreover have "bt_wiring (bare_bot q ?c0) \<noteq> None" by (simp add: bare_bot_def Let_def)
    ultimately show "map_option wr_Scheduler (bt_wiring b') = map_option wr_Scheduler (bt_wiring b'')"
      using ApplySkills_schedule [of flt ss "provider_of p" "cp_Owner p" "cp_Platform p" c b'] ApplySkills_schedule(1) [OF b1] c(2)
      unfolding b''_def ApplyFlows_schedule q ss bare_started_at by simp
  qed
  moreover have "WireCommon flt q (started_at (now_w (bt_world b')) b0) = Inr (Some b'')" using W th by (simp add: WireCommon_def q)
  ultimately show ?thesis using b'(1) same unfolding q_def by blast
qed

definition quiet_params :: CommonParams where
  "quiet_params =
     \<lparr>CustomCommandsMax = 3,
      cp_Limits = \<lparr>NickLocked = False, RealnameLocked = False, MaxChannels = 0, TBSummarizeMaxMessages = 0, AIStrict = False,
                   AIStrictMessage = []\<rparr>,
      cp_Owner = sample_owner, OutboundMaxPerWindow = 0, OutboundWindowSeconds = 0, cp_OwnerNick = [], OwnerDMNudgeEvery = 0,
      cp_ReplayDepth = 0, cp_Commands = [], cp_Flows = [], cp_Platform = [], cp_LLM = False, LLMInputCap = 0, LLMOutputCap = 0,
      LLMInputUsed = 0, LLMOutputUsed = 0, ActivityHook = False, cp_Store = None\<rparr>"

theorem hot_reload_exact_witness:
  "\<exists>b b' b''. WireCommon (\<lambda>_ _ _. 0) quiet_params (NewBot [] (sample_world (NewConnector sample_settings True 0))) = Inr (Some b) \<and>
     live_run (\<lambda>_ _ _. 0) quiet_params [NewSkills [Command ''tip'' TypeStatic ''hi'' [] []], NewSkills [hourly]] b = Some b' \<and>
     WireCommon (\<lambda>_ _ _. 0) (quiet_params\<lparr>cp_Commands := [hourly]\<rparr>)
       (started_at (now_w (bt_world b')) (NewBot [] (sample_world (NewConnector sample_settings True 0)))) = Inr (Some b'') \<and>
     bt_reg b' = bt_reg b'' \<and> bt_wiring b' = bt_wiring b''"
proof -
  let ?f = "\<lambda>_ _ _. 0 :: nat" and ?b0 = "NewBot [] (sample_world (NewConnector sample_settings True 0))"
  let ?rs = "[NewSkills [Command ''tip'' TypeStatic ''hi'' [] []], NewSkills [hourly]]"
  have "outbound_throttle quiet_params = Inr None" by (simp add: outbound_throttle_def quiet_params_def)
  moreover obtain b where "WireCore ?f (provider_of quiet_params) quiet_params (set_up quiet_params None ?b0) = Some b"
    using WireCore_returns by blast
  ultimately have w: "WireCommon ?f quiet_params ?b0 = Inr (Some b)" by (simp add: WireCommon_def)
  have P: "params_after ?rs quiet_params = quiet_params\<lparr>cp_Commands := [hourly]\<rparr>" by simp
  have st: "list_all steady ?rs" by simp
  obtain b' b'' where r: "live_run ?f quiet_params ?rs b = Some b'"
    "WireCommon ?f (params_after ?rs quiet_params) (started_at (now_w (bt_world b')) ?b0) = Inr (Some b'')"
    "behaviour b' = behaviour b''" "\<forall>rs0 ss. ?rs = rs0 @ [NewSkills ss] \<longrightarrow> bt_wiring b' = bt_wiring b''"
    using hot_reload_exact [OF w st] by blast
  have wr: "bt_wiring b' = bt_wiring b''"
    by (rule r(4) [rule_format, of "[NewSkills [Command ''tip'' TypeStatic ''hi'' [] []]]" "[hourly]"]) (simp only: append.simps)
  have W: "WireCommon ?f (quiet_params\<lparr>cp_Commands := [hourly]\<rparr>) (started_at (now_w (bt_world b')) ?b0) = Inr (Some b'')"
    using r(2) unfolding P .
  have "bt_reg b' = bt_reg b''" using r(3) by (simp add: behaviour_def)
  with w r(1) wr W show ?thesis by blast
qed

end
