(* ===== verification/Tenant_Spec.thy ===== *)
theory Tenant_Spec
  imports Wiring "HOL-Library.Finite_Map"
begin

text \<open>
  The desired state of a tenant of the pooled server (\<^verbatim>\<open>internal/server/tenant_source.go\<close>), how it becomes settings and
  parameters of a bot (\<^verbatim>\<open>connector_irc.go\<close>, \<^verbatim>\<open>tenant.go\<close>), and which changes of it apply to a running tenant.

  A decoded JSON object is a finite map, \<open>None\<close> the nil map. Nil and empty slices are one.
\<close>

section \<open>Specifications\<close>

datatype jval = JNull | JBool bool | JNum int | JStr string | JArr "jval list" | JObj "(string \<times> jval) list"

type_synonym config = "(string, jval) fmap option"

record ConnectorSpec =
  cs_Type :: string
  cs_Config :: config
  cs_Secrets :: config

record LLMRouterConfig =
  lr_Provider :: string
  BaseURL :: string
  DefaultModel :: string
  AllowedModels :: "string list"

record PlanCapabilities =
  pc_NickLocked :: bool
  pc_RealnameLocked :: bool
  pc_MaxChannels :: int
  OutboundMsgsPerWindow :: int
  pc_OutboundWindowSeconds :: int
  pc_OwnerDMNudgeEvery :: int
  pc_CommandMaxPerWindow :: int
  pc_CommandWindowSeconds :: int
  pc_CTCPMaxPerWindow :: int
  pc_CTCPWindowSeconds :: int
  pc_BouncerMaxFailedAttempts :: int
  pc_QuitMessage :: string
  pc_CustomCommandsMax :: int
  pc_TBSummarizeMaxMessages :: int
  LLMInputTokensPerDay :: int
  LLMOutputTokensPerDay :: int
  LLMInputTokensUsed :: int
  LLMOutputTokensUsed :: int
  pc_LLM :: "LLMRouterConfig option"

record TenantSpec =
  TurborgID :: string
  ShardID :: int
  RuntimeMode :: string
  UserUUID :: string
  PlanCode :: string
  CommandPrefix :: string
  Connectors :: "ConnectorSpec list"
  ts_Capabilities :: "PlanCapabilities option"
  ts_IgnoredNicks :: "string list"
  ts_Commands :: "Skill list"
  ts_Flows :: "Flow list"
  GatewayToken :: string
  EgressIP :: string

datatype TenantEvent = TenantUpserted TenantSpec | TenantRemoved string

section \<open>Reading a config\<close>

definition cfg_lookup :: "config \<Rightarrow> string \<Rightarrow> jval option" where
  "cfg_lookup m k = Option.bind m (\<lambda>f. fmlookup f k)"

definition stringField :: "config \<Rightarrow> string \<Rightarrow> string" where
  "stringField m k = (case cfg_lookup m k of Some (JStr s) \<Rightarrow> s | _ \<Rightarrow> [])"

definition stringFieldOr :: "config \<Rightarrow> string \<Rightarrow> string \<Rightarrow> string" where
  "stringFieldOr m k fallback = (let v = stringField m k in if v \<noteq> [] then v else fallback)"

definition boolField :: "config \<Rightarrow> string \<Rightarrow> bool \<Rightarrow> bool" where
  "boolField m k fallback = (case cfg_lookup m k of Some (JBool b) \<Rightarrow> b | _ \<Rightarrow> fallback)"

definition stringSlice :: "config \<Rightarrow> string \<Rightarrow> string list" where
  "stringSlice m k =
     (case cfg_lookup m k of
        Some (JArr vs) \<Rightarrow> List.map_filter (\<lambda>v. case v of JStr s \<Rightarrow> Some s | _ \<Rightarrow> None) vs
      | _ \<Rightarrow> [])"

text \<open>\<^verbatim>\<open>host:port\<close>, cut at the first colon.\<close>

definition splitNetwork :: "string \<Rightarrow> string + string \<times> int" where
  "splitNetwork network0 =
     (let network = trim_space network0; host = takeWhile (\<lambda>c. c \<noteq> CHR '':'') network
      in if network = [] then Inl ''irc connector: empty network''
         else if CHR '':'' \<notin> set network then Inr (network, 6697)
         else case atoi (drop (Suc (length host)) network) of
                None \<Rightarrow> Inl ''irc connector: invalid port''
              | Some port \<Rightarrow> Inr (host, port))"

definition zero_settings :: Settings where
  "zero_settings =
     \<lparr>Hostname = [], Port = 0, UseTLS = False, SourceIP = [], st_Nick = [], Username = [], RealName = [], ServerPassword = [],
      NickServPassword = [], SASLUser = [], SASLPassword = [], AuthMode = [], Channels = [], DialTimeout = 0, HandshakeTimeout = 0,
      ReadIdleTimeout = 0, ClientPingInterval = 0, PongTimeout = 0, QuitMessage = [], BouncerPassword = [], BouncerHost = [],
      BouncerPort = 0, BouncerRatelimitEnabled = False, BouncerMaxFailedAttempts = 0, BouncerFailureWindowSeconds = 0,
      BouncerLockoutSeconds = 0, BouncerWelcomeReplayDepth = 0, CTCPAutoReply = False, CTCPMaxPerWindow = 0,
      CTCPWindowSeconds = 0, st_AIStrict = False, st_AIStrictMessage = [], UpstreamWarnAfter = 0, UpstreamPauseAfter = 0\<rparr>"

definition settingsFromConnectorSpec :: "ConnectorSpec \<Rightarrow> string + Settings" where
  "settingsFromConnectorSpec cs =
     (let conf = cs_Config cs; sec = cs_Secrets cs
      in case splitNetwork (stringField conf ''network'') of
           Inl e \<Rightarrow> Inl e
         | Inr (host, port) \<Rightarrow>
             (let nick = stringField conf ''nick''
              in if nick = [] then Inl ''irc connector: empty nick''
                 else let s = ApplyDefaults (zero_settings\<lparr>
                            Hostname := host, Port := port, UseTLS := boolField conf ''use_tls'' True, st_Nick := nick,
                            Username := stringField conf ''username'',
                            RealName := stringFieldOr conf ''real_name'' ''turborg agent'',
                            AuthMode := stringField conf ''auth_mode'', Channels := stringSlice conf ''channels'',
                            st_AIStrict := boolField conf ''ai_strict'' False,
                            st_AIStrictMessage := stringField conf ''ai_strict_message'',
                            SASLUser := stringField sec ''sasl_user'', SASLPassword := stringField sec ''sasl_password'',
                            NickServPassword := stringField sec ''nickserv_password'',
                            ServerPassword := stringField sec ''server_password'',
                            BouncerPassword := stringField sec ''bouncer_password''\<rparr>)
                      in case Validate s of Some e \<Rightarrow> Inl (''irc settings: '' @ e) | None \<Rightarrow> Inr s))"

definition firstIRCConnectorSpec :: "ConnectorSpec list \<Rightarrow> ConnectorSpec" where
  "firstIRCConnectorSpec conns =
     (case List.find (\<lambda>c. cs_Type c = ''irc'') conns of
        Some c \<Rightarrow> c
      | None \<Rightarrow> \<lparr>cs_Type = [], cs_Config = None, cs_Secrets = None\<rparr>)"

section \<open>Parameters of a bot\<close>

definition applyTierSettings :: "PlanCapabilities option \<Rightarrow> Settings \<Rightarrow> Settings" where
  "applyTierSettings caps s =
     (case caps of
        None \<Rightarrow> s
      | Some p \<Rightarrow>
          (let s = (if pc_QuitMessage p \<noteq> [] then s\<lparr>QuitMessage := pc_QuitMessage p\<rparr> else s);
               s = (if pc_CTCPMaxPerWindow p > 0 then s\<lparr>CTCPMaxPerWindow := pc_CTCPMaxPerWindow p\<rparr> else s);
               s = (if pc_CTCPWindowSeconds p > 0 then s\<lparr>CTCPWindowSeconds := pc_CTCPWindowSeconds p\<rparr> else s)
           in if pc_BouncerMaxFailedAttempts p > 0 then s\<lparr>BouncerMaxFailedAttempts := pc_BouncerMaxFailedAttempts p\<rparr> else s))"

text \<open>What the process brings: a provider from its environment, activity reporting, the egress map, and the clock and
  the outside world its bots live in. Without a control plane the message store is in memory.\<close>

record Pool =
  po_llm :: bool
  po_activity :: bool
  resolveSourceIP :: "string \<Rightarrow> string"
  po_flt :: flt
  po_world :: World

definition caps_or :: "'a \<Rightarrow> (PlanCapabilities \<Rightarrow> 'a) \<Rightarrow> PlanCapabilities option \<Rightarrow> 'a" where
  "caps_or zero f caps = (case caps of None \<Rightarrow> zero | Some p \<Rightarrow> f p)"

definition owner_of :: "config \<Rightarrow> string list \<Rightarrow> string \<Rightarrow> int \<Rightarrow> int \<Rightarrow> GuardParams" where
  "owner_of conf ignoredNicks botNick cmdMax cmdWin =
     \<lparr>OwnerMode = stringField conf ''owner_mode'', gp_OwnerNick = stringField conf ''owner_nick'',
      OwnerAccount = stringField conf ''owner_account'', OwnerHostmask = stringField conf ''owner_hostmask'',
      IgnoredNicks = ignoredNicks, BotNick = botNick, CommandMaxPerWindow = cmdMax, CommandWindowSeconds = cmdWin\<rparr>"

definition commonParams ::
  "Pool \<Rightarrow> ConnectorSpec \<Rightarrow> PlanCapabilities option \<Rightarrow> string \<Rightarrow> MemoryStore option \<Rightarrow> string list \<Rightarrow> Skill list \<Rightarrow>
   CommonParams" where
  "commonParams po cs caps botNick store ignoredNicks cmds =
     (let conf = cs_Config cs
      in \<lparr>CustomCommandsMax = caps_or 0 pc_CustomCommandsMax caps,
          cp_Limits = \<lparr>NickLocked = caps_or False pc_NickLocked caps, RealnameLocked = caps_or False pc_RealnameLocked caps,
             MaxChannels = caps_or 0 pc_MaxChannels caps, TBSummarizeMaxMessages = caps_or 0 pc_TBSummarizeMaxMessages caps,
             AIStrict = boolField conf ''ai_strict'' False, AIStrictMessage = stringField conf ''ai_strict_message''\<rparr>,
          cp_Owner = owner_of conf ignoredNicks botNick (caps_or 0 pc_CommandMaxPerWindow caps) (caps_or 0 pc_CommandWindowSeconds caps),
          OutboundMaxPerWindow = caps_or 0 OutboundMsgsPerWindow caps,
          OutboundWindowSeconds = caps_or 0 pc_OutboundWindowSeconds caps,
          cp_OwnerNick = stringField conf ''owner_nick'', OwnerDMNudgeEvery = caps_or 0 pc_OwnerDMNudgeEvery caps,
          cp_ReplayDepth = 0, cp_Commands = cmds, cp_Flows = [], cp_Platform = [], cp_LLM = po_llm po,
          LLMInputCap = caps_or 0 LLMInputTokensPerDay caps, LLMOutputCap = caps_or 0 LLMOutputTokensPerDay caps,
          LLMInputUsed = caps_or 0 LLMInputTokensUsed caps, LLMOutputUsed = caps_or 0 LLMOutputTokensUsed caps,
          ActivityHook = po_activity po, cp_Store = store\<rparr>)"

definition DefaultReconnectFloor :: duration where "DefaultReconnectFloor = 20 * 10 ^ 9"

text \<open>\<^verbatim>\<open>buildIRCConnector\<close> on the agent of the run; \<open>Inl\<close> is a connector skipped with its error. The outer option is that
  of \<^const>\<open>WireCore\<close>. The ident registry the pool shares is the one of the world.\<close>

definition build_settings :: "Pool \<Rightarrow> TenantSpec \<Rightarrow> ConnectorSpec \<Rightarrow> string + Settings" where
  "build_settings po t cs =
     (case settingsFromConnectorSpec cs of
        Inl e \<Rightarrow> Inl e
      | Inr s \<Rightarrow>
          (let s = applyTierSettings (ts_Capabilities t) s; src = (if EgressIP t \<noteq> [] then resolveSourceIP po (EgressIP t) else [])
           in Inr (if src \<noteq> [] then s\<lparr>SourceIP := src\<rparr> else s)))"

definition tenant_params :: "Pool \<Rightarrow> TenantSpec \<Rightarrow> ConnectorSpec \<Rightarrow> Settings \<Rightarrow> CommonParams" where
  "tenant_params po t cs s =
     (commonParams po cs (ts_Capabilities t) (st_Nick s) (Some (NewMemoryStore 0)) (ts_IgnoredNicks t) (ts_Commands t))
       \<lparr>cp_Platform := Hostname s, cp_Flows := ts_Flows t\<rparr>"

definition buildIRCConnector :: "Pool \<Rightarrow> TenantSpec \<Rightarrow> ConnectorSpec \<Rightarrow> Bot \<Rightarrow> string + Bot option" where
  "buildIRCConnector po t cs b =
     (case build_settings po t cs of
        Inl e \<Rightarrow> Inl e
      | Inr s \<Rightarrow>
          (let c = (NewConnector s True (now_w (bt_world b)))\<lparr>reconnectFloor := DefaultReconnectFloor,
                     identReporter := identReporter (irc (bt_world b))\<rparr>;
               c = SetInitialSuspended (boolField (cs_Config cs) ''suspended'' False) c
           in WireCommon (po_flt po) (tenant_params po t cs s) (b\<lparr>bt_world := (bt_world b)\<lparr>irc := c\<rparr>\<rparr>)))"

section \<open>Live updates\<close>

definition capsWithoutTokenUsage :: "PlanCapabilities option \<Rightarrow> PlanCapabilities option" where
  "capsWithoutTokenUsage caps = map_option (\<lambda>p. p\<lparr>LLMInputTokensUsed := 0, LLMOutputTokensUsed := 0\<rparr>) caps"

definition strip_live :: "ConnectorSpec \<Rightarrow> ConnectorSpec" where
  "strip_live c =
     (if cs_Type c \<noteq> ''irc'' then c
      else c\<lparr>cs_Config := map_option (fmfilter (\<lambda>k. k \<notin> {''nick'', ''channels'', ''suspended''})) (cs_Config c)\<rparr>)"

definition stripLiveConnectorFields :: "ConnectorSpec list \<Rightarrow> ConnectorSpec list" where
  "stripLiveConnectorFields conns = map strip_live conns"

definition strip_spec :: "TenantSpec \<Rightarrow> TenantSpec" where
  "strip_spec t =
     t\<lparr>ts_Commands := [], ts_Flows := [], ts_IgnoredNicks := [], ts_Capabilities := capsWithoutTokenUsage (ts_Capabilities t),
       Connectors := stripLiveConnectorFields (Connectors t)\<rparr>"

definition liveUpdatableOnlyChange :: "TenantSpec \<Rightarrow> TenantSpec \<Rightarrow> bool" where
  "liveUpdatableOnlyChange a b \<longleftrightarrow> strip_spec a = strip_spec b"

definition live_config :: "TenantSpec \<Rightarrow> config" where
  "live_config t = cs_Config (firstIRCConnectorSpec (Connectors t))"

definition ircNickChannelsChanged :: "TenantSpec \<Rightarrow> TenantSpec \<Rightarrow> bool \<times> bool" where
  "ircNickChannelsChanged a b =
     (stringField (live_config a) ''nick'' \<noteq> stringField (live_config b) ''nick'',
      stringSlice (live_config a) ''channels'' \<noteq> stringSlice (live_config b) ''channels'')"

definition ircSuspendChanged :: "TenantSpec \<Rightarrow> TenantSpec \<Rightarrow> bool" where
  "ircSuspendChanged a b \<longleftrightarrow>
     boolField (live_config a) ''suspended'' False \<noteq> boolField (live_config b) ''suspended'' False"

end
