(* ===== verification/Tenant.thy ===== *)
theory Tenant
  imports Tenant_Spec
begin

text \<open>
  \<^verbatim>\<open>internal/server/tenant.go\<close>: the supervised life of a tenant and its hot reload. A tenant is a step relation over
  its record: the supervisor goroutine goes through the phases of a run, and an update of the specification, which the
  server makes under its own lock, interleaves with it piece by piece as the locks of the code allow. A handle on the
  live agent, connector or wiring is the number of the run that set it.

  The phase carries what the run was given: the specification it read, changed by the updates that reached it.
\<close>

section \<open>What a run is given\<close>

record Facets =
  fx_rest :: TenantSpec
  fx_commands :: "Skill list"
  fx_flows :: "Flow list"
  fx_ignored :: "string list"
  fx_nick :: string
  fx_channels :: "string list"
  fx_suspended :: bool

definition facets :: "TenantSpec \<Rightarrow> Facets" where
  "facets t =
     \<lparr>fx_rest = strip_spec t, fx_commands = ts_Commands t, fx_flows = ts_Flows t, fx_ignored = ts_IgnoredNicks t,
      fx_nick = stringField (live_config t) ''nick'', fx_channels = stringSlice (live_config t) ''channels'',
      fx_suspended = boolField (live_config t) ''suspended'' False\<rparr>"

datatype facet = FCommands | FFlows | FIgnores | FNickChannels | FSuspend

text \<open>\<^verbatim>\<open>applyLiveUpdate\<close>: the facets that changed, in the order they are applied.\<close>

definition facet_changed :: "TenantSpec \<Rightarrow> TenantSpec \<Rightarrow> facet \<Rightarrow> bool" where
  "facet_changed prev new f =
     (case f of
        FCommands \<Rightarrow> ts_Commands prev \<noteq> ts_Commands new
      | FFlows \<Rightarrow> ts_Flows prev \<noteq> ts_Flows new
      | FIgnores \<Rightarrow> ts_IgnoredNicks prev \<noteq> ts_IgnoredNicks new
      | FNickChannels \<Rightarrow> fst (ircNickChannelsChanged prev new) \<or> snd (ircNickChannelsChanged prev new)
      | FSuspend \<Rightarrow> ircSuspendChanged prev new)"

definition changed_facets :: "TenantSpec \<Rightarrow> TenantSpec \<Rightarrow> facet list" where
  "changed_facets prev new = filter (facet_changed prev new) [FCommands, FFlows, FIgnores, FNickChannels, FSuspend]"

definition patch :: "facet \<Rightarrow> Facets \<Rightarrow> Facets \<Rightarrow> Facets" where
  "patch f n g =
     (case f of
        FCommands \<Rightarrow> g\<lparr>fx_commands := fx_commands n\<rparr>
      | FFlows \<Rightarrow> g\<lparr>fx_flows := fx_flows n\<rparr>
      | FIgnores \<Rightarrow> g\<lparr>fx_ignored := fx_ignored n\<rparr>
      | FNickChannels \<Rightarrow> g\<lparr>fx_nick := fx_nick n, fx_channels := fx_channels n\<rparr>
      | FSuspend \<Rightarrow> g\<lparr>fx_suspended := fx_suspended n\<rparr>)"

section \<open>The tenant\<close>

datatype TenantStatus = StatusRunning | StatusQuarantined

datatype phase =
    Top
  | Starting
  | Building TenantSpec
  | Wired Facets
  | Serving Facets
  | Cooling
  | Idle Facets
  | Gone

text \<open>An update in progress: the old and the new specification, the run whose cancel function it captured, and how far
  it is.\<close>

datatype up_stage = Live "facet list" bool | ToCancel | ToSignal

record update =
  up_prev :: TenantSpec
  up_new :: TenantSpec
  up_run :: nat
  up_stage :: up_stage

record Tenant =
  tn_spec :: TenantSpec
  tn_status :: TenantStatus
  failures :: nat
  lastErr :: "string option"
  quarantineUntil :: instant
  quarantineBase :: duration
  restartCh :: bool
  run_no :: nat
  run_cancelled :: bool
  ircConn :: "nat option"
  agentRef :: "nat option"
  wiringRef :: "nat option"
  tn_bot :: Bot
  tn_phase :: phase
  tn_update :: "update option"
  stopping :: bool
  tn_now :: instant

definition startTenant :: "Pool \<Rightarrow> TenantSpec \<Rightarrow> duration \<Rightarrow> instant \<Rightarrow> Tenant" where
  "startTenant po spec b0 now =
     \<lparr>tn_spec = spec, tn_status = StatusRunning, failures = 0, lastErr = None, quarantineUntil = 0, quarantineBase = b0,
      restartCh = False, run_no = 0, run_cancelled = False, ircConn = None, agentRef = None, wiringRef = None,
      tn_bot = NewBot [] (po_world po), tn_phase = Top, tn_update = None, stopping = False, tn_now = now\<rparr>"

section \<open>The run\<close>

text \<open>\<^verbatim>\<open>buildConnectors\<close> on the fresh agent, all connectors in one step, with the handles set at the end;
  in the code each connector sets them in its turn, and an update can come between two. IRC connectors that do not wire
  are skipped; the other kinds of connector are not modelled. The flag tells whether one was built.\<close>

definition buildConnectors :: "Pool \<Rightarrow> instant \<Rightarrow> TenantSpec \<Rightarrow> Bot \<times> bool" where
  "buildConnectors po now t =
     fold (\<lambda>cs (b, ok).
        if cs_Type cs = ''irc'' then
          (case buildIRCConnector po t cs b of Inr (Some b) \<Rightarrow> (b, True) | _ \<Rightarrow> (b, ok))
        else (b, ok))
      (Connectors t) (NewBot (CommandPrefix t) (on_irc (\<lambda>c. c\<lparr>clock := now\<rparr>) (po_world po)), False)"

definition wire_run :: "Pool \<Rightarrow> TenantSpec \<Rightarrow> Tenant \<Rightarrow> Tenant" where
  "wire_run po u t =
     (let (b, ok) = buildConnectors po (tn_now t) u
      in t\<lparr>tn_bot := b, ircConn := (if ok then Some (run_no t) else ircConn t),
           wiringRef := (if ok then Some (run_no t) else wiringRef t), tn_phase := Wired (facets u)\<rparr>)"

text \<open>The end of a run: the handles are dropped.\<close>

definition end_run :: "string option \<Rightarrow> Tenant \<Rightarrow> Tenant" where
  "end_run e t =
     t\<lparr>ircConn := None, agentRef := None, wiringRef := None, lastErr := (if e = None then lastErr t else e)\<rparr>"

definition enterQuarantine :: "Tenant \<Rightarrow> Tenant" where
  "enterQuarantine t =
     (let n = Suc (failures t); backoff = quarantineBase t * 2 ^ min (n - 1) 5
      in t\<lparr>failures := n, tn_status := StatusQuarantined, quarantineUntil := tn_now t + backoff\<rparr>)"

definition markRunning :: "Tenant \<Rightarrow> Tenant" where
  "markRunning t = t\<lparr>tn_status := StatusRunning\<rparr>"

definition setErr :: "string \<Rightarrow> Tenant \<Rightarrow> Tenant" where
  "setErr e t = t\<lparr>lastErr := Some e\<rparr>"

section \<open>Applying a facet\<close>

text \<open>A handle that a run left behind when it panicked still counts; what is done through it reaches a dead agent. What
  a facet does to the live bot is \<open>f\<close>; the flag is whether the handles it needs are there. The facets kept in the
  phase are bookkeeping of the model, what the run was last told; what the bot runs is in \<open>tn_bot\<close>.\<close>

definition through :: "nat option list \<Rightarrow> (Bot \<Rightarrow> Bot) \<Rightarrow> facet \<Rightarrow> TenantSpec \<Rightarrow> Tenant \<Rightarrow> Tenant \<times> bool" where
  "through refs f fc new t =
     (if None \<in> set refs then (t, False)
      else if list_all (\<lambda>r. r = Some (run_no t)) refs then
        (t\<lparr>tn_bot := f (tn_bot t),
           tn_phase := (case tn_phase t of
              Wired g \<Rightarrow> Wired (patch fc (facets new) g)
            | Serving g \<Rightarrow> Serving (patch fc (facets new) g)
            | ph \<Rightarrow> ph)\<rparr>, True)
      else (t, True))"

text \<open>The provider is the process's own, not the budgeted one.\<close>

definition reload_skills :: "Pool \<Rightarrow> TenantSpec \<Rightarrow> Skill list \<Rightarrow> Bot \<Rightarrow> Bot" where
  "reload_skills po t defs b =
     (let conf = live_config t; owner = owner_of conf (ts_IgnoredNicks t) (currentNick (irc (bt_world b))) 0 0;
          platform = (case splitNetwork (stringField conf ''network'') of Inl _ \<Rightarrow> [] | Inr (host, _) \<Rightarrow> host)
      in case ApplySkills (po_flt po) defs (if po_llm po then Some model_Ask else None) owner platform b of
           None \<Rightarrow> b
         | Some b \<Rightarrow> b)"

definition reloadCommands :: "Pool \<Rightarrow> TenantSpec \<Rightarrow> Tenant \<Rightarrow> Tenant \<times> bool" where
  "reloadCommands po new t =
     through [agentRef t, ircConn t] (reload_skills po (tn_spec t) (ts_Commands new)) FCommands new t"

definition reloadFlows :: "TenantSpec \<Rightarrow> Tenant \<Rightarrow> Tenant \<times> bool" where
  "reloadFlows new t = through [wiringRef t] (ApplyFlows (ts_Flows new)) FFlows new t"

definition reloadGuard :: "TenantSpec \<Rightarrow> Tenant \<Rightarrow> Tenant \<times> bool" where
  "reloadGuard new t =
     (let caps = ts_Capabilities (tn_spec t)
      in through [agentRef t]
           (apply_guard \<lparr>OwnerMode = [], gp_OwnerNick = [], OwnerAccount = [], OwnerHostmask = [],
              IgnoredNicks = ts_IgnoredNicks (tn_spec t), BotNick = [],
              CommandMaxPerWindow = caps_or 0 pc_CommandMaxPerWindow caps,
              CommandWindowSeconds = caps_or 0 pc_CommandWindowSeconds caps\<rparr>)
           FIgnores new t)"

definition on_conn :: "(Connector \<Rightarrow> Connector) \<Rightarrow> Bot \<Rightarrow> Bot" where
  "on_conn f b = b\<lparr>bt_world := on_irc f (bt_world b)\<rparr>"

definition applyNickChannels :: "string list \<Rightarrow> TenantSpec \<Rightarrow> Tenant \<Rightarrow> Tenant \<times> bool" where
  "applyNickChannels ord new t =
     (let conf = live_config new
      in through [ircConn t]
           (on_conn (\<lambda>c. ReconcileChannels ord (stringSlice conf ''channels'') (ApplyNick (stringField conf ''nick'') c)))
           FNickChannels new t)"

definition applySuspend :: "TenantSpec \<Rightarrow> Tenant \<Rightarrow> Tenant \<times> bool" where
  "applySuspend new t =
     through [ircConn t] (on_conn (if boolField (live_config new) ''suspended'' False then Suspend else Resume)) FSuspend new t"

definition apply_facet :: "Pool \<Rightarrow> string list \<Rightarrow> TenantSpec \<Rightarrow> facet \<Rightarrow> Tenant \<Rightarrow> Tenant \<times> bool" where
  "apply_facet po ord new f t =
     (case f of
        FCommands \<Rightarrow> reloadCommands po new t
      | FFlows \<Rightarrow> reloadFlows new t
      | FIgnores \<Rightarrow> reloadGuard new t
      | FNickChannels \<Rightarrow> applyNickChannels ord new t
      | FSuspend \<Rightarrow> applySuspend new t)"

section \<open>Steps\<close>

text \<open>The start of \<^verbatim>\<open>update\<close>, in one critical section: nothing for an equal specification; else it is replaced and the
  cancel function of the run captured. Then either the changed facets are applied one by one, all of them, or, when
  something else changed or a facet did not apply, the run is cancelled and a restart signalled.\<close>

definition begin_update :: "TenantSpec \<Rightarrow> Tenant \<Rightarrow> Tenant" where
  "begin_update new t =
     (if tn_spec t = new then t
      else t\<lparr>tn_spec := new,
             tn_update := Some \<lparr>up_prev = tn_spec t, up_new = new, up_run = run_no t,
               up_stage = (if liveUpdatableOnlyChange (tn_spec t) new then Live (changed_facets (tn_spec t) new) True else ToCancel)\<rparr>\<rparr>)"

definition at_stage :: "up_stage \<Rightarrow> Tenant \<Rightarrow> Tenant" where
  "at_stage st t = t\<lparr>tn_update := map_option (\<lambda>u. u\<lparr>up_stage := st\<rparr>) (tn_update t)\<rparr>"

definition update_step :: "Pool \<Rightarrow> string list \<Rightarrow> Tenant \<Rightarrow> Tenant" where
  "update_step po ord t =
     (case tn_update t of
        None \<Rightarrow> t
      | Some u \<Rightarrow>
          (case up_stage u of
             Live (f # fs) ok \<Rightarrow> (let (t, ok') = apply_facet po ord (up_new u) f t in at_stage (Live fs (ok \<and> ok')) t)
           | Live [] True \<Rightarrow> t\<lparr>tn_update := None\<rparr>
           | Live [] False \<Rightarrow> at_stage ToCancel t
           | ToCancel \<Rightarrow>
               at_stage ToSignal (t\<lparr>run_cancelled := (run_cancelled t \<or> (up_run u \<noteq> 0 \<and> up_run u = run_no t))\<rparr>)
           | ToSignal \<Rightarrow> t\<lparr>restartCh := True, tn_update := None\<rparr>))"

definition running_phase :: "phase \<Rightarrow> bool" where
  "running_phase ph \<longleftrightarrow> ph = Starting \<or> (\<exists>u. ph = Building u) \<or> (\<exists>g. ph = Wired g \<or> ph = Serving g)"

text \<open>\<^verbatim>\<open>supervise\<close> and \<^verbatim>\<open>runOnce\<close>. \<open>pan\<close> allows the work to panic.\<close>

inductive tstep :: "Pool \<Rightarrow> bool \<Rightarrow> Tenant \<Rightarrow> Tenant \<Rightarrow> bool" for po pan where
  begin_run: "tn_phase t = Top \<Longrightarrow> \<not> stopping t \<Longrightarrow>
    tstep po pan t (t\<lparr>run_no := Suc (run_no t), run_cancelled := False, tn_phase := Starting\<rparr>)"
| read_spec: "tn_phase t = Starting \<Longrightarrow> tstep po pan t (t\<lparr>tn_phase := Building (tn_spec t)\<rparr>)"
| wired: "tn_phase t = Building u \<Longrightarrow> tstep po pan t (wire_run po u t)"
| attached: "tn_phase t = Wired g \<Longrightarrow> tstep po pan t (t\<lparr>agentRef := Some (run_no t), tn_phase := Serving g\<rparr>)"
| works: "tn_phase t = Wired g \<or> tn_phase t = Serving g \<Longrightarrow> tstep po pan t (t\<lparr>tn_bot := b\<rparr>)"
| panics: "pan \<Longrightarrow> running_phase (tn_phase t) \<Longrightarrow> \<not> stopping t \<Longrightarrow>
    tstep po pan t ((enterQuarantine (setErr e t))\<lparr>tn_phase := Cooling\<rparr>)"
| panics_stopping: "pan \<Longrightarrow> running_phase (tn_phase t) \<Longrightarrow> stopping t \<Longrightarrow> tstep po pan t ((setErr e t)\<lparr>tn_phase := Gone\<rparr>)"
| returned: "tn_phase t = Serving g \<Longrightarrow>
    tstep po pan t ((end_run e t)\<lparr>tn_phase := (if stopping t then Gone else Idle g)\<rparr>)"
| restart_idle: "tn_phase t = Idle g \<Longrightarrow> restartCh t \<Longrightarrow> tstep po pan t (t\<lparr>restartCh := False, tn_phase := Top\<rparr>)"
| restart_cooling: "tn_phase t = Cooling \<Longrightarrow> restartCh t \<Longrightarrow>
    tstep po pan t (markRunning (t\<lparr>restartCh := False, tn_phase := Top\<rparr>))"
| revive: "tn_phase t = Cooling \<Longrightarrow> quarantineUntil t \<le> tn_now t \<Longrightarrow> tstep po pan t (markRunning (t\<lparr>tn_phase := Top\<rparr>))"
| leave: "stopping t \<Longrightarrow> tn_phase t = Top \<or> tn_phase t = Cooling \<or> (\<exists>g. tn_phase t = Idle g) \<Longrightarrow>
    tstep po pan t (t\<lparr>tn_phase := Gone\<rparr>)"
| stops: "tstep po pan t (t\<lparr>stopping := True\<rparr>)"
| passes: "0 \<le> d \<Longrightarrow> tstep po pan t (t\<lparr>tn_now := tn_now t + d\<rparr>)"
| updated: "tn_update t = None \<Longrightarrow> tstep po pan t (begin_update new t)"
| updating: "tn_update t \<noteq> None \<Longrightarrow> tstep po pan t (update_step po ord t)"

abbreviation reaches :: "Pool \<Rightarrow> bool \<Rightarrow> Tenant \<Rightarrow> Tenant \<Rightarrow> bool" where
  "reaches po pan \<equiv> (tstep po pan)\<^sup>*\<^sup>*"

section \<open>No update is lost\<close>

definition given_of :: "phase \<Rightarrow> Facets option" where
  "given_of ph = (case ph of Building u \<Rightarrow> Some (facets u) | Wired g \<Rightarrow> Some g | Serving g \<Rightarrow> Some g | Idle g \<Rightarrow> Some g | _ \<Rightarrow> None)"

lemma given_of_simps [simp]:
  "given_of Top = None" "given_of Starting = None" "given_of (Building u) = Some (facets u)" "given_of (Wired g) = Some g"
  "given_of (Serving g) = Some g" "given_of Cooling = None" "given_of (Idle g) = Some g" "given_of Gone = None"
  by (simp_all add: given_of_def)

text \<open>The new specification with the facets still to apply taken from the old one.\<close>

definition pick :: "facet list \<Rightarrow> facet \<Rightarrow> 'a \<Rightarrow> 'a \<Rightarrow> 'a" where
  "pick fs f a b = (if f \<in> set fs then a else b)"

definition mix :: "facet list \<Rightarrow> Facets \<Rightarrow> Facets \<Rightarrow> Facets" where
  "mix fs p n =
     \<lparr>fx_rest = fx_rest n, fx_commands = pick fs FCommands (fx_commands p) (fx_commands n),
      fx_flows = pick fs FFlows (fx_flows p) (fx_flows n), fx_ignored = pick fs FIgnores (fx_ignored p) (fx_ignored n),
      fx_nick = pick fs FNickChannels (fx_nick p) (fx_nick n),
      fx_channels = pick fs FNickChannels (fx_channels p) (fx_channels n),
      fx_suspended = pick fs FSuspend (fx_suspended p) (fx_suspended n)\<rparr>"

lemma mix_Nil [simp]: "mix [] p n = n"
  by (simp add: mix_def pick_def)

lemma patch_mix: "f \<notin> set fs \<Longrightarrow> patch f n (mix (f # fs) p n) = mix fs p n"
  by (cases f) (simp_all add: patch_def mix_def pick_def)

lemma patch_same [simp]: "patch f n n = n"
  by (cases f) (simp_all add: patch_def)

lemma mix_changed:
  assumes "liveUpdatableOnlyChange prev new"
  shows "mix (changed_facets prev new) (facets prev) (facets new) = facets prev"
proof -
  have c: "f \<in> set (changed_facets prev new) \<longleftrightarrow> facet_changed prev new f" for f
    by (cases f) (simp_all add: changed_facets_def)
  show ?thesis
    using assms unfolding mix_def pick_def c
    by (auto simp: facets_def facet_changed_def liveUpdatableOnlyChange_def ircNickChannelsChanged_def ircSuspendChanged_def)
qed

lemma changed_distinct: "distinct (changed_facets prev new)"
  by (simp add: changed_facets_def)

text \<open>The handles belong to the current run and come with the phase; there is a run once a phase needs one.\<close>

definition handles_ok :: "Tenant \<Rightarrow> bool" where
  "handles_ok t \<longleftrightarrow>
     (ircConn t \<noteq> None \<or> wiringRef t \<noteq> None \<longrightarrow> (\<exists>g. tn_phase t = Wired g \<or> tn_phase t = Serving g)) \<and>
     (agentRef t \<noteq> None \<longrightarrow> (\<exists>g. tn_phase t = Serving g)) \<and>
     ircConn t \<in> {None, Some (run_no t)} \<and> wiringRef t \<in> {None, Some (run_no t)} \<and> agentRef t \<in> {None, Some (run_no t)} \<and>
     (tn_phase t = Starting \<or> given_of (tn_phase t) \<noteq> None \<longrightarrow> run_no t \<noteq> 0)"

text \<open>A restart that will replace the run is under way.\<close>

definition renewing :: "Tenant \<Rightarrow> bool" where
  "renewing t \<longleftrightarrow> restartCh t \<and> (run_cancelled t \<or> (\<exists>g. tn_phase t = Idle g))"

definition done_with :: "Tenant \<Rightarrow> bool" where
  "done_with t \<longleftrightarrow> run_cancelled t \<or> (\<exists>g. tn_phase t = Idle g)"

definition caught :: "Tenant \<Rightarrow> Facets \<Rightarrow> bool" where
  "caught t g \<longleftrightarrow> g = facets (tn_spec t) \<or>
     (case tn_update t of
        None \<Rightarrow> renewing t
      | Some u \<Rightarrow> up_run u = run_no t \<and>
          (case up_stage u of
             Live fs ok \<Rightarrow> renewing t \<or> \<not> ok \<or> g = mix fs (facets (up_prev u)) (facets (up_new u))
           | ToCancel \<Rightarrow> True
           | ToSignal \<Rightarrow> done_with t))"

definition update_ok :: "Tenant \<Rightarrow> bool" where
  "update_ok t \<longleftrightarrow>
     (case tn_update t of
        None \<Rightarrow> True
      | Some u \<Rightarrow> up_new u = tn_spec t \<and> up_run u \<le> run_no t \<and> (case up_stage u of Live fs ok \<Rightarrow> distinct fs | _ \<Rightarrow> True))"

definition in_time :: "Tenant \<Rightarrow> bool" where
  "in_time t \<longleftrightarrow> (\<forall>g. given_of (tn_phase t) = Some g \<longrightarrow> caught t g) \<and> update_ok t"

definition safe :: "Tenant \<Rightarrow> bool" where
  "safe t \<longleftrightarrow> handles_ok t \<and> in_time t"

text \<open>The fields the invariant reads.\<close>

definition view :: "Tenant \<Rightarrow> phase \<times> update option \<times> TenantSpec \<times> nat \<times> bool \<times> bool \<times> nat option \<times> nat option \<times> nat option" where
  "view t = (tn_phase t, tn_update t, tn_spec t, run_no t, restartCh t, run_cancelled t, ircConn t, agentRef t, wiringRef t)"

lemma same_view: "view t = view t' \<Longrightarrow> safe t = safe t'"
  unfolding safe_def handles_ok_def in_time_def caught_def update_ok_def renewing_def done_with_def view_def
  by (simp only: prod.inject)

lemma caught_mono:
  assumes "caught t g" "tn_update t' = tn_update t" "tn_spec t' = tn_spec t" "run_no t' = run_no t"
    "renewing t \<Longrightarrow> renewing t'" "done_with t \<Longrightarrow> done_with t'"
  shows "caught t' g"
proof (cases "tn_update t")
  case None
  then show ?thesis using assms by (auto simp: caught_def)
next
  case (Some u)
  then show ?thesis using assms by (cases "up_stage u") (auto simp: caught_def)
qed

lemma update_ok_mono:
  assumes "update_ok t" "tn_update t' = tn_update t" "tn_spec t' = tn_spec t" "run_no t \<le> run_no t'"
  shows "update_ok t'"
  using assms by (auto simp: update_ok_def split: option.splits)

lemma in_time_blank:
  assumes "in_time t" "given_of (tn_phase t') = None" "tn_update t' = tn_update t" "tn_spec t' = tn_spec t" "run_no t \<le> run_no t'"
  shows "in_time t'"
  using assms update_ok_mono [of t t'] by (simp add: in_time_def)

lemma in_time_mono:
  assumes "in_time t" "given_of (tn_phase t') = given_of (tn_phase t)" "tn_update t' = tn_update t" "tn_spec t' = tn_spec t"
    "run_no t' = run_no t" "renewing t \<Longrightarrow> renewing t'" "done_with t \<Longrightarrow> done_with t'"
  shows "in_time t'"
  using assms caught_mono [of t _ t'] update_ok_mono [of t t'] by (simp add: in_time_def)

lemma through_fields:
  assumes "through refs f fc new t = (t', ok)"
  shows "tn_spec t' = tn_spec t" "run_no t' = run_no t" "restartCh t' = restartCh t" "run_cancelled t' = run_cancelled t"
    "tn_update t' = tn_update t" "ircConn t' = ircConn t" "agentRef t' = agentRef t" "wiringRef t' = wiringRef t"
    "\<not> ok \<Longrightarrow> t' = t"
    "tn_phase t' = tn_phase t \<or> (\<exists>g. tn_phase t = Wired g \<and> tn_phase t' = Wired (patch fc (facets new) g)) \<or>
       (\<exists>g. tn_phase t = Serving g \<and> tn_phase t' = Serving (patch fc (facets new) g))"
  using assms by (cases "tn_phase t"; auto simp: through_def split: if_splits)+

lemma through_reaches:
  assumes "through refs f fc new t = (t', True)" "refs \<noteq> []" "handles_ok t" "set refs \<subseteq> {ircConn t, agentRef t, wiringRef t}"
  shows "(\<exists>g. tn_phase t = Wired g \<and> tn_phase t' = Wired (patch fc (facets new) g)) \<or>
       (\<exists>g. tn_phase t = Serving g \<and> tn_phase t' = Serving (patch fc (facets new) g))"
proof -
  have n: "None \<notin> set refs" using assms(1) by (auto simp: through_def split: if_splits)
  obtain r rs where r: "refs = r # rs" using assms(2) by (cases refs) auto
  have "list_all (\<lambda>r. r = Some (run_no t)) refs"
    using n assms(3,4) by (auto simp: list_all_iff handles_ok_def)
  moreover have "None \<noteq> r" "r \<in> {ircConn t, agentRef t, wiringRef t}" using n r assms(4) by auto
  then have "r \<noteq> None \<and> r \<in> {ircConn t, agentRef t, wiringRef t}" by metis
  then have "\<exists>g. tn_phase t = Wired g \<or> tn_phase t = Serving g" using assms(3) by (auto simp: handles_ok_def)
  ultimately show ?thesis using assms(1) n by (auto simp: through_def)
qed

text \<open>What \<^const>\<open>apply_facet\<close> does, whichever facet it is.\<close>

lemma facet_through:
  "\<exists>refs g. apply_facet po ord new f t = through refs g f new t \<and> refs \<noteq> [] \<and> set refs \<subseteq> {ircConn t, agentRef t, wiringRef t}"
  by (cases f) (auto simp: apply_facet_def reloadCommands_def reloadFlows_def reloadGuard_def applyNickChannels_def
      applySuspend_def Let_def intro!: exI)

lemma at_stage_simps [simp]:
  "tn_phase (at_stage s t) = tn_phase t" "tn_spec (at_stage s t) = tn_spec t" "run_no (at_stage s t) = run_no t"
  "restartCh (at_stage s t) = restartCh t" "run_cancelled (at_stage s t) = run_cancelled t"
  "tn_update (at_stage s t) = map_option (\<lambda>u. u\<lparr>up_stage := s\<rparr>) (tn_update t)"
  "ircConn (at_stage s t) = ircConn t" "agentRef (at_stage s t) = agentRef t" "wiringRef (at_stage s t) = wiringRef t"
  by (simp_all add: at_stage_def)

lemma at_stage_renewing [simp]: "renewing (at_stage s t) = renewing t" "done_with (at_stage s t) = done_with t"
  by (simp_all add: renewing_def done_with_def)

lemma at_stage_handles [simp]: "handles_ok (at_stage s t) = handles_ok t"
  by (simp add: handles_ok_def)

lemma safe_facet:
  assumes "safe t" "tn_update t = Some u" "up_stage u = Live (f # fs) ok" "apply_facet po ord (up_new u) f t = (t', ok')"
  shows "safe (at_stage (Live fs (ok \<and> ok')) t')"
proof -
  obtain refs h where T: "through refs h f (up_new u) t = (t', ok')" and R: "refs \<noteq> []" "set refs \<subseteq> {ircConn t, agentRef t, wiringRef t}"
    using facet_through [of po ord "up_new u" f t] assms(4) by metis
  note same = through_fields(1-8) [OF T]
  have H: "handles_ok t" and I: "in_time t" using assms(1) by (simp_all add: safe_def)
  have H': "handles_ok t'" using through_fields(10) [OF T] by (elim disjE exE conjE) (use H same in \<open>simp add: handles_ok_def\<close>)+
  have u: "up_new u = tn_spec t" "up_run u \<le> run_no t" "distinct (f # fs)"
    using I assms(2,3) by (simp_all add: in_time_def update_ok_def)
  have "caught (at_stage (Live fs (ok \<and> ok')) t') g'" if g': "given_of (tn_phase t') = Some g'" for g'
  proof (cases ok')
    case False
    then have "t' = t" using through_fields(9) [OF T] by simp
    then have "caught t g'" using I g' by (simp add: in_time_def)
    then show ?thesis using False assms(2,3) \<open>t' = t\<close> by (auto simp: caught_def)
  next
    case True
    then have T1: "through refs h f (up_new u) t = (t', True)" using T by simp
    obtain g where g: "given_of (tn_phase t) = Some g" "g' = patch f (facets (up_new u)) g" "renewing t' = renewing t"
      using through_reaches [OF T1 R(1) H R(2)] g' same by (auto simp: renewing_def)
    have "caught t g" using I g(1) by (simp add: in_time_def)
    then have "g = facets (tn_spec t) \<or>
        up_run u = run_no t \<and> (renewing t \<or> \<not> ok \<or> g = mix (f # fs) (facets (up_prev u)) (facets (up_new u)))"
      using assms(2,3) by (simp add: caught_def)
    then have "g' = facets (tn_spec t) \<or>
        up_run u = run_no t \<and> (renewing t' \<or> \<not> ok \<or> g' = mix fs (facets (up_prev u)) (facets (up_new u)))"
      using g(2,3) u(1,3) patch_mix [of f fs] by auto
    then show ?thesis using same assms(2) by (auto simp: caught_def)
  qed
  then show ?thesis using H' same u assms(2) by (simp add: safe_def in_time_def update_ok_def)
qed

lemma safe_update_step:
  assumes "safe t" "tn_update t \<noteq> None"
  shows "safe (update_step po ord t)"
proof -
  obtain u where u: "tn_update t = Some u" using assms(2) by blast
  have H: "handles_ok t" and I: "\<And>g. given_of (tn_phase t) = Some g \<Longrightarrow> caught t g" and U: "update_ok t"
    using assms(1) by (simp_all add: safe_def in_time_def)
  show ?thesis
  proof (cases "up_stage u")
    case (Live fs ok)
    show ?thesis
    proof (cases fs)
      case Nil
      show ?thesis
      proof (cases ok)
        case True
        have s: "update_step po ord t = t\<lparr>tn_update := None\<rparr>" using u Live Nil True by (simp add: update_step_def)
        have "handles_ok (t\<lparr>tn_update := None\<rparr>)" using H by (simp add: handles_ok_def)
        moreover have "caught (t\<lparr>tn_update := None\<rparr>) g" if "given_of (tn_phase t) = Some g" for g
          using I [OF that] U u Live Nil True by (auto simp: caught_def renewing_def update_ok_def)
        ultimately show ?thesis unfolding s by (simp add: safe_def in_time_def update_ok_def)
      next
        case False
        have s: "update_step po ord t = at_stage ToCancel t" using u Live Nil False by (simp add: update_step_def)
        have "caught (at_stage ToCancel t) g" if "given_of (tn_phase t) = Some g" for g
          using I [OF that] u Live by (auto simp: caught_def)
        then show ?thesis unfolding s using H U u by (simp add: safe_def in_time_def update_ok_def)
      qed
    next
      case (Cons f fs')
      obtain t' ok' where a: "apply_facet po ord (up_new u) f t = (t', ok')" by fastforce
      then show ?thesis using safe_facet [OF assms(1) u Live [unfolded Cons] a] u Live Cons
        by (simp add: update_step_def)
    qed
  next
    case ToCancel
    define t1 where "t1 = t\<lparr>run_cancelled := (run_cancelled t \<or> (up_run u \<noteq> 0 \<and> up_run u = run_no t))\<rparr>"
    have t1: "tn_phase t1 = tn_phase t" "tn_spec t1 = tn_spec t" "run_no t1 = run_no t" "tn_update t1 = Some u"
      "run_cancelled t1 = (run_cancelled t \<or> (up_run u \<noteq> 0 \<and> up_run u = run_no t))" by (simp_all add: t1_def u)
    have s: "update_step po ord t = at_stage ToSignal t1" using u ToCancel by (simp add: update_step_def t1_def)
    have H1: "handles_ok t1" using H by (simp add: handles_ok_def t1_def)
    have "caught (at_stage ToSignal t1) g" if g: "given_of (tn_phase t) = Some g" for g
    proof -
      have "run_no t \<noteq> 0" using H g by (simp add: handles_ok_def)
      then show ?thesis using I [OF g] u ToCancel by (auto simp: caught_def t1 done_with_def)
    qed
    then show ?thesis unfolding s using H1 U u by (simp add: safe_def in_time_def update_ok_def t1)
  next
    case ToSignal
    define t1 where "t1 = t\<lparr>restartCh := True, tn_update := None\<rparr>"
    have t1: "tn_phase t1 = tn_phase t" "tn_spec t1 = tn_spec t" "tn_update t1 = None" "renewing t1 = done_with t"
      by (simp_all add: t1_def renewing_def done_with_def)
    have s: "update_step po ord t = t1" using u ToSignal by (simp add: update_step_def t1_def)
    have "handles_ok t1" using H by (simp add: handles_ok_def t1_def)
    moreover have "caught t1 g" if "given_of (tn_phase t) = Some g" for g
      using I [OF that] u ToSignal by (auto simp: caught_def t1)
    ultimately show ?thesis unfolding s by (simp add: safe_def in_time_def update_ok_def t1)
  qed
qed

lemma safe_begin_update:
  assumes "safe t" "tn_update t = None"
  shows "safe (begin_update new t)"
proof (cases "tn_spec t = new")
  case False
  have H: "handles_ok t" and I: "\<And>g. given_of (tn_phase t) = Some g \<Longrightarrow> caught t g"
    using assms(1) by (simp_all add: safe_def in_time_def)
  define st where "st = (if liveUpdatableOnlyChange (tn_spec t) new then Live (changed_facets (tn_spec t) new) True else ToCancel)"
  define t1 where "t1 = t\<lparr>tn_spec := new, tn_update := Some \<lparr>up_prev = tn_spec t, up_new = new, up_run = run_no t, up_stage = st\<rparr>\<rparr>"
  have t1: "tn_phase t1 = tn_phase t" "tn_spec t1 = new" "run_no t1 = run_no t" "renewing t1 = renewing t"
    "tn_update t1 = Some \<lparr>up_prev = tn_spec t, up_new = new, up_run = run_no t, up_stage = st\<rparr>"
    by (simp_all add: t1_def renewing_def)
  have s: "begin_update new t = t1" using False by (simp add: begin_update_def t1_def st_def)
  have "handles_ok t1" using H by (simp add: handles_ok_def t1_def)
  moreover have "caught t1 g" if "given_of (tn_phase t) = Some g" for g
    using I [OF that] assms(2) mix_changed [of "tn_spec t" new] by (auto simp: caught_def t1 st_def)
  moreover have "update_ok t1" using changed_distinct [of "tn_spec t" new] by (simp add: update_ok_def t1 st_def)
  ultimately show ?thesis unfolding s by (simp add: safe_def in_time_def t1)
qed (use assms(1) in \<open>simp add: begin_update_def\<close>)

lemma safe_step: "tstep po False t t' \<Longrightarrow> safe t \<Longrightarrow> safe t'"
proof (induction rule: tstep.induct)
  case (begin_run t)
  let ?t = "t\<lparr>run_no := Suc (run_no t), run_cancelled := False, tn_phase := Starting\<rparr>"
  have "in_time ?t" by (rule in_time_blank [of t]) (use begin_run(3) in \<open>simp_all add: safe_def\<close>)
  moreover have "handles_ok ?t" using begin_run(1,3) by (auto simp: safe_def handles_ok_def)
  ultimately show ?case by (simp add: safe_def)
next
  case (read_spec t)
  let ?t = "t\<lparr>tn_phase := Building (tn_spec t)\<rparr>"
  have "update_ok ?t" using read_spec(2) update_ok_mono [of t ?t] by (simp add: safe_def in_time_def)
  then have "in_time ?t" by (simp add: in_time_def caught_def)
  moreover have "handles_ok ?t" using read_spec by (auto simp: safe_def handles_ok_def)
  ultimately show ?case by (simp add: safe_def)
next
  case (wired t u)
  obtain b ok where b: "buildConnectors po (tn_now t) u = (b, ok)" by fastforce
  define t1 where "t1 = wire_run po u t"
  have t1: "tn_phase t1 = Wired (facets u)" "tn_spec t1 = tn_spec t" "run_no t1 = run_no t" "restartCh t1 = restartCh t"
    "run_cancelled t1 = run_cancelled t" "tn_update t1 = tn_update t" "agentRef t1 = agentRef t"
    "ircConn t1 = (if ok then Some (run_no t) else ircConn t)" "wiringRef t1 = (if ok then Some (run_no t) else wiringRef t)"
    by (simp_all add: t1_def wire_run_def b)
  have "in_time t1" by (rule in_time_mono [of t]) (use wired in \<open>simp_all add: safe_def t1 renewing_def done_with_def\<close>)
  moreover have "handles_ok t1" using wired by (auto simp: safe_def handles_ok_def t1)
  ultimately show ?case unfolding t1_def [symmetric] by (simp add: safe_def)
next
  case (attached t g)
  let ?t = "t\<lparr>agentRef := Some (run_no t), tn_phase := Serving g\<rparr>"
  have "in_time ?t" by (rule in_time_mono [of t]) (use attached in \<open>simp_all add: safe_def renewing_def done_with_def\<close>)
  moreover have "handles_ok ?t" using attached by (auto simp: safe_def handles_ok_def)
  ultimately show ?case by (simp add: safe_def)
next
  case (returned t g e)
  let ?t = "(end_run e t)\<lparr>tn_phase := (if stopping t then Gone else Idle g)\<rparr>"
  have "in_time ?t"
  proof (cases "stopping t")
    case True
    show ?thesis by (rule in_time_blank [of t]) (use True returned in \<open>simp_all add: safe_def end_run_def\<close>)
  next
    case False
    show ?thesis by (rule in_time_mono [of t]) (use False returned in \<open>auto simp: safe_def end_run_def renewing_def done_with_def\<close>)
  qed
  moreover have "handles_ok ?t" using returned by (auto simp: safe_def handles_ok_def end_run_def)
  ultimately show ?case by (simp add: safe_def)
next
  case (restart_idle t g)
  let ?t = "t\<lparr>restartCh := False, tn_phase := Top\<rparr>"
  have "in_time ?t" by (rule in_time_blank [of t]) (use restart_idle in \<open>simp_all add: safe_def\<close>)
  moreover have "handles_ok ?t" using restart_idle by (auto simp: safe_def handles_ok_def)
  ultimately show ?case by (simp add: safe_def)
next
  case (restart_cooling t)
  let ?t = "markRunning (t\<lparr>restartCh := False, tn_phase := Top\<rparr>)"
  have "in_time ?t" by (rule in_time_blank [of t]) (use restart_cooling in \<open>simp_all add: safe_def markRunning_def\<close>)
  moreover have "handles_ok ?t" using restart_cooling by (auto simp: safe_def handles_ok_def markRunning_def)
  ultimately show ?case by (simp add: safe_def)
next
  case (revive t)
  let ?t = "markRunning (t\<lparr>tn_phase := Top\<rparr>)"
  have "in_time ?t" by (rule in_time_blank [of t]) (use revive in \<open>simp_all add: safe_def markRunning_def\<close>)
  moreover have "handles_ok ?t" using revive by (auto simp: safe_def handles_ok_def markRunning_def)
  ultimately show ?case by (simp add: safe_def)
next
  case (leave t)
  let ?t = "t\<lparr>tn_phase := Gone\<rparr>"
  have "in_time ?t" by (rule in_time_blank [of t]) (use leave in \<open>simp_all add: safe_def\<close>)
  moreover have "handles_ok ?t" using leave(2,3) by (elim disjE exE) (auto simp: safe_def handles_ok_def)
  ultimately show ?case by (simp add: safe_def)
next
  case (works t g b)
  then show ?case using same_view [of "t\<lparr>tn_bot := b\<rparr>" t] by (simp add: view_def)
next
  case (stops t)
  then show ?case using same_view [of "t\<lparr>stopping := True\<rparr>" t] by (simp add: view_def)
next
  case (passes d t)
  then show ?case using same_view [of "t\<lparr>tn_now := tn_now t + d\<rparr>" t] by (simp add: view_def)
next
  case (updated t new)
  then show ?case using safe_begin_update by blast
next
  case (updating t ord)
  then show ?case using safe_update_step by blast
qed simp_all

lemma safe_start: "safe (startTenant po spec b now)"
  by (simp add: safe_def handles_ok_def in_time_def update_ok_def startTenant_def)

lemma safe_reach: "reaches po False (startTenant po spec b now) t \<Longrightarrow> safe t"
  by (induction rule: rtranclp_induct) (use safe_start safe_step in blast)+

text \<open>No change of a tenant's specification that the code looks at is lost, however updates and the supervisor
  interleave, as long as no run panics and the connectors of a run are all built before the next update. Whenever no
  update is in progress, a run that was given something else than the current specification is already cancelled, or
  over, with a restart signalled; the next run reads the specification afresh. So a run left alone was given the current commands, flows, ignore list, nick, channels and connect intent of its first IRC
  connector, and all the rest of the specification. (\<open>Facets\<close> is what was given to the run, a ghost; what the bot makes
  of it is the matter of \<open>hot_reload_exact\<close>.)\<close>

theorem no_update_lost:
  assumes "reaches po False (startTenant po spec b now) t" "tn_update t = None" "given_of (tn_phase t) = Some g"
  shows "g = facets (tn_spec t) \<or> restartCh t \<and> (run_cancelled t \<or> tn_phase t = Idle g)"
  using safe_reach [OF assms(1)] assms(2,3) by (auto simp: safe_def in_time_def caught_def renewing_def)

definition sample_pool :: Pool where
  "sample_pool =
     \<lparr>po_llm = True, po_activity = False, resolveSourceIP = (\<lambda>_. []), po_flt = (\<lambda>_ _ _. 0),
      po_world = sample_world (NewConnector sample_settings True 0)\<rparr>"

definition bare_spec :: TenantSpec where
  "bare_spec =
     \<lparr>TurborgID = ''t'', ShardID = 0, RuntimeMode = [], UserUUID = [], PlanCode = [], CommandPrefix = [], Connectors = [],
      ts_Capabilities = None, ts_IgnoredNicks = [], ts_Commands = [], ts_Flows = [], GatewayToken = [], EgressIP = []\<rparr>"

lemma starts:
  assumes "(b, ok) = buildConnectors po now spec"
  shows "reaches po pan (startTenant po spec q now)
    ((startTenant po spec q now)\<lparr>run_no := 1, tn_bot := b, ircConn := (if ok then Some 1 else None),
       wiringRef := (if ok then Some 1 else None), agentRef := Some 1, tn_phase := Serving (facets spec)\<rparr>)"
proof -
  let ?t0 = "startTenant po spec q now"
  define t1 t2 t3 where "t1 = ?t0\<lparr>run_no := Suc (run_no ?t0), run_cancelled := False, tn_phase := Starting\<rparr>"
    and "t2 = t1\<lparr>tn_phase := Building (tn_spec t1)\<rparr>" and "t3 = wire_run po spec t2"
  have "tstep po pan ?t0 t1" unfolding t1_def by (rule begin_run) (simp_all add: startTenant_def)
  moreover have "tstep po pan t1 t2" unfolding t2_def by (rule read_spec) (simp add: t1_def)
  moreover have "tstep po pan t2 t3" unfolding t3_def by (rule wired) (simp add: t2_def t1_def startTenant_def)
  moreover have "tn_phase t3 = Wired (facets spec)" using assms [symmetric] by (simp add: t3_def wire_run_def split: prod.split)
  then have "tstep po pan t3 (t3\<lparr>agentRef := Some (run_no t3), tn_phase := Serving (facets spec)\<rparr>)" by (rule attached)
  moreover have "t3\<lparr>agentRef := Some (run_no t3), tn_phase := Serving (facets spec)\<rparr> =
      ?t0\<lparr>run_no := 1, tn_bot := b, ircConn := (if ok then Some 1 else None),
        wiringRef := (if ok then Some 1 else None), agentRef := Some 1, tn_phase := Serving (facets spec)\<rparr>"
    using assms [symmetric] by (simp add: t3_def t2_def t1_def wire_run_def startTenant_def)
  ultimately show ?thesis by (metis (no_types, lifting) rtranclp.simps)
qed

section \<open>Quarantine\<close>

text \<open>A run of the tenant with the number of its panics and the time of the last one.\<close>

inductive panicked :: "Pool \<Rightarrow> Tenant \<Rightarrow> nat \<Rightarrow> instant \<Rightarrow> Tenant \<Rightarrow> bool" for po t0 where
  fresh: "panicked po t0 0 (tn_now t0) t0"
| calm: "panicked po t0 n w t \<Longrightarrow> tstep po False t t' \<Longrightarrow> panicked po t0 n w t'"
| panic: "panicked po t0 n w t \<Longrightarrow> running_phase (tn_phase t) \<Longrightarrow> \<not> stopping t \<Longrightarrow>
    panicked po t0 (Suc n) (tn_now t) ((enterQuarantine (setErr e t))\<lparr>tn_phase := Cooling\<rparr>)"
| last_panic: "panicked po t0 n w t \<Longrightarrow> running_phase (tn_phase t) \<Longrightarrow> stopping t \<Longrightarrow>
    panicked po t0 n w ((setErr e t)\<lparr>tn_phase := Gone\<rparr>)"

lemma panicked_reaches: "panicked po t0 n w t \<Longrightarrow> reaches po True t0 t"
proof (induction rule: panicked.induct)
  case (calm n w t t')
  have "tstep po True t t'" using calm(2) by (cases rule: tstep.cases) (simp_all add: tstep.intros)
  then show ?case using calm.IH by simp
next
  case (panic n w t e)
  then show ?case using tstep.panics [of True t po e] by simp
next
  case (last_panic n w t e)
  then show ?case using tstep.panics_stopping [of True t po e] by simp
qed simp

definition cooling_ok :: "duration \<Rightarrow> nat \<Rightarrow> instant \<Rightarrow> Tenant \<Rightarrow> bool" where
  "cooling_ok b n w t \<longleftrightarrow> quarantineBase t = b \<and> failures t = n \<and> w \<le> tn_now t \<and>
     (n > 0 \<longrightarrow> quarantineUntil t = w + b * 2 ^ min (n - 1) 5) \<and>
     (tn_phase t = Cooling \<longrightarrow> tn_status t = StatusQuarantined \<and> n > 0) \<and>
     (tn_status t = StatusQuarantined \<longrightarrow> tn_phase t = Cooling \<or> tn_phase t = Gone) \<and>
     (tn_phase t = Gone \<longrightarrow> stopping t)"

lemma through_pause:
  assumes "through refs f fc new t = (t', ok)"
  shows "quarantineBase t' = quarantineBase t" "failures t' = failures t" "tn_now t' = tn_now t"
    "quarantineUntil t' = quarantineUntil t" "tn_status t' = tn_status t" "stopping t' = stopping t"
    "tn_phase t' = Cooling \<longleftrightarrow> tn_phase t = Cooling" "tn_phase t' = Gone \<longleftrightarrow> tn_phase t = Gone"
proof -
  show "quarantineBase t' = quarantineBase t" "failures t' = failures t" "tn_now t' = tn_now t"
    "quarantineUntil t' = quarantineUntil t" "tn_status t' = tn_status t" "stopping t' = stopping t"
    using assms by (auto simp: through_def split: if_splits)
  show "tn_phase t' = Cooling \<longleftrightarrow> tn_phase t = Cooling" "tn_phase t' = Gone \<longleftrightarrow> tn_phase t = Gone"
    using through_fields(10) [OF assms] by (elim disjE exE conjE, simp_all)+
qed

lemma through_cooling:
  "through refs f fc new t = (t', ok) \<Longrightarrow> cooling_ok b n w t' = cooling_ok b n w t"
  unfolding cooling_ok_def by (simp only: through_pause)

lemma update_cooling: "cooling_ok b n w t \<Longrightarrow> cooling_ok b n w (update_step po ord t)"
proof -
  have st: "cooling_ok b n w (at_stage s t) = cooling_ok b n w t" for s t by (simp add: at_stage_def cooling_ok_def)
  assume C: "cooling_ok b n w t"
  show ?thesis
  proof (cases "tn_update t")
    case (Some u)
    show ?thesis
    proof (cases "\<exists>f fs ok. up_stage u = Live (f # fs) ok")
      case True
      then obtain f fs ok t' ok' where l: "up_stage u = Live (f # fs) ok" "apply_facet po ord (up_new u) f t = (t', ok')"
        by fastforce
      moreover have "cooling_ok b n w t'" using C l(2) facet_through [of po ord "up_new u" f t] through_cooling by metis
      ultimately show ?thesis using Some by (simp add: update_step_def st)
    next
      case False
      then show ?thesis using Some C
        by (auto simp: update_step_def at_stage_def cooling_ok_def split: up_stage.split list.split bool.split)
    qed
  qed (use C in \<open>simp add: update_step_def\<close>)
qed

lemma update_phase:
  assumes "tn_phase t = Cooling"
  shows "tn_phase (update_step po ord t) = Cooling"
proof (cases "tn_update t")
  case (Some u)
  show ?thesis
  proof (cases "\<exists>f fs ok. up_stage u = Live (f # fs) ok")
    case True
    then obtain f fs ok t' ok' where l: "up_stage u = Live (f # fs) ok" "apply_facet po ord (up_new u) f t = (t', ok')"
      by fastforce
    moreover have "tn_phase t' = Cooling"
      using assms l(2) facet_through [of po ord "up_new u" f t] through_pause(7) by metis
    ultimately show ?thesis using Some by (simp add: update_step_def)
  next
    case False
    then show ?thesis using Some assms
      by (simp add: update_step_def split: up_stage.split list.split bool.split)
  qed
qed (use assms in \<open>simp add: update_step_def\<close>)

lemma cooling_step: "tstep po False t t' \<Longrightarrow> cooling_ok b n w t \<Longrightarrow> cooling_ok b n w t'"
proof (induction rule: tstep.induct)
  case (wired t u)
  then show ?case by (auto simp: cooling_ok_def wire_run_def split: prod.split)
next
  case (passes d t)
  then show ?case by (auto simp: cooling_ok_def)
next
  case (updated t new)
  then show ?case by (simp add: begin_update_def cooling_ok_def)
next
  case (updating t ord)
  then show ?case using update_cooling by blast
qed (auto simp: cooling_ok_def running_phase_def setErr_def end_run_def markRunning_def)

lemma cooling_run: "panicked po (startTenant po spec b now) n w t \<Longrightarrow> cooling_ok b n w t"
proof (induction rule: panicked.induct)
  case fresh
  show ?case by (simp add: cooling_ok_def startTenant_def)
next
  case (calm n w t t')
  then show ?case using cooling_step by blast
next
  case (panic n w t e)
  then show ?case by (auto simp: cooling_ok_def enterQuarantine_def setErr_def Let_def)
next
  case (last_panic n w t e)
  then show ?case by (auto simp: cooling_ok_def running_phase_def setErr_def)
qed

text \<open>C24: a panic costs a tenant a pause and never its life. After any run with \<open>n\<close> panics, the last of them at \<open>w\<close>, the
  tenant has counted exactly those, and the end of its pause is \<open>w\<close> plus the server's base doubled with every panic before
  it, but never more than 32 times the base. A tenant that pauses is shown as quarantined, and one that is so shown pauses
  or was stopped in a pause. Its supervisor leaves the pause only when the time is up, when a restart was signalled or when
  the server stops it, and leaves for good only when the server stopped it.\<close>

theorem quarantine:
  assumes "panicked po (startTenant po spec b now) n w t"
  shows "failures t = n \<and>
    (n > 0 \<longrightarrow> quarantineUntil t = w + (if n \<le> 5 then b * 2 ^ (n - 1) else b * 32)) \<and>
    (tn_phase t = Cooling \<longrightarrow> tn_status t = StatusQuarantined \<and> n > 0) \<and>
    (tn_status t = StatusQuarantined \<longrightarrow> tn_phase t = Cooling \<or> stopping t) \<and>
    (tn_phase t = Gone \<longrightarrow> stopping t) \<and>
    (\<forall>pan t'. tstep po pan t t' \<and> tn_phase t = Cooling \<and> tn_phase t' \<noteq> Cooling \<longrightarrow>
       quarantineUntil t \<le> tn_now t \<or> restartCh t \<or> stopping t)"
proof -
  have C: "cooling_ok b n w t" by (rule cooling_run [OF assms])
  have "b * 2 ^ min (n - 1) 5 = (if n \<le> 5 then b * 2 ^ (n - 1) else b * 32)"
  proof (cases "n \<le> 5")
    case False
    then have "min (n - 1) 5 = 5" by simp
    then show ?thesis using False by simp
  qed simp
  moreover have "quarantineUntil t \<le> tn_now t \<or> restartCh t \<or> stopping t"
    if "tstep po pan t t'" "tn_phase t = Cooling" "tn_phase t' \<noteq> Cooling" for pan t'
    using that
  proof (cases rule: tstep.cases)
    case (updated new)
    then show ?thesis using that by (simp add: begin_update_def split: if_splits)
  next
    case (updating ord)
    then show ?thesis using that update_phase by metis
  qed (use that in \<open>auto simp: running_phase_def wire_run_def split: prod.splits\<close>)
  ultimately show ?thesis using C by (auto simp: cooling_ok_def)
qed

lemma panic_once:
  "panicked po (startTenant po spec q now) 1 now
    ((enterQuarantine (setErr e ((startTenant po spec q now)\<lparr>run_no := 1, tn_phase := Starting\<rparr>)))\<lparr>tn_phase := Cooling\<rparr>)"
proof -
  let ?t0 = "startTenant po spec q now" and ?t1 = "(startTenant po spec q now)\<lparr>run_no := 1, tn_phase := Starting\<rparr>"
  have "?t1 = ?t0\<lparr>run_no := Suc (run_no ?t0), run_cancelled := False, tn_phase := Starting\<rparr>" by (simp add: startTenant_def)
  then have "tstep po False ?t0 ?t1" using begin_run [of ?t0 po False] by (simp add: startTenant_def)
  with panicked.fresh have "panicked po ?t0 0 (tn_now ?t0) ?t1" by (rule panicked.calm)
  moreover have "running_phase (tn_phase ?t1)" "\<not> stopping ?t1" "tn_now ?t1 = now"
    by (simp_all add: running_phase_def startTenant_def)
  ultimately show ?thesis using panicked.panic [of po ?t0 0 "tn_now ?t0" ?t1 e] by simp
qed

theorem quarantine_witness:
  "\<exists>t. panicked sample_pool (startTenant sample_pool bare_spec 7 0) 1 0 t \<and> tn_phase t = Cooling \<and>
     tn_status t = StatusQuarantined \<and> quarantineUntil t = 7"
proof -
  let ?t = "(enterQuarantine (setErr [] ((startTenant sample_pool bare_spec 7 0)\<lparr>run_no := 1, tn_phase := Starting\<rparr>)))\<lparr>tn_phase := Cooling\<rparr>"
  have r: "panicked sample_pool (startTenant sample_pool bare_spec 7 0) 1 0 ?t" by (rule panic_once)
  from quarantine [OF this] have "tn_status ?t = StatusQuarantined \<and> quarantineUntil ?t = 7" by simp
  with r show ?thesis by (intro exI [of _ ?t]) simp
qed

section \<open>Where updates go astray\<close>

text \<open>A nick, channel list or connect intent is looked up in the first IRC connector only, and taken out of all of them
  before the comparison: a change of a second one is neither applied nor a reason to restart.\<close>

definition irc_conn :: "string \<Rightarrow> ConnectorSpec" where
  "irc_conn nick =
     \<lparr>cs_Type = ''irc'', cs_Config = Some (fmupd ''nick'' (JStr nick) (fmupd ''network'' (JStr ''irc.example:6667'') fmempty)),
      cs_Secrets = None\<rparr>"

lemma strip_irc_conn: "strip_live (irc_conn a) = strip_live (irc_conn b)"
proof -
  have "fmfilter (\<lambda>k. k \<notin> {''nick'', ''channels'', ''suspended''}) (fmupd ''nick'' (JStr x) (fmupd ''network'' v fmempty)) =
      fmupd ''network'' v fmempty" for x v
    by (rule fmap_ext) simp
  then show ?thesis by (simp add: strip_live_def irc_conn_def)
qed

lemma second_connector_ignored:
  "facets (bare_spec\<lparr>Connectors := [irc_conn ''a'', irc_conn ''b'']\<rparr>) = facets (bare_spec\<lparr>Connectors := [irc_conn ''a'', irc_conn ''c'']\<rparr>)"
  using strip_irc_conn [of "''b''" "''c''"]
  by (simp add: facets_def strip_spec_def stripLiveConnectorFields_def live_config_def firstIRCConnectorSpec_def irc_conn_def)

text \<open>A run that panics leaves its handles behind. Until the next run has set its own, a live update goes to the dead
  connector and counts as applied, although the next run has read the old specification already.\<close>

definition one_irc :: TenantSpec where
  "one_irc = bare_spec\<lparr>Connectors := [irc_conn ''a'']\<rparr>"

definition one_irc_renamed :: TenantSpec where
  "one_irc_renamed = bare_spec\<lparr>Connectors := [irc_conn ''b'']\<rparr>"

lemma default_intervals:
  assumes "ClientPingInterval s = 0" "ReadIdleTimeout s = 0" "PongTimeout s = 0"
  shows "Validate (ApplyDefaults s) = None"
proof -
  have "ClientPingInterval (ApplyDefaults s) = 120 * second" "ReadIdleTimeout (ApplyDefaults s) = 300 * second"
    "PongTimeout (ApplyDefaults s) = 30 * second"
    using assms by (simp_all add: ApplyDefaults_def setIfZero_def)
  then show ?thesis by (simp add: Validate_def second_def)
qed

lemma one_irc_builds: "snd (buildConnectors po now one_irc)"
proof -
  have sp: "splitNetwork ''irc.example:6667'' = Inr (''irc.example'', 6667)" by code_simp
  have "\<exists>s. settingsFromConnectorSpec (irc_conn ''a'') = Inr s"
  proof -
    have "stringField (cs_Config (irc_conn ''a'')) ''network'' = ''irc.example:6667''"
      "stringField (cs_Config (irc_conn ''a'')) ''nick'' = ''a''"
      by (simp_all add: irc_conn_def stringField_def cfg_lookup_def)
    moreover have "ClientPingInterval zero_settings = 0" "ReadIdleTimeout zero_settings = 0" "PongTimeout zero_settings = 0"
      by (simp_all add: zero_settings_def)
    ultimately show ?thesis by (simp add: settingsFromConnectorSpec_def sp default_intervals Let_def)
  qed
  then obtain s where s: "build_settings po one_irc (irc_conn ''a'') = Inr s"
    by (auto simp: build_settings_def Let_def)
  have "ts_Capabilities one_irc = None" by (simp add: one_irc_def bare_spec_def)
  then have "OutboundMaxPerWindow (tenant_params po one_irc (irc_conn ''a'') s) = 0"
    by (simp add: tenant_params_def commonParams_def caps_or_def Let_def)
  then have "outbound_throttle (tenant_params po one_irc (irc_conn ''a'') s) = Inr None"
    by (simp add: outbound_throttle_def)
  then have "\<exists>b. WireCommon flt (tenant_params po one_irc (irc_conn ''a'') s) b0 = Inr (Some b)" for flt b0
    using WireCore_returns by (simp add: WireCommon_def)
  then have "\<exists>b. buildIRCConnector po one_irc (irc_conn ''a'') b0 = Inr (Some b)" for b0
    using s by (simp add: buildIRCConnector_def Let_def)
  then obtain b where b: "buildIRCConnector po one_irc (irc_conn ''a'')
      (NewBot (CommandPrefix one_irc) (on_irc (\<lambda>c. c\<lparr>clock := now\<rparr>) (po_world po))) = Inr (Some b)" by blast
  have "Connectors one_irc = [irc_conn ''a'']" "cs_Type (irc_conn ''a'') = ''irc''" by (simp_all add: one_irc_def irc_conn_def)
  then show ?thesis using b by (simp add: buildConnectors_def)
qed

lemma update_lost_after_panic:
  "\<exists>t. reaches po True (startTenant po one_irc 0 now) t \<and> tn_update t = None \<and> tn_spec t = one_irc_renamed \<and>
     tn_phase t = Building one_irc \<and> facets one_irc \<noteq> facets one_irc_renamed \<and> \<not> restartCh t \<and> \<not> run_cancelled t"
proof -
  let ?t0 = "startTenant po one_irc 0 now"
  obtain b where b: "(b, True) = buildConnectors po now one_irc" using one_irc_builds [of po now] by (metis prod.collapse)
  define t1 where "t1 = ?t0\<lparr>run_no := 1, tn_bot := b, ircConn := Some 1, wiringRef := Some 1, agentRef := Some 1,
      tn_phase := Serving (facets one_irc)\<rparr>"
  define t2 where "t2 = (enterQuarantine (setErr [] t1))\<lparr>tn_phase := Cooling\<rparr>"
  define t3 where "t3 = markRunning (t2\<lparr>tn_phase := Top\<rparr>)"
  define t4 where "t4 = t3\<lparr>run_no := Suc (run_no t3), run_cancelled := False, tn_phase := Starting\<rparr>"
  define t5 where "t5 = t4\<lparr>tn_phase := Building (tn_spec t4)\<rparr>"
  define t6 where "t6 = begin_update one_irc_renamed t5"
  define t7 where "t7 = update_step po [] t6"
  define t8 where "t8 = update_step po [] t7"
  note defs = t1_def t2_def t3_def t4_def startTenant_def enterQuarantine_def setErr_def markRunning_def Let_def
  have r1: "reaches po True ?t0 t1" using starts [OF b, of True 0] by (simp add: t1_def)
  have "tstep po True t1 t2" unfolding t2_def by (rule panics) (simp_all add: t1_def running_phase_def startTenant_def)
  moreover have "tstep po True t2 t3" unfolding t3_def by (rule revive) (simp_all add: defs)
  moreover have "tstep po True t3 t4" unfolding t4_def by (rule begin_run) (simp_all add: defs)
  moreover have "tstep po True t4 t5" unfolding t5_def by (rule read_spec) (simp add: defs)
  moreover have t5: "tn_update t5 = None" "tn_spec t5 = one_irc" "tn_phase t5 = Building one_irc" "run_no t5 = 2"
    "ircConn t5 = Some 1" "\<not> restartCh t5" "\<not> run_cancelled t5"
    by (simp_all add: t5_def defs)
  moreover have "tstep po True t5 t6" unfolding t6_def using t5(1) by (rule updated)
  moreover have n: "stringField (live_config one_irc) ''nick'' = ''a''" "stringField (live_config one_irc_renamed) ''nick'' = ''b''"
    by (simp_all add: one_irc_def one_irc_renamed_def live_config_def firstIRCConnectorSpec_def irc_conn_def stringField_def cfg_lookup_def)
  then have ne: "one_irc \<noteq> one_irc_renamed" "facets one_irc \<noteq> facets one_irc_renamed" by (auto simp: facets_def)
  have live: "liveUpdatableOnlyChange one_irc one_irc_renamed"
    using strip_irc_conn [of "''a''" "''b''"]
    by (simp add: liveUpdatableOnlyChange_def strip_spec_def one_irc_def one_irc_renamed_def stripLiveConnectorFields_def bare_spec_def)
  have ch: "changed_facets one_irc one_irc_renamed = [FNickChannels]"
    using n by (simp add: changed_facets_def facet_changed_def ircNickChannelsChanged_def ircSuspendChanged_def)
      (simp add: one_irc_def one_irc_renamed_def bare_spec_def live_config_def firstIRCConnectorSpec_def irc_conn_def boolField_def cfg_lookup_def)
  define u where "u = \<lparr>up_prev = one_irc, up_new = one_irc_renamed, up_run = 2, up_stage = Live [FNickChannels] True\<rparr>"
  have t6: "t6 = t5\<lparr>tn_spec := one_irc_renamed, tn_update := Some u\<rparr>"
    using ne live ch t5 by (simp add: t6_def begin_update_def u_def)
  have "apply_facet po [] one_irc_renamed FNickChannels t6 = (t6, True)"
    using t5 by (simp add: apply_facet_def applyNickChannels_def through_def t6)
  then have t7: "t7 = at_stage (Live [] True) t6" by (simp add: t7_def update_step_def t6 u_def)
  have t8: "t8 = t7\<lparr>tn_update := None\<rparr>" by (simp add: t8_def update_step_def t7 at_stage_def t6)
  have "tstep po True t6 t7" unfolding t7_def by (rule updating) (simp add: t6)
  moreover have "tstep po True t7 t8" unfolding t8_def by (rule updating) (simp add: t7 at_stage_def t6)
  ultimately have "reaches po True ?t0 t8" using r1 by (meson rtranclp.rtrancl_into_rtrancl)
  then show ?thesis using t5 ne by (intro exI [of _ t8]) (simp add: t8 t7 t6 at_stage_def)
qed

text \<open>A reload of the commands hands them the provider of the process. Where the budgeted one refuses without a call, the
  reloaded command asks.\<close>

lemma reload_escapes_budget:
  assumes "inputCap > 0" "llm_caps w = (inputCap, outputCap)" "AllowTokens (now_w w) inputCap outputCap (budget w) = (b, False)"
  shows "asked (fst (provider_Ask prompt opts w)) = asked w \<and> asked (fst (model_Ask prompt opts w)) = asked w @ [(prompt, opts)]"
  using assms by (simp add: provider_Ask_def budgeted_Ask_def model_Ask_def Let_def)

end
