(* ===== verification/Server.thy ===== *)
theory Server
  imports Tenant
begin

text \<open>
  \<^verbatim>\<open>internal/server/server.go\<close>: the map of tenants and what the events of a source do to it, with the polling source of
  \<^verbatim>\<open>http_source.go\<close>, which turns snapshots of a control plane into events, and the activity aggregator of
  \<^verbatim>\<open>tenant_activity.go\<close>. The server changes a tenant under its own lock, one event after the other; the supervisors of
  the tenants run on their own (theory \<open>Tenant\<close>) and never touch the map or a specification.
\<close>

section \<open>The server\<close>

type_synonym server = "string \<rightharpoonup> Tenant"

definition defaultQuarantineBase :: duration where "defaultQuarantineBase = 10 ^ 9"

text \<open>An update takes at most eight pieces: five facets, the verdict, the cancel and the signal.\<close>

definition update_tenant :: "Pool \<Rightarrow> string list \<Rightarrow> TenantSpec \<Rightarrow> Tenant \<Rightarrow> Tenant" where
  "update_tenant po ord new t = (update_step po ord ^^ 8) (begin_update new t)"

definition upsert :: "Pool \<Rightarrow> string list \<Rightarrow> instant \<Rightarrow> TenantSpec \<Rightarrow> server \<Rightarrow> server" where
  "upsert po ord now spec sv =
     (if TurborgID spec = [] then sv
      else case sv (TurborgID spec) of
             Some existing \<Rightarrow> sv(TurborgID spec \<mapsto> update_tenant po ord spec existing)
           | None \<Rightarrow> sv(TurborgID spec \<mapsto> startTenant po spec defaultQuarantineBase now))"

text \<open>A removed tenant is stopped and waited for.\<close>

definition remove_tenant :: "string \<Rightarrow> server \<Rightarrow> server" where
  "remove_tenant i sv = sv(i := None)"

definition apply_event :: "Pool \<Rightarrow> string list \<Rightarrow> instant \<Rightarrow> TenantEvent \<Rightarrow> server \<Rightarrow> server" where
  "apply_event po ord now ev sv =
     (case ev of TenantUpserted spec \<Rightarrow> upsert po ord now spec sv | TenantRemoved i \<Rightarrow> remove_tenant i sv)"

text \<open>\<^verbatim>\<open>Run\<close> up to the watch: the initial snapshot.\<close>

definition boot :: "Pool \<Rightarrow> instant \<Rightarrow> TenantSpec list \<Rightarrow> server" where
  "boot po now specs = fold (upsert po [] now) specs Map.empty"

definition shutdown :: "server \<Rightarrow> server" where
  "shutdown sv = Map.empty"

definition Has :: "server \<Rightarrow> string \<Rightarrow> bool" where
  "Has sv i \<longleftrightarrow> sv i \<noteq> None"

definition Status_of :: "server \<Rightarrow> string \<Rightarrow> TenantStatus \<times> bool" where
  "Status_of sv i = (case sv i of None \<Rightarrow> (StatusRunning, False) | Some t \<Rightarrow> (tn_status t, True))"

text \<open>Where a client connection for a tenant goes.\<close>

datatype route = NoTenant | ClosedConn | ToRun nat

definition ServeBouncerConn_t :: "Tenant \<Rightarrow> route" where
  "ServeBouncerConn_t t = (case ircConn t of None \<Rightarrow> ClosedConn | Some r \<Rightarrow> ToRun r)"

definition RouteBouncerConn :: "server \<Rightarrow> string \<Rightarrow> route" where
  "RouteBouncerConn sv i = (case sv i of None \<Rightarrow> NoTenant | Some t \<Rightarrow> ServeBouncerConn_t t)"

section \<open>The polling source\<close>

text \<open>\<^verbatim>\<open>diff\<close>, never cut short by the context: an event for each specification that is new or changed, then one for each
  known tenant that is gone, in the order \<open>ord\<close> in which Go ranges over the known ones.\<close>

type_synonym feed_state = "string \<rightharpoonup> TenantSpec"

fun diff_upserts :: "TenantSpec list \<Rightarrow> feed_state \<Rightarrow> feed_state \<times> TenantEvent list" where
  "diff_upserts [] known = (known, [])"
| "diff_upserts (s # ss) known =
     (if known (TurborgID s) = Some s then diff_upserts ss known
      else let (known, evs) = diff_upserts ss (known(TurborgID s \<mapsto> s)) in (known, TenantUpserted s # evs))"

fun diff_removes :: "string set \<Rightarrow> string list \<Rightarrow> feed_state \<Rightarrow> feed_state \<times> TenantEvent list" where
  "diff_removes seen [] known = (known, [])"
| "diff_removes seen (i # is) known =
     (if known i = None \<or> i \<in> seen then diff_removes seen is known
      else let (known, evs) = diff_removes seen is (known(i := None)) in (known, TenantRemoved i # evs))"

definition diff_feed :: "string list \<Rightarrow> TenantSpec list \<Rightarrow> feed_state \<Rightarrow> feed_state \<times> TenantEvent list" where
  "diff_feed ord specs known =
     (let (known, ups) = diff_upserts specs known; (known, downs) = diff_removes (set (map TurborgID specs)) ord known
      in (known, ups @ downs))"

text \<open>\<^verbatim>\<open>Watch\<close> seeds what is known with a snapshot of its own; nothing when that fetch fails.\<close>

definition watch_baseline :: "TenantSpec list option \<Rightarrow> feed_state" where
  "watch_baseline snapshot = (case snapshot of None \<Rightarrow> Map.empty | Some specs \<Rightarrow> fold (\<lambda>s k. k(TurborgID s \<mapsto> s)) specs Map.empty)"

text \<open>One poll: a failed fetch changes nothing.\<close>

definition poll_feed ::
  "Pool \<Rightarrow> string list \<Rightarrow> instant \<Rightarrow> string list \<Rightarrow> TenantSpec list option \<Rightarrow> feed_state \<times> server \<Rightarrow> feed_state \<times> server" where
  "poll_feed po ord now gone snapshot ks =
     (case snapshot of
        None \<Rightarrow> ks
      | Some specs \<Rightarrow>
          (let (known, sv) = ks; (known, evs) = diff_feed gone specs known in (known, fold (apply_event po ord now) evs sv)))"

section \<open>The server follows its feed\<close>

definition feed_map :: "TenantSpec list \<Rightarrow> feed_state" where
  "feed_map specs = map_of (rev (map (\<lambda>s. (TurborgID s, s)) specs))"

definition specs_of :: "server \<Rightarrow> string \<Rightarrow> TenantSpec option" where
  "specs_of sv i = map_option tn_spec (sv i)"

definition in_step :: "feed_state \<Rightarrow> server \<Rightarrow> bool" where
  "in_step known sv \<longleftrightarrow> (\<forall>i. i \<noteq> [] \<longrightarrow> specs_of sv i = known i)"

lemma update_step_spec [simp]: "tn_spec (update_step po ord t) = tn_spec t"
proof (cases "tn_update t")
  case (Some u)
  have "tn_spec t' = tn_spec t" if "apply_facet po ord (up_new u) f t = (t', ok)" for f t' ok
    using facet_through [of po ord "up_new u" f t] through_fields(1) that by metis
  with Some show ?thesis
    by (auto simp: update_step_def at_stage_def split: up_stage.split list.split bool.split prod.split)
qed (simp add: update_step_def)

lemma update_tenant_spec [simp]: "tn_spec (update_tenant po ord new t) = new"
proof -
  have "tn_spec ((update_step po ord ^^ n) s) = tn_spec s" for n s by (induction n) simp_all
  then show ?thesis by (simp add: update_tenant_def begin_update_def)
qed

lemma specs_upsert: "TurborgID s \<noteq> [] \<Longrightarrow> specs_of (upsert po ord now s sv) = (specs_of sv)(TurborgID s \<mapsto> s)"
  by (auto simp: upsert_def specs_of_def startTenant_def fun_eq_iff split: option.split)

lemma step_upsert: "in_step known sv \<Longrightarrow> in_step (known(TurborgID s \<mapsto> s)) (upsert po ord now s sv)"
proof (cases "TurborgID s = []")
  case True
  then show "in_step known sv \<Longrightarrow> ?thesis" by (simp add: in_step_def upsert_def)
next
  case False
  then show "in_step known sv \<Longrightarrow> ?thesis" by (simp add: in_step_def specs_upsert)
qed

lemma step_remove: "in_step known sv \<Longrightarrow> in_step (known(i := None)) (remove_tenant i sv)"
  by (auto simp: in_step_def remove_tenant_def specs_of_def)

lemma feed_map_Cons: "feed_map (s # ss) = [TurborgID s \<mapsto> s] ++ feed_map ss"
  by (simp add: feed_map_def map_add_def fun_eq_iff split: option.split)

lemma upserts_follow:
  "diff_upserts specs known = (known', evs) \<Longrightarrow> in_step known sv \<Longrightarrow>
     known' = known ++ feed_map specs \<and> in_step known' (fold (apply_event po ord now) evs sv)"
proof (induction specs known arbitrary: known' evs sv rule: diff_upserts.induct)
  case (1 known)
  then show ?case by (simp add: feed_map_def)
next
  case (2 s ss known)
  show ?case
  proof (cases "known (TurborgID s) = Some s")
    case True
    then have "known' = known ++ feed_map ss \<and> in_step known' (fold (apply_event po ord now) evs sv)"
      using 2 by simp
    moreover have "known ++ feed_map (s # ss) = known ++ feed_map ss"
      unfolding feed_map_Cons using True by (auto simp: map_add_def fun_eq_iff split: option.split)
    ultimately show ?thesis by metis
  next
    case False
    obtain k es where d: "diff_upserts ss (known(TurborgID s \<mapsto> s)) = (k, es)" by fastforce
    then have e: "known' = k" "evs = TenantUpserted s # es" using 2(3) False by simp_all
    note IH = 2(2) [OF False d step_upsert [OF 2(4), of s po ord now]]
    have "fold (apply_event po ord now) evs sv = fold (apply_event po ord now) es (upsert po ord now s sv)"
      unfolding e by (simp add: apply_event_def)
    moreover have "known ++ feed_map (s # ss) = known(TurborgID s \<mapsto> s) ++ feed_map ss"
      unfolding feed_map_Cons map_add_assoc by simp
    ultimately show ?thesis using IH unfolding e(1) by metis
  qed
qed

lemma removes_follow:
  "diff_removes seen is known = (known', evs) \<Longrightarrow> in_step known sv \<Longrightarrow>
     (\<forall>i. known' i = (if i \<in> set is \<and> i \<notin> seen then None else known i)) \<and> in_step known' (fold (apply_event po ord now) evs sv)"
proof (induction seen "is" known arbitrary: known' evs sv rule: diff_removes.induct)
  case (1 seen known)
  then show ?case by simp
next
  case (2 seen i "is" known)
  show ?case
  proof (cases "known i = None \<or> i \<in> seen")
    case True
    then have "diff_removes seen is known = (known', evs)" using 2(3) by simp
    from 2(1) [OF True this 2(4)] show ?thesis using True by auto
  next
    case False
    obtain k es where d: "diff_removes seen is (known(i := None)) = (k, es)" by fastforce
    then have e: "known' = k" "evs = TenantRemoved i # es" using 2(3) False by simp_all
    from 2(2) [OF False d step_remove [OF 2(4), of i]] show ?thesis
      using False unfolding e by (auto simp: apply_event_def)
  qed
qed

lemma feed_map_dom: "feed_map specs i \<noteq> None \<longleftrightarrow> i \<in> TurborgID ` set specs"
  by (auto simp: feed_map_def map_of_eq_None_iff image_image)

text \<open>C21: after every poll that succeeds the server runs exactly the tenants of the snapshot, each with the specification
  the snapshot gives last for it, whatever it ran before, provided that what the source took to be known was true.
  Then it is true again, so this holds poll after poll. A failed poll changes nothing.\<close>

theorem server_follows_feed:
  assumes "in_step known sv" "dom known \<union> TurborgID ` set specs \<subseteq> set gone" "i \<noteq> []"
  shows "specs_of (snd (poll_feed po ord now gone (Some specs) (known, sv))) i = feed_map specs i \<and>
    in_step (fst (poll_feed po ord now gone (Some specs) (known, sv))) (snd (poll_feed po ord now gone (Some specs) (known, sv))) \<and>
    poll_feed po ord now gone None (known, sv) = (known, sv)"
proof -
  obtain k1 ups k2 downs where d: "diff_upserts specs known = (k1, ups)"
    "diff_removes (TurborgID ` set specs) gone k1 = (k2, downs)" by fastforce
  note u = upserts_follow [OF d(1) assms(1), of po ord now]
  note r = removes_follow [OF d(2) conjunct2 [OF u], of po ord now]
  have p: "poll_feed po ord now gone (Some specs) (known, sv) = (k2, fold (apply_event po ord now) (ups @ downs) sv)"
    using d by (simp add: poll_feed_def diff_feed_def)
  have "k2 i = feed_map specs i"
  proof (cases "i \<in> TurborgID ` set specs")
    case True
    then obtain s where "feed_map specs i = Some s" using feed_map_dom [of specs i] by auto
    then show ?thesis using True r u by simp
  next
    case False
    then have "feed_map specs i = None" using feed_map_dom [of specs i] by simp
    moreover have "known i = None" if "i \<notin> set gone" using that assms(2) by blast
    ultimately show ?thesis using False r u by (simp add: map_add_def)
  qed
  then show ?thesis using r assms(3) unfolding p by (simp add: in_step_def poll_feed_def)
qed

theorem server_follows_feed_witness:
  "specs_of (snd (poll_feed sample_pool [] 0 [''t''] (Some [bare_spec]) (Map.empty, Map.empty))) ''t'' = Some bare_spec"
proof -
  have "in_step Map.empty Map.empty" by (simp add: in_step_def specs_of_def)
  from server_follows_feed [OF this, of "[bare_spec]" "[''t'']" "''t''" sample_pool "[]" 0] show ?thesis
    by (simp add: bare_spec_def feed_map_def)
qed

text \<open>The proviso fails at the start: the server boots from one snapshot and the source seeds what it knows from a second.
  A change between the two is never told: as long as the feed stays as it is, no poll brings it.\<close>

lemma startup_gap:
  assumes "TurborgID s = TurborgID s'" "s \<noteq> s'" "TurborgID s \<noteq> []"
  shows "specs_of (boot po now [s]) (TurborgID s) = Some s \<and>
    poll_feed po ord now' gone (Some [s']) (watch_baseline (Some [s']), boot po now [s]) =
      (watch_baseline (Some [s']), boot po now [s])"
proof -
  have "diff_removes {TurborgID s'} gone known = (known, [])" if "\<forall>i. i \<noteq> TurborgID s' \<longrightarrow> known i = None" for known
    using that by (induction gone) auto
  then show ?thesis
    using assms by (simp add: boot_def specs_upsert poll_feed_def diff_feed_def watch_baseline_def)
qed

section \<open>Activity\<close>

text \<open>The set of active tenants as a list without repetitions; Go drains it in any order.\<close>

definition Mark_active :: "string \<Rightarrow> string list \<Rightarrow> string list" where
  "Mark_active i active = (if i = [] \<or> i \<in> set active then active else active @ [i])"

definition drain_active :: "string list \<Rightarrow> string list \<times> string list" where
  "drain_active active = ([], active)"

text \<open>\<^verbatim>\<open>flush\<close>: the set is taken before the request is made, and not put back when it fails.\<close>

definition flush_active :: "string list \<Rightarrow> string list \<times> string list option" where
  "flush_active active = (let (active, ids) = drain_active active in (active, if ids = [] then None else Some ids))"

lemma marked: "distinct a \<Longrightarrow> distinct (fold Mark_active is a) \<and> set (fold Mark_active is a) = set a \<union> (set is - {[]})"
proof (induction "is" arbitrary: a)
  case (Cons i "is")
  have "distinct (Mark_active i a)" "set (Mark_active i a) = set a \<union> ({i} - {[]})"
    using Cons.prems by (auto simp: Mark_active_def)
  with Cons.IH [of "Mark_active i a"] show ?case by auto
qed simp

text \<open>A flush sends every tenant marked since the last one, once.\<close>

lemma flush_exact:
  assumes "flush_active (fold Mark_active is []) = ([], Some ids)"
  shows "distinct ids \<and> set ids = set is - {[]}"
proof -
  have "ids = fold Mark_active is []" using assms by (simp add: flush_active_def drain_active_def split: if_splits)
  then show ?thesis using marked [of "[]" "is"] by simp
qed

end
