(* ===== verification/Gateway.thy ===== *)
theory Gateway
  imports Client_Line Llm
begin

text \<open>
  \<^verbatim>\<open>internal/web/gateway.go\<close>: the gateway through which a browser watches and drives the bot. It authenticates WebSocket
  and webhook requests against one verifier and one lockout, shows a new session the state and the history, turns the
  operations of a session into upstream lines under the policy and the throttle the bouncer uses too, and fans the
  events of the bus out to every session.

  The bridge is the connector with its bouncer, the \<open>Hub\<close>. A session is a number, \<open>g_clients\<close> the set \<^verbatim>\<open>g.clients\<close> in
  the order Go ranges over it; its socket takes \<open>gc_accepts\<close> more frames. A frame is the list of its JSON fields
  (\<open>None\<close>: null), a received object a map; a JSON number carries its value as an integer and its shortest decimal text.
  JSON parsing, the verifier and the webhook wiring are arguments or fields. A goroutine the code starts for \<^verbatim>\<open>/tb\<close>
  runs to its end at once.
\<close>

section \<open>State\<close>

datatype json = JStr string | JNum int string | JBool bool | JNull | JDeep

type_synonym frame = "(string \<times> val option) list"
type_synonym payload = "string \<rightharpoonup> json"

record http_req =
  hr_method :: string
  hr_addr :: string
  hr_host :: "string option"
  hr_token :: string
  hr_auth :: string
  hr_name :: string
  hr_body :: "string \<times> bool"

record gw_client =
  gc_addr :: string
  engaged :: bool
  gc_open :: bool
  gc_serving :: bool
  gc_accepts :: "nat option"
  gc_got :: "frame list"

record Gateway =
  g_hub :: Hub
  g_verify :: "string \<Rightarrow> bool"
  g_limiter :: "RateLimiter option"
  g_clients :: "nat list"
  g_conns :: "nat \<rightharpoonup> gw_client"
  g_next :: nat
  g_bus :: bool
  g_stateSub :: bool
  g_listening :: bool
  serverLog :: "frame list"
  idle_window :: int
  on_idle :: bool
  idle_due :: "instant option"
  idle_fired :: nat
  on_activity :: bool
  activity :: "string list"
  g_store :: "store option"
  g_submitted :: "Messages.Message list"
  g_llm :: "provider option"
  g_budget :: "(TokenBudget \<times> int \<times> int) option"
  tb_cap :: int
  webhookFire :: "(string \<Rightarrow> (string \<rightharpoonup> string) \<Rightarrow> bool) option"
  fired :: "(string \<times> (string \<rightharpoonup> string)) list"
  connections :: nat
  authFailures :: nat
  messagesForwarded :: nat
  g_started :: instant

definition serverLogCap :: nat where "serverLogCap = 100"
definition channelLogCap :: int where "channelLogCap = 200"
definition hookMaxBodyBytes :: nat where "hookMaxBodyBytes = 65536"

text \<open>\<^verbatim>\<open>internal/web/auth.go\<close>. The comparison takes constant time; its value is equality.\<close>

definition NewStaticPasswordVerifier :: "string \<Rightarrow> string + (string \<Rightarrow> bool)" where
  "NewStaticPasswordVerifier pw =
     (if pw = [] then Inl ''web: static password cannot be empty'' else Inr (\<lambda>token. token \<noteq> [] \<and> token = pw))"

definition NewGateway ::
  "Hub \<Rightarrow> (string \<Rightarrow> bool) option \<Rightarrow> RateLimiter option \<Rightarrow> int \<times> bool \<Rightarrow> bool \<Rightarrow> store option \<Rightarrow> provider option \<Rightarrow>
   (TokenBudget \<times> int \<times> int) option \<Rightarrow> int \<Rightarrow> (string \<Rightarrow> (string \<rightharpoonup> string) \<Rightarrow> bool) option \<Rightarrow> string + Gateway" where
  "NewGateway h verifier rl idle act st p bud cap fire =
     (case verifier of
        None \<Rightarrow> Inl ''web: TokenVerifier is required''
      | Some verify \<Rightarrow>
          Inr \<lparr>g_hub = h, g_verify = verify, g_limiter = rl, g_clients = [], g_conns = Map.empty, g_next = 0, g_bus = False,
               g_stateSub = False, g_listening = False, serverLog = [], idle_window = fst idle, on_idle = snd idle,
               idle_due = None, idle_fired = 0, on_activity = act, activity = [], g_store = st, g_submitted = [],
               g_llm = p, g_budget = bud, tb_cap = cap, webhookFire = fire, fired = [], connections = 0, authFailures = 0,
               messagesForwarded = 0, g_started = clock (Hub.conn h)\<rparr>)"

text \<open>\<^verbatim>\<open>buildTenantGateway\<close> of \<^verbatim>\<open>internal/server/tenant_gateway.go\<close>: five failures in a minute lock for five minutes.\<close>

definition buildTenantGateway ::
  "Hub \<Rightarrow> string \<Rightarrow> store option \<Rightarrow> provider option \<Rightarrow> (TokenBudget \<times> int \<times> int) option \<Rightarrow> int \<Rightarrow> bool \<Rightarrow>
   (string \<Rightarrow> (string \<rightharpoonup> string) \<Rightarrow> bool) option \<Rightarrow> string + Gateway" where
  "buildTenantGateway h token st p bud cap act fire =
     (case NewStaticPasswordVerifier token of
        Inl e \<Rightarrow> Inl (''gateway verifier: '' @ e)
      | Inr v \<Rightarrow>
          (case NewRateLimiter 5 (60 * second) (300 * second) of
             Inl e \<Rightarrow> Inl (''gateway ratelimit: '' @ e)
           | Inr rl \<Rightarrow> NewGateway h (Some v) (Some rl) (0, False) act st p bud cap fire))"

abbreviation gconn :: "Gateway \<Rightarrow> Connector" where "gconn g \<equiv> Hub.conn (g_hub g)"
abbreviation g_now :: "Gateway \<Rightarrow> instant" where "g_now g \<equiv> clock (gconn g)"

definition on_hub :: "(Hub \<Rightarrow> Hub) \<Rightarrow> Gateway \<Rightarrow> Gateway" where
  "on_hub f g = g\<lparr>g_hub := f (g_hub g)\<rparr>"

definition Subscribe_g :: "Gateway \<Rightarrow> Gateway" where
  "Subscribe_g g = g\<lparr>g_bus := True, g_stateSub := True\<rparr>"

section \<open>Frames out\<close>

definition fstr :: "string \<Rightarrow> string \<Rightarrow> string \<times> val option" where "fstr k v = (k, Some (VStr v))"
definition fint :: "string \<Rightarrow> int \<Rightarrow> string \<times> val option" where "fint k v = (k, Some (VInt v))"

definition unix_ts :: "instant \<Rightarrow> int" where "unix_ts t = t div second"

definition write_frame :: "frame \<Rightarrow> gw_client \<Rightarrow> gw_client \<times> bool" where
  "write_frame fr cl =
     (if \<not> gc_open cl then (cl, True)
      else case gc_accepts cl of
             None \<Rightarrow> (cl\<lparr>gc_got := gc_got cl @ [fr]\<rparr>, False)
           | Some 0 \<Rightarrow> (cl, True)
           | Some (Suc n) \<Rightarrow> (cl\<lparr>gc_got := gc_got cl @ [fr], gc_accepts := Some n\<rparr>, False))"

definition sendTo_g :: "nat \<Rightarrow> frame \<Rightarrow> Gateway \<Rightarrow> Gateway" where
  "sendTo_g i fr g =
     (let g = g\<lparr>messagesForwarded := Suc (messagesForwarded g)\<rparr>
      in case g_conns g i of
           None \<Rightarrow> g
         | Some cl \<Rightarrow>
             (let (cl, failed) = write_frame fr cl; g = g\<lparr>g_conns := (g_conns g)(i \<mapsto> cl)\<rparr>
              in if failed then g\<lparr>g_clients := removeAll i (g_clients g)\<rparr> else g))"

definition broadcast_g :: "frame \<Rightarrow> Gateway \<Rightarrow> Gateway" where
  "broadcast_g fr g = fold (\<lambda>i. sendTo_g i fr) (g_clients g) g"

definition send_frames :: "nat \<Rightarrow> frame list \<Rightarrow> Gateway \<Rightarrow> Gateway" where
  "send_frames i frs g = fold (sendTo_g i) frs g"

section \<open>What the events become\<close>

definition ev_val :: "string \<Rightarrow> Event \<Rightarrow> val option" where "ev_val k ev = map_of (Fields ev) k"

definition ev_str :: "string \<Rightarrow> Event \<Rightarrow> string" where
  "ev_str k ev = (case ev_val k ev of Some (VStr s) \<Rightarrow> s | _ \<Rightarrow> [])"

definition message_frame :: "instant \<Rightarrow> string \<Rightarrow> string \<Rightarrow> string \<Rightarrow> frame" where
  "message_frame now channel nick text =
     [fstr ''op'' ''message'', fstr ''channel'' channel, fstr ''nick'' nick, fstr ''text'' text, fint ''ts'' (unix_ts now)]"

definition onMessage_g :: "Event \<Rightarrow> Gateway \<Rightarrow> Gateway" where
  "onMessage_g ev g =
     (let (channel, sender, text) =
        (case ev_val ''envelope'' ev of
           Some (VInbound env) \<Rightarrow> (env_Channel env, Sender env, env_Text env)
         | _ \<Rightarrow> (ev_str ''channel'' ev, ev_str ''sender'' ev, ev_str ''text'' ev))
      in broadcast_g (message_frame (g_now g) channel sender text) g)"

definition onMessageSent_g :: "Event \<Rightarrow> Gateway \<Rightarrow> Gateway" where
  "onMessageSent_g ev g =
     (let channel = ev_str ''channel'' ev; sender = ev_str ''sender'' ev; text = ev_str ''text'' ev;
          (channel, text) =
            (case ev_val ''envelope'' ev of
               Some (VOutbound env) \<Rightarrow>
                 (if channel = [] then out_Channel env else channel, if text = [] then out_Text env else text)
             | _ \<Rightarrow> (channel, text));
          sender = (if sender = [] then currentNick (gconn g) else sender)
      in broadcast_g (message_frame (g_now g) channel sender text) g)"

definition onServerNotice_g :: "Event \<Rightarrow> Gateway \<Rightarrow> Gateway" where
  "onServerNotice_g ev g =
     (let fr = [fstr ''op'' ''server'', fstr ''text'' (ev_str ''text'' ev), fstr ''kind'' (ev_str ''kind'' ev),
                fint ''ts'' (unix_ts (g_now g))];
          log = serverLog g @ [fr];
          log = (if length log > serverLogCap then drop (length log - serverLogCap) log else log)
      in broadcast_g fr (g\<lparr>serverLog := log\<rparr>))"

definition onUserJoin_g :: "Event \<Rightarrow> frame" where
  "onUserJoin_g ev = [fstr ''op'' ''join'', (''channel'', ev_val ''channel'' ev), (''nick'', ev_val ''nick'' ev)]"

definition onUserLeave_g :: "Event \<Rightarrow> frame" where
  "onUserLeave_g ev =
     [fstr ''op'' ''part'', (''channel'', ev_val ''channel'' ev), (''nick'', ev_val ''nick'' ev),
      fstr ''reason'' (ev_str ''reason'' ev)]"

definition onUserKicked_g :: "Event \<Rightarrow> frame" where
  "onUserKicked_g ev =
     [fstr ''op'' ''kick'', (''channel'', ev_val ''channel'' ev), (''nick'', ev_val ''nick'' ev),
      (''kicker'', ev_val ''by'' ev), fstr ''reason'' (ev_str ''reason'' ev)]"

definition onUserNick_g :: "Event \<Rightarrow> frame" where
  "onUserNick_g ev = [fstr ''op'' ''nick'', (''old'', ev_val ''old'' ev), (''new'', ev_val ''new'' ev)]"

definition onTopic_g :: "Event \<Rightarrow> frame" where
  "onTopic_g ev =
     [fstr ''op'' ''topic'', (''channel'', ev_val ''channel'' ev), (''topic'', ev_val ''topic'' ev), (''setBy'', ev_val ''by'' ev)]"

definition onNames_g :: "Event \<Rightarrow> frame" where
  "onNames_g ev = [fstr ''op'' ''names'', (''channel'', ev_val ''channel'' ev), (''members'', ev_val ''members'' ev)]"

definition onModeChanged_g :: "Event \<Rightarrow> frame" where
  "onModeChanged_g ev =
     [fstr ''op'' ''mode_changed'', (''channel'', ev_val ''channel'' ev), (''modes'', ev_val ''modes'' ev),
      (''args'', ev_val ''args'' ev), (''setBy'', ev_val ''by'' ev)]"

definition onWhoisResult_g :: "Event \<Rightarrow> frame" where
  "onWhoisResult_g ev =
     (if ev_val ''op'' ev = None then [fstr ''op'' ''whois_result''] else []) @ map (\<lambda>(k, v). (k, Some v)) (Fields ev)"

definition onListResult_g :: "Event \<Rightarrow> frame" where
  "onListResult_g ev = [fstr ''op'' ''list_result'', (''channels'', ev_val ''channels'' ev)]"

definition onWhoResult_g :: "Event \<Rightarrow> frame" where
  "onWhoResult_g ev = [fstr ''op'' ''who_result'', (''target'', ev_val ''target'' ev), (''users'', ev_val ''users'' ev)]"

definition onJoinFailed_g :: "Event \<Rightarrow> frame" where
  "onJoinFailed_g ev =
     [fstr ''op'' ''channel.rejoin_failed'', (''channel'', ev_val ''channel'' ev), (''code'', ev_val ''code'' ev),
      fstr ''reason'' (ev_str ''reason'' ev)]"

definition onLLMUsage_g :: "Event \<Rightarrow> frame" where
  "onLLMUsage_g ev =
     fstr ''op'' ''llm_usage'' # map (\<lambda>k. (k, ev_val k ev))
       [''input_tokens'', ''output_tokens'', ''input_total'', ''output_total'', ''input_cap'', ''output_cap'']"

text \<open>The subscriptions of \<^verbatim>\<open>Subscribe\<close>.\<close>

definition plain_frame :: "Event \<Rightarrow> frame option" where
  "plain_frame ev =
     map_option (\<lambda>f. f ev)
       (map_of [(EventUserJoin, onUserJoin_g), (EventUserLeave, onUserLeave_g), (EventUserKicked, onUserKicked_g),
                (EventUserNickChange, onUserNick_g), (EventTopicChanged, onTopic_g), (EventChannelNames, onNames_g),
                (EventModeChanged, onModeChanged_g), (EventWhoisResult, onWhoisResult_g), (EventListResult, onListResult_g),
                (EventWhoResult, onWhoResult_g), (EventJoinFailed, onJoinFailed_g), (EventLLMUsage, onLLMUsage_g)]
          (ev_Type ev))"

definition on_event_g :: "Event \<Rightarrow> Gateway \<Rightarrow> Gateway" where
  "on_event_g ev g =
     (if \<not> g_bus g then g
      else if ev_Type ev = EventMessage then onMessage_g ev g
      else if ev_Type ev = EventMessageSent then onMessageSent_g ev g
      else if ev_Type ev = EventServerNotice then onServerNotice_g ev g
      else case plain_frame ev of None \<Rightarrow> g | Some fr \<Rightarrow> broadcast_g fr g)"

definition state_frame :: "UpstreamState \<Rightarrow> string \<Rightarrow> string \<Rightarrow> frame" where
  "state_frame st prior reason =
     [fstr ''op'' ''connector.state_changed'', fstr ''state'' (state_str st), fstr ''prior_state'' prior,
      fstr ''message'' (DescribeUpstreamState st [] reason), fstr ''severity'' (SeverityForUpstreamState st),
      fstr ''server_reason'' reason]"

definition onUpstreamStateChange_g :: "UpstreamStateChange \<Rightarrow> Gateway \<Rightarrow> Gateway" where
  "onUpstreamStateChange_g ch g =
     (if g_stateSub g then broadcast_g (state_frame (To ch) (state_str (From ch)) (UpstreamStateChange.ServerReason ch)) g else g)"

text \<open>An event the gateway publishes itself comes back to it over the bus.\<close>

definition publish_g :: "string \<Rightarrow> (string \<times> val) list \<Rightarrow> Gateway \<Rightarrow> Gateway" where
  "publish_g t fs g =
     (if g_bus g
      then on_event_g \<lparr>ev_Type = t, Fields = fs\<rparr> (on_hub (\<lambda>h. h\<lparr>Hub.conn := publish t fs (Hub.conn h)\<rparr>) g)
      else g)"

section \<open>Requests\<close>

definition extractToken :: "http_req \<Rightarrow> string" where
  "extractToken r =
     (if hr_token r \<noteq> [] then hr_token r
      else if prefix ''bearer '' (to_lower (hr_auth r)) then trim_space (drop 7 (hr_auth r))
      else [])"

definition clientIP :: "http_req \<Rightarrow> string" where
  "clientIP r = (case hr_host r of Some host \<Rightarrow> host | None \<Rightarrow> hr_addr r)"

definition locked_g :: "string \<Rightarrow> Gateway \<Rightarrow> Gateway \<times> bool" where
  "locked_g ip g =
     (case g_limiter g of
        None \<Rightarrow> (g, False)
      | Some rl \<Rightarrow>
          (if ip = [] then (g, False)
           else let (rl, remaining) = TimeUntilUnlock (g_now g) ip rl in (g\<lparr>g_limiter := Some rl\<rparr>, remaining > 0)))"

definition on_limiter_g :: "(RateLimiter \<Rightarrow> RateLimiter) \<Rightarrow> string \<Rightarrow> Gateway \<Rightarrow> Gateway" where
  "on_limiter_g f ip g = (if ip = [] then g else g\<lparr>g_limiter := map_option f (g_limiter g)\<rparr>)"

text \<open>The gate both surfaces stand behind: an answer ends the request.\<close>

definition auth_gate :: "http_req \<Rightarrow> Gateway \<Rightarrow> Gateway \<times> (nat \<times> string) option" where
  "auth_gate r g =
     (let ip = clientIP r; (g, locked) = locked_g ip g
      in if locked then (g, Some (429, ''Too many attempts''))
         else if \<not> g_verify g (extractToken r) then
           (let g = on_limiter_g (\<lambda>rl. fst (RecordFailure (g_now g) ip rl)) ip g
            in (g\<lparr>authFailures := Suc (authFailures g)\<rparr>, Some (401, ''Invalid token'')))
         else (on_limiter_g (RecordSuccess ip) ip g, None))"

section \<open>Idle shutdown\<close>

definition scheduleIdleShutdown :: "Gateway \<Rightarrow> Gateway" where
  "scheduleIdleShutdown g =
     (if idle_window g \<le> 0 \<or> \<not> on_idle g then g else g\<lparr>idle_due := Some (g_now g + idle_window g * second)\<rparr>)"

definition cancelIdleTimer :: "Gateway \<Rightarrow> Gateway" where
  "cancelIdleTimer g = g\<lparr>idle_due := None\<rparr>"

text \<open>The timer runs out.\<close>

definition idle_expire :: "Gateway \<Rightarrow> Gateway" where
  "idle_expire g =
     (case idle_due g of
        None \<Rightarrow> g
      | Some due \<Rightarrow>
          (if g_now g < due then g
           else let g = g\<lparr>idle_due := None\<rparr>
                in if g_clients g \<noteq> [] then g else g\<lparr>idle_fired := Suc (idle_fired g)\<rparr>))"

section \<open>A new session\<close>

definition member_rows :: "benv \<Rightarrow> ChannelInfo \<Rightarrow> (string \<times> val) list list" where
  "member_rows env info =
     List.map_filter (\<lambda>n. map_option (\<lambda>m. [(''nick'', VStr n), (''mode'', VStr m)]) (Members info n)) (nick_order env (ci_Name info))"

definition channel_row :: "benv \<Rightarrow> ChannelInfo \<Rightarrow> (string \<times> val) list" where
  "channel_row env info =
     [(''name'', VStr (ci_Name info)), (''topic'', VStr (Topic info)), (''topicSetBy'', VStr (TopicSetBy info)),
      (''topicSetAt'', VInt (TopicSetAt info)), (''members'', VRows (member_rows env info))]"

definition sendState_g :: "benv \<Rightarrow> nat \<Rightarrow> Gateway \<Rightarrow> Gateway" where
  "sendState_g env i g =
     sendTo_g i [fstr ''op'' ''state'', fstr ''nick'' (currentNick (gconn g)),
       (''channels'', Some (VRows (map (channel_row env) (JoinedChannels (chan_state (gconn g))))))] g"

definition sendInitialConnectorState :: "nat \<Rightarrow> Gateway \<Rightarrow> Gateway" where
  "sendInitialConnectorState i g = sendTo_g i (state_frame (up (gconn g)) [] (serverReason (machine (gconn g)))) g"

definition replayed :: "(string \<times> val option)" where "replayed = (''replayed'', Some (VBool True))"

definition history_frame :: "Messages.Message \<Rightarrow> frame" where
  "history_frame m = message_frame (m_TS m) (m_Channel m) (m_Nick m) (m_Text m) @ [replayed]"

definition replay_frames :: "store option \<Rightarrow> ChannelInfo \<Rightarrow> frame list" where
  "replay_frames st info =
     (case st of
        None \<Rightarrow> []
      | Some recent \<Rightarrow>
          (case recent (ci_Name info) None channelLogCap of Inl _ \<Rightarrow> [] | Inr ms \<Rightarrow> map history_frame (rev ms)))"

definition replayBuffers :: "nat \<Rightarrow> Gateway \<Rightarrow> Gateway" where
  "replayBuffers i g =
     (let chans = JoinedChannels (chan_state (gconn g))
      in fold (\<lambda>info g. send_frames i (replay_frames (g_store g) info) g) chans
           (send_frames i (map (\<lambda>fr. fr @ [replayed]) (serverLog g)) g))"

text \<open>\<open>accepted\<close>: whether the upgrade succeeds, and how many frames the socket will take.\<close>

definition handleWS :: "benv \<Rightarrow> http_req \<Rightarrow> nat option option \<Rightarrow> Gateway \<Rightarrow> Gateway \<times> (nat \<times> string) option" where
  "handleWS env r accepted g =
     (case auth_gate r g of
        (g, Some resp) \<Rightarrow> (g, Some resp)
      | (g, None) \<Rightarrow>
          (case accepted of
             None \<Rightarrow> (g, None)
           | Some lines_ok \<Rightarrow>
               (let i = g_next g;
                    cl = \<lparr>gc_addr = clientIP r, engaged = False, gc_open = True, gc_serving = True, gc_accepts = lines_ok,
                          gc_got = []\<rparr>;
                    g = g\<lparr>g_next := Suc i, g_conns := (g_conns g)(i \<mapsto> cl), g_clients := g_clients g @ [i]\<rparr>;
                    g = (cancelIdleTimer g)\<lparr>connections := Suc (connections g)\<rparr>
                in (replayBuffers i (sendInitialConnectorState i (sendState_g env i g)), None))))"

definition on_conn :: "(gw_client \<Rightarrow> gw_client) \<Rightarrow> nat \<Rightarrow> Gateway \<Rightarrow> Gateway" where
  "on_conn f i g = g\<lparr>g_conns := (g_conns g)(i := map_option f (g_conns g i))\<rparr>"

text \<open>The reading loop of a session has returned.\<close>

definition leave_g :: "nat \<Rightarrow> Gateway \<Rightarrow> Gateway" where
  "leave_g i g =
     (let g = on_conn (\<lambda>cl. cl\<lparr>gc_open := False, gc_serving := False\<rparr>) i (g\<lparr>g_clients := removeAll i (g_clients g)\<rparr>)
      in if g_clients g = [] then scheduleIdleShutdown g else g)"

definition note_activity :: "string \<Rightarrow> Gateway \<Rightarrow> Gateway" where
  "note_activity reason g = (if on_activity g then g\<lparr>activity := activity g @ [reason]\<rparr> else g)"

definition markEngaged :: "nat \<Rightarrow> string \<Rightarrow> Gateway \<Rightarrow> Gateway" where
  "markEngaged i reason g = note_activity reason (on_conn (\<lambda>cl. cl\<lparr>engaged := True\<rparr>) i g)"

definition sessionHeartbeat :: "nat \<Rightarrow> Gateway \<Rightarrow> Gateway" where
  "sessionHeartbeat i g =
     (case g_conns g i of
        None \<Rightarrow> g
      | Some cl \<Rightarrow> (if gc_serving cl \<and> engaged cl then note_activity ''presence'' g else g))"

definition closeAllClients :: "Gateway \<Rightarrow> Gateway" where
  "closeAllClients g = fold (on_conn (\<lambda>cl. cl\<lparr>gc_open := False\<rparr>)) (g_clients g) (g\<lparr>g_clients := []\<rparr>)"

text \<open>\<^verbatim>\<open>Stop\<close> cancels the listener, whose end closes the sessions; a gateway that never listened has nothing to
  cancel.\<close>

definition Stop_g :: "Gateway \<Rightarrow> Gateway" where
  "Stop_g g =
     (let was = g_listening g; g = cancelIdleTimer (g\<lparr>g_listening := False, g_stateSub := False\<rparr>)
      in if was then closeAllClients g else g)"

section \<open>Webhooks\<close>

definition scalar :: "json \<Rightarrow> string option" where
  "scalar j = (case j of JStr s \<Rightarrow> Some s | JNum _ t \<Rightarrow> Some t | JBool True \<Rightarrow> Some ''true'' | JBool False \<Rightarrow> Some ''false''
               | JNull \<Rightarrow> Some [] | JDeep \<Rightarrow> None)"

fun seed_user :: "string list \<Rightarrow> (string \<rightharpoonup> string) \<Rightarrow> (string \<rightharpoonup> string)" where
  "seed_user [] bag = bag"
| "seed_user (k # ks) bag =
     (case bag k of
        Some v \<Rightarrow> (if v \<noteq> [] then bag(''user'' \<mapsto> v) else seed_user ks bag)
      | None \<Rightarrow> seed_user ks bag)"

definition webhookBag :: "(string \<Rightarrow> payload option) \<Rightarrow> string \<Rightarrow> (string \<rightharpoonup> string)" where
  "webhookBag parse raw =
     (case parse raw of
        None \<Rightarrow> [''body'' \<mapsto> raw]
      | Some obj \<Rightarrow> seed_user [''user'', ''from'', ''sender''] ([''body'' \<mapsto> raw] ++ (\<lambda>k. Option.bind (obj k) scalar)))"

definition hook_body :: "http_req \<Rightarrow> string option" where
  "hook_body r =
     (let (bytes, broken) = hr_body r
      in if broken \<and> length bytes \<le> hookMaxBodyBytes then None else Some (take (Suc hookMaxBodyBytes) bytes))"

definition handleHook :: "(string \<Rightarrow> payload option) \<Rightarrow> http_req \<Rightarrow> Gateway \<Rightarrow> Gateway \<times> (nat \<times> string)" where
  "handleHook parse r g =
     (case auth_gate r g of
        (g, Some resp) \<Rightarrow> (g, resp)
      | (g, None) \<Rightarrow>
          (case webhookFire g of
             None \<Rightarrow> (g, (404, ''not found''))
           | Some fire \<Rightarrow>
               (if hr_name r = [] then (g, (404, ''not found''))
                else case hook_body r of
                       None \<Rightarrow> (g, (400, ''bad request''))
                     | Some body \<Rightarrow>
                         (if length body > hookMaxBodyBytes then (g, (413, ''request body too large''))
                          else let bag = webhookBag parse body; g = g\<lparr>fired := fired g @ [(hr_name r, bag)]\<rparr>
                               in if \<not> fire (hr_name r) bag then (g, (404, ''not found''))
                                  else (publish_g EventWebhookReceived [(''name'', VStr (hr_name r))] g,
                                        (200, ''{\"status\":\"ok\"}''))))))"

section \<open>Health and metrics\<close>

definition read_method :: "http_req \<Rightarrow> bool" where
  "read_method r \<longleftrightarrow> hr_method r = ''GET'' \<or> hr_method r = ''HEAD''"

definition uptime :: "Gateway \<Rightarrow> int" where "uptime g = (g_now g - g_started g) div second"

definition handleHealth :: "http_req \<Rightarrow> Gateway \<Rightarrow> (nat \<times> string) + frame" where
  "handleHealth r g =
     (if \<not> read_method r then Inl (405, ''method not allowed'')
      else Inr [fstr ''status'' ''ok'', fint ''uptime_seconds'' (uptime g), fint ''ws_clients'' (int (length (g_clients g)))])"

definition metric :: "string \<Rightarrow> string \<Rightarrow> string \<Rightarrow> int \<Rightarrow> string list" where
  "metric name help kind v =
     [''# HELP '' @ name @ '' '' @ help, ''# TYPE '' @ name @ '' '' @ kind, name @ '' '' @ itoa v]"

definition handleMetrics :: "http_req \<Rightarrow> Gateway \<Rightarrow> (nat \<times> string) + string" where
  "handleMetrics r g =
     (if \<not> read_method r then Inl (405, ''method not allowed'')
      else Inr (join [lf]
        (metric ''turborg_ws_connections_total'' ''Total successful WS auths.'' ''counter'' (int (connections g)) @
         metric ''turborg_ws_auth_failures_total'' ''Total failed WS auth attempts.'' ''counter'' (int (authFailures g)) @
         metric ''turborg_messages_forwarded_total'' ''Total IRC messages forwarded to WS.'' ''counter'' (int (messagesForwarded g)) @
         metric ''turborg_ws_clients_current'' ''Currently connected WS clients.'' ''gauge'' (int (length (g_clients g))) @
         metric ''turborg_uptime_seconds'' ''Process uptime since gateway init.'' ''gauge'' (uptime g)) @ [lf]))"

section \<open>Operations of a session\<close>

definition jstr :: "string \<Rightarrow> payload \<Rightarrow> string" where
  "jstr k p = (case p k of Some (JStr s) \<Rightarrow> s | _ \<Rightarrow> [])"

definition jpos :: "string \<Rightarrow> payload \<Rightarrow> int option" where
  "jpos k p = (case p k of Some (JNum n _) \<Rightarrow> (if n > 0 then Some n else None) | _ \<Rightarrow> None)"

text \<open>\<^verbatim>\<open>allowByPolicy\<close>: the reason of a refusal, with its kind.\<close>

definition allowByPolicy_g :: "string \<Rightarrow> Gateway \<Rightarrow> string option \<times> string" where
  "allowByPolicy_g cmd g =
     (let current = (if cmd = CmdJoin then int (Count (chan_state (gconn g))) else 0)
      in (AllowCommand (limits (g_hub g)) cmd current, CapHitKind cmd))"

definition denyAction :: "nat \<Rightarrow> string \<Rightarrow> string \<Rightarrow> string \<Rightarrow> string \<Rightarrow> Gateway \<Rightarrow> Gateway" where
  "denyAction i sourceOp sourceTarget kind reason g =
     sendTo_g i [fstr ''op'' ''policy_denied'', fstr ''source_op'' sourceOp, fstr ''source_target'' sourceTarget,
                 fstr ''kind'' kind, fstr ''reason'' reason] g"

definition rateLimited :: "nat \<Rightarrow> string \<Rightarrow> duration \<Rightarrow> Gateway \<Rightarrow> Gateway" where
  "rateLimited i tgt retryAfter g =
     sendTo_g i [fstr ''op'' ''rate_limited'', fstr ''target'' tgt, fint ''retry_after'' (wait_seconds retryAfter),
                 fstr ''reason'' ''outbound rate limit''] g"

definition rejectSend :: "nat \<Rightarrow> string \<Rightarrow> string \<Rightarrow> string \<Rightarrow> string \<Rightarrow> Gateway \<Rightarrow> Gateway" where
  "rejectSend i tgt body reasonState message g =
     sendTo_g i [fstr ''op'' ''send_message.rejected'', fstr ''target'' tgt, fstr ''body'' body, fstr ''reason'' reasonState,
                 fstr ''message'' message] g"

definition bridge_raw :: "string \<Rightarrow> Gateway \<Rightarrow> Gateway" where
  "bridge_raw line g = on_hub (connector_step (\<lambda>c. fst (SendRaw line c))) g"

text \<open>The throttle the bouncer uses too; the wait when it refuses.\<close>

definition ask_throttle :: "string \<Rightarrow> Gateway \<Rightarrow> Gateway \<times> duration option" where
  "ask_throttle ch g =
     (case outboundThrottle (g_hub g) of
        None \<Rightarrow> (g, None)
      | Some t \<Rightarrow>
          (let (t, res) = AllowWithReason (g_now g) ch t
           in (on_hub (\<lambda>h. h\<lparr>outboundThrottle := Some t\<rparr>) g, if Allow res then None else Some (RetryAfter res))))"

definition say_env :: "string \<Rightarrow> string \<Rightarrow> OutboundEnvelope" where
  "say_env ch text =
     \<lparr>out_ID = 0, out_Connector = ''irc'', out_Instance = ''default'', out_Channel = ch, out_Text = text, out_ReplyTo = None\<rparr>"

definition say_send :: "string \<Rightarrow> nat \<Rightarrow> string \<Rightarrow> string \<Rightarrow> Gateway \<Rightarrow> Gateway" where
  "say_send day i ch text g =
     (let e = snd (Send day (say_env ch text) (gconn g));
          g = on_hub (connector_step (\<lambda>c. fst (Send day (say_env ch text) c))) g; c = gconn g
      in case e of
           Some err \<Rightarrow>
             (if up c \<noteq> Registered
              then rejectSend i ch text (state_str (up c)) (DescribeUpstreamState (up c) [] (serverReason (machine c))) g
              else rejectSend i ch text ''send_failed'' (snd err) g)
         | None \<Rightarrow>
             publish_g EventMessageSent
               [(''connector'', VStr ''irc''), (''channel'', VStr ch), (''sender'', VStr (currentNick c)), (''text'', VStr text)] g)"

definition say_g :: "string \<Rightarrow> nat \<Rightarrow> string \<Rightarrow> string \<Rightarrow> Gateway \<Rightarrow> Gateway" where
  "say_g day i ch text g =
     (if ch = [] \<or> text = [] then g
      else let g = markEngaged i ''ws_message'' g; c = gconn g
           in if up c \<noteq> Registered
              then rejectSend i ch text (state_str (up c)) (DescribeUpstreamState (up c) [] (serverReason (machine c))) g
              else case ask_throttle ch g of
                     (g, Some d) \<Rightarrow> rateLimited i ch d g
                   | (g, None) \<Rightarrow> say_send day i ch text g)"

definition gated_raw :: "nat \<Rightarrow> string \<Rightarrow> string \<Rightarrow> string \<Rightarrow> Gateway \<Rightarrow> Gateway" where
  "gated_raw i op cmd arg g =
     (if arg = [] then g
      else case allowByPolicy_g cmd g of
             (Some reason, kind) \<Rightarrow> denyAction i op arg kind reason g
           | (None, _) \<Rightarrow> bridge_raw (cmd @ '' '' @ arg) g)"

text \<open>The line an operation that neither policy nor throttle looks at sends.\<close>

definition plain_line :: "string \<Rightarrow> payload \<Rightarrow> string option" where
  "plain_line op p =
     (let ch = jstr ''channel'' p; n = jstr ''nick'' p
      in if op = ''part'' then (if ch = [] then None else Some (CmdPart @ '' '' @ ch))
         else if op = ''mode'' then
           (let modes = jstr ''modes'' p; tgt = jstr ''target'' p
            in if ch = [] \<or> modes = [] then None
               else Some (CmdMode @ '' '' @ ch @ '' '' @ modes @ (if tgt \<noteq> [] then '' '' @ tgt else [])))
         else if op = ''kick'' then
           (let reason = jstr ''reason'' p
            in if ch = [] \<or> n = [] then None
               else Some (CmdKick @ '' '' @ ch @ '' '' @ n @ (if reason \<noteq> [] then '' :'' @ reason else [])))
         else if op = ''whois'' then (if n = [] then None else Some (CmdWhois @ '' '' @ n))
         else if op = ''topic'' then
           (if ch = [] then None
            else case p ''topic'' of
                   Some (JStr t) \<Rightarrow> Some (CmdTopic @ '' '' @ ch @ '' :'' @ t)
                 | _ \<Rightarrow> Some (CmdTopic @ '' '' @ ch))
         else if op = ''list'' then
           (let pattern = trim_space (jstr ''pattern'' p)
            in Some (if pattern = [] then CmdList else CmdList @ '' '' @ pattern))
         else if op = ''who'' then
           (let t = trim_space (jstr ''target'' p) in if t = [] then None else Some (CmdWho @ '' '' @ t))
         else if op = ''raw'' then
           (let line = jstr ''line'' p
            in if line = [] \<or> contains_any line crlf then None
               else Some (if prefix ''/'' line then drop 1 line else line))
         else None)"

section \<open>Scrollback and /tb\<close>

definition history_limit :: "payload \<Rightarrow> int" where
  "history_limit p = (case jpos ''limit'' p of Some n \<Rightarrow> (if n > 200 then 200 else n) | None \<Rightarrow> 200)"

definition history_before :: "benv \<Rightarrow> payload \<Rightarrow> instant option" where
  "history_before env p =
     (let raw = jstr ''before'' p
      in if raw = [] then None
         else case parse_time env ''2006-01-02T15:04:05.999999999Z07:00'' raw of
                Some t \<Rightarrow> bound t
              | None \<Rightarrow>
                  (case parse_time env ''2006-01-02T15:04:05.000Z'' raw of Some t \<Rightarrow> bound t | None \<Rightarrow> None))"

definition history_row :: "Messages.Message \<Rightarrow> (string \<times> val) list" where
  "history_row m =
     [(''nick'', VStr (m_Nick m)), (''text'', VStr (m_Text m)), (''ts'', VInt (unix_ts (m_TS m))), (''id'', VStr (m_ID m))]"

definition history_result :: "string \<Rightarrow> Messages.Message list \<Rightarrow> bool \<Rightarrow> frame" where
  "history_result channel ms full =
     [fstr ''op'' ''history_result'', fstr ''channel'' channel, (''messages'', Some (VRows (map history_row ms))),
      (''has_more'', Some (VBool full))]"

definition handleHistoryOp :: "benv \<Rightarrow> nat \<Rightarrow> payload \<Rightarrow> Gateway \<Rightarrow> Gateway" where
  "handleHistoryOp env i p g =
     (let channel = jstr ''channel'' p; limit = history_limit p
      in if channel = [] \<or> \<not> startsWithChannelSigil channel then g
         else case g_store g of
                None \<Rightarrow> sendTo_g i (history_result channel [] False) g
              | Some recent \<Rightarrow>
                  (case recent channel (history_before env p) limit of
                     Inl _ \<Rightarrow> sendTo_g i (history_result channel [] False) g
                   | Inr ms \<Rightarrow> sendTo_g i (history_result channel ms (int (length ms) = limit)) g))"

definition tb_error :: "nat \<Rightarrow> string \<Rightarrow> Gateway \<Rightarrow> Gateway" where
  "tb_error i message g = sendTo_g i [fstr ''op'' ''tb_error'', fstr ''message'' message] g"

definition tb_status :: "nat \<Rightarrow> string \<Rightarrow> Gateway \<Rightarrow> Gateway" where
  "tb_status i message g = sendTo_g i [fstr ''op'' ''tb_status'', fstr ''message'' message] g"

definition handleTBTLDR_g :: "benv \<Rightarrow> nat \<Rightarrow> string \<Rightarrow> Gateway \<Rightarrow> Gateway" where
  "handleTBTLDR_g env i rawURL g =
     (if trim_space rawURL = [] then tb_error i ''A URL is required.'' g
      else let g = tb_status i (''Fetching '' @ rawURL @ ''...'') g;
               (t, r) = tbTLDR (g_now g) (parse_url env) (guarded_fetch env) tbDefaultRateLimitKey rawURL (tb (g_hub g));
               g = on_hub (\<lambda>h. h\<lparr>tb := t\<rparr>) g
           in case r of
                None \<Rightarrow> on_hub (\<lambda>h. h\<lparr>down := True\<rparr>) g
              | Some (Inl e) \<Rightarrow> tb_error i e g
              | Some (Inr summary) \<Rightarrow>
                  sendTo_g i [fstr ''op'' ''tb_result'', fstr ''sub'' ''tldr'', fstr ''url'' rawURL, fstr ''summary'' summary] g)"

definition handleTBUsage :: "nat \<Rightarrow> Gateway \<Rightarrow> Gateway" where
  "handleTBUsage i g =
     (let (g, inputUsed, outputUsed, inputCap, outputCap) =
        (case g_budget g of
           None \<Rightarrow> (g, 0, 0, 0, 0)
         | Some (b, inputCap, outputCap) \<Rightarrow>
             (let (b, inputUsed, outputUsed) = Totals (g_now g) b
              in (g\<lparr>g_budget := Some (b, inputCap, outputCap)\<rparr>, inputUsed, outputUsed, inputCap, outputCap)))
      in sendTo_g i [fstr ''op'' ''tb_result'', fstr ''sub'' ''usage'', fint ''input_used'' inputUsed,
           fint ''output_used'' outputUsed, fint ''input_cap'' inputCap, fint ''output_cap'' outputCap] g)"

definition tb_answer :: "nat \<Rightarrow> string \<Rightarrow> llm_answer \<Rightarrow> Gateway \<Rightarrow> Gateway" where
  "tb_answer i channel a g =
     (case a of
        BudgetExhausted \<Rightarrow> tb_error i ''Daily AI token budget spent. Resets on a rolling 24h window.'' g
      | LLMError _ \<Rightarrow> tb_error i ''LLM request failed.'' g
      | Answer s \<Rightarrow>
          (let trimmed = trim_space s;
               note = \<lparr>m_ID = [], m_Channel = channel, m_Nick = ''*turborg'', m_Text = summary_mark @ '' Summary: '' @ trimmed,
                       m_TS = g_now g\<rparr>
           in sendTo_g i [fstr ''op'' ''tb_result'', fstr ''sub'' ''summarize'', fstr ''channel'' channel, fstr ''summary'' trimmed]
                (g\<lparr>g_submitted := g_submitted g @ [note]\<rparr>)))"

definition handleTBSummarize_g :: "benv \<Rightarrow> nat \<Rightarrow> string \<Rightarrow> int \<Rightarrow> Gateway \<Rightarrow> Gateway" where
  "handleTBSummarize_g env i channel n g =
     (case g_llm g of
        None \<Rightarrow> tb_error i ''No LLM provider configured.'' g
      | Some ask \<Rightarrow>
          (case g_store g of
             None \<Rightarrow> tb_error i ''No message history available.'' g
           | Some recent \<Rightarrow>
               (if tb_cap g \<le> 0 then tb_error i ''/tb summarize is not enabled.'' g
                else if AIStrict (limits (g_hub g)) \<and>
                  \<not> IsOperator (Some (chan_state (gconn g))) (nick_order env channel) channel (currentNick (gconn g))
                then tb_error i (AIStrictDenyMessage (limits (g_hub g))) g
                else let n = (if n \<le> 0 then 200 else n); n = (if n > tb_cap g then tb_cap g else n);
                         g = tb_status i (''Summarizing '' @ channel @ ''...'') g
                     in case recent channel None n of
                          Inl _ \<Rightarrow> tb_error i ''Failed to fetch history.'' g
                        | Inr [] \<Rightarrow> tb_error i (''No messages in '' @ channel @ '' to summarize.'') g
                        | Inr (m # ms) \<Rightarrow>
                            (let msgs = rev (m # ms);
                                 prompt = ''Summarize these '' @ nat_str (length msgs) @ '' messages from '' @ channel @ '':'' @
                                          [lf, lf] @ history_text msgs
                             in tb_answer i channel (ask tbSummarizeSystemPrompt prompt) g))))"

definition handleTBOp :: "benv \<Rightarrow> nat \<Rightarrow> payload \<Rightarrow> Gateway \<Rightarrow> Gateway" where
  "handleTBOp env i p g =
     (let sub = to_lower (jstr ''sub'' p); channel = jstr ''channel'' p
      in if sub = ''summarize'' then
           (if channel = [] \<or> \<not> startsWithChannelSigil channel then tb_error i ''Channel is required.'' g
            else handleTBSummarize_g env i channel (case jpos ''n'' p of Some n \<Rightarrow> n | None \<Rightarrow> 0) g)
         else if sub = ''tldr'' then handleTBTLDR_g env i (jstr ''url'' p) g
         else if sub = ''usage'' then handleTBUsage i g
         else tb_error i ''Unknown /tb subcommand. Available: summarize, tldr, usage'' g)"

definition dispatchInbound :: "benv \<Rightarrow> string \<Rightarrow> nat \<Rightarrow> payload \<Rightarrow> Gateway \<Rightarrow> Gateway" where
  "dispatchInbound env day i p g =
     (let op = jstr ''op'' p
      in if op = ''say'' then say_g day i (jstr ''channel'' p) (jstr ''text'' p) g
         else if op = ''join'' then gated_raw i op CmdJoin (jstr ''channel'' p) g
         else if op = ''nick'' then gated_raw i op CmdNick (jstr ''nick'' p) g
         else if op = ''history'' then handleHistoryOp env i p g
         else if op = ''tb'' then handleTBOp env i p (note_activity ''tb_command'' g)
         else case plain_line op p of None \<Rightarrow> g | Some line \<Rightarrow> bridge_raw line g)"

text \<open>One turn of a session's reading loop.\<close>

definition ws_frame :: "benv \<Rightarrow> string \<Rightarrow> (string \<Rightarrow> payload option) \<Rightarrow> nat \<Rightarrow> string \<Rightarrow> Gateway \<Rightarrow> Gateway" where
  "ws_frame env day parse i raw g =
     (case g_conns g i of
        None \<Rightarrow> g
      | Some cl \<Rightarrow>
          (if \<not> gc_serving cl \<or> \<not> gc_open cl then g
           else case parse raw of None \<Rightarrow> g | Some p \<Rightarrow> dispatchInbound env day i p g))"

end
