(* ===== verification/Gateway_Facts.thy ===== *)
theory Gateway_Facts
  imports Gateway Bouncer_Flow
begin

text \<open>
  What the gateway promises: who gets past the gate and what a webhook does, what a session that says something is
  told, and what a new session is shown.
\<close>

section \<open>The gate\<close>

definition admitted :: "http_req \<Rightarrow> Gateway \<Rightarrow> bool" where
  "admitted r g \<longleftrightarrow>
     (case g_limiter g of None \<Rightarrow> True | Some rl \<Rightarrow> clientIP r = [] \<or> \<not> IsLocked (g_now g) (clientIP r) rl) \<and>
     g_verify g (extractToken r)"

text \<open>All a refused request leaves behind.\<close>

definition refused_with :: "Gateway \<Rightarrow> Gateway \<Rightarrow> bool" where
  "refused_with g g' \<longleftrightarrow> (\<exists>rl n. g' = g\<lparr>g_limiter := rl, authFailures := n\<rparr>)"

lemma locked_g_cases:
  "\<exists>rl. locked_g ip g =
     (g\<lparr>g_limiter := rl\<rparr>, (case g_limiter g of None \<Rightarrow> False | Some l \<Rightarrow> ip \<noteq> [] \<and> IsLocked (g_now g) ip l))"
proof (cases "g_limiter g = None \<or> ip = []")
  case True
  then have "locked_g ip g = (g\<lparr>g_limiter := g_limiter g\<rparr>, False)" by (auto simp: locked_g_def split: option.split)
  then show ?thesis using True by (intro exI [of _ "g_limiter g"]) (auto split: option.split)
next
  case False
  then obtain l where l: "g_limiter g = Some l" "ip \<noteq> []" by auto
  obtain rl d where t: "TimeUntilUnlock (g_now g) ip l = (rl, d)" by fastforce
  show ?thesis using l t by (intro exI [of _ "Some rl"]) (simp add: locked_g_def IsLocked_def)
qed

lemma auth_gate_cases:
  "if admitted r g then \<exists>rl. auth_gate r g = (g\<lparr>g_limiter := rl\<rparr>, None)
   else \<exists>g' resp. auth_gate r g = (g', Some resp) \<and> refused_with g g' \<and> fst resp \<in> {401, 429}"
proof -
  let ?ip = "clientIP r"
  obtain rl b where L: "locked_g ?ip g = (g\<lparr>g_limiter := rl\<rparr>, b)"
    "b = (case g_limiter g of None \<Rightarrow> False | Some l \<Rightarrow> ?ip \<noteq> [] \<and> IsLocked (g_now g) ?ip l)"
    using locked_g_cases by blast
  have b: "admitted r g \<longleftrightarrow> \<not> b \<and> g_verify g (extractToken r)"
    by (auto simp: L(2) admitted_def split: option.splits)
  have lim: "on_limiter_g f ?ip (g\<lparr>g_limiter := rl\<rparr>) = g\<lparr>g_limiter := if ?ip = [] then rl else map_option f rl\<rparr>" for f
    by (simp add: on_limiter_g_def)
  have ref: "refused_with g (g\<lparr>g_limiter := x\<rparr>)" for x
    unfolding refused_with_def by (intro exI [of _ x] exI [of _ "authFailures g"]) simp
  have ref': "refused_with g (g\<lparr>g_limiter := x, authFailures := n\<rparr>)" for x n
    unfolding refused_with_def by blast
  show ?thesis
  proof (cases "admitted r g")
    case True
    then show ?thesis using b L(1) by (auto simp: auth_gate_def lim Let_def)
  next
    case False
    then consider "b" | "\<not> b" "\<not> g_verify g (extractToken r)" using b by blast
    then show ?thesis
    proof cases
      case 1
      then show ?thesis using False L(1) ref by (simp add: auth_gate_def)
    next
      case 2
      then show ?thesis using False L(1) ref' by (simp add: auth_gate_def lim Let_def)
    qed
  qed
qed

lemma gate_admitted: "admitted r g \<Longrightarrow> \<exists>rl. auth_gate r g = (g\<lparr>g_limiter := rl\<rparr>, None)"
  using auth_gate_cases [of r g] by simp

lemma gate_refused:
  "\<not> admitted r g \<Longrightarrow> \<exists>g' resp. auth_gate r g = (g', Some resp) \<and> refused_with g g' \<and> fst resp \<in> {401, 429}"
  using auth_gate_cases [of r g] by simp

section \<open>What broadcasting leaves alone\<close>

lemma sendTo_g_keeps [simp]:
  "g_hub (sendTo_g i fr g) = g_hub g" "fired (sendTo_g i fr g) = fired g" "webhookFire (sendTo_g i fr g) = webhookFire g"
  "serverLog (sendTo_g i fr g) = serverLog g" "g_store (sendTo_g i fr g) = g_store g" "g_bus (sendTo_g i fr g) = g_bus g"
  by (simp_all add: sendTo_g_def Let_def split: option.split prod.split)

lemma broadcast_g_keeps [simp]:
  "g_hub (broadcast_g fr g) = g_hub g" "fired (broadcast_g fr g) = fired g" "webhookFire (broadcast_g fr g) = webhookFire g"
proof -
  have "g_hub (fold (\<lambda>i. sendTo_g i fr) xs k) = g_hub k \<and> fired (fold (\<lambda>i. sendTo_g i fr) xs k) = fired k \<and>
    webhookFire (fold (\<lambda>i. sendTo_g i fr) xs k) = webhookFire k" for xs k
    by (induction xs arbitrary: k) simp_all
  then show "g_hub (broadcast_g fr g) = g_hub g" "fired (broadcast_g fr g) = fired g"
    "webhookFire (broadcast_g fr g) = webhookFire g" by (simp_all add: broadcast_g_def)
qed

lemma on_event_g_keeps [simp]:
  "g_hub (on_event_g ev g) = g_hub g" "fired (on_event_g ev g) = fired g"
  by (simp_all add: on_event_g_def onMessage_g_def onMessageSent_g_def onServerNotice_g_def Let_def
      split: option.split prod.split val.split)

lemma publish_g_fired [simp]: "fired (publish_g t fs g) = fired g"
  by (simp add: publish_g_def on_hub_def)

lemma publish_g_conn: "gconn (publish_g t fs g) = (if g_bus g then publish t fs (gconn g) else gconn g)"
  by (simp add: publish_g_def on_hub_def)

section \<open>Webhooks\<close>

definition hook_ready :: "http_req \<Rightarrow> Gateway \<Rightarrow> bool" where
  "hook_ready r g \<longleftrightarrow>
     admitted r g \<and> webhookFire g \<noteq> None \<and> hr_name r \<noteq> [] \<and>
     (case hook_body r of None \<Rightarrow> False | Some body \<Rightarrow> length body \<le> 65536)"

text \<open>C19: a webhook request fires a trigger exactly when it passes the gate, the route is wired and named, and its body can
  be read and is at most 64 KiB; then once, under the name of the path, with the bag of the body. A caller who does
  not pass the gate changes the lockout and the failure count and nothing else, is told nothing but 401 or 429, and
  no trigger hears of it. Upstream sees no line, and of a trigger that ran the bus learns the name and not the
  payload.\<close>

theorem hook_gate:
  "case handleHook parse r g of (g', code, body) \<Rightarrow>
     fired g' = fired g @ (if hook_ready r g then [(hr_name r, webhookBag parse (the (hook_body r)))] else []) \<and>
     (code = 200 \<longleftrightarrow> hook_ready r g \<and> the (webhookFire g) (hr_name r) (webhookBag parse (the (hook_body r)))) \<and>
     (if admitted r g then code \<notin> {401, 429} else refused_with g g' \<and> code \<in> {401, 429}) \<and>
     gconn g' = (if code = 200 \<and> g_bus g then publish EventWebhookReceived [(''name'', VStr (hr_name r))] (gconn g)
                 else gconn g)"
proof (cases "admitted r g")
  case False
  then obtain k resp where k: "auth_gate r g = (k, Some resp)" "refused_with g k" "fst resp \<in> {401, 429}"
    using gate_refused by blast
  then have "fired k = fired g" "gconn k = gconn g" by (auto simp: refused_with_def)
  with k False show ?thesis by (cases resp) (auto simp: hook_ready_def handleHook_def)
next
  case True
  then obtain rl where rl: "auth_gate r g = (g\<lparr>g_limiter := rl\<rparr>, None)" using gate_admitted by blast
  show ?thesis
  proof (cases "hook_ready r g")
    case False
    then show ?thesis using True rl
      by (auto simp: hook_ready_def handleHook_def hookMaxBodyBytes_def split: option.splits)
  next
    case rd: True
    then obtain fire body where f: "webhookFire g = Some fire" "hr_name r \<noteq> []" "hook_body r = Some body"
      "length body \<le> hookMaxBodyBytes" by (auto simp: hook_ready_def hookMaxBodyBytes_def split: option.splits)
    show ?thesis
      using True rd rl f by (simp add: handleHook_def Let_def publish_g_conn)
  qed
qed

text \<open>The raw body is kept under \<^verbatim>\<open>body\<close> only while the object has no scalar field of that name.\<close>

lemma body_overwritten: "webhookBag (\<lambda>_. Some [''body'' \<mapsto> JStr ''x'']) raw ''body'' = Some ''x''"
  by (simp add: webhookBag_def scalar_def map_add_def)

section \<open>Sessions\<close>

definition got_g :: "nat \<Rightarrow> Gateway \<Rightarrow> frame list" where
  "got_g i g = (case g_conns g i of None \<Rightarrow> [] | Some cl \<Rightarrow> gc_got cl)"

text \<open>An attached session whose socket takes everything.\<close>

definition watching_g :: "nat \<Rightarrow> Gateway \<Rightarrow> bool" where
  "watching_g i g \<longleftrightarrow>
     i \<in> set (g_clients g) \<and> (case g_conns g i of None \<Rightarrow> False | Some cl \<Rightarrow> gc_open cl \<and> gc_accepts cl = None)"

lemma sendTo_g_self:
  "watching_g i g \<Longrightarrow> watching_g i (sendTo_g i fr g) \<and> got_g i (sendTo_g i fr g) = got_g i g @ [fr] \<and>
     g_clients (sendTo_g i fr g) = g_clients g"
  by (auto simp: watching_g_def got_g_def sendTo_g_def write_frame_def split: option.splits)

lemma sendTo_g_conns: "j \<noteq> i \<Longrightarrow> g_conns (sendTo_g i fr g) j = g_conns g j"
  by (simp add: sendTo_g_def Let_def split: option.split prod.split)

lemma sendTo_g_other:
  assumes "j \<noteq> i"
  shows "watching_g j (sendTo_g i fr g) \<longleftrightarrow> watching_g j g" "got_g j (sendTo_g i fr g) = got_g j g"
proof -
  have "j \<in> set (g_clients (sendTo_g i fr g)) \<longleftrightarrow> j \<in> set (g_clients g)"
    using assms by (simp add: sendTo_g_def Let_def split: option.split prod.split)
  then show "watching_g j (sendTo_g i fr g) \<longleftrightarrow> watching_g j g" "got_g j (sendTo_g i fr g) = got_g j g"
    by (simp_all add: watching_g_def got_g_def sendTo_g_conns [OF assms])
qed

lemma fold_sendTo_g:
  "watching_g j g \<Longrightarrow> distinct is \<Longrightarrow>
     got_g j (fold (\<lambda>i. sendTo_g i fr) is g) = got_g j g @ (if j \<in> set is then [fr] else [])"
proof (induction "is" arbitrary: g)
  case (Cons i k)
  then show ?case
    using sendTo_g_self [of i g fr] sendTo_g_other [of j i fr g] by (cases "j = i") auto
qed simp

lemma broadcast_g_got:
  "watching_g j g \<Longrightarrow> distinct (g_clients g) \<Longrightarrow> got_g j (broadcast_g fr g) = got_g j g @ [fr]"
  by (simp add: broadcast_g_def fold_sendTo_g watching_g_def)

section \<open>Saying something\<close>

text \<open>The note to the owner that a message sets off: the summary of the day, when it is due and the socket still takes it.\<close>

definition nudge_line :: "string \<Rightarrow> Connector \<Rightarrow> string list" where
  "nudge_line day c =
     (case snd (Note day (ownerNudge c)) of
        None \<Rightarrow> []
      | Some l \<Rightarrow> if writes_left c = Some 1 then [] else [l])"

lemma Send_wire:
  assumes "Send day env c = (d, e)"
  shows "clock d = clock c" "currentNick d = currentNick c" "machine d = machine c"
    "e \<noteq> None \<Longrightarrow> wire d = wire c"
    "e = None \<Longrightarrow> wire d = wire c @ [CmdPrivmsg @ '' '' @ out_Channel env @ '' :'' @ out_Text env] @ nudge_line day c"
  using assms
  by (auto simp: nudge_line_def Send_def sock_write_def call_bouncer_def Let_def split: if_splits option.splits nat.splits prod.splits)

definition admits :: "string \<Rightarrow> Gateway \<Rightarrow> bool" where
  "admits ch g \<longleftrightarrow>
     (case outboundThrottle (g_hub g) of None \<Rightarrow> True | Some t \<Rightarrow> Allow (snd (AllowWithReason (g_now g) ch t)))"

text \<open>What a session that is not sent out is told.\<close>

definition refusal :: "string \<Rightarrow> string \<Rightarrow> frame \<Rightarrow> bool" where
  "refusal ch text fr \<longleftrightarrow>
     (\<exists>reason message. fr = [fstr ''op'' ''send_message.rejected'', fstr ''target'' ch, fstr ''body'' text, fstr ''reason'' reason,
                             fstr ''message'' message]) \<or>
     (\<exists>n\<ge>1. fr = [fstr ''op'' ''rate_limited'', fstr ''target'' ch, fint ''retry_after'' n, fstr ''reason'' ''outbound rate limit''])"

lemma ask_throttle_cases:
  "\<exists>t. ask_throttle ch g = (g\<lparr>g_hub := (g_hub g)\<lparr>outboundThrottle := t\<rparr>\<rparr>,
     if admits ch g then None else map_option (\<lambda>t. RetryAfter (snd (AllowWithReason (g_now g) ch t))) (outboundThrottle (g_hub g)))"
proof (cases "outboundThrottle (g_hub g)")
  case None
  then show ?thesis by (intro exI [of _ None]) (simp add: ask_throttle_def admits_def)
next
  case (Some t)
  obtain t' res where "AllowWithReason (g_now g) ch t = (t', res)" by fastforce
  then show ?thesis using Some by (intro exI [of _ "Some t'"]) (simp add: ask_throttle_def admits_def on_hub_def)
qed

text \<open>Marking engagement touches no socket.\<close>

lemma markEngaged_keeps [simp]:
  "g_hub (markEngaged i r g) = g_hub g" "g_clients (markEngaged i r g) = g_clients g" "g_bus (markEngaged i r g) = g_bus g"
  "watching_g j (markEngaged i r g) = watching_g j g" "got_g j (markEngaged i r g) = got_g j g"
  by (simp_all add: markEngaged_def note_activity_def on_conn_def watching_g_def got_g_def split: option.split)

lemma hub_keeps [simp]:
  "watching_g j (g\<lparr>g_hub := h\<rparr>) = watching_g j g" "got_g j (g\<lparr>g_hub := h\<rparr>) = got_g j g"
  by (simp_all add: watching_g_def got_g_def)

lemma wait_positive: "wait_seconds d \<ge> 1"
  by (simp add: wait_seconds_def Let_def)

text \<open>One refusal to session \<open>i\<close>.\<close>

definition told_refused :: "nat \<Rightarrow> string \<Rightarrow> string \<Rightarrow> Gateway \<Rightarrow> Gateway \<Rightarrow> bool" where
  "told_refused i ch text g g' \<longleftrightarrow>
     wire (gconn g') = wire (gconn g) \<and> (\<exists>fr. refusal ch text fr \<and> got_g i g' = got_g i g @ [fr]) \<and>
     (\<forall>j. j \<noteq> i \<longrightarrow> got_g j g' = got_g j g)"

lemma told_refusedI:
  assumes "watching_g i k" "refusal ch text fr" "wire (gconn k) = wire (gconn g)" "\<And>j. got_g j k = got_g j g"
  shows "told_refused i ch text g (sendTo_g i fr k)"
  using assms sendTo_g_self [OF assms(1), of fr] by (auto simp: told_refused_def sendTo_g_other)

lemma refusal_rejected:
  "refusal ch text [fstr ''op'' ''send_message.rejected'', fstr ''target'' ch, fstr ''body'' text, fstr ''reason'' reason,
                    fstr ''message'' message]"
  by (auto simp: refusal_def)

lemma refusal_limited:
  "refusal ch text [fstr ''op'' ''rate_limited'', fstr ''target'' ch, fint ''retry_after'' (wait_seconds d),
                    fstr ''reason'' ''outbound rate limit'']"
  using wait_positive by (auto simp: refusal_def)

definition goes_out :: "string \<Rightarrow> string \<Rightarrow> string \<Rightarrow> Gateway \<Rightarrow> bool" where
  "goes_out day ch text g \<longleftrightarrow>
     up (gconn g) = Registered \<and> admits ch g \<and> snd (Send day (say_env ch text) (gconn g)) = None"

lemma say_env_simps [simp]: "out_Channel (say_env ch text) = ch" "out_Text (say_env ch text) = text"
  by (simp_all add: say_env_def)

lemma own_message:
  assumes "currentNick (gconn g) = n"
  shows "onMessageSent_g \<lparr>ev_Type = t, Fields = [(''connector'', VStr ''irc''), (''channel'', VStr ch), (''sender'', VStr n),
      (''text'', VStr text)]\<rparr> g = broadcast_g (message_frame (g_now g) ch n text) g"
  using assms by (simp add: onMessageSent_g_def ev_str_def ev_val_def)

lemma say_send_cases:
  assumes w: "watching_g i g" and b: "g_bus g" "distinct (g_clients g)"
  shows "if snd (Send day (say_env ch text) (gconn g)) = None
    then wire (gconn (say_send day i ch text g)) =
        wire (gconn g) @ [CmdPrivmsg @ '' '' @ ch @ '' :'' @ text] @ nudge_line day (gconn g) \<and>
      (\<forall>j. watching_g j g \<longrightarrow> got_g j (say_send day i ch text g) =
         got_g j g @ [message_frame (g_now g) ch (currentNick (gconn g)) text])
    else told_refused i ch text g (say_send day i ch text g)"
proof -
  let ?c = "gconn g"
  obtain d e where S: "Send day (say_env ch text) ?c = (d, e)" by fastforce
  note d = Send_wire [OF S]
  let ?k = "on_hub (connector_step (\<lambda>c. fst (Send day (say_env ch text) c))) g"
  have k: "gconn ?k = d" "g_bus ?k = g_bus g" "g_clients ?k = g_clients g" "\<And>j. watching_g j ?k = watching_g j g"
    "\<And>j. got_g j ?k = got_g j g"
    by (simp_all add: on_hub_def connector_step_conn S)
  show ?thesis
  proof (cases e)
    case None
    let ?fs = "[(''connector'', VStr ''irc''), (''channel'', VStr ch), (''sender'', VStr (currentNick d)), (''text'', VStr text)]"
    let ?p = "on_hub (\<lambda>h. h\<lparr>Hub.conn := publish EventMessageSent ?fs (Hub.conn h)\<rparr>) ?k"
    have p: "currentNick (gconn ?p) = currentNick d" "g_now ?p = clock d" "wire (gconn ?p) = wire d"
      using k(1) by (simp_all add: on_hub_def publish_def)
    have pw: "watching_g j ?p = watching_g j g" "got_g j ?p = got_g j g" "g_clients ?p = g_clients g" "g_bus ?p = g_bus g" for j
      using k(2-5) by (simp_all add: on_hub_def)
    have R: "say_send day i ch text g = broadcast_g (message_frame (clock d) ch (currentNick d) text) ?p"
      using None S k(1,2) b(1) own_message [OF p(1), of EventMessageSent ch "text"] p(2)
      by (simp add: say_send_def Let_def publish_g_def on_event_g_def pw(4))
    from R p(3) pw obtain q where q: "say_send day i ch text g = broadcast_g (message_frame (clock d) ch (currentNick d) text) q"
      "wire (gconn q) = wire d" "g_clients q = g_clients g" "\<And>j. watching_g j q = watching_g j g" "\<And>j. got_g j q = got_g j g"
      by blast
    show ?thesis
      using None S d(5) by (simp add: q broadcast_g_got b(2) d(1,2))
  next
    case (Some err)
    have wd: "wire d = wire ?c" using d(4) Some by simp
    show ?thesis
      using Some S unfolding say_send_def Let_def
      by (auto simp: rejectSend_def k w wd intro!: told_refusedI refusal_rejected)
  qed
qed

text \<open>C20: saying something in the browser always settles. If the link is registered, the throttle the bouncer shares
  admits the channel and the write succeeds, exactly one PRIVMSG with the text goes upstream, followed by nothing but
  the daily summary to the bot's owner when this message makes it due, and every attached session whose socket takes it
  sees the message exactly once, the sender's among them, under the bot's nick. In every other case, a failing write
  included, upstream gets nothing, the sender gets exactly one frame saying why, and nobody else gets any.\<close>

theorem say_settled:
  assumes "watching_g i g" "g_bus g" "distinct (g_clients g)"
    "p ''op'' = Some (JStr ''say'')" "p ''channel'' = Some (JStr ch)" "p ''text'' = Some (JStr text)" "ch \<noteq> []" "text \<noteq> []"
  shows "if goes_out day ch text g
    then wire (gconn (dispatchInbound env day i p g)) =
        wire (gconn g) @ [''PRIVMSG '' @ ch @ '' :'' @ text] @
        (case snd (Note day (ownerNudge (gconn g))) of
           None \<Rightarrow> []
         | Some l \<Rightarrow> if writes_left (gconn g) = Some 1 then [] else [l]) \<and>
      (\<forall>j. watching_g j g \<longrightarrow> got_g j (dispatchInbound env day i p g) =
         got_g j g @ [message_frame (g_now g) ch (currentNick (gconn g)) text])
    else told_refused i ch text g (dispatchInbound env day i p g)"
proof -
  let ?g = "markEngaged i ''ws_message'' g"
  have D: "dispatchInbound env day i p g = say_g day i ch text g"
    using assms(4-6) by (simp add: dispatchInbound_def jstr_def Let_def)
  have A: "admits ch ?g = admits ch g" unfolding admits_def markEngaged_keeps by (rule refl)
  obtain t where T: "ask_throttle ch ?g = (?g\<lparr>g_hub := (g_hub g)\<lparr>outboundThrottle := t\<rparr>\<rparr>,
     if admits ch g then None else map_option (\<lambda>t. RetryAfter (snd (AllowWithReason (g_now g) ch t))) (outboundThrottle (g_hub g)))"
    using ask_throttle_cases [of ch ?g] unfolding A markEngaged_keeps by blast
  let ?k = "?g\<lparr>g_hub := (g_hub g)\<lparr>outboundThrottle := t\<rparr>\<rparr>"
  have k: "watching_g j ?k = watching_g j g" "got_g j ?k = got_g j g" "gconn ?k = gconn g" "g_bus ?k = g_bus g"
    "g_clients ?k = g_clients g" for j by simp_all
  show ?thesis
  proof (cases "up (gconn g) = Registered")
    case False
    have "told_refused i ch text g (say_g day i ch text g)"
      using False assms(1,7,8)
      by (auto simp: say_g_def rejectSend_def Let_def intro!: told_refusedI refusal_rejected)
    then show ?thesis using False by (simp add: D goes_out_def)
  next
    case reg: True
    show ?thesis
    proof (cases "admits ch g")
      case False
      then obtain th where th: "outboundThrottle (g_hub g) = Some th" by (auto simp: admits_def split: option.splits)
      have "told_refused i ch text g (say_g day i ch text g)"
        using False reg assms(1,7,8) T th
        by (auto simp: say_g_def rateLimited_def Let_def k intro!: told_refusedI refusal_limited)
      then show ?thesis using False by (simp add: D goes_out_def)
    next
      case True
      have S: "say_g day i ch text g = say_send day i ch text ?k"
        using True reg assms(7,8) T by (simp add: say_g_def Let_def)
      have "told_refused i ch text ?k x \<longleftrightarrow> told_refused i ch text g x" for x
        by (simp add: told_refused_def)
      moreover have "watching_g i ?k" "g_bus ?k" "distinct (g_clients ?k)" using assms(1-3) by simp_all
      note say_send_cases [OF this, of day ch "text"]
      moreover have "CmdPrivmsg @ '' '' @ ch @ '' :'' @ text = ''PRIVMSG '' @ ch @ '' :'' @ text" by simp
      ultimately show ?thesis
        using True reg unfolding D S goes_out_def nudge_line_def by (simp only: k simp_thms)
    qed
  qed
qed

definition speaking :: Gateway where
  "speaking =
     (case NewGateway (sample_hub\<lparr>Hub.conn := (Hub.conn sample_hub)\<lparr>client := Some 1, bouncer := False,
               machine := (machine (Hub.conn sample_hub))\<lparr>state := Registered\<rparr>\<rparr>\<rparr>)
             (Some (\<lambda>t. t = ''key'')) None (0, False) True None None None 0 None of
        Inr g \<Rightarrow> Subscribe_g (g\<lparr>g_clients := [0], g_conns := [0 \<mapsto> \<lparr>gc_addr = ''ip'', engaged = False, gc_open = True,
                   gc_serving = True, gc_accepts = None, gc_got = []\<rparr>]\<rparr>)
      | Inl _ \<Rightarrow> undefined)"

theorem say_settled_witness:
  "wire (gconn (dispatchInbound idle_env ''monday'' 0 [''op'' \<mapsto> JStr ''say'', ''channel'' \<mapsto> JStr ''#a'', ''text'' \<mapsto> JStr ''hi''] speaking))
     = wire (gconn speaking) @ [''PRIVMSG #a :hi''] \<and>
   got_g 0 (dispatchInbound idle_env ''monday'' 0 [''op'' \<mapsto> JStr ''say'', ''channel'' \<mapsto> JStr ''#a'', ''text'' \<mapsto> JStr ''hi''] speaking)
     = [message_frame (g_now speaking) ''#a'' (currentNick (gconn speaking)) ''hi'']"
proof -
  let ?p = "[''op'' \<mapsto> JStr ''say'', ''channel'' \<mapsto> JStr ''#a'', ''text'' \<mapsto> JStr ''hi'']"
  have conn: "gconn speaking = (Hub.conn sample_hub)\<lparr>client := Some 1, bouncer := False,
      machine := (machine (Hub.conn sample_hub))\<lparr>state := Registered\<rparr>\<rparr>"
    "outboundThrottle (g_hub speaking) = None"
    by (simp_all add: speaking_def NewGateway_def Subscribe_g_def sample_hub_def startBouncer_def NewBouncer_def
        AttachState_b_def AttachWelcomeReplayDepth_def attachTBHandler_def NewConnector_def Let_def)
  have w: "watching_g 0 speaking" "g_bus speaking" "distinct (g_clients speaking)" "got_g 0 speaking = []"
    by (simp_all add: speaking_def NewGateway_def Subscribe_g_def watching_g_def got_g_def)
  have "writes_left (Hub.conn sample_hub) = None" "ownerNudge (Hub.conn sample_hub) = None"
    by (simp_all add: sample_hub_def startBouncer_def NewBouncer_def AttachState_b_def AttachWelcomeReplayDepth_def
        attachTBHandler_def NewConnector_def Let_def)
  then have g: "goes_out ''monday'' ''#a'' ''hi'' speaking" "ownerNudge (gconn speaking) = None"
    unfolding goes_out_def admits_def conn by (simp_all add: Send_def sock_write_def Let_def call_bouncer_def split: prod.split)
  then have "snd (Note ''monday'' (ownerNudge (gconn speaking))) = None" by (simp add: Note_def)
  with g show ?thesis
    using say_settled [OF w(1-3), of ?p "''#a''" "''hi''" "''monday''" idle_env] w(1,4) by simp
qed

section \<open>What the gate does not cover\<close>

text \<open>\<^verbatim>\<open>raw\<close> asks no policy: under a locked nick it still sends NICK.\<close>

lemma raw_escapes_policy: "plain_line ''raw'' [''op'' \<mapsto> JStr ''raw'', ''line'' \<mapsto> JStr ''NICK x''] = Some ''NICK x''"
  by (simp add: plain_line_def jstr_def contains_any_def crlf_def)

text \<open>Only \<^verbatim>\<open>raw\<close> refuses a line end: an allowed JOIN can carry another command behind one.\<close>

lemma join_carries_lines:
  assumes "fst (allowByPolicy_g CmdJoin g) = None"
  shows "gated_raw i ''join'' CmdJoin (''#a'' @ crlf @ ''NICK x'') g = bridge_raw (''JOIN #a'' @ crlf @ ''NICK x'') g"
  using assms by (cases "allowByPolicy_g CmdJoin g") (simp add: gated_raw_def)

text \<open>Stopping a gateway that never listened, as those of a server's tenants never do, leaves its sessions open: they
  stay attached to a gateway that hears nothing any more.\<close>

lemma pooled_stop_keeps_sessions:
  "\<not> g_listening g \<Longrightarrow> g_clients (Stop_g g) = g_clients g \<and> g_conns (Stop_g g) = g_conns g \<and> \<not> g_stateSub (Stop_g g)"
  by (simp add: Stop_g_def cancelIdleTimer_def Let_def)

section \<open>The log of notices\<close>

text \<open>The gateway keeps the last hundred notices for whoever attaches next.\<close>

lemma broadcast_log: "serverLog (broadcast_g fr g) = serverLog g"
  unfolding broadcast_g_def by (rule fold_keeps [where P = "\<lambda>k. serverLog k = serverLog g"]) simp_all

lemma notice_log:
  "g_bus g \<Longrightarrow> ev_Type ev = EventServerNotice \<Longrightarrow>
     serverLog (on_event_g ev g) = lastn 100 (serverLog g @
       [[fstr ''op'' ''server'', fstr ''text'' (ev_str ''text'' ev), fstr ''kind'' (ev_str ''kind'' ev),
         fint ''ts'' (unix_ts (g_now g))]])"
  by (simp add: on_event_g_def onServerNotice_g_def broadcast_log serverLogCap_def lastn_def Let_def)

end
