(* ===== verification/Token.thy ===== *)
theory Token
  imports Prelude
begin

text \<open>
  \<^verbatim>\<open>internal/connector/web/auth.go\<close>: the signed tokens of the web chat. A token is a payload and its signature, both in
  unpadded base64url; the signature is over the encoded payload, under the key of one tenant. The keyed hash is a
  function of key and text and the decoding of the payload's JSON a function of the bytes; base64url is defined as
  \<^verbatim>\<open>RawURLEncoding\<close> reads it: line ends are skipped, trailing bits ignored.
\<close>

section \<open>base64url\<close>

definition b64_alphabet :: string where
  "b64_alphabet = ''ABCDEFGHIJKLMNOPQRSTUVWXYZabcdefghijklmnopqrstuvwxyz0123456789-_''"

definition b64_char :: "nat \<Rightarrow> char" where "b64_char n = b64_alphabet ! n"

definition b64_val :: "char \<Rightarrow> nat option" where "b64_val c = index_byte c b64_alphabet"

fun b64_encode :: "string \<Rightarrow> string" where
  "b64_encode [] = []"
| "b64_encode [x] = (let a = of_char x :: nat in [b64_char (a div 4), b64_char (a mod 4 * 16)])"
| "b64_encode [x, y] =
     (let a = of_char x; b = of_char y :: nat
      in [b64_char (a div 4), b64_char (a mod 4 * 16 + b div 16), b64_char (b mod 16 * 4)])"
| "b64_encode (x # y # z # s) =
     (let a = of_char x; b = of_char y; c = of_char z :: nat
      in [b64_char (a div 4), b64_char (a mod 4 * 16 + b div 16), b64_char (b mod 16 * 4 + c div 64), b64_char (c mod 64)] @
         b64_encode s)"

fun sextets :: "nat list \<Rightarrow> string option" where
  "sextets [] = Some []"
| "sextets [a] = None"
| "sextets [a, b] = Some [char_of (a * 4 + b div 16)]"
| "sextets [a, b, c] = Some [char_of (a * 4 + b div 16), char_of (b mod 16 * 16 + c div 4)]"
| "sextets (a # b # c # d # s) =
     map_option (\<lambda>t. [char_of (a * 4 + b div 16), char_of (b mod 16 * 16 + c div 4), char_of (c mod 4 * 64 + d)] @ t) (sextets s)"

definition b64_decode :: "string \<Rightarrow> string option" where
  "b64_decode s = Option.bind (those (map b64_val (filter (\<lambda>c. c \<notin> set crlf) s))) sextets"

section \<open>Claims\<close>

record Claims =
  TenantID :: string
  cl_Room :: string
  Role :: string
  VisitorID :: string
  IssuedAt :: int
  ExpiresAt :: int

datatype token_err = ErrMalformedToken | ErrBadSignature | ErrExpiredToken | ErrWrongTenant | ErrWrongRoom

definition NewSignedTokenVerifier :: "string \<Rightarrow> string + string" where
  "NewSignedTokenVerifier key = (if key = [] then Inl ''web: signing key cannot be empty'' else Inr key)"

definition VerifyClaims ::
  "(string \<Rightarrow> string \<Rightarrow> string) \<Rightarrow> (string \<Rightarrow> Claims option) \<Rightarrow> instant \<Rightarrow> string \<Rightarrow> string \<Rightarrow> string \<Rightarrow> string \<Rightarrow> token_err + Claims" where
  "VerifyClaims hmac parse now key token pathTenantID room =
     (case last_index_byte (CHR ''.'') token of
        None \<Rightarrow> Inl ErrMalformedToken
      | Some dot \<Rightarrow>
          (if dot = 0 \<or> dot = length token - 1 then Inl ErrMalformedToken
           else let payloadSeg = take dot token; sigSeg = drop (Suc dot) token
                in case b64_decode sigSeg of
                     None \<Rightarrow> Inl ErrMalformedToken
                   | Some presented \<Rightarrow>
                       (if presented \<noteq> hmac key payloadSeg then Inl ErrBadSignature
                        else case Option.bind (b64_decode payloadSeg) parse of
                               None \<Rightarrow> Inl ErrMalformedToken
                             | Some claims \<Rightarrow>
                                 (if ExpiresAt claims > 0 \<and> now div 10 ^ 9 \<ge> ExpiresAt claims then Inl ErrExpiredToken
                                  else if TenantID claims \<noteq> pathTenantID then Inl ErrWrongTenant
                                  else if cl_Room claims \<noteq> room then Inl ErrWrongRoom
                                  else Inr claims))))"

text \<open>What the signer of the tokens mints, as the comment of \<^verbatim>\<open>SignedTokenVerifier\<close> defines it.\<close>

definition mint :: "(string \<Rightarrow> string \<Rightarrow> string) \<Rightarrow> string \<Rightarrow> string \<Rightarrow> string" where
  "mint hmac key payload = b64_encode payload @ ''.'' @ b64_encode (hmac key (b64_encode payload))"

section \<open>Round trip\<close>

lemma b64_val_char: "n < 64 \<Longrightarrow> b64_val (b64_char n) = Some n"
proof -
  have "list_all (\<lambda>n. b64_val (b64_char n) = Some n) [0..<64]" by code_simp
  then show "n < 64 \<Longrightarrow> b64_val (b64_char n) = Some n" by (simp add: list_all_iff)
qed

lemma b64_char_plain: "n < 64 \<Longrightarrow> b64_char n \<notin> {CHR ''.''} \<union> set crlf"
proof -
  have "list_all (\<lambda>c. c \<notin> set (CHR ''.'' # crlf)) b64_alphabet" by code_simp
  moreover have "length b64_alphabet = 64" by code_simp
  ultimately show "n < 64 \<Longrightarrow> b64_char n \<notin> {CHR ''.''} \<union> set crlf" by (auto simp: b64_char_def list_all_length)
qed

lemma byte_parts:
  "(of_char x :: nat) div 4 < 64" "(of_char x :: nat) div 16 < 16" "(of_char x :: nat) div 64 < 4"
  using nat_of_char_less_256 [of x] by (simp_all add: less_mult_imp_div_less)

lemma byte_carry [simp]:
  "(of_char x :: nat) div 16 div 16 = 0" "(of_char x :: nat) div 16 mod 16 = of_char x div 16"
  "(of_char x :: nat) div 64 div 4 = 0" "(of_char x :: nat) div 64 mod 4 = of_char x div 64"
  using byte_parts [of x] by simp_all

text \<open>The sextets of a text.\<close>

fun to_sextets :: "string \<Rightarrow> nat list" where
  "to_sextets [] = []"
| "to_sextets [x] = (let a = of_char x in [a div 4, a mod 4 * 16])"
| "to_sextets [x, y] = (let a = of_char x; b = of_char y in [a div 4, a mod 4 * 16 + b div 16, b mod 16 * 4])"
| "to_sextets (x # y # z # s) =
     (let a = of_char x; b = of_char y; c = of_char z
      in [a div 4, a mod 4 * 16 + b div 16, b mod 16 * 4 + c div 64, c mod 64] @ to_sextets s)"

lemma b64_encode_sextets: "b64_encode s = map b64_char (to_sextets s)"
  by (induction s rule: to_sextets.induct) (simp_all add: Let_def)

lemma sextet_bounds:
  fixes a b c :: nat
  shows "a mod 4 * 16 < 64" "b < 16 \<Longrightarrow> a mod 4 * 16 + b < 64" "a mod 16 * 4 < 64" "b < 4 \<Longrightarrow> a mod 16 * 4 + b < 64" "a mod 64 < 64"
proof -
  have "a mod 4 < 4" "a mod 16 < 16" by simp_all
  then show "a mod 4 * 16 < 64" "b < 16 \<Longrightarrow> a mod 4 * 16 + b < 64" "a mod 16 * 4 < 64" "b < 4 \<Longrightarrow> a mod 16 * 4 + b < 64"
    by linarith+
qed simp

lemma to_sextets_bound: "n \<in> set (to_sextets s) \<Longrightarrow> n < 64"
  by (induction s rule: to_sextets.induct) (auto simp: Let_def sextet_bounds byte_parts)

lemma sextets_to_sextets: "sextets (to_sextets s) = Some s"
  by (induction s rule: to_sextets.induct) (simp_all add: Let_def)

lemma those_map: "(\<And>x. x \<in> set xs \<Longrightarrow> f x = Some (g x)) \<Longrightarrow> those (map f xs) = Some (map g xs)"
  by (induction xs) auto

lemma b64_encode_plain: "c \<in> set (b64_encode s) \<Longrightarrow> c \<noteq> CHR ''.'' \<and> c \<notin> set crlf"
  using b64_char_plain to_sextets_bound by (fastforce simp: b64_encode_sextets)

lemma b64_decode_encode: "b64_decode (b64_encode s) = Some s"
proof -
  have "filter (\<lambda>c. c \<notin> set crlf) (b64_encode s) = b64_encode s"
    using b64_encode_plain by (auto simp: filter_id_conv)
  moreover have "those (map b64_val (b64_encode s)) = Some (to_sextets s)"
    unfolding b64_encode_sextets map_map using to_sextets_bound
    by (subst those_map [where g = id]) (auto simp: b64_val_char)
  ultimately show ?thesis by (simp add: b64_decode_def sextets_to_sextets)
qed

lemma b64_encode_Nil: "b64_encode s = [] \<longleftrightarrow> s = []"
  by (cases s rule: b64_encode.cases) (simp_all add: Let_def)

section \<open>What a token is good for\<close>

lemma last_dot: "CHR ''.'' \<notin> set b \<Longrightarrow> last_index_byte (CHR ''.'') (a @ CHR ''.'' # b) = Some (length a)"
  using index_byte_append [of "CHR ''.''" "rev b" "rev a"] by (simp add: last_index_byte_def)

text \<open>C18: a token minted for one tenant and room opens exactly that. Whatever key a verifier holds and whatever tenant and
  room the request addresses, it accepts the token, and reads the claims that were signed, exactly when its key gives
  the same signature, the claims name that tenant and that room, and they have not expired; and what it accepts at all,
  minted or not, is signed under its key and made out to that tenant and room.\<close>

theorem token_binds:
  assumes "payload \<noteq> []" "\<And>k t. hmac k t \<noteq> []" "parse payload = Some c"
  shows "(VerifyClaims hmac parse now key' (mint hmac key payload) tenant room = Inr c \<longleftrightarrow>
      hmac key' (b64_encode payload) = hmac key (b64_encode payload) \<and> \<not> (ExpiresAt c > 0 \<and> now div 10 ^ 9 \<ge> ExpiresAt c) \<and>
      TenantID c = tenant \<and> cl_Room c = room) \<and>
    (VerifyClaims hmac parse now key' token tenant room = Inr d \<longrightarrow>
      (\<exists>p s. token = p @ ''.'' @ s \<and> b64_decode s = Some (hmac key' p)) \<and> TenantID d = tenant \<and> cl_Room d = room)"
proof
  let ?p = "b64_encode payload" and ?s = "b64_encode (hmac key (b64_encode payload))"
  have m: "mint hmac key payload = ?p @ CHR ''.'' # ?s" by (simp add: mint_def)
  have dot: "last_index_byte (CHR ''.'') (mint hmac key payload) = Some (length ?p)"
    unfolding m by (rule last_dot) (use b64_encode_plain in blast)
  have ne: "?p \<noteq> []" "?s \<noteq> []" using assms(1,2) by (simp_all add: b64_encode_Nil)
  have pos: "\<not> (length ?p = 0 \<or> length ?p = length (mint hmac key payload) - 1)" using ne by (simp add: m)
  have seg: "take (length ?p) (mint hmac key payload) = ?p" "drop (Suc (length ?p)) (mint hmac key payload) = ?s"
    by (simp_all add: m)
  show "VerifyClaims hmac parse now key' (mint hmac key payload) tenant room = Inr c \<longleftrightarrow>
      hmac key' ?p = hmac key ?p \<and> \<not> (ExpiresAt c > 0 \<and> now div 10 ^ 9 \<ge> ExpiresAt c) \<and> TenantID c = tenant \<and> cl_Room c = room"
    using pos unfolding VerifyClaims_def dot option.case Let_def seg b64_decode_encode
    by (auto simp: assms(3))
next
  show "VerifyClaims hmac parse now key' token tenant room = Inr d \<longrightarrow>
      (\<exists>p s. token = p @ ''.'' @ s \<and> b64_decode s = Some (hmac key' p)) \<and> TenantID d = tenant \<and> cl_Room d = room"
  proof
    assume A: "VerifyClaims hmac parse now key' token tenant room = Inr d"
    then obtain i where i: "last_index_byte (CHR ''.'') token = Some i" by (auto simp: VerifyClaims_def split: option.splits)
    then obtain j where j: "index_byte (CHR ''.'') (rev token) = Some j" "i = length token - Suc j"
      by (auto simp: last_index_byte_def)
    then have "j < length token" "rev token ! j = CHR ''.''" using index_byte_Some [OF j(1)] by auto
    then have t: "token = take i token @ ''.'' @ drop (Suc i) token"
      using id_take_nth_drop [of i token] by (simp add: j(2) rev_nth)
    have "b64_decode (drop (Suc i) token) = Some (hmac key' (take i token)) \<and> TenantID d = tenant \<and> cl_Room d = room"
      using A unfolding VerifyClaims_def i by (auto simp: Let_def split: option.splits if_splits bind_splits)
    then show "(\<exists>p s. token = p @ ''.'' @ s \<and> b64_decode s = Some (hmac key' p)) \<and> TenantID d = tenant \<and> cl_Room d = room"
      using t by blast
  qed
qed

definition console_claims :: Claims where
  "console_claims = \<lparr>TenantID = ''t1'', cl_Room = ''console'', Role = ''owner'', VisitorID = ''v'', IssuedAt = 0, ExpiresAt = 60\<rparr>"

definition sample_hmac :: "string \<Rightarrow> string \<Rightarrow> string" where "sample_hmac k t = ''x'' @ k @ t"

theorem token_binds_witness:
  "VerifyClaims sample_hmac (\<lambda>_. Some console_claims) 0 ''key'' (mint sample_hmac ''key'' ''{}'') ''t1'' ''console'' = Inr console_claims \<and>
   VerifyClaims sample_hmac (\<lambda>_. Some console_claims) 0 ''key'' (mint sample_hmac ''key'' ''{}'') ''t2'' ''console'' \<noteq> Inr console_claims"
proof -
  note T = token_binds [of "''{}''" sample_hmac "\<lambda>_. Some console_claims" console_claims 0 "''key''" "''key''", THEN conjunct1]
  show ?thesis by (subst T, simp_all add: sample_hmac_def, subst T) (simp_all add: sample_hmac_def console_claims_def)
qed

end
