(* ===== verification/Web_Chat.thy ===== *)
theory Web_Chat
  imports Token Gateway
begin

text \<open>
  \<^verbatim>\<open>internal/connector/web\<close>: the chat a bot serves to browsers itself. A session opens with a signed token of the tenant, is
  shown the room and its history, says things that go to every session and into the inbox of the agent, and free text
  is answered by the language model, streamed piece by piece. The actor puts the output of skills and flows into the
  room.

  The socket, the sessions and frames are as in \<^verbatim>\<open>Gateway\<close>. The inbox holds sixteen messages; a session whose message
  does not fit waits (\<open>ws_pending\<close>) and reads nothing more until the agent takes one or the connector stops. The model
  is a function from prompt and options to the pieces it yields and the error it ends with, if any; an answer the code
  streams in a goroutine runs to its end at once. Identifiers come from a counter.
\<close>

section \<open>State\<close>

type_synonym streamer = "string \<Rightarrow> CallOption list \<Rightarrow> string list \<times> ask_err option"

record ws_client =
  ws_claims :: Claims
  ws_open :: bool
  ws_serving :: bool
  ws_accepts :: "nat option"
  ws_got :: "frame list"
  ws_pending :: "(InboundEnvelope \<times> string) option"

record Chat =
  BotNick :: string
  ch_Room :: string
  Public :: bool
  ch_key :: string
  ch_events :: bool
  ch_store :: "store option"
  ch_hook :: bool
  ch_hooked :: "string list"
  ch_llm :: "streamer option"
  consolePrompt :: string
  commandPrefix :: string
  historyDepth :: int
  ch_inbox :: "InboundEnvelope list"
  ch_clients :: "nat list"
  ch_conns :: "nat \<rightharpoonup> ws_client"
  ch_next :: nat
  ch_closed :: bool
  ch_uid :: nat
  ch_now :: instant
  ch_published :: "Event list"

record cenv =
  uuid_str :: "nat \<Rightarrow> string"
  hmac :: "string \<Rightarrow> string \<Rightarrow> string"
  claims_json :: "string \<Rightarrow> Claims option"
  frame_json :: "string \<Rightarrow> payload option"
  time_of :: "string \<Rightarrow> instant option"

definition consoleHistoryDepth :: int where "consoleHistoryDepth = 20"
definition consoleMaxTokens :: int where "consoleMaxTokens = 600"
definition roomLogCap :: int where "roomLogCap = 200"
definition inbox_cap :: nat where "inbox_cap = 16"

definition NewChat :: "string \<Rightarrow> string \<Rightarrow> bool \<Rightarrow> string \<Rightarrow> bool \<Rightarrow> instant \<Rightarrow> Chat" where
  "NewChat nick name pub key bus now =
     \<lparr>BotNick = nick, ch_Room = (if name = [] then ''console'' else name), Public = pub, ch_key = key, ch_events = bus,
      ch_store = None, ch_hook = False, ch_hooked = [], ch_llm = None, consolePrompt = [], commandPrefix = [],
      historyDepth = 0, ch_inbox = [], ch_clients = [], ch_conns = Map.empty, ch_next = 0, ch_closed = False, ch_uid = 0,
      ch_now = now, ch_published = []\<rparr>"

definition live_prefix :: "Chat \<Rightarrow> string" where
  "live_prefix c = (if commandPrefix c = [] then ''!'' else commandPrefix c)"

definition isCommand :: "Chat \<Rightarrow> string \<Rightarrow> bool" where
  "isCommand c s \<longleftrightarrow> prefix (live_prefix c) s"

definition systemPrompt :: "Chat \<Rightarrow> string" where
  "systemPrompt c =
     (if consolePrompt c \<noteq> [] then consolePrompt c
      else let q = go_quote (live_prefix c)
           in ''You are turborg, a friendly AI agent living in this chat. '' @
              ''Chat naturally with the user, and answer directly and concisely. '' @
              ''You also run commands: a message beginning with '' @ q @ '' triggers one of the user's installed skills or turboflows. '' @
              ''Users can extend you '' @ em_dash @ '' they can create new skills (a command that replies or takes an action) and turboflows '' @
              ''(multi-step automations that can call external services), or install more from the gallery. '' @
              ''When asked what you can do, explain that you can answer questions, run their '' @ q @
              '' commands, and help them build '' @
              ''new skills or turboflows right from this chat. If you don't know something, say so.'')"

section \<open>Frames out\<close>

definition write_ws :: "frame \<Rightarrow> ws_client \<Rightarrow> ws_client \<times> bool" where
  "write_ws fr cl =
     (if \<not> ws_open cl then (cl, True)
      else case ws_accepts cl of
             None \<Rightarrow> (cl\<lparr>ws_got := ws_got cl @ [fr]\<rparr>, False)
           | Some 0 \<Rightarrow> (cl, True)
           | Some (Suc n) \<Rightarrow> (cl\<lparr>ws_got := ws_got cl @ [fr], ws_accepts := Some n\<rparr>, False))"

definition sendTo_c :: "nat \<Rightarrow> frame \<Rightarrow> Chat \<Rightarrow> Chat" where
  "sendTo_c i fr c =
     (case ch_conns c i of
        None \<Rightarrow> c
      | Some cl \<Rightarrow>
          (let (cl, failed) = write_ws fr cl; c = c\<lparr>ch_conns := (ch_conns c)(i \<mapsto> cl)\<rparr>
           in if failed then c\<lparr>ch_clients := removeAll i (ch_clients c)\<rparr> else c))"

definition broadcast_c :: "frame \<Rightarrow> Chat \<Rightarrow> Chat" where
  "broadcast_c fr c = fold (\<lambda>i. sendTo_c i fr) (ch_clients c) c"

definition fresh_id :: "cenv \<Rightarrow> Chat \<Rightarrow> Chat \<times> string" where
  "fresh_id env c = (c\<lparr>ch_uid := Suc (ch_uid c)\<rparr>, uuid_str env (ch_uid c))"

definition chat_frame :: "string \<Rightarrow> string \<Rightarrow> string \<Rightarrow> instant \<Rightarrow> string \<Rightarrow> frame" where
  "chat_frame kind sender text ts ident =
     [fstr ''op'' ''message'', fstr ''kind'' kind, fstr ''sender'' sender, fstr ''text'' text, fint ''ts'' (unix_ts ts),
      fstr ''id'' ident]"

definition messageFrame :: "Chat \<Rightarrow> Messages.Message \<Rightarrow> bool \<Rightarrow> frame" where
  "messageFrame c m again =
     chat_frame (if m_Nick m = BotNick c then ''bot'' else ''user'') (m_Nick m) (m_Text m) (m_TS m) (m_ID m) @
     (if again then [replayed] else [])"

definition publish_c :: "string \<Rightarrow> Chat \<Rightarrow> Chat" where
  "publish_c text c =
     (if ch_events c
      then c\<lparr>ch_published := ch_published c @
               [\<lparr>ev_Type = EventMessageSent, Fields = [(''connector'', VStr ''web''), (''channel'', VStr (ch_Room c)),
                   (''sender'', VStr (BotNick c)), (''text'', VStr text)]\<rparr>]\<rparr>
      else c)"

definition bot_says :: "cenv \<Rightarrow> string \<Rightarrow> Chat \<Rightarrow> Chat" where
  "bot_says env text c =
     (let (c, ident) = fresh_id env c in broadcast_c (chat_frame ''bot'' (BotNick c) text (ch_now c) ident) c)"

definition Send_c :: "cenv \<Rightarrow> OutboundEnvelope \<Rightarrow> Chat \<Rightarrow> Chat" where
  "Send_c env out c = bot_says env (out_Text out) c"

text \<open>\<^verbatim>\<open>actor.go\<close>: Say and Notice; every other action is refused.\<close>

definition emit :: "cenv \<Rightarrow> string \<Rightarrow> Chat \<Rightarrow> Chat" where
  "emit env text c = publish_c text (bot_says env text c)"

definition errUnsupported :: string where "errUnsupported = ''web: action not supported in console''"

datatype chat_action = ASay string | ANotice string | AOther

definition chat_act :: "cenv \<Rightarrow> chat_action \<Rightarrow> Chat \<Rightarrow> Chat \<times> string option" where
  "chat_act env a c =
     (case a of ASay s \<Rightarrow> (emit env s c, None) | ANotice s \<Rightarrow> (emit env s c, None) | AOther \<Rightarrow> (c, Some errUnsupported))"

section \<open>Sessions\<close>

definition sendState_c :: "nat \<Rightarrow> Claims \<Rightarrow> Chat \<Rightarrow> Chat" where
  "sendState_c i cl c =
     sendTo_c i [fstr ''op'' ''state'', fstr ''room'' (ch_Room c), (''public'', Some (VBool (Public c))), fstr ''you'' (Role cl)] c"

definition replay_c :: "nat \<Rightarrow> Chat \<Rightarrow> Chat" where
  "replay_c i c =
     (case ch_store c of
        None \<Rightarrow> c
      | Some recent \<Rightarrow>
          (case recent (ch_Room c) None roomLogCap of
             Inl _ \<Rightarrow> c
           | Inr ms \<Rightarrow> fold (\<lambda>m c. sendTo_c i (messageFrame c m True) c) (rev ms) c))"

text \<open>\<open>accepted\<close>: whether the upgrade succeeds, and how many frames the socket will take. The answer is what the request
  gets when there is no session.\<close>

definition ServeWS :: "cenv \<Rightarrow> http_req \<Rightarrow> string \<Rightarrow> nat option option \<Rightarrow> Chat \<Rightarrow> Chat \<times> (nat \<times> string) option" where
  "ServeWS env r tenantID accepted c =
     (case VerifyClaims (hmac env) (claims_json env) (ch_now c) (ch_key c) (extractToken r) tenantID (ch_Room c) of
        Inl _ \<Rightarrow> (c, Some (401, ''Invalid token''))
      | Inr claims \<Rightarrow>
          (case accepted of
             None \<Rightarrow> (c, None)
           | Some lines_ok \<Rightarrow>
               (if ch_closed c then (c, None)
                else let i = ch_next c;
                         cl = \<lparr>ws_claims = claims, ws_open = True, ws_serving = True, ws_accepts = lines_ok, ws_got = [],
                               ws_pending = None\<rparr>;
                         c = c\<lparr>ch_next := Suc i, ch_conns := (ch_conns c)(i \<mapsto> cl), ch_clients := ch_clients c @ [i]\<rparr>
                     in (replay_c i (sendState_c i claims c), None))))"

definition on_ws :: "(ws_client \<Rightarrow> ws_client) \<Rightarrow> nat \<Rightarrow> Chat \<Rightarrow> Chat" where
  "on_ws f i c = c\<lparr>ch_conns := (ch_conns c)(i := map_option f (ch_conns c i))\<rparr>"

text \<open>The reading loop returns: the socket failed, or a waiting message was given up.\<close>

definition leave_c :: "nat \<Rightarrow> Chat \<Rightarrow> Chat" where
  "leave_c i c =
     on_ws (\<lambda>cl. cl\<lparr>ws_open := False, ws_serving := False, ws_pending := None\<rparr>) i
       (c\<lparr>ch_clients := removeAll i (ch_clients c)\<rparr>)"

definition Stop_c :: "Chat \<Rightarrow> Chat" where
  "Stop_c c =
     (if ch_closed c then c
      else fold (on_ws (\<lambda>cl. cl\<lparr>ws_open := False\<rparr>)) (ch_clients c) (c\<lparr>ch_closed := True, ch_clients := []\<rparr>))"

section \<open>Answers\<close>

definition chat_line :: "Chat \<Rightarrow> Messages.Message \<Rightarrow> string" where
  "chat_line c m = (if m_Nick m = BotNick c then ''Assistant'' else ''User'') @ '': '' @ m_Text m @ [lf]"

definition buildChatPrompt :: "string \<Rightarrow> Chat \<Rightarrow> string" where
  "buildChatPrompt userText c =
     (let depth = (if historyDepth c \<le> 0 then consoleHistoryDepth else historyDepth c)
      in (case ch_store c of
            None \<Rightarrow> []
          | Some recent \<Rightarrow>
              (case recent (ch_Room c) None depth of Inl _ \<Rightarrow> [] | Inr ms \<Rightarrow> concat (map (chat_line c) (rev ms)))) @
         ''User: '' @ userText @ [lf] @ ''Assistant:'')"

definition budget_reached :: string where "budget_reached = ''The daily AI budget has been reached.''"

definition answer_failed :: "cenv \<Rightarrow> string \<Rightarrow> ask_err \<Rightarrow> Chat \<Rightarrow> Chat" where
  "answer_failed env ident e c =
     (let c = broadcast_c [fstr ''op'' ''message_end'', fstr ''id'' ident, (''aborted'', Some (VBool True))] c
      in case e of
           ErrBudgetExhausted \<Rightarrow>
             (let c = broadcast_c [fstr ''op'' ''budget_exhausted'', fstr ''message'' budget_reached] c;
                  (c, note) = fresh_id env c
              in broadcast_c (chat_frame ''system'' ''system'' budget_reached (ch_now c) note) c)
         | ProviderErr _ \<Rightarrow>
             broadcast_c [fstr ''op'' ''error'', fstr ''message'' ''The assistant is unavailable right now.''] c)"

definition delta_frame :: "string \<Rightarrow> string \<Rightarrow> frame" where
  "delta_frame ident piece = [fstr ''op'' ''message_delta'', fstr ''id'' ident, fstr ''text'' piece]"

definition answerWithLLM :: "cenv \<Rightarrow> streamer \<Rightarrow> string \<Rightarrow> Chat \<Rightarrow> Chat" where
  "answerWithLLM env ask userText c =
     (let (c, ident) = fresh_id env c;
          c = broadcast_c [fstr ''op'' ''message_start'', fstr ''id'' ident, fstr ''kind'' ''bot'', fstr ''sender'' (BotNick c),
                           fint ''ts'' (unix_ts (ch_now c))] c;
          (pieces, e) = ask (buildChatPrompt userText c) [WithSystem (systemPrompt c), WithMaxTokens consoleMaxTokens];
          pieces = filter (\<lambda>s. s \<noteq> []) pieces;
          c = fold (\<lambda>s. broadcast_c (delta_frame ident s)) pieces c
      in case e of
           Some err \<Rightarrow> answer_failed env ident err c
         | None \<Rightarrow>
             (let c = broadcast_c [fstr ''op'' ''message_end'', fstr ''id'' ident] c; reply = trim_space (concat pieces)
              in if reply \<noteq> [] then publish_c reply c else c))"

section \<open>Saying something\<close>

text \<open>\<^verbatim>\<open>handleSay\<close> up to the send on the inbox.\<close>

definition handleSay :: "cenv \<Rightarrow> nat \<Rightarrow> Claims \<Rightarrow> payload \<Rightarrow> Chat \<Rightarrow> Chat" where
  "handleSay env i claims p c =
     (let text = trim_space (jstr ''text'' p)
      in if text = [] then c
         else let c = (if ch_hook c then c\<lparr>ch_hooked := ch_hooked c @ [''web_message'']\<rparr> else c);
                  msg = (NewInbound (ch_uid c) (ch_now c) ''web'' (ch_Room c) (Role claims) text)
                          \<lparr>IsDirect := \<not> Public c, Metadata := [''role'' \<mapsto> Role claims, ''vid'' \<mapsto> VisitorID claims]\<rparr>;
                  (c, ident) = fresh_id env c;
                  c = broadcast_c (chat_frame ''user'' (Role claims) text (ch_now c) ident) c
              in on_ws (\<lambda>cl. cl\<lparr>ws_pending := Some (msg, text)\<rparr>) i c)"

text \<open>The inbox takes the message; free text is answered.\<close>

definition push_inbox :: "cenv \<Rightarrow> nat \<Rightarrow> Chat \<Rightarrow> Chat" where
  "push_inbox env i c =
     (case Option.bind (ch_conns c i) ws_pending of
        None \<Rightarrow> c
      | Some (msg, text) \<Rightarrow>
          (if length (ch_inbox c) \<ge> inbox_cap then c
           else let c = on_ws (\<lambda>cl. cl\<lparr>ws_pending := None\<rparr>) i (c\<lparr>ch_inbox := ch_inbox c @ [msg]\<rparr>)
                in case ch_llm c of
                     None \<Rightarrow> c
                   | Some ask \<Rightarrow> (if isCommand c text then c else answerWithLLM env ask text c)))"

text \<open>The connector stops, or the request ends, while a message waits: it is dropped and the loop goes on.\<close>

definition give_up :: "nat \<Rightarrow> Chat \<Rightarrow> Chat" where
  "give_up i c = on_ws (\<lambda>cl. cl\<lparr>ws_pending := None\<rparr>) i c"

definition take_inbox :: "Chat \<Rightarrow> Chat \<times> InboundEnvelope option" where
  "take_inbox c = (case ch_inbox c of [] \<Rightarrow> (c, None) | m # ms \<Rightarrow> (c\<lparr>ch_inbox := ms\<rparr>, Some m))"

section \<open>Scrollback and the reading loop\<close>

definition room_result :: "val \<Rightarrow> bool \<Rightarrow> frame" where
  "room_result rows full = [fstr ''op'' ''history_result'', (''messages'', Some rows), (''has_more'', Some (VBool full))]"

definition page_limit :: "payload \<Rightarrow> int" where
  "page_limit p = (case jpos ''limit'' p of Some n \<Rightarrow> (if n > roomLogCap then roomLogCap else n) | None \<Rightarrow> roomLogCap)"

definition page_before :: "cenv \<Rightarrow> payload \<Rightarrow> instant option" where
  "page_before env p =
     (let raw = jstr ''before'' p in if raw = [] then None else Option.bind (time_of env raw) bound)"

definition frame_row :: "frame \<Rightarrow> (string \<times> val) list" where
  "frame_row fr = List.map_filter (\<lambda>(k, v). map_option (\<lambda>v. (k, v)) v) fr"

definition handleHistory :: "cenv \<Rightarrow> nat \<Rightarrow> payload \<Rightarrow> Chat \<Rightarrow> Chat" where
  "handleHistory env i p c =
     (case ch_store c of
        None \<Rightarrow> sendTo_c i (room_result (VRows []) False) c
      | Some recent \<Rightarrow>
          (case recent (ch_Room c) (page_before env p) (page_limit p) of
             Inl _ \<Rightarrow> sendTo_c i (room_result (VRows []) False) c
           | Inr ms \<Rightarrow>
               sendTo_c i (room_result (VRows (map (\<lambda>m. frame_row (messageFrame c m False)) ms))
                             (int (length ms) = page_limit p)) c))"

definition chat_read :: "cenv \<Rightarrow> nat \<Rightarrow> string \<Rightarrow> Chat \<Rightarrow> Chat" where
  "chat_read env i raw c =
     (case ch_conns c i of
        None \<Rightarrow> c
      | Some cl \<Rightarrow>
          (if \<not> ws_serving cl \<or> \<not> ws_open cl \<or> ws_pending cl \<noteq> None then c
           else case frame_json env raw of
                  None \<Rightarrow> c
                | Some p \<Rightarrow>
                    (if jstr ''op'' p = ''say'' then handleSay env i (ws_claims cl) p c
                     else if jstr ''op'' p = ''history'' then handleHistory env i p c
                     else c)))"

section \<open>What the sessions see of an answer\<close>

definition got_c :: "nat \<Rightarrow> Chat \<Rightarrow> frame list" where
  "got_c j c = (case ch_conns c j of None \<Rightarrow> [] | Some cl \<Rightarrow> ws_got cl)"

definition watching_c :: "nat \<Rightarrow> Chat \<Rightarrow> bool" where
  "watching_c j c \<longleftrightarrow>
     distinct (ch_clients c) \<and> j \<in> set (ch_clients c) \<and>
     (case ch_conns c j of None \<Rightarrow> False | Some cl \<Rightarrow> ws_open cl \<and> ws_accepts cl = None)"

text \<open>The part of the state that writing frames touches.\<close>

definition quiet_c :: "Chat \<Rightarrow> Chat \<Rightarrow> bool" where
  "quiet_c c d \<longleftrightarrow>
     ch_store d = ch_store c \<and> BotNick d = BotNick c \<and> ch_Room d = ch_Room c \<and> ch_now d = ch_now c \<and>
     historyDepth d = historyDepth c \<and> consolePrompt d = consolePrompt c \<and> commandPrefix d = commandPrefix c \<and>
     ch_published d = ch_published c \<and> ch_events d = ch_events c \<and> ch_inbox d = ch_inbox c"

lemma quiet_refl: "quiet_c c c"
  by (simp add: quiet_c_def)

lemma quiet_trans: "quiet_c c d \<Longrightarrow> quiet_c d e \<Longrightarrow> quiet_c c e"
  by (simp add: quiet_c_def)

lemma quiet_conns: "quiet_c c (c\<lparr>ch_conns := m\<rparr>)" "quiet_c c (c\<lparr>ch_conns := m, ch_clients := cs\<rparr>)" "quiet_c c (c\<lparr>ch_uid := n\<rparr>)"
  by (simp_all add: quiet_c_def)

lemma quiet_send: "quiet_c c (sendTo_c i fr c)"
  by (simp add: sendTo_c_def quiet_refl quiet_conns Let_def split: option.split prod.split)

lemma quiet_c_fold: "(\<And>x c. quiet_c c (f x c)) \<Longrightarrow> quiet_c c (fold f xs c)"
proof (induction xs arbitrary: c)
  case (Cons x xs)
  from quiet_trans [OF Cons.prems Cons.IH [OF Cons.prems]] show ?case by simp
qed (simp add: quiet_refl)

lemma quiet_broadcast: "quiet_c c (broadcast_c fr c)"
  unfolding broadcast_c_def by (rule quiet_c_fold) (rule quiet_send)

lemma sendTo_c_self:
  "watching_c j c \<Longrightarrow> watching_c j (sendTo_c j fr c) \<and> got_c j (sendTo_c j fr c) = got_c j c @ [fr]"
  by (auto simp: watching_c_def got_c_def sendTo_c_def write_ws_def split: option.splits)

lemma sendTo_c_other:
  assumes "watching_c j c" "j \<noteq> i"
  shows "watching_c j (sendTo_c i fr c) \<and> got_c j (sendTo_c i fr c) = got_c j c"
proof -
  have "ch_conns (sendTo_c i fr c) j = ch_conns c j" "j \<in> set (ch_clients (sendTo_c i fr c))" "distinct (ch_clients (sendTo_c i fr c))"
    using assms by (auto simp: watching_c_def sendTo_c_def distinct_removeAll Let_def split: option.split prod.split)
  then show ?thesis using assms(1) by (simp add: watching_c_def got_c_def)
qed

lemma fold_sendTo_c:
  "watching_c j c \<Longrightarrow> distinct is \<Longrightarrow>
     watching_c j (fold (\<lambda>i. sendTo_c i fr) is c) \<and>
     got_c j (fold (\<lambda>i. sendTo_c i fr) is c) = got_c j c @ (if j \<in> set is then [fr] else [])"
proof (induction "is" arbitrary: c)
  case (Cons i k)
  then show ?case
    using sendTo_c_self [of j c fr] sendTo_c_other [of j c i fr] by (cases "j = i") auto
qed simp

lemma broadcast_c_got:
  "watching_c j c \<Longrightarrow> watching_c j (broadcast_c fr c) \<and> got_c j (broadcast_c fr c) = got_c j c @ [fr]"
  using fold_sendTo_c [of j c "ch_clients c" fr] by (simp add: broadcast_c_def watching_c_def)

lemma deltas_got:
  "watching_c j c \<Longrightarrow> watching_c j (fold (\<lambda>s. broadcast_c (f s)) xs c) \<and>
     got_c j (fold (\<lambda>s. broadcast_c (f s)) xs c) = got_c j c @ map f xs"
proof (induction xs arbitrary: c)
  case (Cons x xs)
  with broadcast_c_got [OF Cons.prems, of "f x"] show ?case by simp
qed simp

lemma fresh_got: "watching_c j (c\<lparr>ch_uid := n\<rparr>) = watching_c j c" "got_c j (c\<lparr>ch_uid := n\<rparr>) = got_c j c"
  by (simp_all add: watching_c_def got_c_def)

lemma publish_c_effect:
  "got_c j (publish_c t c) = got_c j c"
  "ch_published (publish_c t c) = ch_published c @
     (if ch_events c then [\<lparr>ev_Type = EventMessageSent, Fields = [(''connector'', VStr ''web''), (''channel'', VStr (ch_Room c)),
        (''sender'', VStr (BotNick c)), (''text'', VStr t)]\<rparr>] else [])"
  by (simp_all add: publish_c_def got_c_def)

text \<open>How an answer that failed ends.\<close>

definition failure_frames :: "cenv \<Rightarrow> string \<Rightarrow> nat \<Rightarrow> instant \<Rightarrow> ask_err \<Rightarrow> frame list" where
  "failure_frames env ident n now e =
     [fstr ''op'' ''message_end'', fstr ''id'' ident, (''aborted'', Some (VBool True))] #
     (case e of
        ErrBudgetExhausted \<Rightarrow>
          [[fstr ''op'' ''budget_exhausted'', fstr ''message'' budget_reached],
           chat_frame ''system'' ''system'' budget_reached now (uuid_str env n)]
      | ProviderErr _ \<Rightarrow> [[fstr ''op'' ''error'', fstr ''message'' ''The assistant is unavailable right now.'']])"

lemma answer_failed_quiet: "quiet_c c (answer_failed env ident e c)"
proof (cases e)
  case ErrBudgetExhausted
  then show ?thesis unfolding answer_failed_def fresh_id_def Let_def ask_err.case prod.case
    by (simp only: ask_err.case) (rule quiet_trans [OF quiet_trans [OF quiet_broadcast quiet_broadcast] quiet_trans [OF quiet_conns(3) quiet_broadcast]])
next
  case (ProviderErr x)
  then show ?thesis unfolding answer_failed_def Let_def
    by (simp only: ask_err.case) (rule quiet_trans [OF quiet_broadcast quiet_broadcast])
qed

lemma answer_failed_got:
  assumes "watching_c j c" "quiet_c c0 c" "ch_uid c = n"
  shows "got_c j (answer_failed env ident e c) = got_c j c @ failure_frames env ident n (ch_now c0) e"
proof -
  have uid: "ch_uid (broadcast_c fr k) = ch_uid k" for fr k
    unfolding broadcast_c_def
    by (rule fold_keeps [where P = "\<lambda>d. ch_uid d = ch_uid k"]) (simp_all add: sendTo_c_def Let_def split: option.split prod.split)
  have now: "ch_now (broadcast_c fr k) = ch_now k" for fr k using quiet_broadcast [of k fr] by (simp add: quiet_c_def)
  have "ch_now c = ch_now c0" using assms(2) by (simp add: quiet_c_def)
  then show ?thesis
    using assms(1,3) broadcast_c_got
    by (cases e) (simp_all add: answer_failed_def failure_frames_def fresh_id_def Let_def broadcast_c_got fresh_got uid now)
qed

text \<open>An answer comes to every session in one piece: a start, the pieces as the model yields them, an end, all under one
  identifier. A complete answer is kept, as the trimmed text of what was shown, and it alone: one that breaks off, however much
  of it was shown, ends as aborted with the reason and leaves nothing in the history.\<close>

theorem answer_kept:
  fixes c userText ask
  assumes "watching_c j c" "ask (buildChatPrompt userText c) [WithSystem (systemPrompt c), WithMaxTokens 600] = (pieces, e)"
  shows "\<exists>ident n.
    got_c j (answerWithLLM env ask userText c) = got_c j c @
      [[fstr ''op'' ''message_start'', fstr ''id'' ident, fstr ''kind'' ''bot'', fstr ''sender'' (BotNick c), fint ''ts'' (unix_ts (ch_now c))]] @
      map (delta_frame ident) (filter (\<lambda>s. s \<noteq> []) pieces) @
      (case e of None \<Rightarrow> [[fstr ''op'' ''message_end'', fstr ''id'' ident]] | Some err \<Rightarrow> failure_frames env ident n (ch_now c) err) \<and>
    ch_published (answerWithLLM env ask userText c) = ch_published c @
      (if e = None \<and> trim_space (concat pieces) \<noteq> [] \<and> ch_events c
       then [\<lparr>ev_Type = EventMessageSent, Fields = [(''connector'', VStr ''web''), (''channel'', VStr (ch_Room c)),
               (''sender'', VStr (BotNick c)), (''text'', VStr (trim_space (concat pieces)))]\<rparr>]
       else [])"
proof -
  let ?ident = "uuid_str env (ch_uid c)" and ?ps = "filter (\<lambda>s. s \<noteq> []) pieces"
  let ?start = "[fstr ''op'' ''message_start'', fstr ''id'' ?ident, fstr ''kind'' ''bot'', fstr ''sender'' (BotNick c), fint ''ts'' (unix_ts (ch_now c))]"
  let ?c0 = "c\<lparr>ch_uid := Suc (ch_uid c)\<rparr>"
  define c1 where "c1 = broadcast_c ?start ?c0"
  define c2 where "c2 = fold (\<lambda>s. broadcast_c (delta_frame ?ident s)) ?ps c1"
  have w1: "watching_c j c1" "got_c j c1 = got_c j c @ [?start]"
    using broadcast_c_got [of j ?c0 ?start] assms(1) by (simp_all add: c1_def fresh_got)
  have w2: "watching_c j c2" "got_c j c2 = got_c j c @ [?start] @ map (delta_frame ?ident) ?ps"
    using deltas_got [OF w1(1), of "delta_frame ?ident" ?ps] w1(2) by (simp_all add: c2_def)
  have q1: "quiet_c c c1" unfolding c1_def by (rule quiet_trans [OF quiet_conns(3) quiet_broadcast])
  have q2: "quiet_c c c2" unfolding c2_def by (rule quiet_trans [OF q1]) (rule quiet_c_fold, rule quiet_broadcast)
  have prompt: "ask (buildChatPrompt userText c1) [WithSystem (systemPrompt c1), WithMaxTokens consoleMaxTokens] = (pieces, e)"
  proof -
    have "chat_line c1 = chat_line c" using q1 by (simp add: chat_line_def quiet_c_def fun_eq_iff)
    then have "buildChatPrompt userText c1 = buildChatPrompt userText c" "systemPrompt c1 = systemPrompt c"
      using q1
      by (simp_all add: buildChatPrompt_def systemPrompt_def live_prefix_def quiet_c_def Let_def split: option.split sum.split)
    then show ?thesis using assms(2) by (simp add: consoleMaxTokens_def)
  qed
  have R: "answerWithLLM env ask userText c =
      (case e of Some err \<Rightarrow> answer_failed env ?ident err c2
       | None \<Rightarrow> (let d = broadcast_c [fstr ''op'' ''message_end'', fstr ''id'' ?ident] c2; reply = trim_space (concat ?ps)
                  in if reply \<noteq> [] then publish_c reply d else d))"
    using prompt by (simp add: answerWithLLM_def fresh_id_def Let_def c1_def c2_def split: option.split)
  have cc: "concat ?ps = concat pieces" by (induction pieces) auto
  show ?thesis
  proof (cases e)
    case None
    let ?d = "broadcast_c [fstr ''op'' ''message_end'', fstr ''id'' ?ident] c2"
    have "quiet_c c ?d" by (rule quiet_trans [OF q2 quiet_broadcast])
    then show ?thesis
      using None broadcast_c_got [OF w2(1)] w2(2) unfolding R
      by (intro exI [of _ ?ident] exI [of _ 0]) (simp add: cc publish_c_effect quiet_c_def Let_def)
  next
    case (Some err)
    have "quiet_c c (answer_failed env ?ident err c2)" by (rule quiet_trans [OF q2 answer_failed_quiet])
    then show ?thesis
      using Some answer_failed_got [OF w2(1) q2 refl, of env ?ident err] w2(2) unfolding R
      by (intro exI [of _ ?ident] exI [of _ "ch_uid c2"]) (simp add: quiet_c_def)
  qed
qed

end
