(* ===== verification/Spec2Isabelle.thy ===== *)
theory Spec2Isabelle
  imports Channel_State Protocol Upstream_State Wanted Windows Settings Policy Actor Timing Supervisor Bouncer_History Tb Page Fetch Messages Builder Cron Server Gateway_Facts Web_Chat
begin

text \<open>
  Turborg: an IRC bot with a bouncer, commands, skills and flows, as one process or as a pool of tenants.

  The program. A connector holds one IRC connection. Its supervisor dials, registers, joins and reads lines until
  the link ends, and decides by a state machine whether to dial again. Every line read is dispatched into caches, events on
  a bus and envelopes for the agent. A bouncer in front of the connector lets IRC clients attach, and a web gateway
  browsers; both send through the same connector under one policy and one throttle. The agent runs commands; skills and
  flows react to commands, patterns, events, clocks and webhooks, act through the actor, and may ask a language model
  whose budget is limited. A server runs one such bot per tenant, supervised, and keeps the set of tenants in step with
  a feed. A web chat is a second kind of connector that serves browsers itself.

  How it is modelled. A struct is a record, an enumeration a datatype, a method a function from the state to
  the new state and its result, an error a value of a sum or option. The clock, the random source, what a socket yields
  and takes, the formatting of dates, regular expressions, JSON, keyed hashes, the language model and HTTP are arguments
  or fields of the state. What the outside sees is kept in lists: \<open>wire\<close> for lines sent upstream, \<open>published\<close> for events,
  \<open>got\<close> for lines to a bouncer client, \<open>gc_got\<close> and \<open>ws_got\<close> for frames to a browser. Go's unordered ranges over a map take
  their order from an argument. Text is bytes, and case folding that of ASCII; \<open>Page\<close> alone takes the lowering as an argument.
  Goroutines interleave as steps: at the grain of a method for handlers, and of the actions between two looks at
  shared state in \<open>Supervisor\<close> and \<open>Tenant\<close>, whose step relations are inductive. Coarser than the code are two of those
  steps: a connect cycle, in which the code waits several times and a suspension, a cancellation or a tick of the watchdog
  can arrive, and the construction of a tenant's connectors, between two of which an update can arrive. What is
  shown of the supervisor and of tenants holds at that grain. A goroutine a handler detaches runs to its end at once.

  Theories, from the ground up (paths under src/internal):

  \<^bold>\<open>Shared.\<close> \<open>Prelude\<close> (strings as Go treats them, integers as text), \<open>Registry\<close> (the locale of a set keyed by folded names,
  interpreted by the channel cache and the wanted set), \<open>Gotime\<close> (durations as text), \<open>Messages\<close> (the locale of a history
  and its bounded store, messages/messages.go), \<open>Windows\<close> (the locale of a sliding window, with the failure limiter, the
  throttle and the reconnect storm breaker; ratelimit.go, reconnect_storm.go), \<open>Events\<close> (agent/events.go, envelope.go).

  \<^bold>\<open>connector/irc.\<close> \<open>Codes\<close>, \<open>Protocol\<close> (protocol.go), \<open>Channel_State\<close> (state.go), \<open>Upstream_State\<close> (upstream_state.go),
  \<open>Wanted\<close> (wanted.go), \<open>Settings\<close>, \<open>Policy\<close>, \<open>Timing\<close> (PING ledger, backoff, nudge, gate, ident table), \<open>Actor\<close>;
  connector.go in four parts: \<open>Connector\<close> (state and operations), \<open>Handshake\<close> (one connect cycle), \<open>Dispatch\<close> (one line),
  \<open>Supervisor\<close> (the life of a connection). The record \<open>Connector\<close> has the fields of the Go struct and its logs.

  \<^bold>\<open>The bouncer\<close> (bouncer.go, chathistory.go, tb.go, tbfetch.go). \<open>Bouncer\<close> (the record \<open>Hub\<close> of a bouncer with its connector,
  fan-out, notices), \<open>Client_Line\<close> (every line a client can send), then what holds of them: \<open>Bouncer_Auth\<close> (nothing before
  the password), \<open>Bouncer_Flow\<close> (every client sees the session), \<open>Bouncer_Forward\<close> (what is sent upstream),
  \<open>Bouncer_History\<close> (queries and lockout). \<open>Fetch\<close>, \<open>Page\<close> and \<open>Tb\<close> are the guarded page fetch, the clean-up of the page and
  the two /tb commands.

  \<^bold>\<open>Commands, skills, flows.\<close> \<open>Commands\<close> (agent/commands.go, agent.go), \<open>Guards\<close> (runtime/wire.go, runtime.go), \<open>Llm\<close> (llm/: the
  budget), \<open>Template\<close> and \<open>Builder\<close> (commands/builder.go), \<open>World\<close> (the record of all that a handler reaches), \<open>Cron\<close>, \<open>Scheduler\<close>,
  \<open>Skills\<close>, \<open>Skill_Store\<close>, \<open>Skill_Engine\<close> (skill/), \<open>Flow\<close> (flow/), \<open>Persist\<close> (the writer of the history), \<open>Wiring\<close> (runtime/wire.go: a
  bot put together, and its hot reload).

  \<^bold>\<open>The pool\<close> (server/). \<open>Tenant_Spec\<close> (what a tenant is to be, and which changes are live), \<open>Tenant\<close> (supervision, quarantine,
  live update), \<open>Server\<close> (the map of tenants, the feed, activity).

  \<^bold>\<open>The web.\<close> \<open>Gateway\<close> and \<open>Gateway_Facts\<close> (web/gateway.go, web/auth.go, server/tenant_gateway.go), \<open>Token\<close> and \<open>Web_Chat\<close>
  (connector/web/).

  What is shown. Safety of the edges: no client of the bouncer sees or does anything before the password, failed
  passwords lock an address out whatever else happens, a webhook fires nothing before the gate, a chat token opens one tenant
  and room, commands do nothing for those they are not open to, the page fetch never contacts a private address and page text cannot leave its fence, a skill's
  text cannot become a second command. Delivery: every line of the session reaches every live client once and in
  order, a message sent from any client or browser is seen by all or refused to its sender, each message is kept once, the
  bounded history is a window of the full one and a query gets exactly the newest of it. Life: why the supervisor may end,
  and its patience; the pause after every panic of a tenant; the server follows its feed; a hot reload is a fresh
  start. Refinements: the limiter, the budget, the timed effects (over restarts on a store that lasts, and on one that does
  not) and the mode parser against specifications that keep everything. Termination and bounds: flows, cron,
  throttles. Round trips: lines, base64.

  Bounds. A flow run takes at most 256 steps (\<open>maxSteps\<close>) and each node a bounded number of tries, as in
  the code, so \<open>flow_walk\<close> recurses on what is left of them. The search for the next cron time scans the minutes of 366 days,
  the code's own horizon, and \<open>next_earliest\<close> shows it finds what there is. The loop over a cron field steps at 64 bits
  and its model is an option, None where it does not end; \<open>load_returns\<close> and \<open>WireCore_returns\<close> give the fields on which it ends.
  An update of a tenant is split into the eight pieces between which the code gives up its locks. Panics are the
  value None (\<open>Commands\<close>, \<open>Page\<close>, \<open>Tb\<close>).

  Not modelled. The adapters to Discord, Slack and Telegram, the LLM backends, the HTTP stores, the message sink, the
  state push, the activity notifier and the refresh loops are clients of services and SDKs that are not under src/; their
  interfaces are modelled where the program uses them (\<open>Messages\<close>, \<open>Skill_Store\<close>, \<open>Llm\<close>, \<open>Wiring\<close>). Listeners, TLS, the ident
  server, logging, configuration from the environment and the programs under cmd/ are input and output. Contexts are
  modelled where they change a result (a cancelled dial, a cancelled retry) and not as deadlines on writes. Title and
  description of a page come from regular expressions and are an argument of \<open>Page\<close>; DNS and TCP are arguments of \<open>Fetch\<close>.
\<close>

end
